(* ===== verification/Proto_State.thy ===== *)
theory Proto_State
  imports Prelude
begin

text \<open>
  \<^verbatim>\<open>bsm/proto/src/state.rs\<close> and \<^verbatim>\<open>error.rs\<close>: the state enums every component of the session
  manager shares, the stable error codes, and the \<^verbatim>\<open>Debug\<close> names the log messages print. The
  constructors carry a prefix per enum because several enums use the same variant names.
\<close>

section \<open>Identifiers\<close>

type_synonym session_id = string
type_synonym generation = u64
type_synonym revision = u64
type_synonym operation_id = u64

section \<open>Session, seat, transition and operation states\<close>

datatype session_state =
    St_Creating | St_PamOpening | St_GnoblinStarting | St_BinguxStarting | St_OutputReady
  | St_ReadyBackground | St_Foreground | St_LockRequested | St_LockedBackground
  | St_LockedGreeterForeground | St_Stopping | St_Terminated | St_Failed

definition is_running :: "session_state \<Rightarrow> bool" where
  "is_running st \<longleftrightarrow> \<not> (case st of St_Stopping \<Rightarrow> True | St_Terminated \<Rightarrow> True | St_Failed \<Rightarrow> True | _ \<Rightarrow> False)"

definition is_protected :: "session_state \<Rightarrow> bool" where
  "is_protected st \<longleftrightarrow>
     (case st of St_LockRequested \<Rightarrow> True | St_LockedBackground \<Rightarrow> True
      | St_LockedGreeterForeground \<Rightarrow> True | _ \<Rightarrow> False)"

definition is_revealable :: "session_state \<Rightarrow> bool" where
  "is_revealable st \<longleftrightarrow>
     (case st of St_ReadyBackground \<Rightarrow> True | St_LockedBackground \<Rightarrow> True
      | St_LockedGreeterForeground \<Rightarrow> True | _ \<Rightarrow> False)"

datatype seat_state =
    Seat_Booting | Seat_Greeter | Seat_Authenticating | Seat_StartingSession | Seat_RevealingSession
  | Seat_UserForeground | Seat_SecuringLock | Seat_LockedGreeter | Seat_SwitchingUser
  | Seat_ShuttingDown | Seat_Recovery

datatype transition_state =
    Tr_Idle | Tr_WaitingForAuth | Tr_WaitingForFrames | Tr_Prepared | Tr_Animating | Tr_Committed
  | Tr_Cancelled | Tr_Failed

datatype operation_phase =
    Ph_Requested | Ph_Authorising | Ph_Preparing | Ph_Animating | Ph_Committed | Ph_Failed
  | Ph_Cancelled | Ph_Completed

definition is_final :: "operation_phase \<Rightarrow> bool" where
  "is_final p \<longleftrightarrow> (case p of Ph_Failed \<Rightarrow> True | Ph_Cancelled \<Rightarrow> True | Ph_Completed \<Rightarrow> True | _ \<Rightarrow> False)"

datatype transition_kind =
    Kind_NewLoginFade | Kind_UnlockSlideUp | Kind_Lock | Kind_SwitchUser | Kind_LogoutFade
  | Kind_PowerFade | Kind_Suspend

datatype power_action = Pw_Suspend | Pw_Reboot | Pw_PowerOff

datatype auth_intent = Intent_Login | Intent_Unlock | Intent_Switch

datatype session_availability =
    Av_NotSignedIn | Av_Starting | Av_RunningLocked | Av_RunningForeground | Av_Unavailable

datatype input_owner = Own_None | Own_Greeter | Own_Session session_id

record session_summary =
  sum_id :: session_id
  sum_generation :: generation
  sum_uid :: u32
  sum_state :: session_state
  sum_availability :: session_availability

section \<open>Error codes\<close>

datatype error_code =
    E_Unauthorised | E_InvalidAccount | E_NoSession | E_AlreadyLocked | E_Busy | E_StaleGeneration
  | E_Cancelled | E_PamFailure | E_LogindFailure | E_OutputNotReady | E_TransitionInterrupted
  | E_Inhibited | E_ShutdownRejected | E_Timeout | E_HelperFailure | E_InvalidArgument
  | E_NotSupported | E_Internal

fun error_code_str :: "error_code \<Rightarrow> string" where
  "error_code_str E_Unauthorised = ''unauthorised''"
| "error_code_str E_InvalidAccount = ''invalid_account''"
| "error_code_str E_NoSession = ''no_session''"
| "error_code_str E_AlreadyLocked = ''already_locked''"
| "error_code_str E_Busy = ''busy''"
| "error_code_str E_StaleGeneration = ''stale_generation''"
| "error_code_str E_Cancelled = ''cancelled''"
| "error_code_str E_PamFailure = ''pam_failure''"
| "error_code_str E_LogindFailure = ''logind_failure''"
| "error_code_str E_OutputNotReady = ''output_not_ready''"
| "error_code_str E_TransitionInterrupted = ''transition_interrupted''"
| "error_code_str E_Inhibited = ''inhibited''"
| "error_code_str E_ShutdownRejected = ''shutdown_rejected''"
| "error_code_str E_Timeout = ''timeout''"
| "error_code_str E_HelperFailure = ''helper_failure''"
| "error_code_str E_InvalidArgument = ''invalid_argument''"
| "error_code_str E_NotSupported = ''not_supported''"
| "error_code_str E_Internal = ''internal''"

record bsm_error =
  err_code :: error_code
  err_message :: string

definition bsm_error_new :: "error_code \<Rightarrow> string \<Rightarrow> bsm_error" where
  "bsm_error_new c msg = \<lparr>err_code = c, err_message = msg\<rparr>"

text \<open>\<^verbatim>\<open>Result<T, BsmError>\<close>: the error on the left.\<close>

type_synonym 'a result = "bsm_error + 'a"

abbreviation Err :: "error_code \<Rightarrow> string \<Rightarrow> 'a result" where
  "Err c msg \<equiv> Inl (bsm_error_new c msg)"

section \<open>Debug names\<close>

text \<open>The derived \<^verbatim>\<open>Debug\<close> output of the enums the manager formats into its log messages.\<close>

fun debug_session_state :: "session_state \<Rightarrow> string" where
  "debug_session_state St_Creating = ''Creating''"
| "debug_session_state St_PamOpening = ''PamOpening''"
| "debug_session_state St_GnoblinStarting = ''GnoblinStarting''"
| "debug_session_state St_BinguxStarting = ''BinguxStarting''"
| "debug_session_state St_OutputReady = ''OutputReady''"
| "debug_session_state St_ReadyBackground = ''ReadyBackground''"
| "debug_session_state St_Foreground = ''Foreground''"
| "debug_session_state St_LockRequested = ''LockRequested''"
| "debug_session_state St_LockedBackground = ''LockedBackground''"
| "debug_session_state St_LockedGreeterForeground = ''LockedGreeterForeground''"
| "debug_session_state St_Stopping = ''Stopping''"
| "debug_session_state St_Terminated = ''Terminated''"
| "debug_session_state St_Failed = ''Failed''"

fun debug_phase :: "operation_phase \<Rightarrow> string" where
  "debug_phase Ph_Requested = ''Requested''"
| "debug_phase Ph_Authorising = ''Authorising''"
| "debug_phase Ph_Preparing = ''Preparing''"
| "debug_phase Ph_Animating = ''Animating''"
| "debug_phase Ph_Committed = ''Committed''"
| "debug_phase Ph_Failed = ''Failed''"
| "debug_phase Ph_Cancelled = ''Cancelled''"
| "debug_phase Ph_Completed = ''Completed''"

fun debug_transition :: "transition_state \<Rightarrow> string" where
  "debug_transition Tr_Idle = ''Idle''"
| "debug_transition Tr_WaitingForAuth = ''WaitingForAuth''"
| "debug_transition Tr_WaitingForFrames = ''WaitingForFrames''"
| "debug_transition Tr_Prepared = ''Prepared''"
| "debug_transition Tr_Animating = ''Animating''"
| "debug_transition Tr_Committed = ''Committed''"
| "debug_transition Tr_Cancelled = ''Cancelled''"
| "debug_transition Tr_Failed = ''Failed''"

fun debug_power :: "power_action \<Rightarrow> string" where
  "debug_power Pw_Suspend = ''Suspend''"
| "debug_power Pw_Reboot = ''Reboot''"
| "debug_power Pw_PowerOff = ''PowerOff''"

fun debug_error_code :: "error_code \<Rightarrow> string" where
  "debug_error_code E_Unauthorised = ''Unauthorised''"
| "debug_error_code E_InvalidAccount = ''InvalidAccount''"
| "debug_error_code E_NoSession = ''NoSession''"
| "debug_error_code E_AlreadyLocked = ''AlreadyLocked''"
| "debug_error_code E_Busy = ''Busy''"
| "debug_error_code E_StaleGeneration = ''StaleGeneration''"
| "debug_error_code E_Cancelled = ''Cancelled''"
| "debug_error_code E_PamFailure = ''PamFailure''"
| "debug_error_code E_LogindFailure = ''LogindFailure''"
| "debug_error_code E_OutputNotReady = ''OutputNotReady''"
| "debug_error_code E_TransitionInterrupted = ''TransitionInterrupted''"
| "debug_error_code E_Inhibited = ''Inhibited''"
| "debug_error_code E_ShutdownRejected = ''ShutdownRejected''"
| "debug_error_code E_Timeout = ''Timeout''"
| "debug_error_code E_HelperFailure = ''HelperFailure''"
| "debug_error_code E_InvalidArgument = ''InvalidArgument''"
| "debug_error_code E_NotSupported = ''NotSupported''"
| "debug_error_code E_Internal = ''Internal''"

definition debug_opt_error :: "error_code option \<Rightarrow> string" where
  "debug_opt_error r = (case r of None \<Rightarrow> ''None'' | Some c \<Rightarrow> ''Some('' @ debug_error_code c @ '')'')"

section \<open>Facts\<close>

lemmas state_class_defs = is_running_def is_protected_def is_revealable_def

lemma is_running_simps [simp]:
  "is_running St_Creating" "is_running St_PamOpening" "is_running St_GnoblinStarting"
  "is_running St_BinguxStarting" "is_running St_OutputReady" "is_running St_ReadyBackground"
  "is_running St_Foreground" "is_running St_LockRequested" "is_running St_LockedBackground"
  "is_running St_LockedGreeterForeground"
  "\<not> is_running St_Stopping" "\<not> is_running St_Terminated" "\<not> is_running St_Failed"
  by (simp_all add: is_running_def)

lemma is_protected_simps [simp]:
  "is_protected St_LockRequested" "is_protected St_LockedBackground"
  "is_protected St_LockedGreeterForeground"
  "\<not> is_protected St_Foreground" "\<not> is_protected St_ReadyBackground" "\<not> is_protected St_Stopping"
  "\<not> is_protected St_Failed" "\<not> is_protected St_Terminated" "\<not> is_protected St_Creating"
  "\<not> is_protected St_PamOpening" "\<not> is_protected St_GnoblinStarting"
  "\<not> is_protected St_BinguxStarting" "\<not> is_protected St_OutputReady"
  by (simp_all add: is_protected_def)

lemma is_revealable_iff:
  "is_revealable st \<longleftrightarrow> st = St_ReadyBackground \<or> st = St_LockedBackground \<or> st = St_LockedGreeterForeground"
  by (cases st) (simp_all add: is_revealable_def)

lemma protected_is_running: "is_protected st \<Longrightarrow> is_running st"
  by (cases st) simp_all

lemma error_code_str_inj: "error_code_str a = error_code_str b \<Longrightarrow> a = b"
  by (cases a; cases b; simp)

end
