(* ===== verification/Transition_Systems.thy ===== *)
theory Transition_Systems
  imports Prelude
begin

text \<open>
  The generic part of the state-machine proofs: reachable states and runs of a step relation, the
  locale that turns a one-step preservation proof into a fact about every reachable state, and
  the locales for tables of legal changes.
\<close>

section \<open>Reachable states and runs\<close>

inductive reachable_by :: "('s \<Rightarrow> bool) \<Rightarrow> ('s \<Rightarrow> 'i \<Rightarrow> 's \<Rightarrow> bool) \<Rightarrow> 's \<Rightarrow> bool"
  for init and step where
  reachable_init: "init s \<Longrightarrow> reachable_by init step s"
| reachable_step: "reachable_by init step s \<Longrightarrow> step s i s' \<Longrightarrow> reachable_by init step s'"

text \<open>A run remembers, oldest first, every state an input was given in.\<close>

inductive run_by :: "('s \<Rightarrow> bool) \<Rightarrow> ('s \<Rightarrow> 'i \<Rightarrow> 's \<Rightarrow> bool) \<Rightarrow> ('s \<times> 'i) list \<Rightarrow> 's \<Rightarrow> bool"
  for init and step where
  run_init: "init s \<Longrightarrow> run_by init step [] s"
| run_step: "run_by init step tr s \<Longrightarrow> step s i s' \<Longrightarrow> run_by init step (tr @ [(s, i)]) s'"

lemma run_reachable: "run_by init step tr s \<Longrightarrow> reachable_by init step s"
  by (induction rule: run_by.induct) (auto intro: reachable_by.intros)

lemma reachable_run: "reachable_by init step s \<Longrightarrow> \<exists>tr. run_by init step tr s"
  by (induction rule: reachable_by.induct) (auto intro: run_by.intros)

locale invariant_system =
  fixes init :: "'s \<Rightarrow> bool" and step :: "'s \<Rightarrow> 'i \<Rightarrow> 's \<Rightarrow> bool" and inv :: "'s \<Rightarrow> bool"
  assumes inv_start: "init s \<Longrightarrow> inv s"
    and inv_kept: "inv s \<Longrightarrow> step s i s' \<Longrightarrow> inv s'"
begin

lemma reachable_invariant: "reachable_by init step s \<Longrightarrow> inv s"
  by (induction rule: reachable_by.induct) (auto intro: inv_start inv_kept)

lemma run_states_invariant:
  "run_by init step tr s \<Longrightarrow> inv s \<and> (\<forall>(u, i) \<in> set tr. inv u)"
  by (induction rule: run_by.induct) (auto intro: inv_start inv_kept)

end

text \<open>A property of a run and the state it ends in, on top of a state invariant.\<close>

locale history_system = invariant_system +
  fixes hist :: "('s \<times> 'i) list \<Rightarrow> 's \<Rightarrow> bool"
  assumes hist_start: "init s \<Longrightarrow> hist [] s"
    and hist_kept: "inv s \<Longrightarrow> hist tr s \<Longrightarrow> step s i s' \<Longrightarrow> hist (tr @ [(s, i)]) s'"
begin

lemma run_history: "run_by init step tr s \<Longrightarrow> hist tr s"
proof (induction rule: run_by.induct)
  case (run_init s)
  then show ?case by (rule hist_start)
next
  case (run_step tr s i s')
  from run_step.hyps(1) have "inv s"
    using run_states_invariant by blast
  with run_step show ?case by (blast intro: hist_kept)
qed

end

section \<open>Tables of legal changes\<close>

inductive path_by :: "('s \<Rightarrow> 's \<Rightarrow> bool) \<Rightarrow> 's \<Rightarrow> 's list \<Rightarrow> 's \<Rightarrow> bool" for legal where
  path_nil: "path_by legal s [] s"
| path_cons: "legal s t \<Longrightarrow> path_by legal t ts u \<Longrightarrow> path_by legal s (t # ts) u"

inductive_cases path_consE: "path_by legal s (t # ts) u"

locale legal_table =
  fixes legal :: "'s \<Rightarrow> 's \<Rightarrow> bool" and terminal :: "'s \<Rightarrow> bool"
  assumes legal_irrefl: "\<not> legal s s"
    and terminal_stuck: "terminal s \<Longrightarrow> \<not> legal s t"
begin

lemma terminal_path: "path_by legal s ts u \<Longrightarrow> terminal s \<Longrightarrow> ts = [] \<and> u = s"
  by (erule path_by.cases) (auto dest: terminal_stuck)

end

locale ranked_table = legal_table +
  fixes rank :: "'s \<Rightarrow> nat" and top :: nat
  assumes rank_increases: "legal s t \<Longrightarrow> rank s < rank t"
    and rank_bounded: "rank s \<le> top"
begin

lemma path_rank: "path_by legal s ts u \<Longrightarrow> rank s + length ts \<le> rank u"
  by (induction rule: path_by.induct) (auto dest: rank_increases)

lemma path_length: "path_by legal s ts u \<Longrightarrow> length ts \<le> top - rank s"
  using path_rank [of s ts u] rank_bounded [of u] by linarith

lemma path_no_return: "path_by legal s ts s \<Longrightarrow> ts = []"
  using path_rank [of s ts s] by simp

end

end
