(* ===== verification/Proto_Progress.thy ===== *)
theory Proto_Progress
  imports Proto_State Transition_Systems
begin

text \<open>
  \<^verbatim>\<open>bsm/proto/src/progress.rs\<close>: the startup milestones and the progress model the greeter shows.
  The operations return the updated model together with the \<^verbatim>\<open>bool\<close> the Rust methods return.
\<close>

section \<open>Stages\<close>

datatype stage =
    Stg_AuthAccepted | Stg_PamSession | Stg_HostConnected | Stg_GnoblinReady | Stg_OutputsConfigured
  | Stg_BinguxLaunched | Stg_SurfacesMapped | Stg_DesktopReady | Stg_ReadyToReveal

definition stage_all :: "stage list" where
  "stage_all =
     [Stg_AuthAccepted, Stg_PamSession, Stg_HostConnected, Stg_GnoblinReady, Stg_OutputsConfigured,
      Stg_BinguxLaunched, Stg_SurfacesMapped, Stg_DesktopReady, Stg_ReadyToReveal]"

fun stage_weight :: "stage \<Rightarrow> u32" where
  "stage_weight Stg_AuthAccepted = 5"
| "stage_weight Stg_PamSession = 10"
| "stage_weight Stg_HostConnected = 5"
| "stage_weight Stg_GnoblinReady = 20"
| "stage_weight Stg_OutputsConfigured = 10"
| "stage_weight Stg_BinguxLaunched = 10"
| "stage_weight Stg_SurfacesMapped = 20"
| "stage_weight Stg_DesktopReady = 15"
| "stage_weight Stg_ReadyToReveal = 5"

definition is_counted :: "stage \<Rightarrow> bool" where
  "is_counted st \<longleftrightarrow>
     (case st of Stg_OutputsConfigured \<Rightarrow> True | Stg_SurfacesMapped \<Rightarrow> True | Stg_DesktopReady \<Rightarrow> True
      | _ \<Rightarrow> False)"

fun label_while_pending :: "stage \<Rightarrow> string" where
  "label_while_pending Stg_AuthAccepted = ''Authenticating''"
| "label_while_pending Stg_PamSession = ''Opening your session''"
| "label_while_pending Stg_HostConnected = ''Starting Gnoblin''"
| "label_while_pending Stg_GnoblinReady = ''Starting Gnoblin''"
| "label_while_pending Stg_OutputsConfigured = ''Preparing displays''"
| "label_while_pending Stg_BinguxLaunched = ''Starting Bingux''"
| "label_while_pending Stg_SurfacesMapped = ''Waiting for Bingux surfaces''"
| "label_while_pending Stg_DesktopReady = ''Waiting for the first frame''"
| "label_while_pending Stg_ReadyToReveal = ''Ready''"

fun debug_stage :: "stage \<Rightarrow> string" where
  "debug_stage Stg_AuthAccepted = ''AuthAccepted''"
| "debug_stage Stg_PamSession = ''PamSession''"
| "debug_stage Stg_HostConnected = ''HostConnected''"
| "debug_stage Stg_GnoblinReady = ''GnoblinReady''"
| "debug_stage Stg_OutputsConfigured = ''OutputsConfigured''"
| "debug_stage Stg_BinguxLaunched = ''BinguxLaunched''"
| "debug_stage Stg_SurfacesMapped = ''SurfacesMapped''"
| "debug_stage Stg_DesktopReady = ''DesktopReady''"
| "debug_stage Stg_ReadyToReveal = ''ReadyToReveal''"

section \<open>The model\<close>

record progress_failure =
  pf_stage :: stage
  pf_code :: error_code
  pf_message :: string

record progress_model =
  pm_session :: session_id
  pm_generation :: generation
  pm_revision :: revision
  pm_reached :: "stage list"
  pm_counted_stage :: "stage option"
  pm_done :: u32
  pm_total :: u32
  pm_failure :: "progress_failure option"

definition progress_new :: "session_id \<Rightarrow> generation \<Rightarrow> progress_model" where
  "progress_new s g =
     \<lparr>pm_session = s, pm_generation = g, pm_revision = 0, pm_reached = [],
      pm_counted_stage = None, pm_done = 0, pm_total = 0, pm_failure = None\<rparr>"

definition progress_has :: "progress_model \<Rightarrow> stage \<Rightarrow> bool" where
  "progress_has p st \<longleftrightarrow> st \<in> set (pm_reached p)"

definition progress_pending :: "progress_model \<Rightarrow> stage option" where
  "progress_pending p = List.find (\<lambda>s. \<not> progress_has p s) stage_all"

definition progress_reach :: "stage \<Rightarrow> progress_model \<Rightarrow> bool \<times> progress_model" where
  "progress_reach st p =
     (if pm_failure p \<noteq> None \<or> progress_pending p \<noteq> Some st then (False, p)
      else (True, p\<lparr>pm_reached := pm_reached p @ [st], pm_counted_stage := None, pm_done := 0,
                    pm_total := 0, pm_revision := pm_revision p + 1\<rparr>))"

definition progress_count :: "stage \<Rightarrow> u32 \<Rightarrow> u32 \<Rightarrow> progress_model \<Rightarrow> bool \<times> progress_model" where
  "progress_count st d t p =
     (if pm_failure p \<noteq> None \<or> progress_pending p \<noteq> Some st \<or> \<not> is_counted st \<or> d > t then (False, p)
      else if pm_counted_stage p = Some st \<and> pm_done p = d \<and> pm_total p = t then (False, p)
      else (True, p\<lparr>pm_counted_stage := Some st, pm_done := d, pm_total := t,
                    pm_revision := pm_revision p + 1\<rparr>))"

definition progress_fail :: "progress_failure \<Rightarrow> progress_model \<Rightarrow> progress_model" where
  "progress_fail f p = p\<lparr>pm_failure := Some f, pm_revision := pm_revision p + 1\<rparr>"

definition progress_partial :: "progress_model \<Rightarrow> u32" where
  "progress_partial p =
     (case pm_counted_stage p of
        Some st \<Rightarrow>
          if pm_total p > 0 \<and> progress_pending p = Some st
          then stage_weight st * pm_done p div pm_total p else 0
      | None \<Rightarrow> 0)"

definition progress_fraction :: "progress_model \<Rightarrow> u32" where
  "progress_fraction p = sum_list (map stage_weight (pm_reached p)) + progress_partial p"

definition progress_indeterminate :: "progress_model \<Rightarrow> bool" where
  "progress_indeterminate p \<longleftrightarrow> pm_failure p = None \<and> progress_pending p \<noteq> None \<and> pm_total p = 0"

definition progress_label :: "progress_model \<Rightarrow> string" where
  "progress_label p =
     (case progress_pending p of Some st \<Rightarrow> label_while_pending st | None \<Rightarrow> ''Ready'')"

definition progress_complete :: "progress_model \<Rightarrow> bool" where
  "progress_complete p \<longleftrightarrow> progress_pending p = None \<and> pm_failure p = None"

section \<open>Well-formed models\<close>

text \<open>The stages reached are an initial segment of the documented order, and the counts never
  exceed their total.\<close>

definition progress_wf :: "progress_model \<Rightarrow> bool" where
  "progress_wf p \<longleftrightarrow>
     (\<exists>n \<le> 9. pm_reached p = take n stage_all) \<and> pm_done p \<le> pm_total p \<and> is_none_or (pm_counted_stage p) is_counted"

datatype progress_op = Prg_Reach stage | Prg_Count stage u32 u32 | Prg_Fail progress_failure

fun progress_apply :: "progress_op \<Rightarrow> progress_model \<Rightarrow> progress_model" where
  "progress_apply (Prg_Reach st) p = snd (progress_reach st p)"
| "progress_apply (Prg_Count st d t) p = snd (progress_count st d t p)"
| "progress_apply (Prg_Fail f) p = progress_fail f p"

definition progress_init :: "progress_model \<Rightarrow> bool" where
  "progress_init p \<longleftrightarrow> (\<exists>s g. p = progress_new s g)"

definition progress_step :: "progress_model \<Rightarrow> progress_op \<Rightarrow> progress_model \<Rightarrow> bool" where
  "progress_step p x p' \<longleftrightarrow> p' = progress_apply x p"

lemma length_stage_all [simp]: "length stage_all = 9"
  by (simp add: stage_all_def)

lemma distinct_stage_all [simp]: "distinct stage_all"
  by (simp add: stage_all_def)

lemma find_not_in_take:
  "distinct xs \<Longrightarrow> List.find (\<lambda>x. x \<notin> set (take n xs)) xs = (if n < length xs then Some (xs ! n) else None)"
proof (cases "n < length xs")
  case True
  moreover assume "distinct xs"
  ultimately have "xs ! n \<notin> set (take n xs)"
    by (auto simp: in_set_conv_nth nth_eq_iff_index_eq)
  moreover have "xs ! j \<in> set (take n xs)" if "j < n" for j
    using that True by (metis in_set_conv_nth length_take min.absorb2 nth_take order_less_imp_le)
  ultimately show ?thesis
    using True by (auto simp: find_Some_iff)
next
  case False
  then show ?thesis by (simp add: find_None_iff)
qed

lemma pending_of_prefix:
  "pm_reached p = take n stage_all \<Longrightarrow>
     progress_pending p = (if n < 9 then Some (stage_all ! n) else None)"
  by (simp add: progress_pending_def progress_has_def find_not_in_take)

lemma progress_wf_new: "progress_wf (progress_new s g)"
  by (auto simp: progress_wf_def progress_new_def intro: exI [of _ 0])

lemma progress_wf_reach: "progress_wf p \<Longrightarrow> progress_wf (snd (progress_reach st p))"
proof (cases "fst (progress_reach st p)")
  case False
  then have "snd (progress_reach st p) = p"
    by (auto simp: progress_reach_def split: if_splits)
  then show "progress_wf p \<Longrightarrow> ?thesis" by simp
next
  case True
  assume wf: "progress_wf p"
  then obtain n where n: "n \<le> 9" "pm_reached p = take n stage_all"
    by (auto simp: progress_wf_def)
  from True have "progress_pending p = Some st"
    by (auto simp: progress_reach_def split: if_splits)
  with pending_of_prefix [OF n(2)] have "n < 9" "st = stage_all ! n"
    by (auto split: if_splits)
  then have "pm_reached p @ [st] = take (Suc n) stage_all"
    using n by (simp add: take_Suc_conv_app_nth)
  moreover from True have "pm_reached (snd (progress_reach st p)) = pm_reached p @ [st]"
    "pm_done (snd (progress_reach st p)) = 0" "pm_counted_stage (snd (progress_reach st p)) = None"
    by (auto simp: progress_reach_def split: if_splits)
  ultimately show ?thesis
    using \<open>n < 9\<close> by (auto simp: progress_wf_def intro!: exI [of _ "Suc n"])
qed

lemma progress_wf_count: "progress_wf p \<Longrightarrow> progress_wf (snd (progress_count st d t p))"
  by (auto simp: progress_wf_def progress_count_def)

lemma progress_wf_fail: "progress_wf p \<Longrightarrow> progress_wf (progress_fail f p)"
  by (simp add: progress_wf_def progress_fail_def)

interpretation prg: invariant_system progress_init progress_step progress_wf
proof unfold_locales
  show "progress_init p \<Longrightarrow> progress_wf p" for p
    by (auto simp: progress_init_def progress_wf_new)
  show "progress_wf p \<Longrightarrow> progress_step p x p' \<Longrightarrow> progress_wf p'" for p x p'
    by (cases x) (simp_all add: progress_step_def progress_wf_reach progress_wf_count progress_wf_fail)
qed

section \<open>The fraction\<close>

lemma weighted_count_le:
  fixes w d t :: u32
  assumes "d \<le> t"
  shows "w * d div t \<le> w"
proof -
  have "unat (w * d) \<le> unat w * unat d"
    by (simp add: unat_word_ariths)
  also have "\<dots> \<le> unat w * unat t"
    using assms by (simp add: word_le_nat_alt)
  finally have "unat (w * d) div unat t \<le> unat w"
    by (metis div_le_mono div_mult_self_is_m div_by_0 le0 not_gr_zero)
  then show ?thesis
    by (simp add: word_le_nat_alt unat_div)
qed

lemma progress_partial_le:
  assumes "progress_wf p" "progress_pending p = Some st"
  shows "progress_partial p \<le> (if is_counted st then stage_weight st else 0)"
  using assms weighted_count_le [of "pm_done p" "pm_total p" "stage_weight st"]
  by (auto simp: progress_partial_def progress_wf_def is_none_or_iff split: option.split)

lemma progress_partial_none: "progress_pending p = None \<Longrightarrow> progress_partial p = 0"
  by (simp add: progress_partial_def split: option.split)

lemma stage_index_cases:
  "n \<le> 9 \<Longrightarrow> n = 0 \<or> n = 1 \<or> n = 2 \<or> n = 3 \<or> n = 4 \<or> n = 5 \<or> n = 6 \<or> n = 7 \<or> n = 8 \<or> n = (9::nat)"
  by presburger

lemma progress_wf_fraction:
  assumes "progress_wf p"
  shows "progress_fraction p \<le> 100 \<and> (progress_fraction p = 100 \<longleftrightarrow> pm_reached p = stage_all)"
proof -
  from assms obtain n where n: "n \<le> 9" "pm_reached p = take n stage_all"
    by (auto simp: progress_wf_def)
  show ?thesis
  proof (cases "n = 9")
    case True
    with n pending_of_prefix [OF n(2)] have "pm_reached p = stage_all" "progress_partial p = 0"
      by (simp_all add: progress_partial_none)
    then show ?thesis by (simp add: progress_fraction_def stage_all_def)
  next
    case False
    with n have pend: "progress_pending p = Some (stage_all ! n)" and ne: "pm_reached p \<noteq> stage_all"
      using pending_of_prefix [OF n(2)] by (auto dest: arg_cong [where f = length])
    have "unat (progress_partial p) \<le> unat (if is_counted (stage_all ! n) then stage_weight (stage_all ! n) else 0)"
      using progress_partial_le [OF assms pend] by (simp add: word_le_nat_alt)
    moreover have "n = 0 \<or> n = 1 \<or> n = 2 \<or> n = 3 \<or> n = 4 \<or> n = 5 \<or> n = 6 \<or> n = 7 \<or> n = 8"
      using stage_index_cases [OF n(1)] False by blast
    ultimately have "unat (sum_list (map stage_weight (pm_reached p))) + unat (progress_partial p) \<le> 95"
      unfolding n(2) by (elim disjE) (simp_all add: stage_all_def is_counted_def)
    then have "unat (progress_fraction p) \<le> 95"
      by (simp add: progress_fraction_def unat_word_ariths)
    then have "progress_fraction p \<le> 95" by (simp add: word_le_nat_alt)
    then have "progress_fraction p \<le> 100" "progress_fraction p \<noteq> 100"
      by (auto elim: order_trans)
    with ne show ?thesis by simp
  qed
qed

section \<open>Properties\<close>

text \<open>
  The composite the greeter shows stays within 0..=100 whatever sequence of reports a launch
  goes through, even where the 32-bit product of the counted stage wraps, and it is 100 exactly
  when every stage has been reached.
\<close>

lemma progress_fraction_bounds:
  assumes "reachable_by progress_init progress_step p"
  shows "progress_fraction p \<le> 100 \<and> (progress_fraction p = 100 \<longleftrightarrow> pm_reached p = stage_all)"
  by (rule progress_wf_fraction [OF prg.reachable_invariant [OF assms]])

lemma progress_fraction_bounds_witness:
  "progress_fraction (progress_apply (Prg_Reach Stg_AuthAccepted) (progress_new ''s1'' 7)) \<le> 100"
proof -
  let ?p = "progress_new ''s1'' 7"
  have "reachable_by progress_init progress_step ?p"
    by (rule reachable_init) (auto simp: progress_init_def)
  then have "reachable_by progress_init progress_step (progress_apply (Prg_Reach Stg_AuthAccepted) ?p)"
    by (rule reachable_step [of _ _ _ "Prg_Reach Stg_AuthAccepted"]) (simp add: progress_step_def)
  from progress_fraction_bounds [OF this] show ?thesis by blast
qed

text \<open>
  A stage is accepted exactly when it is the next one in the documented order and the launch has
  not failed; a duplicate, skipped or late stage is refused.
\<close>

lemma progress_reach_in_order:
  assumes "reachable_by progress_init progress_step p"
  shows "fst (progress_reach st p) \<longleftrightarrow>
    pm_failure p = None \<and> length (pm_reached p) < length stage_all \<and> st = stage_all ! length (pm_reached p)"
proof -
  have "progress_wf p" by (rule prg.reachable_invariant [OF assms])
  then obtain n where n: "n \<le> 9" "pm_reached p = take n stage_all" by (auto simp: progress_wf_def)
  then have "length (pm_reached p) = n" by simp
  with pending_of_prefix [OF n(2)] show ?thesis
    by (auto simp: progress_reach_def)
qed

lemma progress_reach_in_order_witness:
  "\<not> fst (progress_reach Stg_PamSession (progress_new ''s1'' 7)) \<and> fst (progress_reach Stg_AuthAccepted (progress_new ''s1'' 7))"
proof -
  have "reachable_by progress_init progress_step (progress_new ''s1'' 7)"
    by (rule reachable_init) (auto simp: progress_init_def)
  from progress_reach_in_order [OF this] show ?thesis by (simp add: progress_new_def stage_all_def)
qed

text \<open>
  Progress never goes back: every operation keeps the stages already reached and adds at most
  one, a change raises the revision by exactly one, and a failed launch reaches nothing more.
\<close>

theorem progress_monotone:
  "\<exists>new. pm_reached (progress_apply x p) = pm_reached p @ new \<and> length new \<le> 1 \<and>
     (progress_apply x p = p \<or> pm_revision (progress_apply x p) = pm_revision p + 1) \<and>
     (pm_failure p \<noteq> None \<longrightarrow> new = [] \<and> pm_failure (progress_apply x p) \<noteq> None)"
  by (cases x) (auto simp: progress_reach_def progress_count_def progress_fail_def)

theorem progress_monotone_witness:
  "\<exists>new. pm_reached (progress_apply (Prg_Reach Stg_PamSession) (progress_fail \<lparr>pf_stage = Stg_PamSession, pf_code = E_Timeout, pf_message = []\<rparr> (progress_new ''s1'' 7))) = new \<and> new = []"
  using progress_monotone [of "Prg_Reach Stg_PamSession"
      "progress_fail \<lparr>pf_stage = Stg_PamSession, pf_code = E_Timeout, pf_message = []\<rparr> (progress_new ''s1'' 7)"]
  by (auto simp: progress_fail_def progress_new_def)

end
