(* ===== verification/Proto_Messages.thy ===== *)
theory Proto_Messages
  imports Proto_Progress
begin

text \<open>
  The messages of the session manager's three protocols: \<^verbatim>\<open>bsm/proto/src/scene.rs\<close> (manager and
  compositor), \<^verbatim>\<open>helper.rs\<close> (manager and the privileged helper) and \<^verbatim>\<open>control.rs\<close> (greeter control
  socket), with the default transition durations of \<^verbatim>\<open>transition.rs\<close> and the constants of
  \<^verbatim>\<open>paths.rs\<close> the manager uses. A struct-like enum variant is a constructor with its fields in the
  declared order.
\<close>

section \<open>Scene\<close>

record output_info =
  out_name :: string
  out_x :: i32
  out_y :: i32
  out_width :: u32
  out_height :: u32
  out_scale_120 :: u32
  out_refresh_mhz :: u32
  out_transform :: u32

record surface_evidence =
  ev_output :: string
  ev_configure_serial :: u32
  ev_acked :: bool
  ev_presented_frames :: u64

text \<open>The three \<^verbatim>\<open>f32\<close> channels are kept as bit patterns: the manager never computes with them.\<close>

record cover_color =
  cover_r :: u32
  cover_g :: u32
  cover_b :: u32

datatype scene_command =
    Cmd_RegisterSession session_id generation u32 string u32 string
  | Cmd_BindHost session_id generation string u32
  | Cmd_RequestEvidence session_id generation
  | Cmd_UnregisterSession session_id generation
  | Cmd_RegisterGreeter generation u32 u32
  | Cmd_UnregisterGreeter generation
  | Cmd_Protect session_id generation
  | Cmd_SetInputOwner input_owner
  | Cmd_ShowGreeterOnly
  | Cmd_BeginTransition operation_id transition_kind "(session_id \<times> generation) option"
      "(session_id \<times> generation) option" u32 bool "power_action option"
  | Cmd_CancelTransition operation_id
  | Cmd_SetCoverColor cover_color
  | Cmd_SetDpms bool

datatype transition_phase_event =
  Ev_Prepared | Ev_Animating | Ev_Committed | Ev_Completed | Ev_Failed | Ev_Cancelled

datatype host_report =
    Rep_GnoblinReady
  | Rep_OutputConfigured string
  | Rep_BinguxLaunched
  | Rep_SurfacesMapped string u32 u32
  | Rep_DesktopReady

datatype scene_event =
    Scn_Ready "output_info list"
  | Scn_OutputsChanged "output_info list"
  | Scn_GreeterConnected generation u32
  | Scn_GreeterGone generation
  | Scn_SessionSocketReady session_id generation string
  | Scn_SessionConnected session_id generation u32
  | Scn_SessionConnectionRejected session_id generation string
  | Scn_SessionSurfaces session_id generation "surface_evidence list"
  | Scn_SessionReport session_id generation host_report
  | Scn_SessionGone session_id generation
  | Scn_Protected session_id generation
  | Scn_InputOwnerChanged input_owner
  | Scn_TransitionPhase operation_id transition_phase_event

fun default_duration_ms :: "transition_kind \<Rightarrow> u32" where
  "default_duration_ms Kind_NewLoginFade = 420"
| "default_duration_ms Kind_UnlockSlideUp = 520"
| "default_duration_ms Kind_Lock = 240"
| "default_duration_ms Kind_SwitchUser = 240"
| "default_duration_ms Kind_LogoutFade = 320"
| "default_duration_ms Kind_PowerFade = 360"
| "default_duration_ms Kind_Suspend = 200"

section \<open>Helper\<close>

datatype pam_prompt_kind = Pam_EchoOff | Pam_EchoOn | Pam_Info | Pam_Error

datatype helper_request =
    HReq_Ping u64
  | HReq_AuthStart u64 string u32 auth_intent generation string
  | HReq_AuthResponse u64 string
  | HReq_AuthAbort u64
  | HReq_OpenSession u64 u64 session_id generation string "(u32 \<times> u32) list"
  | HReq_CloseSession session_id generation u32
  | HReq_SpawnGreeter u64 generation string string
  | HReq_KillGreeter generation
  | HReq_SetLockedHint u64 session_id generation bool

datatype helper_event =
    HEv_Pong u64
  | HEv_AuthPrompt u64 pam_prompt_kind string
  | HEv_AuthDone u64 bool "error_code option" string "u64 option"
  | HEv_SessionOpened u64 session_id generation u32 u32 string "string option"
  | HEv_SessionFailed u64 session_id generation error_code string
  | HEv_SessionExited session_id generation i32
  | HEv_GreeterSpawned u64 generation u32
  | HEv_GreeterExited generation i32
  | HEv_LockedHintResult u64 bool "error_code option" string

section \<open>Greeter control socket\<close>

datatype color_scheme = Scheme_Dark | Scheme_Light

datatype clock_format = Clock_H12 | Clock_H24

record appearance =
  app_color_scheme :: color_scheme
  app_accent :: string
  app_clock_format :: clock_format
  app_reduce_motion :: bool

definition appearance_default :: appearance where
  "appearance_default =
     \<lparr>app_color_scheme = Scheme_Dark, app_accent = ''#3584e4'', app_clock_format = Clock_H24,
      app_reduce_motion = False\<rparr>"

record user_profile =
  up_uid :: u32
  up_user_name :: string
  up_display_name :: string
  up_avatar_path :: "string option"
  up_avatar_rev :: revision
  up_wallpaper_path :: "string option"
  up_wallpaper_blur_path :: "string option"
  up_wallpaper_rev :: revision
  up_show_personal_images :: bool
  up_appearance :: appearance
  up_availability :: session_availability
  up_session :: "session_id option"

datatype greeter_mode = Mode_Login | Mode_Unlock session_id u32

record snapshot =
  snap_revision :: revision
  snap_mode :: greeter_mode
  snap_selected_uid :: "u32 option"
  snap_users :: "user_profile list"
  snap_progress :: "progress_model option"
  snap_reduce_motion :: bool
  snap_hostname :: string

datatype prompt_kind = Prompt_Secret | Prompt_Visible | Prompt_Info | Prompt_Error

datatype client_message =
    CMsg_Hello u32
  | CMsg_SelectUser u32
  | CMsg_BeginAuth u64 u32 auth_intent
  | CMsg_AuthResponse u64 string
  | CMsg_CancelAuth u64
  | CMsg_Power u64 power_action
  | CMsg_CancelOperation operation_id

datatype server_message =
    SMsg_Snapshot snapshot
  | SMsg_AuthPrompt "u64 option" u64 prompt_kind string
  | SMsg_AuthResult u64 bool "error_code option" string
  | SMsg_Progress progress_model
  | SMsg_Operation operation_id transition_kind operation_phase "error_code option"
  | SMsg_Error "u64 option" error_code string

definition PROTOCOL_VERSION :: u32 where
  "PROTOCOL_VERSION = 1"

definition GREETER_WAYLAND_SOCKET :: string where
  "GREETER_WAYLAND_SOCKET = ''/run/bsm/greeter-wayland.sock''"

definition GREETER_CONTROL_SOCKET :: string where
  "GREETER_CONTROL_SOCKET = ''/run/bsm/greeter-control.sock''"

end
