(* ===== verification/Ordered_Map.thy ===== *)
theory Ordered_Map
  imports Prelude
begin

text \<open>
  \<^verbatim>\<open>std::collections::BTreeMap\<close>, which keeps every registry of the session manager. The manager
  iterates its maps (\<^verbatim>\<open>values()\<close>, \<^verbatim>\<open>find\<close>, \<^verbatim>\<open>max_by_key\<close>), so the key order is observable: a map is
  its list of entries, sorted by key. The locale \<^verbatim>\<open>ordered_map\<close> is the interface the clients
  use; the interpretation at the end shows that the sorted lists provide it.
\<close>

section \<open>The interface\<close>

locale ordered_map =
  fixes lookup :: "'m \<Rightarrow> 'k::linorder \<Rightarrow> 'v option"
    and entries :: "'m \<Rightarrow> ('k \<times> 'v) list"
    and insert_at :: "'k \<Rightarrow> 'v \<Rightarrow> 'm \<Rightarrow> 'm"
    and remove_at :: "'k \<Rightarrow> 'm \<Rightarrow> 'm"
    and wf :: "'m \<Rightarrow> bool"
  assumes lookup_insert: "lookup (insert_at k v m) = (lookup m)(k \<mapsto> v)"
    and lookup_remove: "lookup (remove_at k m) = (lookup m)(k := None)"
    and wf_insert: "wf m \<Longrightarrow> wf (insert_at k v m)"
    and wf_remove: "wf m \<Longrightarrow> wf (remove_at k m)"
    and entries_lookup: "wf m \<Longrightarrow> (k, v) \<in> set (entries m) \<longleftrightarrow> lookup m k = Some v"
    and entries_sorted: "wf m \<Longrightarrow> sorted_wrt (<) (map fst (entries m))"
begin

lemma values_iff: "wf m \<Longrightarrow> v \<in> set (map snd (entries m)) \<longleftrightarrow> (\<exists>k. lookup m k = Some v)"
  by (force simp: entries_lookup [symmetric])

lemma keys_iff: "wf m \<Longrightarrow> k \<in> set (map fst (entries m)) \<longleftrightarrow> (\<exists>v. lookup m k = Some v)"
  by (force simp: entries_lookup [symmetric])

lemma keys_distinct: "wf m \<Longrightarrow> distinct (map fst (entries m))"
  using entries_sorted strict_sorted_iff by blast

lemma entries_determined:
  assumes "wf m" "wf m'" "lookup m = lookup m'"
  shows "entries m = entries m'"
proof (rule map_sorted_distinct_set_unique)
  show same: "set (entries m) = set (entries m')"
    using assms by (auto simp: entries_lookup)
  show "inj_on fst (set (entries m) \<union> set (entries m'))"
    using same keys_distinct [OF assms(1)] by (simp add: distinct_map)
qed (use assms entries_sorted keys_distinct strict_sorted_iff in blast)+

end

section \<open>The sorted entry lists\<close>

type_synonym ('k, 'v) btmap = "('k \<times> 'v) list"

abbreviation btm_get :: "('k, 'v) btmap \<Rightarrow> 'k \<Rightarrow> 'v option" where
  "btm_get m k \<equiv> map_of m k"

abbreviation btm_values :: "('k, 'v) btmap \<Rightarrow> 'v list" where
  "btm_values m \<equiv> map snd m"

abbreviation btm_keys :: "('k, 'v) btmap \<Rightarrow> 'k list" where
  "btm_keys m \<equiv> map fst m"

fun btm_insert :: "'k::linorder \<Rightarrow> 'v \<Rightarrow> ('k, 'v) btmap \<Rightarrow> ('k, 'v) btmap" where
  "btm_insert k v [] = [(k, v)]"
| "btm_insert k v ((k', v') # m) =
     (if k < k' then (k, v) # (k', v') # m
      else if k = k' then (k, v) # m
      else (k', v') # btm_insert k v m)"

definition btm_remove :: "'k \<Rightarrow> ('k, 'v) btmap \<Rightarrow> ('k, 'v) btmap" where
  "btm_remove k m = filter (\<lambda>e. fst e \<noteq> k) m"

definition btm_contains :: "('k, 'v) btmap \<Rightarrow> 'k \<Rightarrow> bool" where
  "btm_contains m k \<longleftrightarrow> btm_get m k \<noteq> None"

text \<open>An update through \<^verbatim>\<open>get_mut\<close>: nothing happens when the key is absent.\<close>

definition btm_modify :: "'k::linorder \<Rightarrow> ('v \<Rightarrow> 'v) \<Rightarrow> ('k, 'v) btmap \<Rightarrow> ('k, 'v) btmap" where
  "btm_modify k f m = (case btm_get m k of None \<Rightarrow> m | Some v \<Rightarrow> btm_insert k (f v) m)"

definition btm_wf :: "('k::linorder, 'v) btmap \<Rightarrow> bool" where
  "btm_wf m \<longleftrightarrow> sorted_wrt (<) (btm_keys m)"

lemma map_of_btm_insert [simp]: "map_of (btm_insert k v m) = (map_of m)(k \<mapsto> v)"
  by (induction k v m rule: btm_insert.induct) auto

lemma map_of_btm_remove [simp]: "map_of (btm_remove k m) = (map_of m)(k := None)"
  by (induction m) (auto simp: btm_remove_def)

lemma map_of_btm_modify [simp]:
  "map_of (btm_modify k f m) = (map_of m)(k := map_option f (map_of m k))"
  by (auto simp: btm_modify_def split: option.splits)

lemma set_keys_btm_insert: "set (btm_keys (btm_insert k v m)) = insert k (set (btm_keys m))"
  by (induction k v m rule: btm_insert.induct) auto

lemma btm_wf_Nil [simp]: "btm_wf []"
  by (simp add: btm_wf_def)

lemma btm_wf_insert [simp]: "btm_wf m \<Longrightarrow> btm_wf (btm_insert k v m)"
proof (induction k v m rule: btm_insert.induct)
  case (1 k v)
  then show ?case by (simp add: btm_wf_def)
next
  case (2 k v k' v' m)
  then show ?case
    using set_keys_btm_insert [of k v m] by (fastforce simp: btm_wf_def)
qed

lemma btm_wf_remove [simp]: "btm_wf m \<Longrightarrow> btm_wf (btm_remove k m)"
  by (auto simp: btm_wf_def btm_remove_def sorted_wrt_map sorted_wrt_filter)

lemma btm_wf_modify [simp]: "btm_wf m \<Longrightarrow> btm_wf (btm_modify k f m)"
  by (auto simp: btm_modify_def split: option.splits)

lemma btm_wf_distinct: "btm_wf m \<Longrightarrow> distinct (btm_keys m)"
  by (auto simp: btm_wf_def strict_sorted_iff)

interpretation btm: ordered_map map_of "\<lambda>m. m" btm_insert btm_remove btm_wf
proof unfold_locales
  fix m :: "('a, 'b) btmap" and k v
  show "btm_wf m \<Longrightarrow> (k, v) \<in> set m \<longleftrightarrow> map_of m k = Some v"
    by (auto simp: btm_wf_distinct map_of_is_SomeI dest: map_of_SomeD)
  show "btm_wf m \<Longrightarrow> sorted_wrt (<) (map fst m)"
    by (simp add: btm_wf_def)
qed simp_all

lemma btm_values_iff: "btm_wf m \<Longrightarrow> v \<in> snd ` set m \<longleftrightarrow> (\<exists>k. map_of m k = Some v)"
  using btm.values_iff by simp

end
