(* ===== verification/Core_Types.thy ===== *)
theory Core_Types
  imports Proto_Messages Ordered_Map "HOL-Library.Sublist"
begin

text \<open>
  \<^verbatim>\<open>bsm/manager/src/core/types.rs\<close>: what the pure core is told (inputs), what it asks the world to
  do (effects), the policy, and the values D-Bus callers see.
\<close>

section \<open>Randomness\<close>

type_synonym call_id = u64

text \<open>The deterministic generator of the tests. One call returns the value and the next state.\<close>

unbundle bit_operations_syntax

definition splitmix_mix :: "u64 \<Rightarrow> u64" where
  "splitmix_mix z0 =
     (let z1 = (z0 XOR drop_bit 30 z0) * 0xBF58476D1CE4E5B9;
          z2 = (z1 XOR drop_bit 27 z1) * 0x94D049BB133111EB
      in z2 XOR drop_bit 31 z2)"

definition splitmix_next :: "u64 \<Rightarrow> u64 \<times> u64" where
  "splitmix_next st = (let st' = st + 0x9E3779B97F4A7C15 in (splitmix_mix st', st'))"

text \<open>The values successive calls return.\<close>

fun splitmix_tape :: "u64 \<Rightarrow> nat \<Rightarrow> u64" where
  "splitmix_tape st 0 = fst (splitmix_next st)"
| "splitmix_tape st (Suc n) = splitmix_tape (snd (splitmix_next st)) n"

section \<open>Policy\<close>

record greeter_power =
  gp_suspend :: bool
  gp_reboot :: bool
  gp_poweroff :: bool

definition greeter_power_default :: greeter_power where
  "greeter_power_default = \<lparr>gp_suspend = True, gp_reboot = True, gp_poweroff = True\<rparr>"

fun gp_allows :: "greeter_power \<Rightarrow> power_action \<Rightarrow> bool" where
  "gp_allows g Pw_Suspend = gp_suspend g"
| "gp_allows g Pw_Reboot = gp_reboot g"
| "gp_allows g Pw_PowerOff = gp_poweroff g"

record policy =
  pol_greeter_uid :: "u32 option"
  pol_greeter_power :: greeter_power
  pol_greeter_power_with_sessions :: greeter_power
  pol_login_service :: string
  pol_unlock_service :: string
  pol_host_exe :: string
  pol_hostname :: string
  pol_greeter_wayland_socket :: string
  pol_greeter_control_socket :: string
  pol_reduce_motion :: bool
  pol_stage_timeout :: duration
  pol_gnoblin_ready_timeout :: duration
  pol_protect_timeout :: duration
  pol_frames_timeout :: duration
  pol_auth_timeout :: duration
  pol_transition_grace :: duration
  pol_check_timeout :: duration
  pol_power_timeout :: duration
  pol_close_grace_ms :: u32
  pol_close_timeout :: duration
  pol_greeter_respawn_delay :: duration
  pol_recovery_reconnect :: duration
  pol_max_failures :: u32
  pol_failure_cooldown :: duration
  pol_publish_interval :: duration
  pol_duration_overrides :: "(transition_kind \<times> u32) list"
  pol_history_len :: nat

definition policy_default :: policy where
  "policy_default =
     \<lparr>pol_greeter_uid = None,
      pol_greeter_power = greeter_power_default,
      pol_greeter_power_with_sessions = \<lparr>gp_suspend = True, gp_reboot = False, gp_poweroff = False\<rparr>,
      pol_login_service = ''bsm-login'',
      pol_unlock_service = ''bsm-unlock'',
      pol_host_exe = ''/usr/libexec/bsm/bsm-host'',
      pol_hostname = ''bingux'',
      pol_greeter_wayland_socket = GREETER_WAYLAND_SOCKET,
      pol_greeter_control_socket = GREETER_CONTROL_SOCKET,
      pol_reduce_motion = False,
      pol_stage_timeout = from_secs 120,
      pol_gnoblin_ready_timeout = from_secs 120,
      pol_protect_timeout = from_secs 3,
      pol_frames_timeout = from_secs 10,
      pol_auth_timeout = from_secs 120,
      pol_transition_grace = from_secs 5,
      pol_check_timeout = from_secs 15,
      pol_power_timeout = from_secs 30,
      pol_close_grace_ms = 5000,
      pol_close_timeout = from_secs 15,
      pol_greeter_respawn_delay = from_secs 1,
      pol_recovery_reconnect = from_secs 120,
      pol_max_failures = 5,
      pol_failure_cooldown = from_secs 30,
      pol_publish_interval = from_millis 500,
      pol_duration_overrides = [],
      pol_history_len = 32\<rparr>"

definition stage_timeout_for :: "policy \<Rightarrow> stage \<Rightarrow> duration" where
  "stage_timeout_for p st =
     (if st = Stg_GnoblinReady then pol_gnoblin_ready_timeout p else pol_stage_timeout p)"

definition duration_ms :: "policy \<Rightarrow> transition_kind \<Rightarrow> u32" where
  "duration_ms p kind =
     unwrap_or (map_option snd (List.find (\<lambda>e. fst e = kind) (pol_duration_overrides p)))
       (default_duration_ms kind)"

section \<open>Accounts, appearance and the persisted registry\<close>

record published_view =
  pv_appearance :: appearance
  pv_avatar_path :: "string option"
  pv_avatar_rev :: revision
  pv_wallpaper_path :: "string option"
  pv_wallpaper_blur_path :: "string option"
  pv_wallpaper_rev :: revision
  pv_show_personal_images :: bool

record account_entry =
  acc_uid :: u32
  acc_user_name :: string
  acc_display_name :: string
  acc_published :: "published_view option"

text \<open>An open file descriptor handed over by a caller; handles are equal when they are the same
  shared descriptor, so a handle is its identity.\<close>

datatype fd_handle = FdHandle nat

record publish_request =
  pr_appearance :: appearance
  pr_show_personal_images :: bool
  pr_wallpaper :: "fd_handle option"
  pr_avatar :: "fd_handle option"

record persisted_session =
  ps_id :: session_id
  ps_generation :: generation
  ps_uid :: u32
  ps_user_name :: string
  ps_scope :: string
  ps_host_pid :: u32

record persisted =
  per_version :: u32
  per_last_used_uid :: "u32 option"
  per_sessions :: "persisted_session list"

record recovered_session =
  rec_session :: persisted_session
  rec_alive :: bool

record inhibitor =
  inh_what :: string
  inh_who :: string
  inh_why :: string
  inh_mode :: string
  inh_uid :: u32

section \<open>D-Bus callers, methods and replies\<close>

record caller =
  cal_uid :: u32
  cal_pid :: u32
  cal_bus_name :: string
  cal_cgroup :: "string option"

datatype principal = Prin_Root | Prin_Greeter | Prin_Session session_id | Prin_User u32

datatype dbus_method =
    Mth_GetUsers
  | Mth_GetSessions
  | Mth_GetSelectedUser
  | Mth_GetForegroundSession
  | Mth_GetStatus
  | Mth_GetOutputs
  | Mth_GetTransitions
  | Mth_SelectGreeterUser u32
  | Mth_RequestLock "session_id option"
  | Mth_RequestSwitchUser
  | Mth_RequestLogout "session_id option"
  | Mth_RequestSuspend
  | Mth_RequestReboot
  | Mth_RequestPowerOff
  | Mth_CancelOperation operation_id
  | Mth_PublishAppearance publish_request

fun method_name :: "dbus_method \<Rightarrow> string" where
  "method_name Mth_GetUsers = ''GetUsers''"
| "method_name Mth_GetSessions = ''GetSessions''"
| "method_name Mth_GetSelectedUser = ''GetSelectedUser''"
| "method_name Mth_GetForegroundSession = ''GetForegroundSession''"
| "method_name Mth_GetStatus = ''GetStatus''"
| "method_name Mth_GetOutputs = ''GetOutputs''"
| "method_name Mth_GetTransitions = ''GetTransitions''"
| "method_name (Mth_SelectGreeterUser _) = ''SelectGreeterUser''"
| "method_name (Mth_RequestLock _) = ''RequestLock''"
| "method_name Mth_RequestSwitchUser = ''RequestSwitchUser''"
| "method_name (Mth_RequestLogout _) = ''RequestLogout''"
| "method_name Mth_RequestSuspend = ''RequestSuspend''"
| "method_name Mth_RequestReboot = ''RequestReboot''"
| "method_name Mth_RequestPowerOff = ''RequestPowerOff''"
| "method_name (Mth_CancelOperation _) = ''CancelOperation''"
| "method_name (Mth_PublishAppearance _) = ''PublishAppearance''"

record user_info =
  ui_uid :: u32
  ui_user_name :: string
  ui_display_name :: string
  ui_availability :: session_availability
  ui_session :: "session_id option"
  ui_avatar_rev :: revision
  ui_wallpaper_rev :: revision

record session_info =
  si_id :: session_id
  si_generation :: generation
  si_uid :: u32
  si_state :: session_state
  si_availability :: session_availability
  si_foreground :: bool
  si_locked :: bool
  si_progress :: u32

record operation_info =
  oi_id :: operation_id
  oi_kind :: transition_kind
  oi_phase :: operation_phase
  oi_state :: transition_state
  oi_reason :: "error_code option"
  oi_session :: "session_id option"

record status_info =
  sti_seat :: seat_state
  sti_selected_uid :: "u32 option"
  sti_last_used_uid :: "u32 option"
  sti_foreground :: "session_id option"
  sti_revision :: revision
  sti_operation :: "operation_info option"
  sti_greeter_connected :: bool
  sti_helper_connected :: bool
  sti_outputs :: nat

datatype reply =
    Rpl_Users "user_info list"
  | Rpl_Sessions "session_info list"
  | Rpl_Selected "u32 option"
  | Rpl_Foreground "(session_id \<times> generation) option"
  | Rpl_Status status_info
  | Rpl_Outputs "output_info list"
  | Rpl_Transitions "operation_info list"
  | Rpl_Operation operation_id
  | Rpl_Done

datatype dbus_signal =
    Sig_SessionsChanged revision
  | Sig_SelectedUserChanged revision "u32 option"
  | Sig_AppearanceChanged u32 revision
  | Sig_SessionLaunchProgress progress_model
  | Sig_SessionReadinessChanged session_id generation bool
  | Sig_ForegroundChanged "session_id option" "generation option"
  | Sig_LockStateChanged session_id bool
  | Sig_TransitionChanged operation_id transition_kind operation_phase transition_state "error_code option"
  | Sig_OperationFinished operation_id bool "error_code option"

section \<open>Timers, effects and inputs\<close>

datatype timer_id =
    Tmr_Stage session_id generation stage
  | Tmr_Protect session_id generation
  | Tmr_Frames operation_id
  | Tmr_Auth u64
  | Tmr_Close session_id generation
  | Tmr_Transition operation_id
  | Tmr_Checks operation_id
  | Tmr_Power operation_id
  | Tmr_GreeterRespawn
  | Tmr_Recovery session_id generation

datatype log_level = Log_Info | Log_Warn | Log_Error

record log_record =
  log_level :: log_level
  log_session :: "session_id option"
  log_message :: string

datatype effect =
    Fx_Scene scene_command
  | Fx_Helper helper_request
  | Fx_Greeter server_message
  | Fx_Dbus dbus_signal
  | Fx_DbusReply call_id "reply result"
  | Fx_ConnVerdict u64 bool
  | Fx_DropGreeter
  | Fx_SetTimer timer_id duration
  | Fx_CancelTimer timer_id
  | Fx_Persist persisted
  | Fx_LoadAccounts
  | Fx_PublishAppearance "call_id option" u32 publish_request
  | Fx_Polkit operation_id string caller "string option"
  | Fx_QueryInhibitors operation_id power_action
  | Fx_SystemPower operation_id power_action
  | Fx_SleepReady
  | Fx_Log log_record

datatype input =
    In_Start persisted
  | In_Scene scene_event
  | In_Helper helper_event
  | In_HelperConnected
  | In_HelperLost
  | In_GreeterPeer u64 u32 u32
  | In_GreeterDisconnected u64
  | In_Greeter u64 client_message
  | In_Dbus call_id caller dbus_method
  | In_Timer timer_id
  | In_Accounts "account_entry list"
  | In_Recovered "recovered_session list"
  | In_AppearancePublished "call_id option" u32 "published_view result"
  | In_PolkitResult operation_id bool
  | In_InhibitorsResult operation_id "inhibitor list result"
  | In_PowerResult operation_id "unit result"
  | In_PrepareForSleep bool

section \<open>Profiles and scopes\<close>

definition profile_from :: "account_entry \<Rightarrow> user_profile" where
  "profile_from e =
     (let view = unwrap_or (acc_published e)
            \<lparr>pv_appearance = appearance_default, pv_avatar_path = None, pv_avatar_rev = 0,
             pv_wallpaper_path = None, pv_wallpaper_blur_path = None, pv_wallpaper_rev = 0,
             pv_show_personal_images = True\<rparr>
      in \<lparr>up_uid = acc_uid e, up_user_name = acc_user_name e, up_display_name = acc_display_name e,
          up_avatar_path = pv_avatar_path view, up_avatar_rev = pv_avatar_rev view,
          up_wallpaper_path = pv_wallpaper_path view,
          up_wallpaper_blur_path = pv_wallpaper_blur_path view,
          up_wallpaper_rev = pv_wallpaper_rev view,
          up_show_personal_images = pv_show_personal_images view,
          up_appearance = pv_appearance view, up_availability = Av_NotSignedIn, up_session = None\<rparr>)"

text \<open>\<^verbatim>\<open>str::split\<close> on one character: always at least one part.\<close>

fun split_on :: "char \<Rightarrow> string \<Rightarrow> string list" where
  "split_on c [] = [[]]"
| "split_on c (x # xs) =
     (if x = c then [] # split_on c xs
      else case split_on c xs of [] \<Rightarrow> [[x]] | p # ps \<Rightarrow> (x # p) # ps)"

fun strip_prefix :: "string \<Rightarrow> string \<Rightarrow> string option" where
  "strip_prefix [] s = Some s"
| "strip_prefix (p # ps) [] = None"
| "strip_prefix (p # ps) (c # cs) = (if p = c then strip_prefix ps cs else None)"

definition trim_start :: "char \<Rightarrow> string \<Rightarrow> string" where
  "trim_start c s = dropWhile (\<lambda>x. x = c) s"

definition trim_end :: "char \<Rightarrow> string \<Rightarrow> string" where
  "trim_end c s = rev (dropWhile (\<lambda>x. x = c) (rev s))"

definition starts_with :: "char \<Rightarrow> string \<Rightarrow> bool" where
  "starts_with c s \<longleftrightarrow> (case s of [] \<Rightarrow> False | x # _ \<Rightarrow> x = c)"

definition cgroup_in_scope :: "string \<Rightarrow> string \<Rightarrow> bool" where
  "cgroup_in_scope cgroup scope \<longleftrightarrow>
     (if scope = [] then False
      else case strip_prefix ''/'' scope of
        Some rest \<Rightarrow>
          (let ab = trim_end (CHR ''/'') rest in
           if ab = [] then False
           else let cg = trim_start (CHR ''/'') cgroup in
             cg = ab \<or> is_some_and (strip_prefix ab cg) (starts_with (CHR ''/'')))
      | None \<Rightarrow> list_ex (\<lambda>c. c = scope) (split_on (CHR ''/'') cgroup))"

section \<open>Facts about scopes\<close>

lemma split_on_not_Nil [simp]: "split_on c s \<noteq> []"
  by (induction s) (auto split: list.split)

lemma split_on_append: "split_on c (a @ c # r) = split_on c a @ split_on c r"
  by (induction a) (auto split: list.split simp: Cons_eq_append_conv)

lemma split_on_prefixD: "split_on c s = split_on c a @ ps \<Longrightarrow> ps = [] \<and> s = a \<or> (\<exists>r. s = a @ c # r)"
proof (induction a arbitrary: s)
  case Nil
  then show ?case by (cases s) (auto split: if_splits list.splits)
next
  case (Cons x a)
  show ?case
  proof (cases s)
    case Nil
    with Cons.prems show ?thesis
      by (auto split: if_splits list.splits)
  next
    case (Cons y s')
    from Cons.prems Cons.IH[of s'] show ?thesis unfolding Cons
      by (auto split: if_splits list.splits)
  qed
qed

lemma prefix_split_on:
  "prefix (split_on c a) (split_on c s) \<longleftrightarrow> s = a \<or> (\<exists>r. s = a @ c # r)"
  by (auto simp: prefix_def split_on_append dest: split_on_prefixD)

lemma strip_prefix_iff: "strip_prefix p s = Some r \<longleftrightarrow> s = p @ r"
  by (induction p s rule: strip_prefix.induct) auto

lemma starts_with_iff: "starts_with c s \<longleftrightarrow> (\<exists>r. s = c # r)"
  by (auto simp: starts_with_def split: list.split)

text \<open>
  A caller's cgroup lies in a session's scope exactly on path components: a scope that is a
  unit name is one of the components of the cgroup path, and an absolute scope is a prefix of it,
  component by component; the empty scope and the root match nothing.
\<close>

theorem cgroup_in_scope_components:
  "cgroup_in_scope cgroup scope \<longleftrightarrow>
     (case scope of
        [] \<Rightarrow> False
      | c # rest \<Rightarrow>
          if c = CHR ''/''
          then trim_end (CHR ''/'') rest \<noteq> [] \<and>
               prefix (split_on (CHR ''/'') (trim_end (CHR ''/'') rest)) (split_on (CHR ''/'') (trim_start (CHR ''/'') cgroup))
          else scope \<in> set (split_on (CHR ''/'') cgroup))"
  by (auto simp: cgroup_in_scope_def prefix_split_on is_some_and_iff strip_prefix_iff starts_with_iff list_ex_iff Let_def
      split: list.split)

section \<open>The test generator is a permutation\<close>

lemma xorshift_inj:
  fixes x y :: u64
  assumes "0 < k" "x XOR drop_bit k x = y XOR drop_bit k y"
  shows "x = y"
proof -
  define d where "d = x XOR y"
  have "(x XOR drop_bit k x) XOR (y XOR drop_bit k y) = d XOR drop_bit k d"
    by (simp add: d_def drop_bit_xor ac_simps)
  then have "d XOR drop_bit k d = 0" using assms(2) by simp
  moreover have "d = (d XOR drop_bit k d) XOR drop_bit k d" by (simp add: xor.assoc)
  ultimately have dd: "d = drop_bit k d" by simp
  have it: "d = drop_bit (n * k) d" for n
  proof (induction n)
    case (Suc n)
    have "drop_bit (Suc n * k) d = drop_bit (n * k) (drop_bit k d)" by (simp add: add.commute)
    with Suc dd show ?case by simp
  qed simp
  have "64 \<le> 64 * k" using assms(1) by simp
  then have z: "drop_bit (64 * k) d = 0"
    by (intro bit_word_eqI) (auto simp: bit_drop_bit_eq dest: bit_imp_le_length)
  have d0: "x XOR y = 0" using it [of 64] unfolding z unfolding d_def .
  have "x = (x XOR y) XOR y" by (simp add: xor.assoc)
  then show ?thesis by (simp add: d0)
qed

lemma mult_inj_of_inverse: "(x :: u64) * a = y * a \<Longrightarrow> a * b = 1 \<Longrightarrow> x = y"
proof -
  assume eq: "x * a = y * a" and inv: "a * b = 1"
  have "x = x * a * b" using inv by (simp add: mult.assoc)
  also have "\<dots> = y" using inv by (simp add: eq) (simp add: mult.assoc)
  finally show ?thesis .
qed

lemma splitmix_mix_inj: "splitmix_mix x = splitmix_mix y \<Longrightarrow> x = y"
  unfolding splitmix_mix_def Let_def
  by (drule xorshift_inj [rotated], simp, drule mult_inj_of_inverse [where b = "0x319642B2D24D8EC3"], simp,
      drule xorshift_inj [rotated], simp, drule mult_inj_of_inverse [where b = "0x96DE1B173F119089"], simp,
      drule xorshift_inj [rotated], simp, assumption)

lemma splitmix_tape_eq: "splitmix_tape st n = splitmix_mix (st + of_nat (Suc n) * 0x9E3779B97F4A7C15)"
  by (induction n arbitrary: st) (simp_all add: splitmix_next_def Let_def algebra_simps)

lemma splitmix_tape_full:
  "\<exists>n \<ge> pos. splitmix_tape st n = v"
proof -
  obtain w where w: "splitmix_mix w = v"
    using finite_UNIV_inj_surj [OF finite injI [OF splitmix_mix_inj]] by (metis surjD)
  let ?inv = "0xF1DE83E19937733D :: u64"
  define i where "i = unat ((w - st) * ?inv)"
  define n where "n = i + pos * 2 ^ 64 + (2 ^ 64 - 1)"
  have "(of_nat (Suc n) :: u64) = of_nat (i + (pos + 1) * 2 ^ 64)" by (simp add: n_def algebra_simps)
  also have "\<dots> = (w - st) * ?inv"
  proof -
    have "(of_nat ((pos + 1) * 2 ^ 64) :: u64) = of_nat (pos + 1) * 0" unfolding of_nat_mult by (rule arg_cong) simp
    then show ?thesis by (simp add: i_def)
  qed
  finally have "st + of_nat (Suc n) * 0x9E3779B97F4A7C15 = st + (w - st) * (?inv * 0x9E3779B97F4A7C15)"
    by (simp only: mult.assoc)
  also have "?inv * 0x9E3779B97F4A7C15 = 1" by simp
  finally have "st + of_nat (Suc n) * 0x9E3779B97F4A7C15 = w" by simp
  then have "splitmix_tape st n = v" by (simp add: splitmix_tape_eq w)
  moreover have "pos \<le> n" by (simp add: n_def)
  ultimately show ?thesis by blast
qed

end
