(* ===== verification/Core_Tables.thy ===== *)
theory Core_Tables
  imports Proto_State Transition_Systems
begin

text \<open>
  \<^verbatim>\<open>bsm/manager/src/core/tables.rs\<close>: the legal changes of a session state, an operation phase and
  a transition state. The guards and the arms are in the order of the \<^verbatim>\<open>match\<close>.
\<close>

section \<open>The tables\<close>

definition session_legal :: "session_state \<Rightarrow> session_state \<Rightarrow> bool" where
  "session_legal from to \<longleftrightarrow>
     (if from = to then False
      else case from of
        St_Terminated \<Rightarrow> False
      | St_Failed \<Rightarrow> to = St_Terminated
      | St_Stopping \<Rightarrow> to = St_Terminated
      | _ \<Rightarrow>
          if to \<in> {St_Stopping, St_Failed} then True
          else case from of
            St_Creating \<Rightarrow> to = St_PamOpening
          | St_PamOpening \<Rightarrow> to = St_GnoblinStarting
          | St_GnoblinStarting \<Rightarrow> to = St_BinguxStarting
          | St_BinguxStarting \<Rightarrow> to = St_OutputReady
          | St_OutputReady \<Rightarrow> to = St_ReadyBackground
          | St_ReadyBackground \<Rightarrow> to = St_Foreground
          | St_Foreground \<Rightarrow> to = St_LockRequested
          | St_LockRequested \<Rightarrow> to \<in> {St_LockedGreeterForeground, St_LockedBackground}
          | St_LockedGreeterForeground \<Rightarrow> to \<in> {St_Foreground, St_LockedBackground}
          | St_LockedBackground \<Rightarrow> to \<in> {St_Foreground, St_LockedGreeterForeground}
          | _ \<Rightarrow> False)"

definition phase_legal :: "operation_phase \<Rightarrow> operation_phase \<Rightarrow> bool" where
  "phase_legal from to \<longleftrightarrow>
     (if from = to \<or> is_final from then False
      else case from of
        Ph_Requested \<Rightarrow> to \<in> {Ph_Authorising, Ph_Preparing, Ph_Animating, Ph_Committed, Ph_Failed,
                              Ph_Cancelled, Ph_Completed}
      | Ph_Authorising \<Rightarrow> to \<in> {Ph_Preparing, Ph_Animating, Ph_Committed, Ph_Failed, Ph_Cancelled}
      | Ph_Preparing \<Rightarrow> to \<in> {Ph_Animating, Ph_Committed, Ph_Failed, Ph_Cancelled, Ph_Completed}
      | Ph_Animating \<Rightarrow> to \<in> {Ph_Committed, Ph_Failed, Ph_Cancelled}
      | Ph_Committed \<Rightarrow> to \<in> {Ph_Completed, Ph_Failed}
      | _ \<Rightarrow> False)"

definition transition_legal :: "transition_state \<Rightarrow> transition_state \<Rightarrow> bool" where
  "transition_legal from to \<longleftrightarrow>
     (if from = to then False
      else case from of
        Tr_Cancelled \<Rightarrow> False
      | Tr_Failed \<Rightarrow> False
      | Tr_Idle \<Rightarrow> to \<in> {Tr_WaitingForAuth, Tr_WaitingForFrames, Tr_Prepared, Tr_Cancelled, Tr_Failed}
      | Tr_WaitingForAuth \<Rightarrow> to \<in> {Tr_WaitingForFrames, Tr_Prepared, Tr_Cancelled, Tr_Failed}
      | Tr_WaitingForFrames \<Rightarrow> to \<in> {Tr_Prepared, Tr_Cancelled, Tr_Failed}
      | Tr_Prepared \<Rightarrow> to \<in> {Tr_Animating, Tr_Committed, Tr_Cancelled, Tr_Failed}
      | Tr_Animating \<Rightarrow> to \<in> {Tr_Committed, Tr_Cancelled, Tr_Failed}
      | Tr_Committed \<Rightarrow> to \<in> {Tr_Idle, Tr_Failed})"

section \<open>The tables as transition systems\<close>

text \<open>The edges the documentation lists, as a set.\<close>

definition session_edges :: "(session_state \<times> session_state) set" where
  "session_edges =
     {(St_Creating, St_PamOpening), (St_PamOpening, St_GnoblinStarting),
      (St_GnoblinStarting, St_BinguxStarting), (St_BinguxStarting, St_OutputReady),
      (St_OutputReady, St_ReadyBackground), (St_ReadyBackground, St_Foreground),
      (St_Foreground, St_LockRequested), (St_LockRequested, St_LockedGreeterForeground),
      (St_LockRequested, St_LockedBackground), (St_LockedGreeterForeground, St_Foreground),
      (St_LockedGreeterForeground, St_LockedBackground), (St_LockedBackground, St_Foreground),
      (St_LockedBackground, St_LockedGreeterForeground), (St_Stopping, St_Terminated),
      (St_Failed, St_Terminated)}
     \<union> {(s, t). is_running s \<and> t \<in> {St_Stopping, St_Failed}}"

definition phase_rank :: "operation_phase \<Rightarrow> nat" where
  "phase_rank p =
     (case p of Ph_Requested \<Rightarrow> 0 | Ph_Authorising \<Rightarrow> 1 | Ph_Preparing \<Rightarrow> 2 | Ph_Animating \<Rightarrow> 3
      | Ph_Committed \<Rightarrow> 4 | _ \<Rightarrow> 5)"

lemma session_legal_iff_edge: "session_legal s t \<longleftrightarrow> (s, t) \<in> session_edges"
  by (cases s; cases t; simp add: session_legal_def session_edges_def)

interpretation session_table: legal_table session_legal "\<lambda>s. s = St_Terminated"
  by unfold_locales (auto simp: session_legal_def)

interpretation phase_table: ranked_table phase_legal is_final phase_rank 5
proof unfold_locales
  show "\<not> phase_legal p p" for p
    by (simp add: phase_legal_def)
  show "is_final p \<Longrightarrow> \<not> phase_legal p q" for p q
    by (simp add: phase_legal_def)
  show "phase_legal p q \<Longrightarrow> phase_rank p < phase_rank q" for p q
    by (cases p) (auto simp: phase_legal_def phase_rank_def is_final_def split: if_splits)
  show "phase_rank p \<le> 5" for p
    by (cases p) (simp_all add: phase_rank_def)
qed

interpretation transition_table: legal_table transition_legal "\<lambda>t. t = Tr_Cancelled \<or> t = Tr_Failed"
  by unfold_locales (auto simp: transition_legal_def)

lemma legal_to_Foreground: "session_legal s St_Foreground \<longleftrightarrow> is_revealable s"
  by (cases s) (simp_all add: session_legal_def is_revealable_def)

lemma legal_to_Stopping [simp]: "session_legal s St_Stopping \<longleftrightarrow> is_running s"
  by (cases s) (simp_all add: session_legal_def)

lemma legal_to_Failed [simp]: "session_legal s St_Failed \<longleftrightarrow> is_running s"
  by (cases s) (simp_all add: session_legal_def)

lemma legal_to_Terminated [simp]: "session_legal s St_Terminated \<longleftrightarrow> s = St_Stopping \<or> s = St_Failed"
  by (cases s) (simp_all add: session_legal_def)

section \<open>Properties\<close>

text \<open>
  The table of session states is exactly the documented set of edges, and from it a desktop is
  reached only from a state in which the user has been asked for a password: ready in the
  background or locked.
\<close>

lemma session_table_exact:
  "(session_legal s t \<longleftrightarrow> (s, t) \<in> session_edges) \<and> (session_legal s St_Foreground \<longleftrightarrow> is_revealable s)"
  by (intro conjI session_legal_iff_edge legal_to_Foreground)

text \<open>
  An operation goes through at most five phases and never leaves a final one: every sequence of
  legal phase changes is no longer than the rank its first phase leaves, and is empty from
  Completed, Failed or Cancelled.
\<close>

lemma phase_paths_bounded:
  assumes "path_by phase_legal p ps q"
  shows "length ps \<le> 5 - phase_rank p \<and> (is_final p \<longrightarrow> ps = [] \<and> q = p)"
  using phase_table.path_length [OF assms] phase_table.terminal_path [OF assms] by blast

lemma phase_paths_bounded_witness:
  "length [Ph_Authorising, Ph_Preparing, Ph_Animating, Ph_Committed, Ph_Completed] \<le> 5 - phase_rank Ph_Requested"
proof -
  have "path_by phase_legal Ph_Requested [Ph_Authorising, Ph_Preparing, Ph_Animating, Ph_Committed, Ph_Completed] Ph_Completed"
    by (auto simp: phase_legal_def is_final_def intro!: path_by.intros)
  from phase_paths_bounded [OF this] show ?thesis by blast
qed

end
