(* ===== verification/Core_State.thy ===== *)
theory Core_State
  imports Core_Types Core_Tables
begin

text \<open>
  The state of the pure session manager and the views derived from it: \<^verbatim>\<open>Session\<close> and \<^verbatim>\<open>Launch\<close> of
  \<^verbatim>\<open>core/session.rs\<close>, \<^verbatim>\<open>Operation\<close> of \<^verbatim>\<open>core/ops.rs\<close>, \<^verbatim>\<open>Challenge\<close> of \<^verbatim>\<open>core/auth.rs\<close>, \<^verbatim>\<open>Manager\<close> of
  \<^verbatim>\<open>core/mod.rs\<close>. A field of the Rust struct keeps its name behind a prefix per struct. Two fields
  have no counterpart in the struct: \<^verbatim>\<open>m_fx\<close> is the out parameter \<^verbatim>\<open>fx: &mut Fx\<close> that every handler
  receives, and \<^verbatim>\<open>m_rng\<close> with \<^verbatim>\<open>m_rng_pos\<close> is the injected generator as the sequence of values
  its calls return and the number of calls made so far.
\<close>

section \<open>Sessions\<close>

record launch =
  la_gnoblin_ready :: bool
  la_configured :: "string set"
  la_bingux_launched :: bool
  la_mapped :: "(string, u32 \<times> u32) btmap"
  la_desktop_report :: "(string, u64) btmap option"
  la_configured_epoch :: "u64 option"

definition launch_default :: launch where
  "launch_default =
     \<lparr>la_gnoblin_ready = False, la_configured = {}, la_bingux_launched = False, la_mapped = [],
      la_desktop_report = None, la_configured_epoch = None\<rparr>"

record session =
  s_id :: session_id
  s_generation :: generation
  s_uid :: u32
  s_user_name :: string
  s_state :: session_state
  s_scope :: "string option"
  s_host_pid :: "u32 option"
  s_logind :: "string option"
  s_socket_path :: "string option"
  s_ticket :: "u64 option"
  s_open_sent :: bool
  s_open_req :: "u64 option"
  s_progress :: "progress_model option"
  s_launch :: launch
  s_surfaces :: "surface_evidence list"
  s_host_connected :: bool
  s_fg_seq :: u64
  s_recovered :: bool
  s_armed_stage :: "stage option"
  s_evidence_base :: "(string, u64) btmap option"

definition launching_state :: "session_state \<Rightarrow> bool" where
  "launching_state st \<longleftrightarrow>
     (case st of St_Creating \<Rightarrow> True | St_PamOpening \<Rightarrow> True | St_GnoblinStarting \<Rightarrow> True
      | St_BinguxStarting \<Rightarrow> True | St_OutputReady \<Rightarrow> True | _ \<Rightarrow> False)"

definition launching :: "session \<Rightarrow> bool" where
  "launching s \<longleftrightarrow> launching_state (s_state s)"

definition session_pending :: "session \<Rightarrow> stage option" where
  "session_pending s = Option.bind (s_progress s) progress_pending"

section \<open>Operations and challenges\<close>

datatype op_kind = Op_Reveal | Op_Lock | Op_SwitchUser | Op_Logout | Op_Power

datatype requester = Req_Greeter | Req_Session session_id | Req_Root | Req_System

record operation =
  o_id :: operation_id
  o_kind :: op_kind
  o_requester :: requester
  o_transition :: transition_kind
  o_phase :: operation_phase
  o_tstate :: transition_state
  o_session :: "(session_id \<times> generation) option"
  o_began :: bool
  o_cancel_requested :: bool
  o_pending_fail :: "error_code option"
  o_committed :: bool
  o_reason :: "error_code option"
  o_new_login :: bool
  o_frames_armed :: bool
  o_locked_scene_ready :: bool
  o_action :: "power_action option"
  o_polkit :: "bool option"
  o_inhibitors :: "inhibitor list option"
  o_waiting_protect :: "(session_id \<times> generation) set"
  o_prev_input :: input_owner
  o_started :: instant

definition is_new_login :: "operation \<Rightarrow> bool" where
  "is_new_login o1 \<longleftrightarrow> o_kind o1 = Op_Reveal \<and> o_new_login o1"

definition op_info :: "operation \<Rightarrow> operation_info" where
  "op_info o1 =
     \<lparr>oi_id = o_id o1, oi_kind = o_transition o1, oi_phase = o_phase o1, oi_state = o_tstate o1,
      oi_reason = o_reason o1, oi_session = map_option fst (o_session o1)\<rparr>"

datatype plan = Plan_New generation | Plan_Existing session_id generation

record challenge =
  c_id :: u64
  c_request_id :: u64
  c_helper_req :: u64
  c_uid :: u32
  c_intent :: auth_intent
  c_op :: u64
  c_plan :: plan
  c_first_prompt_sent :: bool
  c_awaiting_response :: bool

section \<open>The manager\<close>

record user_entry =
  ue_profile :: user_profile

record greeter_state =
  g_generation :: "generation option"
  g_spawn_req :: "u64 option"
  g_pid :: "u32 option"
  g_wayland :: bool
  g_control :: "u64 option"
  g_hello :: bool
  g_respawn_pending :: bool

definition greeter_default :: greeter_state where
  "greeter_default =
     \<lparr>g_generation = None, g_spawn_req = None, g_pid = None, g_wayland = False, g_control = None,
      g_hello = False, g_respawn_pending = False\<rparr>"

record published =
  pub_snapshot :: "snapshot option"
  pub_sessions :: "session_summary list"
  pub_selected :: "u32 option"
  pub_foreground :: "(session_id \<times> generation) option"
  pub_locked :: "(session_id, bool) btmap"
  pub_ready :: "(session_id, bool) btmap"
  pub_progress :: "(session_id \<times> generation \<times> revision) option"
  pub_persisted :: "persisted option"

definition published_default :: published where
  "published_default =
     \<lparr>pub_snapshot = None, pub_sessions = [], pub_selected = None, pub_foreground = None,
      pub_locked = [], pub_ready = [], pub_progress = None, pub_persisted = None\<rparr>"

record manager =
  m_policy :: policy
  m_rng :: "nat \<Rightarrow> u64"
  m_rng_pos :: nat
  m_now :: "instant option"
  m_started :: bool
  m_users :: "(u32, user_entry) btmap"
  m_sessions :: "(session_id, session) btmap"
  m_seat :: seat_state
  m_selected_uid :: "u32 option"
  m_last_used_uid :: "u32 option"
  m_foreground :: "session_id option"
  m_protected :: "session_id set"
  m_challenge :: "challenge option"
  m_input_owner :: input_owner
  m_op :: "operation option"
  m_history :: "operation_info list"
  m_retained_failure :: "progress_model option"
  m_switching_user :: bool
  m_bg_logouts :: "(session_id \<times> generation, operation_id) btmap"
  m_pending_closes :: "(session_id \<times> generation) list"
  m_compositor_ready :: bool
  m_outputs :: "output_info list"
  m_outputs_epoch :: u64
  m_greeter :: greeter_state
  m_helper_up :: bool
  m_next_op :: u64
  m_next_challenge :: u64
  m_next_helper_req :: u64
  m_fg_seq :: u64
  m_revision :: revision
  m_sessions_revision :: revision
  m_selected_revision :: revision
  m_failures :: "(u32, u32 \<times> instant) btmap"
  m_last_publish :: "(u32, instant) btmap"
  m_publishing :: "u32 set"
  m_appearance_rev :: "(u32, revision) btmap"
  m_shutting_down :: bool
  m_published :: published
  m_sleep_prep :: "(session_id \<times> generation) set option"
  m_fx :: "effect list"

definition manager_new :: "policy \<Rightarrow> (nat \<Rightarrow> u64) \<Rightarrow> manager" where
  "manager_new pol rng =
     \<lparr>m_policy = pol, m_rng = rng, m_rng_pos = 0, m_now = None, m_started = False,
      m_users = [], m_sessions = [], m_seat = Seat_Booting, m_selected_uid = None,
      m_last_used_uid = None, m_foreground = None, m_protected = {}, m_challenge = None,
      m_input_owner = Own_None, m_op = None, m_history = [], m_retained_failure = None,
      m_switching_user = False, m_bg_logouts = [], m_pending_closes = [],
      m_compositor_ready = False, m_outputs = [], m_outputs_epoch = 0,
      m_greeter = greeter_default, m_helper_up = False, m_next_op = 1, m_next_challenge = 1,
      m_next_helper_req = 1, m_fg_seq = 0, m_revision = 0, m_sessions_revision = 0,
      m_selected_revision = 0, m_failures = [], m_last_publish = [], m_publishing = {},
      m_appearance_rev = [], m_shutting_down = False, m_published = published_default,
      m_sleep_prep = None, m_fx = []\<rparr>"

section \<open>Effects, the clock and fresh numbers\<close>

definition push :: "effect \<Rightarrow> manager \<Rightarrow> manager" where
  "push e m = m\<lparr>m_fx := m_fx m @ [e]\<rparr>"

definition log_msg :: "log_level \<Rightarrow> session_id option \<Rightarrow> string \<Rightarrow> manager \<Rightarrow> manager" where
  "log_msg l sid msg = push (Fx_Log \<lparr>log_level = l, log_session = sid, log_message = msg\<rparr>)"

text \<open>\<^verbatim>\<open>handle\<close> stores the time before any handler runs, so the default is never read.\<close>

definition now_of :: "manager \<Rightarrow> instant" where
  "now_of m = unwrap_or (m_now m) 0"

definition helper_req :: "manager \<Rightarrow> u64 \<times> manager" where
  "helper_req m = (m_next_helper_req m, m\<lparr>m_next_helper_req := m_next_helper_req m + 1\<rparr>)"

definition fmt_session_id :: "u64 \<Rightarrow> session_id" where
  "fmt_session_id v = CHR ''s'' # hex8 (ucast v)"

text \<open>The two retry loops over the generator. A generator that only returns rejected values keeps
  them running, which is the result \<^term>\<open>None\<close>.\<close>

partial_function (option) draw_session_id ::
  "(nat \<Rightarrow> u64) \<Rightarrow> (session_id, session) btmap \<Rightarrow> nat \<Rightarrow> (session_id \<times> nat) option" where
  "draw_session_id rng ss pos =
     (if \<not> btm_contains ss (fmt_session_id (rng pos)) then Some (fmt_session_id (rng pos), Suc pos)
      else draw_session_id rng ss (Suc pos))"

partial_function (option) draw_generation :: "(nat \<Rightarrow> u64) \<Rightarrow> nat \<Rightarrow> (generation \<times> nat) option" where
  "draw_generation rng pos =
     (if rng pos \<noteq> 0 then Some (rng pos, Suc pos) else draw_generation rng (Suc pos))"

declare draw_session_id.simps [code] draw_generation.simps [code]

definition alloc_session_id :: "manager \<Rightarrow> (session_id \<times> manager) option" where
  "alloc_session_id m =
     map_option (\<lambda>(sid, pos). (sid, m\<lparr>m_rng_pos := pos\<rparr>))
       (draw_session_id (m_rng m) (m_sessions m) (m_rng_pos m))"

definition alloc_generation :: "manager \<Rightarrow> (generation \<times> manager) option" where
  "alloc_generation m =
     map_option (\<lambda>(g, pos). (g, m\<lparr>m_rng_pos := pos\<rparr>)) (draw_generation (m_rng m) (m_rng_pos m))"

section \<open>Derived views\<close>

definition session_of :: "manager \<Rightarrow> session_id \<Rightarrow> session option" where
  "session_of m sid = btm_get (m_sessions m) sid"

text \<open>Session of this id and generation, or nothing for a stale callback.\<close>

definition session_gen :: "manager \<Rightarrow> session_id \<Rightarrow> generation \<Rightarrow> session option" where
  "session_gen m sid gn = opt_filter (\<lambda>s. s_generation s = gn) (session_of m sid)"

definition any_session :: "(session \<Rightarrow> bool) \<Rightarrow> manager \<Rightarrow> bool" where
  "any_session P m \<longleftrightarrow> list_ex P (btm_values (m_sessions m))"

definition modify_session :: "session_id \<Rightarrow> (session \<Rightarrow> session) \<Rightarrow> manager \<Rightarrow> manager" where
  "modify_session sid f m = m\<lparr>m_sessions := btm_modify sid f (m_sessions m)\<rparr>"

definition modify_op :: "(operation \<Rightarrow> operation) \<Rightarrow> manager \<Rightarrow> manager" where
  "modify_op f m = m\<lparr>m_op := map_option f (m_op m)\<rparr>"

definition running_session :: "manager \<Rightarrow> u32 \<Rightarrow> session option" where
  "running_session m uid =
     max_by_key s_fg_seq
       (filter (\<lambda>s. s_uid s = uid \<and> is_running (s_state s)) (btm_values (m_sessions m)))"

definition availability_of :: "manager \<Rightarrow> u32 \<Rightarrow> session_availability \<times> session_id option" where
  "availability_of m uid =
     (case running_session m uid of
        Some s \<Rightarrow>
          ((case s_state s of
              St_Foreground \<Rightarrow> Av_RunningForeground
            | St_LockRequested \<Rightarrow> Av_RunningLocked
            | St_LockedBackground \<Rightarrow> Av_RunningLocked
            | St_LockedGreeterForeground \<Rightarrow> Av_RunningLocked
            | _ \<Rightarrow> Av_Starting), Some (s_id s))
      | None \<Rightarrow>
          if any_session (\<lambda>s. s_uid s = uid \<and> (s_state s = St_Failed \<or> s_state s = St_Stopping)) m
          then (Av_Unavailable, None) else (Av_NotSignedIn, None))"

definition greeter_target :: "manager \<Rightarrow> session option" where
  "greeter_target m =
     List.find (\<lambda>s. s_state s = St_LockedGreeterForeground) (btm_values (m_sessions m))"

definition on_screen :: "session_state \<Rightarrow> bool" where
  "on_screen st \<longleftrightarrow> st = St_Foreground \<or> st = St_LockRequested"

definition greeter_authoritative :: "manager \<Rightarrow> bool" where
  "greeter_authoritative m \<longleftrightarrow>
     (if m_seat m = Seat_ShuttingDown then False
      else \<not> any_session (\<lambda>s. on_screen (s_state s)) m)"

definition power_committed :: "manager \<Rightarrow> bool" where
  "power_committed m \<longleftrightarrow>
     m_shutting_down m \<or>
     is_some_and (m_op m) (\<lambda>o1. o_kind o1 = Op_Power \<and> o_committed o1 \<and> o_action o1 \<noteq> Some Pw_Suspend)"

definition progress_view :: "manager \<Rightarrow> progress_model option" where
  "progress_view m =
     or_else
       (case m_op m of
          None \<Rightarrow> None
        | Some o1 \<Rightarrow>
            (case o_session o1 of
               None \<Rightarrow> None
             | Some (sid, _) \<Rightarrow>
                 opt_filter (\<lambda>_. o_kind o1 = Op_Reveal \<and> is_new_login o1)
                   (Option.bind (session_of m sid) s_progress)))
       (m_retained_failure m)"

definition build_snapshot :: "manager \<Rightarrow> snapshot" where
  "build_snapshot m =
     \<lparr>snap_revision = 0,
      snap_mode = (case greeter_target m of
                     Some s \<Rightarrow> Mode_Unlock (s_id s) (s_uid s) | None \<Rightarrow> Mode_Login),
      snap_selected_uid = m_selected_uid m,
      snap_users =
        map (\<lambda>u. let p = ue_profile u; (a, s) = availability_of m (up_uid p)
                 in p\<lparr>up_availability := a, up_session := s\<rparr>)
          (btm_values (m_users m)),
      snap_progress = progress_view m,
      snap_reduce_motion = pol_reduce_motion (m_policy m),
      snap_hostname = pol_hostname (m_policy m)\<rparr>"

definition summary_availability :: "session_state \<Rightarrow> session_availability" where
  "summary_availability st =
     (case st of
        St_Foreground \<Rightarrow> Av_RunningForeground
      | St_LockRequested \<Rightarrow> Av_RunningLocked
      | St_LockedBackground \<Rightarrow> Av_RunningLocked
      | St_LockedGreeterForeground \<Rightarrow> Av_RunningLocked
      | St_Failed \<Rightarrow> Av_Unavailable
      | St_Stopping \<Rightarrow> Av_Unavailable
      | _ \<Rightarrow> Av_Starting)"

definition session_summaries :: "manager \<Rightarrow> session_summary list" where
  "session_summaries m =
     map (\<lambda>s. \<lparr>sum_id = s_id s, sum_generation = s_generation s, sum_uid = s_uid s,
               sum_state = s_state s, sum_availability = summary_availability (s_state s)\<rparr>)
       (filter (\<lambda>s. s_state s \<noteq> St_Terminated) (btm_values (m_sessions m)))"

definition seat_by_sessions :: "manager \<Rightarrow> seat_state" where
  "seat_by_sessions m =
     (if any_session (\<lambda>s. s_state s = St_Foreground) m then Seat_UserForeground
      else if any_session (\<lambda>s. s_state s = St_LockRequested) m then Seat_SecuringLock
      else if \<not> g_wayland (m_greeter m) then Seat_Recovery
      else if m_switching_user m \<and> any_session (\<lambda>s. is_protected (s_state s)) m then Seat_SwitchingUser
      else if greeter_target m \<noteq> None then Seat_LockedGreeter
      else Seat_Greeter)"

definition compute_seat :: "manager \<Rightarrow> seat_state" where
  "compute_seat m =
     (if power_committed m then Seat_ShuttingDown
      else if \<not> m_compositor_ready m then Seat_Booting
      else case m_op m of
        None \<Rightarrow> seat_by_sessions m
      | Some o1 \<Rightarrow>
          (case o_kind o1 of
             Op_Reveal \<Rightarrow>
               if o_tstate o1 = Tr_WaitingForAuth then Seat_Authenticating
               else if is_new_login o1 \<and> o_tstate o1 = Tr_WaitingForFrames then Seat_StartingSession
               else Seat_RevealingSession
           | Op_Lock \<Rightarrow> if \<not> o_locked_scene_ready o1 then Seat_SecuringLock else seat_by_sessions m
           | Op_SwitchUser \<Rightarrow> if \<not> o_locked_scene_ready o1 then Seat_SecuringLock else seat_by_sessions m
           | Op_Power \<Rightarrow>
               if o_action o1 = Some Pw_Suspend \<and> \<not> o_committed o1 then Seat_SecuringLock
               else seat_by_sessions m
           | Op_Logout \<Rightarrow> seat_by_sessions m))"

definition persisted_view :: "manager \<Rightarrow> persisted" where
  "persisted_view m =
     \<lparr>per_version = 1, per_last_used_uid = m_last_used_uid m,
      per_sessions =
        map (\<lambda>s. \<lparr>ps_id = s_id s, ps_generation = s_generation s, ps_uid = s_uid s,
                  ps_user_name = s_user_name s, ps_scope = unwrap_or (s_scope s) [],
                  ps_host_pid = unwrap_or (s_host_pid s) 0\<rparr>)
          (filter (\<lambda>s. is_running (s_state s) \<and> \<not> launching s \<and> s_scope s \<noteq> None)
            (btm_values (m_sessions m)))\<rparr>"

definition user_known :: "manager \<Rightarrow> u32 \<Rightarrow> bool" where
  "user_known m uid \<longleftrightarrow> btm_contains (m_users m) uid"

definition user_name_of :: "manager \<Rightarrow> u32 \<Rightarrow> string" where
  "user_name_of m uid =
     unwrap_or (map_option (\<lambda>u. up_user_name (ue_profile u)) (btm_get (m_users m) uid)) []"

section \<open>Drawing ids always ends\<close>

lemma digits_inj:
  assumes "a < 16 ^ n" "b < 16 ^ n" "\<And>i. i < n \<Longrightarrow> a div 16 ^ i mod 16 = b div 16 ^ i mod (16 :: nat)"
  shows "a = b"
  using assms
proof (induction n arbitrary: a b)
  case (Suc n)
  have "a div 16 div 16 ^ i mod 16 = b div 16 div 16 ^ i mod 16" if "i < n" for i
    using Suc.prems(3) [of "Suc i"] that by (simp add: div_mult2_eq)
  moreover have "a div 16 < 16 ^ n" "b div 16 < 16 ^ n"
    using Suc.prems(1,2) by (auto intro!: less_mult_imp_div_less simp: mult.commute)
  ultimately have "a div 16 = b div 16" using Suc.IH by blast
  moreover have "a mod 16 = b mod 16" using Suc.prems(3) [of 0] by simp
  ultimately show ?case by (metis div_mult_mod_eq)
qed simp

lemma hex8_inj: "hex8 x = hex8 y \<Longrightarrow> x = y"
proof -
  assume eq: "hex8 x = hex8 y"
  have "unat x div 16 ^ i mod 16 = unat y div 16 ^ i mod 16" if "i < 8" for i
  proof (rule digit_char_inj)
    have "i \<in> set [7, 6, 5, 4, 3, 2, 1, 0]" using that by auto
    with eq show "digit_char (unat x div 16 ^ i mod 16) = digit_char (unat y div 16 ^ i mod 16)"
      unfolding hex8_def map_eq_conv by blast
  qed simp_all
  moreover have "unat z < 16 ^ 8" for z :: u32
  proof -
    have "unat z < 2 ^ LENGTH(32)" by (rule unsigned_less)
    then show ?thesis by simp
  qed
  ultimately have "unat x = unat y" using digits_inj [of "unat x" 8 "unat y"] by blast
  then show ?thesis by (simp only: word_unat_eq_iff)
qed

text \<open>A generator that keeps producing every value.\<close>

definition fair_rng :: "(nat \<Rightarrow> u64) \<Rightarrow> bool" where
  "fair_rng rng \<longleftrightarrow> (\<forall>pos v. \<exists>n \<ge> pos. rng n = v)"

lemma fair_splitmix: "fair_rng (splitmix_tape st)"
  using splitmix_tape_full by (simp add: fair_rng_def)

lemma draw_session_id_some:
  assumes "pos \<le> n" "\<not> btm_contains ss (fmt_session_id (rng n))"
  shows "\<exists>v pos'. draw_session_id rng ss pos = Some (fmt_session_id v, pos') \<and> \<not> btm_contains ss (fmt_session_id v)"
  using assms
proof (induction "n - pos" arbitrary: pos)
  case 0
  then show ?case by (subst draw_session_id.simps) auto
next
  case (Suc d)
  then have "\<exists>v pos'. draw_session_id rng ss (Suc pos) = Some (fmt_session_id v, pos') \<and> \<not> btm_contains ss (fmt_session_id v)"
    by (intro Suc.hyps) simp_all
  then show ?case by (subst draw_session_id.simps) auto
qed

lemma draw_generation_some:
  assumes "pos \<le> n" "rng n \<noteq> 0"
  shows "\<exists>g pos'. draw_generation rng pos = Some (g, pos') \<and> g \<noteq> 0"
  using assms
proof (induction "n - pos" arbitrary: pos)
  case 0
  then show ?case by (subst draw_generation.simps) auto
next
  case (Suc d)
  then have "\<exists>g pos'. draw_generation rng (Suc pos) = Some (g, pos') \<and> g \<noteq> 0"
    by (intro Suc.hyps) simp_all
  then show ?case by (subst draw_generation.simps) auto
qed

lemma free_session_id:
  assumes "length (ss :: (session_id, session) btmap) < 2 ^ 32"
  shows "\<exists>v. \<not> btm_contains ss (fmt_session_id v)"
proof (rule ccontr)
  assume "\<not> (\<exists>v. \<not> btm_contains ss (fmt_session_id v))"
  then have "btm_contains ss (fmt_session_id v)" for v by blast
  then have sub: "fmt_session_id v \<in> set (btm_keys ss)" for v
    by (force simp: btm_contains_def dest: map_of_SomeD)
  define f :: "u32 \<Rightarrow> session_id" where "f x = CHR ''s'' # hex8 x" for x
  have "(ucast (ucast x :: u64) :: u32) = x" for x :: u32
    by (rule bit_word_eqI) (simp add: bit_ucast_iff)
  then have "f x \<in> set (btm_keys ss)" for x
    using sub [of "ucast x"] by (simp add: f_def fmt_session_id_def)
  then have "card (range f) \<le> card (set (btm_keys ss))" by (intro card_mono) auto
  moreover have "card (range f) = 2 ^ 32"
    by (subst card_image) (auto simp: f_def inj_on_def card_word dest: hex8_inj)
  moreover have "card (set (btm_keys ss)) \<le> length ss" using card_length [of "btm_keys ss"] by simp
  ultimately show False using assms by simp
qed

lemma alloc_session_id_some:
  assumes "fair_rng (m_rng m)" "length (m_sessions m) < 2 ^ 32"
  shows "\<exists>sid pos. alloc_session_id m = Some (sid, m\<lparr>m_rng_pos := pos\<rparr>) \<and> btm_get (m_sessions m) sid = None"
proof -
  obtain v where v: "\<not> btm_contains (m_sessions m) (fmt_session_id v)" using free_session_id [OF assms(2)] by blast
  obtain n where "m_rng_pos m \<le> n" "m_rng m n = v" using assms(1) unfolding fair_rng_def by blast
  with draw_session_id_some [of "m_rng_pos m" n "m_sessions m" "m_rng m"] v show ?thesis
    by (auto simp: alloc_session_id_def btm_contains_def)
qed

lemma alloc_generation_some:
  assumes "fair_rng (m_rng m)"
  shows "\<exists>g pos. alloc_generation m = Some (g, m\<lparr>m_rng_pos := pos\<rparr>) \<and> g \<noteq> 0"
proof -
  obtain n where "m_rng_pos m \<le> n" "m_rng m n = 1" using assms unfolding fair_rng_def by blast
  with draw_generation_some [of "m_rng_pos m" n "m_rng m"] show ?thesis
    by (auto simp: alloc_generation_def)
qed

end
