(* ===== verification/Core_Ops.thy ===== *)
theory Core_Ops
  imports Core_State
begin

text \<open>
  The operation engine of \<^verbatim>\<open>core/ops.rs\<close>: creating, advancing and finishing the one operation in
  flight, with the pieces of \<^verbatim>\<open>core/session.rs\<close> and \<^verbatim>\<open>core/auth.rs\<close> it calls (the guarded session
  setter, cleanup, the end of a challenge) and the reveal gate. A method \<^verbatim>\<open>fn f(&mut self, .., fx)\<close>
  is a function from manager to manager; one that returns a value pairs it with the new manager.
\<close>

section \<open>Guarded setters\<close>

definition set_session_state :: "session_id \<Rightarrow> session_state \<Rightarrow> manager \<Rightarrow> bool \<times> manager" where
  "set_session_state sid to m =
     (case session_of m sid of
        None \<Rightarrow> (False, m)
      | Some s \<Rightarrow>
          if \<not> session_legal (s_state s) to
          then (False, log_msg Log_Error (Some sid)
                  (''illegal session transition '' @ debug_session_state (s_state s) @ '' -> ''
                     @ debug_session_state to @ '' refused'') m)
          else (True, modify_session sid (\<lambda>s. s\<lparr>s_state := to\<rparr>) m))"

definition emit_op :: "manager \<Rightarrow> manager" where
  "emit_op m =
     (case m_op m of
        None \<Rightarrow> m
      | Some o1 \<Rightarrow>
          push (Fx_Dbus (Sig_TransitionChanged (o_id o1) (o_transition o1) (o_phase o1) (o_tstate o1) (o_reason o1)))
            (push (Fx_Greeter (SMsg_Operation (o_id o1) (o_transition o1) (o_phase o1) (o_reason o1))) m))"

fun kind_transition :: "op_kind \<Rightarrow> transition_kind" where
  "kind_transition Op_Reveal = Kind_NewLoginFade"
| "kind_transition Op_Lock = Kind_Lock"
| "kind_transition Op_SwitchUser = Kind_SwitchUser"
| "kind_transition Op_Logout = Kind_LogoutFade"
| "kind_transition Op_Power = Kind_PowerFade"

definition fresh_operation ::
  "op_kind \<Rightarrow> requester \<Rightarrow> (session_id \<times> generation) option \<Rightarrow> manager \<Rightarrow> operation" where
  "fresh_operation kind req sess m =
     \<lparr>o_id = m_next_op m, o_kind = kind, o_requester = req, o_transition = kind_transition kind,
      o_phase = Ph_Requested, o_tstate = Tr_Idle, o_session = sess, o_began = False,
      o_cancel_requested = False, o_pending_fail = None, o_committed = False, o_reason = None,
      o_new_login = False, o_frames_armed = False, o_locked_scene_ready = False, o_action = None,
      o_polkit = None, o_inhibitors = None, o_waiting_protect = {},
      o_prev_input = m_input_owner m, o_started = now_of m\<rparr>"

definition new_operation ::
  "op_kind \<Rightarrow> requester \<Rightarrow> (session_id \<times> generation) option \<Rightarrow> manager \<Rightarrow> operation_id \<times> manager" where
  "new_operation kind req sess m =
     (m_next_op m,
      emit_op (m\<lparr>m_next_op := m_next_op m + 1, m_op := Some (fresh_operation kind req sess m)\<rparr>))"

definition op_set ::
  "operation_phase option \<Rightarrow> transition_state option \<Rightarrow> manager \<Rightarrow> bool \<times> manager" where
  "op_set phase tstate m =
     (case m_op m of
        None \<Rightarrow> (False, m)
      | Some o1 \<Rightarrow>
          if is_some_and phase (\<lambda>p. p \<noteq> o_phase o1 \<and> \<not> phase_legal (o_phase o1) p)
          then (False, log_msg Log_Error None
                  (''illegal operation phase '' @ debug_phase (o_phase o1) @ '' -> ''
                     @ debug_phase (unwrap_or phase (o_phase o1)) @ '' refused'') m)
          else if is_some_and tstate (\<lambda>t. t \<noteq> o_tstate o1 \<and> \<not> transition_legal (o_tstate o1) t)
          then (False, log_msg Log_Error None
                  (''illegal transition state '' @ debug_transition (o_tstate o1) @ '' -> ''
                     @ debug_transition (unwrap_or tstate (o_tstate o1)) @ '' refused'') m)
          else
            let p = unwrap_or phase (o_phase o1);
                t = unwrap_or tstate (o_tstate o1);
                changed = p \<noteq> o_phase o1 \<or> t \<noteq> o_tstate o1;
                m = m\<lparr>m_op := Some (o1\<lparr>o_phase := p, o_tstate := t\<rparr>)\<rparr>
            in (True, if changed then emit_op m else m))"

definition op_authorising :: "manager \<Rightarrow> manager" where
  "op_authorising m = snd (op_set (Some Ph_Authorising) (Some Tr_WaitingForAuth) m)"

section \<open>Ending an operation\<close>

text \<open>The loop \<^verbatim>\<open>while history.len() > history_len { history.pop_front(); }\<close>.\<close>

fun trim_front :: "nat \<Rightarrow> 'a list \<Rightarrow> 'a list" where
  "trim_front n [] = []"
| "trim_front n (x # xs) = (if length (x # xs) > n then trim_front n xs else x # xs)"

definition push_history :: "operation_info \<Rightarrow> manager \<Rightarrow> manager" where
  "push_history i m = m\<lparr>m_history := trim_front (pol_history_len (m_policy m)) (m_history m @ [i])\<rparr>"

definition drop_challenge_of :: "operation_id \<Rightarrow> error_code \<Rightarrow> manager \<Rightarrow> manager" where
  "drop_challenge_of oid code m =
     (case m_challenge m of
        None \<Rightarrow> m
      | Some c \<Rightarrow>
          if c_op c = oid
          then push (Fx_Greeter (SMsg_AuthResult (c_id c) False (Some code) ''the request ended''))
                 (push (Fx_Helper (HReq_AuthAbort (c_helper_req c)))
                   (push (Fx_CancelTimer (Tmr_Auth (c_id c))) (m\<lparr>m_challenge := None\<rparr>)))
          else m)"

definition op_finish ::
  "operation_phase \<Rightarrow> transition_state \<Rightarrow> error_code option \<Rightarrow> manager \<Rightarrow> manager" where
  "op_finish phase tstate reason m =
     (case m_op m of
        None \<Rightarrow> m
      | Some op0 \<Rightarrow>
          let m = m\<lparr>m_op := None\<rparr>;
              m = drop_challenge_of (o_id op0) (unwrap_or reason E_Cancelled) m;
              m = (if \<not> phase_legal (o_phase op0) phase \<and> o_phase op0 \<noteq> phase
                   then log_msg Log_Error None
                          (''illegal final phase '' @ debug_phase (o_phase op0) @ '' -> ''
                             @ debug_phase phase @ ''; forcing the final state'') m
                   else m);
              op1 = op0\<lparr>o_phase := phase, o_reason := reason\<rparr>;
              op2 = (if transition_legal (o_tstate op1) tstate \<or> o_tstate op1 = tstate
                     then op1\<lparr>o_tstate := tstate\<rparr> else op1);
              m = (emit_op (m\<lparr>m_op := Some op2\<rparr>))\<lparr>m_op := None\<rparr>;
              m = push (Fx_Dbus (Sig_OperationFinished (o_id op2) (phase = Ph_Completed) reason)) m;
              m = fold (\<lambda>t. push (Fx_CancelTimer t))
                    [Tmr_Transition (o_id op2), Tmr_Frames (o_id op2), Tmr_Checks (o_id op2),
                     Tmr_Power (o_id op2)] m;
              info = (if phase = Ph_Completed then (op_info op2)\<lparr>oi_state := Tr_Idle\<rparr> else op_info op2);
              m = push_history info m
          in log_msg Log_Info (map_option fst (o_session op2))
               (''operation '' @ show_nat (unat (o_id op2)) @ '' finished: '' @ debug_phase phase @ '' ''
                  @ debug_opt_error reason) m)"

definition op_complete :: "manager \<Rightarrow> manager" where
  "op_complete m = op_finish Ph_Completed Tr_Idle None m"

definition op_fail :: "error_code \<Rightarrow> manager \<Rightarrow> manager" where
  "op_fail code m = op_finish Ph_Failed Tr_Failed (Some code) m"

definition op_cancelled :: "manager \<Rightarrow> manager" where
  "op_cancelled m = op_finish Ph_Cancelled Tr_Cancelled (Some E_Cancelled) m"

definition op_end_failed :: "operation_id \<Rightarrow> error_code \<Rightarrow> manager \<Rightarrow> manager" where
  "op_end_failed oid code m =
     (if is_none_or (m_op m) (\<lambda>o1. o_id o1 \<noteq> oid) then m
      else if code = E_Cancelled then op_cancelled m
      else op_fail code m)"

definition op_abort :: "error_code \<Rightarrow> manager \<Rightarrow> manager" where
  "op_abort code m =
     (case m_op m of
        None \<Rightarrow> m
      | Some o1 \<Rightarrow>
          let m = (if o_began o1 then push (Fx_Scene (Cmd_CancelTransition (o_id o1))) m else m);
              m = push (Fx_Scene Cmd_ShowGreeterOnly) m
          in op_fail code m)"

text \<open>\<^verbatim>\<open>Manager::fail_challenge\<close> of \<^verbatim>\<open>core/auth.rs\<close>: end the conversation without success.\<close>

definition fail_challenge :: "error_code \<Rightarrow> string \<Rightarrow> manager \<Rightarrow> manager" where
  "fail_challenge code msg m =
     (case m_challenge m of
        None \<Rightarrow> m
      | Some c \<Rightarrow>
          let m = m\<lparr>m_challenge := None\<rparr>;
              m = push (Fx_CancelTimer (Tmr_Auth (c_id c))) m;
              m = push (Fx_Helper (HReq_AuthAbort (c_helper_req c))) m;
              m = push (Fx_Greeter (SMsg_AuthResult (c_id c) False (Some code) msg)) m
          in op_end_failed (c_op c) code m)"

definition greeter_error :: "u64 option \<Rightarrow> error_code \<Rightarrow> string \<Rightarrow> manager \<Rightarrow> manager" where
  "greeter_error req code msg = push (Fx_Greeter (SMsg_Error req code msg))"

section \<open>Cleanup of a session\<close>

definition set_input_owner :: "input_owner \<Rightarrow> manager \<Rightarrow> manager" where
  "set_input_owner w m = push (Fx_Scene (Cmd_SetInputOwner w)) (m\<lparr>m_input_owner := w\<rparr>)"

definition begin_cleanup :: "session_id \<Rightarrow> session_state \<Rightarrow> manager \<Rightarrow> manager" where
  "begin_cleanup sid to m =
     (case session_of m sid of
        None \<Rightarrow> m
      | Some s \<Rightarrow>
          let gn = s_generation s; armed = s_armed_stage s; (ok, m) = set_session_state sid to m in
          if \<not> ok then m
          else
            let m = (case armed of None \<Rightarrow> m | Some st \<Rightarrow> push (Fx_CancelTimer (Tmr_Stage sid gn st)) m);
                m = modify_session sid (\<lambda>s. s\<lparr>s_armed_stage := None\<rparr>) m;
                m = push (Fx_CancelTimer (Tmr_Recovery sid gn)) m;
                m = push (Fx_Scene (Cmd_Protect sid gn)) m;
                m = push (Fx_Helper (HReq_CloseSession sid gn (pol_close_grace_ms (m_policy m)))) m;
                m = push (Fx_SetTimer (Tmr_Close sid gn)
                      (pol_close_timeout (m_policy m) + from_millis (unat (pol_close_grace_ms (m_policy m))))) m;
                m = (if m_foreground m = Some sid then m\<lparr>m_foreground := None\<rparr> else m);
                m = m\<lparr>m_protected := m_protected m - {sid}\<rparr>
            in if m_input_owner m = Own_Session sid then set_input_owner Own_Greeter m else m)"

section \<open>Gate for new operations, cancellation\<close>

text \<open>\<^verbatim>\<open>Manager::cancel_power_checks\<close> of \<^verbatim>\<open>core/power.rs\<close>.\<close>

definition cancel_power_checks :: "manager \<Rightarrow> manager" where
  "cancel_power_checks m =
     (case m_op m of None \<Rightarrow> m | Some o1 \<Rightarrow> push (Fx_CancelTimer (Tmr_Checks (o_id o1))) m)"

definition cancel_immediate :: "manager \<Rightarrow> manager" where
  "cancel_immediate m =
     (case m_op m of
        None \<Rightarrow> m
      | Some o1 \<Rightarrow>
          (case o_kind o1 of
             Op_Reveal \<Rightarrow>
               if is_some_and (m_challenge m) (\<lambda>c. c_op c = o_id o1)
               then fail_challenge E_Cancelled ''cancelled'' m
               else op_cancelled
                 (if is_new_login o1 then
                    (case o_session o1 of
                       Some (sid, gn) \<Rightarrow>
                         if is_some_and (session_of m sid) (\<lambda>s. s_generation s = gn \<and> launching s)
                         then begin_cleanup sid St_Stopping m else m
                     | None \<Rightarrow> m)
                  else m)
           | Op_Power \<Rightarrow> op_cancelled (cancel_power_checks m)
           | _ \<Rightarrow> op_cancelled m))"

definition is_lock_kind :: "op_kind \<Rightarrow> bool" where
  "is_lock_kind k \<longleftrightarrow> k = Op_Lock \<or> k = Op_SwitchUser"

definition interrupt_current :: "manager \<Rightarrow> unit result \<times> manager" where
  "interrupt_current m =
     (case m_op m of
        None \<Rightarrow> (Inr (), m)
      | Some o1 \<Rightarrow>
          if o_committed o1 \<or> o_began o1 \<or> is_lock_kind (o_kind o1)
          then (Err E_Busy ''another transition is running'', m)
          else (Inr (), cancel_immediate m))"

definition session_may_not_preempt :: "requester \<Rightarrow> manager \<Rightarrow> unit result" where
  "session_may_not_preempt req m =
     (case req of
        Req_Session _ \<Rightarrow>
          if m_op m \<noteq> None then Err E_Busy ''another operation is in progress'' else Inr ()
      | _ \<Rightarrow> Inr ())"

definition cancel_operation :: "requester \<Rightarrow> operation_id \<Rightarrow> manager \<Rightarrow> unit result \<times> manager" where
  "cancel_operation who oid m =
     (case m_op m of
        None \<Rightarrow>
          if (who = Req_Greeter \<or> who = Req_Root) \<and> m_retained_failure m \<noteq> None
          then (Inr (), m\<lparr>m_retained_failure := None\<rparr>)
          else (Err E_NoSession ''no such operation'', m)
      | Some o1 \<Rightarrow>
          if o_id o1 \<noteq> oid then (Err E_NoSession ''no such operation'', m)
          else if who \<noteq> Req_Root \<and> who \<noteq> o_requester o1
          then (Err E_Unauthorised ''only the requester may cancel this operation'', m)
          else if o_committed o1
          then (Err E_Busy ''the operation is past the point of no return'', m)
          else if is_lock_kind (o_kind o1) then (Err E_Busy ''a lock cannot be cancelled'', m)
          else if o_began o1
          then (Inr (),
                if \<not> o_cancel_requested o1
                then modify_op (\<lambda>x. x\<lparr>o_cancel_requested := True\<rparr>)
                       (push (Fx_Scene (Cmd_CancelTransition (o_id o1))) m)
                else m)
          else (Inr (), cancel_immediate m))"

section \<open>Compositor transitions and the reveal gate\<close>

definition begin_transition ::
  "transition_kind \<Rightarrow> (session_id \<times> generation) option \<Rightarrow> (session_id \<times> generation) option
     \<Rightarrow> power_action option \<Rightarrow> manager \<Rightarrow> manager" where
  "begin_transition kind src tgt pwr m =
     (case m_op m of
        None \<Rightarrow> m
      | Some o1 \<Rightarrow>
          let oid = o_id o1;
              ms = duration_ms (m_policy m) kind;
              uid = map_option s_uid (Option.bind (or_else tgt src) (\<lambda>(s, _). session_of m s));
              user_reduces = is_some_and (Option.bind uid (\<lambda>u. btm_get (m_users m) u))
                               (\<lambda>u. app_reduce_motion (up_appearance (ue_profile u)));
              reduce = pol_reduce_motion (m_policy m) \<or> user_reduces;
              m = push (Fx_Scene (Cmd_BeginTransition oid kind src tgt ms reduce pwr)) m;
              m = push (Fx_CancelTimer (Tmr_Frames oid)) m;
              m = push (Fx_SetTimer (Tmr_Transition oid)
                    (from_millis (unat ms) + pol_transition_grace (m_policy m))) m;
              m = modify_op (\<lambda>x. x\<lparr>o_began := True, o_transition := kind\<rparr>) m
          in snd (op_set None (Some Tr_Prepared) m))"

text \<open>\<^verbatim>\<open>Manager::surfaces_ready\<close> of \<^verbatim>\<open>core/session.rs\<close>: every current output has an acknowledged
  surface with a presented frame, newer than the evidence base if there is one.\<close>

definition evidence_for :: "session \<Rightarrow> string \<Rightarrow> surface_evidence option" where
  "evidence_for s n = List.find (\<lambda>e. ev_output e = n) (s_surfaces s)"

definition surfaces_ready :: "manager \<Rightarrow> session \<Rightarrow> bool" where
  "surfaces_ready m s \<longleftrightarrow>
     is_none_or (s_evidence_base s)
       (\<lambda>base. list_all
          (\<lambda>out. is_some_and (evidence_for s (out_name out))
             (\<lambda>e. ev_presented_frames e > unwrap_or (btm_get base (out_name out)) 0)) (m_outputs m))
     \<and> s_host_connected s
     \<and> m_outputs m \<noteq> []
     \<and> list_all
         (\<lambda>out. list_ex (\<lambda>e. ev_output e = out_name out \<and> ev_acked e \<and> ev_presented_frames e \<ge> 1)
            (s_surfaces s)) (m_outputs m)"

definition fail_launch_ready :: "session_id \<Rightarrow> error_code \<Rightarrow> string \<Rightarrow> manager \<Rightarrow> manager" where
  "fail_launch_ready sid code msg m =
     op_fail code (begin_cleanup sid St_Failed
       (log_msg Log_Error (Some sid) (''reveal refused: '' @ msg) m))"

definition try_reveal :: "manager \<Rightarrow> manager" where
  "try_reveal m =
     (case m_op m of
        None \<Rightarrow> m
      | Some o1 \<Rightarrow>
          if o_kind o1 \<noteq> Op_Reveal \<or> o_tstate o1 \<noteq> Tr_WaitingForFrames \<or> o_began o1 then m
          else case o_session o1 of
            None \<Rightarrow> m
          | Some (sid, gn) \<Rightarrow>
              (case session_gen m sid gn of
                 None \<Rightarrow> op_fail E_StaleGeneration m
               | Some s \<Rightarrow>
                   if \<not> is_revealable (s_state s) then m
                   else
                     let epoch_ok = \<not> (o_new_login o1 \<and>
                            is_some_and (la_configured_epoch (s_launch s)) (\<lambda>e. e \<noteq> m_outputs_epoch m));
                         ready = g_wayland (m_greeter m) \<and> greeter_authoritative m \<and> surfaces_ready m s
                     in if \<not> epoch_ok
                        then fail_launch_ready sid E_OutputNotReady ''the displays changed before the reveal'' m
                        else if \<not> ready
                        then (if \<not> o_frames_armed o1
                              then modify_op (\<lambda>x. x\<lparr>o_frames_armed := True\<rparr>)
                                     (push (Fx_SetTimer (Tmr_Frames (o_id o1)) (pol_frames_timeout (m_policy m))) m)
                              else m)
                        else begin_transition
                               (if o_new_login o1 then Kind_NewLoginFade else Kind_UnlockSlideUp)
                               None (Some (sid, gn)) None m))"

definition on_frames_timeout :: "operation_id \<Rightarrow> manager \<Rightarrow> manager" where
  "on_frames_timeout oid m =
     (case m_op m of
        None \<Rightarrow> m
      | Some o1 \<Rightarrow>
          if o_id o1 \<noteq> oid \<or> o_began o1 \<or> o_tstate o1 \<noteq> Tr_WaitingForFrames then m
          else
            op_fail (if g_wayland (m_greeter m) then E_OutputNotReady else E_Timeout)
              (log_msg Log_Error (map_option fst (o_session o1)) ''reveal gate not satisfied in time'' m))"

section \<open>Protecting a session\<close>

definition begin_protect :: "session_id \<Rightarrow> generation \<Rightarrow> manager \<Rightarrow> manager" where
  "begin_protect sid gn m =
     (let m = (if m_input_owner m = Own_Session sid then set_input_owner Own_None m else m);
          m = (if is_some_and (session_of m sid) (\<lambda>s. s_state s = St_Foreground)
               then snd (set_session_state sid St_LockRequested m) else m);
          m = push (Fx_Scene (Cmd_Protect sid gn)) m
      in push (Fx_SetTimer (Tmr_Protect sid gn) (pol_protect_timeout (m_policy m))) m)"

definition set_locked_hint :: "session_id \<Rightarrow> bool \<Rightarrow> manager \<Rightarrow> manager" where
  "set_locked_hint sid locked m =
     (case session_of m sid of
        None \<Rightarrow> m
      | Some s \<Rightarrow>
          if s_logind s = None then m
          else let (req, m) = helper_req m
               in push (Fx_Helper (HReq_SetLockedHint req sid (s_generation s) locked)) m)"

end
