(* ===== verification/Core_Power.thy ===== *)
theory Core_Power
  imports Core_Ops
begin

text \<open>
  \<^verbatim>\<open>bsm/manager/src/core/power.rs\<close>: suspend, reboot, power off and sleep preparation.
\<close>

section \<open>Requesting a power action\<close>

definition SLEEP_TIMER_OP :: operation_id where
  "SLEEP_TIMER_OP = 0"

definition action_id :: "power_action \<Rightarrow> caller option \<Rightarrow> manager \<Rightarrow> string" where
  "action_id action cal m =
     (let base = (case action of Pw_Suspend \<Rightarrow> ''suspend'' | Pw_Reboot \<Rightarrow> ''reboot''
                  | Pw_PowerOff \<Rightarrow> ''power-off'');
          own = map_option cal_uid cal;
          multiple = any_session (\<lambda>s. is_running (s_state s) \<and> Some (s_uid s) \<noteq> own) m
      in if multiple then ''org.freedesktop.login1.'' @ base @ ''-multiple-sessions''
         else ''org.freedesktop.login1.'' @ base)"

definition is_session_requester :: "requester \<Rightarrow> bool" where
  "is_session_requester r \<longleftrightarrow> (case r of Req_Session _ \<Rightarrow> True | _ \<Rightarrow> False)"

definition request_power ::
  "requester \<Rightarrow> power_action \<Rightarrow> caller option \<Rightarrow> manager \<Rightarrow> operation_id result \<times> manager" where
  "request_power req action cal m =
     (if power_committed m then (Err E_Busy ''the system is already shutting down'', m)
      else
        let needs_polkit = is_session_requester req in
        if needs_polkit \<and> cal = None then (Err E_Unauthorised ''unknown caller'', m)
        else case session_may_not_preempt req m of
          Inl e \<Rightarrow> (Inl e, m)
        | Inr _ \<Rightarrow>
            (case interrupt_current m of
               (Inl e, m) \<Rightarrow> (Inl e, m)
             | (Inr _, m) \<Rightarrow>
                 let (oid, m) = new_operation Op_Power req None m;
                     m = modify_op (\<lambda>x. x\<lparr>o_action := Some action,
                             o_transition := (if action = Pw_Suspend then Kind_Suspend else Kind_PowerFade),
                             o_polkit := (if needs_polkit then None else Some True)\<rparr>) m;
                     m = snd (op_set (Some Ph_Authorising) (Some Tr_WaitingForAuth) m);
                     m = (case cal of
                            Some c \<Rightarrow>
                              if needs_polkit then
                                let aid = action_id action (Some c) m;
                                    logind = (case req of
                                                Req_Session sid \<Rightarrow> Option.bind (session_of m sid) s_logind
                                              | _ \<Rightarrow> None)
                                in push (Fx_Polkit oid aid c logind) m
                              else m
                          | None \<Rightarrow> m);
                     m = push (Fx_QueryInhibitors oid action) m;
                     m = push (Fx_SetTimer (Tmr_Checks oid) (pol_check_timeout (m_policy m))) m
                 in (Inr oid, m)))"

section \<open>Checks\<close>

text \<open>Protect every session that is on screen or about to be; the result is the set whose
  acknowledgement is still awaited.\<close>

definition protect_one :: "session_id \<times> generation \<times> u32 \<times> session_state \<Rightarrow> manager \<Rightarrow> manager" where
  "protect_one v m =
     (case v of (sid, gn, uid, st) \<Rightarrow>
        if st = St_Foreground then begin_protect sid gn (m\<lparr>m_selected_uid := Some uid\<rparr>) else m)"

definition visible_sessions :: "manager \<Rightarrow> (session_id \<times> generation \<times> u32 \<times> session_state) list" where
  "visible_sessions m =
     map (\<lambda>s. (s_id s, s_generation s, s_uid s, s_state s))
       (filter (\<lambda>s. on_screen (s_state s)) (btm_values (m_sessions m)))"

definition protect_visible_sessions :: "manager \<Rightarrow> (session_id \<times> generation) set \<times> manager" where
  "protect_visible_sessions m =
     (set (map (\<lambda>(sid, gn, _, _). (sid, gn)) (visible_sessions m)),
      fold protect_one (visible_sessions m) m)"

definition suspend_scene_ready :: "manager \<Rightarrow> manager" where
  "suspend_scene_ready m =
     modify_op (\<lambda>x. x\<lparr>o_locked_scene_ready := True\<rparr>)
       (begin_transition Kind_Suspend None None (Some Pw_Suspend) (set_input_owner Own_Greeter m))"

definition power_checks_done :: "manager \<Rightarrow> manager" where
  "power_checks_done m =
     (case m_op m of
        None \<Rightarrow> m
      | Some o1 \<Rightarrow>
          if o_polkit o1 \<noteq> Some True \<or> o_inhibitors o1 = None then m
          else
            let m = push (Fx_CancelTimer (Tmr_Checks (o_id o1))) m;
                m = snd (op_set (Some Ph_Preparing) (Some Tr_WaitingForFrames) m);
                action = unwrap_or (o_action o1) Pw_PowerOff
            in if action = Pw_Suspend then
                 let (waiting, m) = protect_visible_sessions m;
                     m = modify_op (\<lambda>x. x\<lparr>o_waiting_protect := waiting\<rparr>) m
                 in if waiting = {} then suspend_scene_ready m else m
               else
                 let src = map_option (\<lambda>s. (s_id s, s_generation s))
                             (List.find (\<lambda>s. s_state s = St_Foreground) (btm_values (m_sessions m)))
                 in begin_transition Kind_PowerFade src None (Some action) m)"

definition on_polkit :: "operation_id \<Rightarrow> bool \<Rightarrow> manager \<Rightarrow> manager" where
  "on_polkit oid authorised m =
     (if is_some_and (m_op m) (\<lambda>o1. o_id o1 = oid \<and> o_kind o1 = Op_Power \<and> o_polkit o1 = None)
      then
        let m = modify_op (\<lambda>x. x\<lparr>o_polkit := Some authorised\<rparr>) m in
        if \<not> authorised
        then op_fail E_Unauthorised (log_msg Log_Warn None ''power action denied by polkit'' m)
        else power_checks_done m
      else m)"

fun join_with :: "string \<Rightarrow> string list \<Rightarrow> string" where
  "join_with sep [] = []"
| "join_with sep [x] = x"
| "join_with sep (x # y # ys) = x @ sep @ join_with sep (y # ys)"

definition is_blocker :: "string \<Rightarrow> inhibitor \<Rightarrow> bool" where
  "is_blocker what i \<longleftrightarrow>
     inh_mode i = ''block'' \<and> list_ex (\<lambda>w. w = what) (split_on (CHR '':'') (inh_what i))"

definition on_inhibitors :: "operation_id \<Rightarrow> inhibitor list result \<Rightarrow> manager \<Rightarrow> manager" where
  "on_inhibitors oid res m =
     (case opt_filter (\<lambda>o1. o_id o1 = oid \<and> o_kind o1 = Op_Power \<and> o_inhibitors o1 = None) (m_op m) of
        None \<Rightarrow> m
      | Some o1 \<Rightarrow>
          let action = unwrap_or (o_action o1) Pw_PowerOff in
          (case res of
             Inl e \<Rightarrow>
               op_fail E_LogindFailure
                 (log_msg Log_Error None (''inhibitor query failed: '' @ err_message e) m)
           | Inr xs \<Rightarrow>
               let what = (if action = Pw_Suspend then ''sleep'' else ''shutdown'');
                   blockers = filter (is_blocker what) xs
               in if blockers \<noteq> [] then
                    let msg = ''Blocked by: '' @ join_with '', '' (map inh_who blockers);
                        m = (if o_requester o1 = Req_Greeter then greeter_error None E_Inhibited msg m else m);
                        m = log_msg Log_Warn None msg m
                    in op_fail E_Inhibited m
                  else power_checks_done (modify_op (\<lambda>x. x\<lparr>o_inhibitors := Some []\<rparr>) m)))"

definition on_checks_timeout :: "operation_id \<Rightarrow> manager \<Rightarrow> manager" where
  "on_checks_timeout oid m =
     (if is_some_and (m_op m)
           (\<lambda>o1. o_id o1 = oid \<and> o_kind o1 = Op_Power \<and> o_tstate o1 = Tr_WaitingForAuth)
      then op_fail E_Timeout
             (log_msg Log_Error None ''polkit or the inhibitor query did not answer in time'' m)
      else m)"

section \<open>The system call and its answer\<close>

definition commit_power :: "manager \<Rightarrow> manager" where
  "commit_power m =
     (case m_op m of
        None \<Rightarrow> m
      | Some o1 \<Rightarrow>
          let action = unwrap_or (o_action o1) Pw_PowerOff;
              m = (if action \<noteq> Pw_Suspend then set_input_owner Own_None m else m);
              m = push (Fx_SystemPower (o_id o1) action) m;
              m = push (Fx_SetTimer (Tmr_Power (o_id o1)) (pol_power_timeout (m_policy m))) m
          in snd (op_set (Some Ph_Committed) (Some Tr_Committed) m))"

definition on_power_result :: "operation_id \<Rightarrow> unit result \<Rightarrow> manager \<Rightarrow> manager" where
  "on_power_result oid res m =
     (case opt_filter (\<lambda>o1. o_id o1 = oid \<and> o_kind o1 = Op_Power \<and> o_committed o1
                          \<and> o_pending_fail o1 = None) (m_op m) of
        None \<Rightarrow> m
      | Some o1 \<Rightarrow>
          let action = unwrap_or (o_action o1) Pw_PowerOff in
          (case res of
             Inr _ \<Rightarrow>
               op_complete (if action \<noteq> Pw_Suspend then m\<lparr>m_shutting_down := True\<rparr> else m)
           | Inl e \<Rightarrow>
               let m = log_msg Log_Error None
                         (''logind refused '' @ debug_power action @ '': '' @ err_message e) m;
                   code = (if err_code e = E_Unauthorised \<or> err_code e = E_Inhibited
                           then err_code e else E_ShutdownRejected)
               in if action \<noteq> Pw_Suspend then
                    let m = modify_op (\<lambda>x. x\<lparr>o_pending_fail := Some code, o_cancel_requested := True\<rparr>) m;
                        m = push (Fx_Scene (Cmd_CancelTransition oid)) m
                    in push (Fx_SetTimer (Tmr_Power oid) (pol_transition_grace (m_policy m))) m
                  else op_fail code m))"

definition rollback_power_scene :: "manager \<Rightarrow> manager" where
  "rollback_power_scene m =
     (case m_op m of
        None \<Rightarrow> m
      | Some o1 \<Rightarrow>
          if o_kind o1 \<noteq> Op_Power \<or> o_action o1 = Some Pw_Suspend \<or> \<not> o_committed o1 then m
          else
            let prev = o_prev_input o1;
                restorable = (case prev of
                    Own_Session s \<Rightarrow>
                      is_some_and (session_of m s) (\<lambda>x. s_state x = St_Foreground) \<and> s \<notin> m_protected m
                  | _ \<Rightarrow> True)
            in set_input_owner (if restorable then prev else Own_Greeter) m)"

section \<open>Sleep preparation\<close>

definition finish_sleep_prep :: "manager \<Rightarrow> manager" where
  "finish_sleep_prep m =
     (let m = m\<lparr>m_sleep_prep := None\<rparr>;
          m = push (Fx_CancelTimer (Tmr_Power SLEEP_TIMER_OP)) m;
          m = (if greeter_authoritative m then set_input_owner Own_Greeter m else m);
          m = push (Fx_Scene Cmd_ShowGreeterOnly) m
      in push Fx_SleepReady m)"

definition maybe_sleep_ready :: "manager \<Rightarrow> manager" where
  "maybe_sleep_ready m = (if m_sleep_prep m = Some {} then finish_sleep_prep m else m)"

definition on_power_timeout :: "operation_id \<Rightarrow> manager \<Rightarrow> manager" where
  "on_power_timeout oid m =
     (if oid = SLEEP_TIMER_OP then
        (if m_sleep_prep m \<noteq> None
         then finish_sleep_prep
                (log_msg Log_Error None
                   ''sleep preparation timed out; sessions were hidden and protection was requested'' m)
         else m)
      else if is_some_and (m_op m) (\<lambda>o1. o_id o1 = oid \<and> o_pending_fail o1 \<noteq> None) then
        let m = log_msg Log_Error None ''the compositor did not confirm the restored scene in time'' m;
            m = rollback_power_scene m;
            code = unwrap_or (Option.bind (m_op m) o_pending_fail) E_ShutdownRejected
        in op_fail code m
      else on_power_result oid (Err E_Timeout ''logind did not answer'') m)"

definition on_prepare_for_sleep :: "bool \<Rightarrow> manager \<Rightarrow> manager" where
  "on_prepare_for_sleep start m =
     (if start then
        if is_some_and (m_op m) (\<lambda>o1. o_kind o1 = Op_Power \<and> o_action o1 = Some Pw_Suspend \<and> o_committed o1)
        then push Fx_SleepReady m
        else if m_sleep_prep m \<noteq> None then m
        else
          let m = (if is_some_and (m_op m) (\<lambda>o1. o_began o1 \<and> \<not> o_committed o1)
                   then op_abort E_TransitionInterrupted m
                   else if is_some_and (m_op m) (\<lambda>o1. \<not> o_committed o1 \<and> \<not> o_began o1)
                   then snd (interrupt_current m)
                   else m);
              (waiting, m) = protect_visible_sessions m;
              m = m\<lparr>m_sleep_prep := Some waiting\<rparr>;
              m = push (Fx_SetTimer (Tmr_Power SLEEP_TIMER_OP) (pol_protect_timeout (m_policy m) * 2)) m
          in maybe_sleep_ready m
      else
        let m = push (Fx_Scene (Cmd_SetDpms True)) m;
            prot = map (\<lambda>s. (s_id s, s_generation s))
                     (filter (\<lambda>s. is_protected (s_state s)) (btm_values (m_sessions m)));
            m = fold (\<lambda>(sid, gn). push (Fx_Scene (Cmd_Protect sid gn))) prot m
        in if m_op m = None \<and> greeter_authoritative m
           then set_input_owner Own_Greeter (push (Fx_Scene Cmd_ShowGreeterOnly) m)
           else m)"

end
