(* ===== verification/Core_Transitions.thy ===== *)
theory Core_Transitions
  imports Core_Power
begin

text \<open>
  The part of \<^verbatim>\<open>bsm/manager/src/core/ops.rs\<close> that drives a transition from request to end: lock and
  switch user, the compositor's transition events with the commit of each kind of operation, and
  logout of visible and hidden sessions.
\<close>

section \<open>Lock and switch user\<close>

definition request_lock ::
  "requester \<Rightarrow> session_id \<Rightarrow> op_kind \<Rightarrow> manager \<Rightarrow> operation_id result \<times> manager" where
  "request_lock req sid kind m =
     (case session_of m sid of
        None \<Rightarrow> (Err E_NoSession ''no such session'', m)
      | Some s \<Rightarrow>
          if s_state s = St_LockRequested \<or> s_state s = St_LockedBackground
             \<or> s_state s = St_LockedGreeterForeground
          then (Err E_AlreadyLocked ''the session is already locked'', m)
          else if s_state s \<noteq> St_Foreground
          then (Err E_Busy ''the session is not in the foreground'', m)
          else case session_may_not_preempt req m of
            Inl e \<Rightarrow> (Inl e, m)
          | Inr _ \<Rightarrow>
              (case interrupt_current m of
                 (Inl e, m) \<Rightarrow> (Inl e, m)
               | (Inr _, m) \<Rightarrow>
                   let gn = s_generation s;
                       (oid, m) = new_operation kind req (Some (sid, gn)) m;
                       m = snd (op_set (Some Ph_Preparing) (Some Tr_WaitingForFrames) m);
                       m = modify_op (\<lambda>x. x\<lparr>o_waiting_protect := insert (sid, gn) (o_waiting_protect x)\<rparr>) m;
                       m = m\<lparr>m_selected_uid := Some (s_uid s)\<rparr>;
                       m = (if kind = Op_SwitchUser then m\<lparr>m_switching_user := True\<rparr> else m)
                   in (Inr oid, begin_protect sid gn m)))"

text \<open>Input goes to the greeter before any pixel of it is shown.\<close>

definition lock_scene_ready :: "manager \<Rightarrow> manager" where
  "lock_scene_ready m =
     (case m_op m of
        None \<Rightarrow> m
      | Some o1 \<Rightarrow>
          modify_op (\<lambda>x. x\<lparr>o_locked_scene_ready := True\<rparr>)
            (begin_transition (o_transition o1) (o_session o1) None None
              (set_input_owner Own_Greeter m)))"

text \<open>The first half of \<^verbatim>\<open>on_protected\<close>: the session is acknowledged as protected.\<close>

definition acknowledge_protect :: "session_id \<Rightarrow> generation \<Rightarrow> u32 \<Rightarrow> manager \<Rightarrow> manager" where
  "acknowledge_protect sid gn uid m =
     (let m = push (Fx_CancelTimer (Tmr_Protect sid gn)) m;
          m = m\<lparr>m_protected := insert sid (m_protected m)\<rparr>;
          nxt = (if m_selected_uid m = Some uid \<and> greeter_target m = None
                 then St_LockedGreeterForeground else St_LockedBackground);
          m = snd (set_session_state sid nxt m);
          m = set_locked_hint sid True m
      in modify_op (\<lambda>x. x\<lparr>o_waiting_protect := o_waiting_protect x - {(sid, gn)}\<rparr>) m)"

text \<open>The second half: the operation that waited for the last acknowledgement goes on.\<close>

definition protect_done :: "manager \<Rightarrow> manager" where
  "protect_done m =
     (case m_op m of
        None \<Rightarrow> m
      | Some o1 \<Rightarrow>
          if o_waiting_protect o1 = {} \<and> o_tstate o1 = Tr_WaitingForFrames then
            if is_lock_kind (o_kind o1) then lock_scene_ready m
            else if o_kind o1 = Op_Power \<and> o_action o1 = Some Pw_Suspend then suspend_scene_ready m
            else m
          else m)"

definition sleep_prep_done :: "session_id \<Rightarrow> generation \<Rightarrow> manager \<Rightarrow> manager" where
  "sleep_prep_done sid gn m =
     (case m_sleep_prep m of
        None \<Rightarrow> m
      | Some S \<Rightarrow> maybe_sleep_ready (m\<lparr>m_sleep_prep := Some (S - {(sid, gn)})\<rparr>))"

definition on_protected :: "session_id \<Rightarrow> generation \<Rightarrow> manager \<Rightarrow> manager" where
  "on_protected sid gn m =
     (case session_gen m sid gn of
        None \<Rightarrow> log_msg Log_Warn (Some sid) ''stale Protected ignored'' m
      | Some s \<Rightarrow>
          if s_state s = St_LockedBackground \<or> s_state s = St_LockedGreeterForeground then m
          else if s_state s \<noteq> St_LockRequested
          then log_msg Log_Warn (Some sid) ''Protected for a session that did not ask for it ignored'' m
          else sleep_prep_done sid gn (protect_done (acknowledge_protect sid gn (s_uid s) m)))"

text \<open>Fail closed: the desktop is hidden at once and protection is asked for again.\<close>

definition on_protect_timeout :: "session_id \<Rightarrow> generation \<Rightarrow> manager \<Rightarrow> manager" where
  "on_protect_timeout sid gn m =
     (if \<not> is_some_and (session_gen m sid gn) (\<lambda>s. s_state s = St_LockRequested) then m
      else
        let m = log_msg Log_Error (Some sid) ''the compositor did not acknowledge Protect in time'' m;
            m = push (Fx_Scene Cmd_ShowGreeterOnly) m;
            m = push (Fx_Scene (Cmd_Protect sid gn)) m;
            m = push (Fx_SetTimer (Tmr_Protect sid gn) (pol_protect_timeout (m_policy m))) m
        in if is_some_and (m_op m) (\<lambda>o1. (sid, gn) \<in> o_waiting_protect o1)
           then op_fail E_Timeout m else m)"

section \<open>Watchdog and compositor events\<close>

text \<open>Input falls back to the greeter when no session is in the foreground.\<close>

definition input_to_greeter_if_hidden :: "manager \<Rightarrow> manager" where
  "input_to_greeter_if_hidden m =
     (if m_input_owner m \<noteq> Own_Greeter
         \<and> list_all (\<lambda>s. s_state s \<noteq> St_Foreground) (btm_values (m_sessions m))
      then set_input_owner Own_Greeter m else m)"

definition on_transition_timeout :: "operation_id \<Rightarrow> manager \<Rightarrow> manager" where
  "on_transition_timeout oid m =
     (case m_op m of
        None \<Rightarrow> m
      | Some o1 \<Rightarrow>
          if o_id o1 \<noteq> oid then m
          else if o_committed o1 then
            (if o_kind o1 \<noteq> Op_Power
             then op_complete (log_msg Log_Warn None
                    ''the compositor never reported completion; finishing'' m)
             else m)
          else op_abort E_Timeout (input_to_greeter_if_hidden
                 (log_msg Log_Error None ''transition timed out; falling back to the greeter'' m)))"

text \<open>The compositor aborted and restored a safe scene. Nothing was revealed.\<close>

definition transition_failed :: "error_code \<Rightarrow> manager \<Rightarrow> manager" where
  "transition_failed code m =
     (case m_op m of
        None \<Rightarrow> m
      | Some o1 \<Rightarrow>
          op_fail code
            (case o_kind o1 of
               Op_Lock \<Rightarrow> push (Fx_Scene Cmd_ShowGreeterOnly) m
             | Op_SwitchUser \<Rightarrow> push (Fx_Scene Cmd_ShowGreeterOnly) m
             | Op_Power \<Rightarrow> rollback_power_scene m
             | Op_Reveal \<Rightarrow> input_to_greeter_if_hidden m
             | Op_Logout \<Rightarrow> input_to_greeter_if_hidden m))"

text \<open>The commit of a reveal: the only place where a session becomes the foreground.\<close>

definition commit_reveal :: "session_id \<Rightarrow> generation \<Rightarrow> manager \<Rightarrow> manager" where
  "commit_reveal sid gn m =
     (case session_of m sid of
        None \<Rightarrow> op_abort E_TransitionInterrupted (modify_op (\<lambda>x. x\<lparr>o_committed := False\<rparr>) m)
      | Some s \<Rightarrow>
          if \<not> (s_generation s = gn \<and> is_revealable (s_state s))
          then op_abort E_TransitionInterrupted (modify_op (\<lambda>x. x\<lparr>o_committed := False\<rparr>) m)
          else
            let uid = s_uid s;
                m = m\<lparr>m_fg_seq := m_fg_seq m + 1\<rparr>;
                sq = m_fg_seq m;
                m = m\<lparr>m_protected := m_protected m - {sid}\<rparr>;
                m = snd (set_session_state sid St_Foreground m);
                m = modify_session sid (\<lambda>s. s\<lparr>s_fg_seq := sq, s_ticket := None\<rparr>) m;
                m = m\<lparr>m_foreground := Some sid, m_selected_uid := Some uid,
                      m_last_used_uid := Some uid, m_switching_user := False,
                      m_retained_failure := None\<rparr>;
                m = set_input_owner (Own_Session sid) m;
                m = set_locked_hint sid False m
            in snd (op_set (Some Ph_Committed) (Some Tr_Committed) m))"

definition commit_logout :: "session_id \<Rightarrow> manager \<Rightarrow> manager" where
  "commit_logout sid m =
     (let uid = map_option s_uid (session_of m sid);
          m = set_input_owner Own_Greeter m;
          m = begin_cleanup sid St_Stopping m;
          m = (case uid of Some u \<Rightarrow> m\<lparr>m_selected_uid := Some u\<rparr> | None \<Rightarrow> m)
      in snd (op_set (Some Ph_Committed) (Some Tr_Committed) m))"

definition commit_op :: "manager \<Rightarrow> manager" where
  "commit_op m =
     (case m_op m of
        None \<Rightarrow> m
      | Some o1 \<Rightarrow>
          if o_committed o1 then m
          else
            let m = modify_op (\<lambda>x. x\<lparr>o_committed := True\<rparr>) m in
            (case o_kind o1 of
               Op_Reveal \<Rightarrow>
                 (case o_session o1 of None \<Rightarrow> m | Some (sid, gn) \<Rightarrow> commit_reveal sid gn m)
             | Op_Lock \<Rightarrow> snd (op_set (Some Ph_Committed) (Some Tr_Committed) m)
             | Op_SwitchUser \<Rightarrow> snd (op_set (Some Ph_Committed) (Some Tr_Committed) m)
             | Op_Logout \<Rightarrow>
                 (case o_session o1 of None \<Rightarrow> m | Some (sid, _) \<Rightarrow> commit_logout sid m)
             | Op_Power \<Rightarrow> commit_power m))"

definition complete_transition :: "manager \<Rightarrow> manager" where
  "complete_transition m =
     (case m_op m of
        None \<Rightarrow> m
      | Some o1 \<Rightarrow> if o_kind o1 = Op_Power then m else op_complete m)"

definition on_transition_phase :: "operation_id \<Rightarrow> transition_phase_event \<Rightarrow> manager \<Rightarrow> manager" where
  "on_transition_phase oid phase m =
     (case m_op m of
        None \<Rightarrow> log_msg Log_Warn None ''transition event with no operation ignored'' m
      | Some o1 \<Rightarrow>
          if o_id o1 \<noteq> oid
          then log_msg Log_Warn None ''transition event for another operation ignored'' m
          else if \<not> o_began o1
          then log_msg Log_Warn None ''transition event before BeginTransition ignored'' m
          else
            (case phase of
               Ev_Prepared \<Rightarrow> m
             | Ev_Animating \<Rightarrow>
                 if \<not> o_committed o1
                 then snd (op_set (Some Ph_Animating) (Some Tr_Animating) m) else m
             | Ev_Committed \<Rightarrow> commit_op m
             | Ev_Completed \<Rightarrow>
                 complete_transition (if \<not> o_committed o1 then commit_op m else m)
             | Ev_Failed \<Rightarrow> transition_failed E_TransitionInterrupted m
             | Ev_Cancelled \<Rightarrow>
                 if o_cancel_requested o1 then
                   let m = rollback_power_scene m in
                   (case Option.bind (m_op m) o_pending_fail of
                      Some code \<Rightarrow> op_fail code m
                    | None \<Rightarrow> op_cancelled m)
                 else transition_failed E_TransitionInterrupted m))"

section \<open>Logout\<close>

definition emit_bg :: "operation_id \<Rightarrow> operation_phase \<Rightarrow> error_code option \<Rightarrow> manager \<Rightarrow> manager" where
  "emit_bg oid phase reason m =
     push (Fx_Dbus (Sig_TransitionChanged oid Kind_LogoutFade phase
             (if is_final phase then Tr_Idle else Tr_Committed) reason))
       (push (Fx_Greeter (SMsg_Operation oid Kind_LogoutFade phase reason)) m)"

text \<open>A session that is not on screen is closed without taking the operation slot.\<close>

definition logout_hidden ::
  "session_id \<Rightarrow> generation \<Rightarrow> session_state \<Rightarrow> manager \<Rightarrow> operation_id result \<times> manager" where
  "logout_hidden sid gn st m =
     (if st = St_LockRequested then (Err E_Busy ''the session is being locked'', m)
      else
        let m = (if is_some_and (m_op m) (\<lambda>o1. o_session o1 = Some (sid, gn))
                 then op_abort E_TransitionInterrupted m else m)
        in if btm_contains (m_bg_logouts m) (sid, gn)
           then (Err E_Busy ''the session is already being closed'', m)
           else
             let oid = m_next_op m;
                 m = m\<lparr>m_next_op := m_next_op m + 1\<rparr>;
                 m = m\<lparr>m_bg_logouts := btm_insert (sid, gn) oid (m_bg_logouts m)\<rparr>;
                 m = emit_bg oid Ph_Committed None m;
                 m = begin_cleanup sid St_Stopping m;
                 m = (if st = St_LockedGreeterForeground
                      then push (Fx_Scene Cmd_ShowGreeterOnly) m else m)
             in (Inr oid, m))"

definition request_logout ::
  "requester \<Rightarrow> session_id \<Rightarrow> manager \<Rightarrow> operation_id result \<times> manager" where
  "request_logout req sid m =
     (case opt_filter (\<lambda>s. is_running (s_state s)) (session_of m sid) of
        None \<Rightarrow> (Err E_NoSession ''no such session'', m)
      | Some s \<Rightarrow>
          let gn = s_generation s in
          if s_state s \<noteq> St_Foreground then logout_hidden sid gn (s_state s) m
          else case session_may_not_preempt req m of
            Inl e \<Rightarrow> (Inl e, m)
          | Inr _ \<Rightarrow>
              (case interrupt_current m of
                 (Inl e, m) \<Rightarrow> (Inl e, m)
               | (Inr _, m) \<Rightarrow>
                   let (oid, m) = new_operation Op_Logout req (Some (sid, gn)) m;
                       m = snd (op_set (Some Ph_Preparing) (Some Tr_WaitingForFrames) m)
                   in (Inr oid, begin_transition Kind_LogoutFade (Some (sid, gn)) None None m)))"

text \<open>The helper reported the exit of a session closed in the background.\<close>

definition finish_bg_logout :: "session_id \<Rightarrow> generation \<Rightarrow> manager \<Rightarrow> manager" where
  "finish_bg_logout sid gn m =
     (case btm_get (m_bg_logouts m) (sid, gn) of
        None \<Rightarrow> m
      | Some oid \<Rightarrow>
          let m = m\<lparr>m_bg_logouts := btm_remove (sid, gn) (m_bg_logouts m)\<rparr>;
              m = emit_bg oid Ph_Completed None m;
              m = push (Fx_Dbus (Sig_OperationFinished oid True None)) m
          in push_history \<lparr>oi_id = oid, oi_kind = Kind_LogoutFade, oi_phase = Ph_Completed,
                           oi_state = Tr_Idle, oi_reason = None, oi_session = Some sid\<rparr> m)"

end
