(* ===== verification/Core_Session.thy ===== *)
theory Core_Session
  imports Core_Transitions
begin

text \<open>
  \<^verbatim>\<open>bsm/manager/src/core/session.rs\<close>: creation and recovery of sessions, the launch gate that turns
  host reports and compositor evidence into stages, and teardown. \<^verbatim>\<open>launch_loop\<close> is the loop of
  \<^verbatim>\<open>advance_launch\<close>; its termination measure is the number of stages not yet reached.
\<close>

section \<open>Failure and teardown\<close>

definition op_about :: "session_id \<Rightarrow> generation \<Rightarrow> manager \<Rightarrow> bool" where
  "op_about sid gn m \<longleftrightarrow> is_some_and (m_op m) (\<lambda>o1. o_session o1 = Some (sid, gn))"

definition fail_launch :: "session_id \<Rightarrow> generation \<Rightarrow> error_code \<Rightarrow> string \<Rightarrow> manager \<Rightarrow> manager" where
  "fail_launch sid gn code msg m =
     (case session_gen m sid gn of
        None \<Rightarrow> m
      | Some s \<Rightarrow>
          if \<not> launching s then m
          else
            let stg = unwrap_or (session_pending s) Stg_ReadyToReveal;
                model = map_option (progress_fail \<lparr>pf_stage = stg, pf_code = code, pf_message = msg\<rparr>)
                          (s_progress s);
                m = modify_session sid (\<lambda>s. s\<lparr>s_progress := model\<rparr>) m;
                m = log_msg Log_Error (Some sid)
                      (''launch failed at '' @ debug_stage stg @ '': '' @ debug_error_code code @ '': '' @ msg) m;
                m = m\<lparr>m_retained_failure := model\<rparr>;
                m = begin_cleanup sid St_Failed m
            in if op_about sid gn m then op_fail code m else m)"

definition terminate_session :: "session_id \<Rightarrow> manager \<Rightarrow> manager" where
  "terminate_session sid m =
     (case session_of m sid of
        None \<Rightarrow> m
      | Some s \<Rightarrow>
          let gn = s_generation s; (ok, m) = set_session_state sid St_Terminated m in
          if \<not> ok then m
          else
            let m = push (Fx_CancelTimer (Tmr_Close sid gn)) m;
                m = push (Fx_Scene (Cmd_UnregisterSession sid gn)) m;
                m = m\<lparr>m_protected := m_protected m - {sid}\<rparr>;
                m = m\<lparr>m_sessions := btm_remove sid (m_sessions m)\<rparr>;
                m = log_msg Log_Info (Some sid) ''session terminated'' m
            in finish_bg_logout sid gn m)"

definition on_close_timeout :: "session_id \<Rightarrow> generation \<Rightarrow> manager \<Rightarrow> manager" where
  "on_close_timeout sid gn m =
     (if is_some_and (session_gen m sid gn) (\<lambda>s. s_state s = St_Stopping \<or> s_state s = St_Failed)
      then terminate_session sid
             (log_msg Log_Warn (Some sid) ''session did not report its exit in time; removing it'' m)
      else m)"

text \<open>The session died or its bridge went away without being asked.\<close>

definition session_lost :: "session_id \<Rightarrow> generation \<Rightarrow> string \<Rightarrow> manager \<Rightarrow> manager" where
  "session_lost sid gn why m =
     (case session_gen m sid gn of
        None \<Rightarrow> m
      | Some s \<Rightarrow>
          if \<not> is_running (s_state s) then m
          else if launching s then fail_launch sid gn E_HelperFailure why m
          else
            let uid = s_uid s;
                was_visible = on_screen (s_state s);
                was_greeter_target = (s_state s = St_LockedGreeterForeground);
                m = log_msg Log_Error (Some sid) (''session lost: '' @ why) m;
                involved = op_about sid gn m;
                m = (if involved then op_abort E_TransitionInterrupted m else m);
                m = begin_cleanup sid St_Failed m;
                m = (if is_some_and (m_sleep_prep m) (\<lambda>S. (sid, gn) \<in> S)
                     then maybe_sleep_ready
                            (m\<lparr>m_sleep_prep := map_option (\<lambda>S. S - {(sid, gn)}) (m_sleep_prep m)\<rparr>)
                     else m);
                m = (if was_visible \<or> was_greeter_target \<or> involved then
                       let m = push (Fx_Scene Cmd_ShowGreeterOnly) m
                       in if m_input_owner m \<noteq> Own_Greeter then set_input_owner Own_Greeter m else m
                     else m);
                m = (if m_selected_uid m \<noteq> Some uid \<and> m_challenge m \<noteq> None
                     then fail_challenge E_Cancelled ''the displayed account changed'' m else m);
                m = m\<lparr>m_selected_uid := Some uid\<rparr>
            in push (Fx_Greeter (SMsg_Error None E_HelperFailure ''Your session ended unexpectedly.'')) m)"

section \<open>The launch gate\<close>

definition reach_stage :: "session_id \<Rightarrow> stage \<Rightarrow> manager \<Rightarrow> bool \<times> manager" where
  "reach_stage sid st m =
     (case Option.bind (session_of m sid) s_progress of
        None \<Rightarrow> (False, m)
      | Some p \<Rightarrow>
          let (ok, p') = progress_reach st p in
          if \<not> ok then (False, m)
          else (True, log_msg Log_Info (Some sid) (''stage reached: '' @ debug_stage st)
                        (modify_session sid (\<lambda>s. s\<lparr>s_progress := Some p'\<rparr>) m)))"

datatype eval = Eval_Reached | Eval_Wait | Eval_Count u32 u32

definition count_if :: "('a \<Rightarrow> bool) \<Rightarrow> 'a list \<Rightarrow> u32" where
  "count_if P xs = of_nat (length (filter P xs))"

definition eval_counted :: "u32 \<Rightarrow> u32 \<Rightarrow> eval" where
  "eval_counted done1 tot = (if tot > 0 \<and> done1 = tot then Eval_Reached else Eval_Count done1 tot)"

definition eval_when :: "bool \<Rightarrow> eval" where
  "eval_when b = (if b then Eval_Reached else Eval_Wait)"

definition evaluate :: "manager \<Rightarrow> session \<Rightarrow> stage \<Rightarrow> string list \<Rightarrow> eval" where
  "evaluate m s st names =
     (let tot = of_nat (length names); la = s_launch s in
      case st of
        Stg_AuthAccepted \<Rightarrow> Eval_Wait
      | Stg_PamSession \<Rightarrow> Eval_Wait
      | Stg_HostConnected \<Rightarrow> eval_when (s_host_connected s \<and> s_state s = St_GnoblinStarting)
      | Stg_GnoblinReady \<Rightarrow> eval_when (la_gnoblin_ready la)
      | Stg_OutputsConfigured \<Rightarrow>
          eval_counted
            (count_if (\<lambda>n. n \<in> la_configured la \<and> is_some_and (evidence_for s n) ev_acked) names) tot
      | Stg_BinguxLaunched \<Rightarrow> eval_when (la_bingux_launched la)
      | Stg_SurfacesMapped \<Rightarrow>
          eval_counted
            (count_if (\<lambda>n. is_some_and (btm_get (la_mapped la) n) (\<lambda>(mp, r). r > 0 \<and> mp \<ge> r)) names) tot
      | Stg_DesktopReady \<Rightarrow>
          (case la_desktop_report la of
             None \<Rightarrow> Eval_Count 0 tot
           | Some snap \<Rightarrow>
               eval_counted
                 (count_if (\<lambda>n. is_some_and (evidence_for s n)
                    (\<lambda>e. ev_acked e \<and> ev_presented_frames e > unwrap_or (btm_get snap n) 0)) names) tot)
      | Stg_ReadyToReveal \<Rightarrow> eval_when (la_configured_epoch la = Some (m_outputs_epoch m)))"

text \<open>What \<^verbatim>\<open>advance_launch\<close> does with the session once a stage is reached.\<close>

definition stage_effect :: "session_id \<Rightarrow> stage \<Rightarrow> manager \<Rightarrow> manager" where
  "stage_effect sid st m =
     (case st of
        Stg_GnoblinReady \<Rightarrow> snd (set_session_state sid St_BinguxStarting m)
      | Stg_OutputsConfigured \<Rightarrow>
          snd (set_session_state sid St_OutputReady
            (modify_session sid
              (\<lambda>s. s\<lparr>s_launch := (s_launch s)\<lparr>la_configured_epoch := Some (m_outputs_epoch m)\<rparr>\<rparr>) m))
      | Stg_ReadyToReveal \<Rightarrow> snd (set_session_state sid St_ReadyBackground m)
      | _ \<Rightarrow> m)"

text \<open>The number of stages that the launch of a session still has to reach.\<close>

definition stages_left :: "session_id \<Rightarrow> manager \<Rightarrow> nat" where
  "stages_left sid m =
     (case Option.bind (session_of m sid) s_progress of
        None \<Rightarrow> 0
      | Some p \<Rightarrow> length (filter (\<lambda>st. \<not> progress_has p st) stage_all))"

lemma session_of_modify:
  "session_of (modify_session sid f m) sid' =
     (if sid' = sid then map_option f (session_of m sid') else session_of m sid')"
  by (simp add: session_of_def modify_session_def)

lemma session_of_simps [simp]:
  "session_of (push e m) = session_of m"
  "session_of (log_msg l x t m) = session_of m"
  by (simp_all add: fun_eq_iff session_of_def push_def log_msg_def)

lemma stages_left_set_session_state:
  "stages_left sid (snd (set_session_state sid to m)) = stages_left sid m"
  by (simp add: stages_left_def set_session_state_def session_of_modify split: option.split)

lemma stages_left_effect: "stages_left sid (stage_effect sid st m) = stages_left sid m"
proof -
  have "stages_left sid (modify_session sid (\<lambda>s. s\<lparr>s_launch := f s\<rparr>) m) = stages_left sid m" for f
    by (cases "session_of m sid") (simp_all add: stages_left_def session_of_modify)
  then show ?thesis
    by (simp add: stage_effect_def stages_left_set_session_state split: stage.split)
qed

lemma filter_shrinks:
  assumes "x \<in> set xs" "P x" "\<not> Q x" "\<And>y. Q y \<Longrightarrow> P y"
  shows "length (filter Q xs) < length (filter P xs)"
proof -
  have "length (filter Q (filter P xs)) < length (filter P xs)"
    using assms by (intro length_filter_less) auto
  moreover have "filter Q (filter P xs) = filter Q xs"
    using assms(4) by (auto simp: filter_filter intro: filter_cong)
  ultimately show ?thesis by simp
qed

lemma stages_left_reach:
  assumes "reach_stage sid st m = (True, m')"
  shows "stages_left sid m' < stages_left sid m"
proof -
  from assms obtain p p' where p: "Option.bind (session_of m sid) s_progress = Some p"
    and r: "progress_reach st p = (True, p')"
    and m': "m' = log_msg Log_Info (Some sid) (''stage reached: '' @ debug_stage st)
                    (modify_session sid (\<lambda>s. s\<lparr>s_progress := Some p'\<rparr>) m)"
    by (auto simp: reach_stage_def split: option.splits prod.splits if_splits)
  from r have pend: "progress_pending p = Some st" and p': "pm_reached p' = pm_reached p @ [st]"
    by (auto simp: progress_reach_def split: if_splits)
  from pend have new: "\<not> progress_has p st" "st \<in> set stage_all"
    by (auto simp: progress_pending_def find_Some_iff)
  have "length (filter (\<lambda>x. \<not> progress_has p' x) stage_all) < length (filter (\<lambda>x. \<not> progress_has p x) stage_all)"
    using new by (intro filter_shrinks [of st]) (auto simp: progress_has_def p')
  with p m' show ?thesis
    by (auto simp: stages_left_def session_of_modify bind_eq_Some_conv)
qed

function launch_loop :: "session_id \<Rightarrow> string list \<Rightarrow> manager \<Rightarrow> manager" where
  "launch_loop sid names m =
     (case session_of m sid of
        None \<Rightarrow> m
      | Some s \<Rightarrow>
          if \<not> launching s then m
          else case session_pending s of
            None \<Rightarrow> m
          | Some st \<Rightarrow>
              (case evaluate m s st names of
                 Eval_Reached \<Rightarrow>
                   (case reach_stage sid st m of
                      (ok, m') \<Rightarrow> if ok then launch_loop sid names (stage_effect sid st m') else m')
               | Eval_Count d t \<Rightarrow>
                   modify_session sid
                     (\<lambda>s. s\<lparr>s_progress := map_option (\<lambda>p. snd (progress_count st d t p)) (s_progress s)\<rparr>) m
               | Eval_Wait \<Rightarrow> m))"
  by auto
termination
proof (relation "measure (\<lambda>(sid, names, m). stages_left sid m)")
  fix sid names m s st r ok m'
  assume "(ok, m') = reach_stage sid st m" ok
  then show "((sid, names, stage_effect sid st m'), sid, names, m) \<in> measure (\<lambda>(sid, names, m). stages_left sid m)"
    using stages_left_reach [of sid st m m'] by (simp add: stages_left_effect)
qed auto

declare launch_loop.simps [simp del]

text \<open>Keep exactly one timeout armed, for the stage that is pending.\<close>

definition arm_stage_timer :: "session_id \<Rightarrow> manager \<Rightarrow> manager" where
  "arm_stage_timer sid m =
     (case session_of m sid of
        None \<Rightarrow> m
      | Some s \<Rightarrow>
          let pending = (if launching s then session_pending s else None) in
          if s_armed_stage s = pending then m
          else
            let m = (case s_armed_stage s of
                       Some old \<Rightarrow> push (Fx_CancelTimer (Tmr_Stage sid (s_generation s) old)) m
                     | None \<Rightarrow> m);
                m = modify_session sid (\<lambda>s. s\<lparr>s_armed_stage := pending\<rparr>) m
            in case pending of
                 Some st \<Rightarrow> push (Fx_SetTimer (Tmr_Stage sid (s_generation s) st)
                              (stage_timeout_for (m_policy m) st)) m
               | None \<Rightarrow> m)"

text \<open>For a session that is not there the loop ends at once, and so do the two steps after it.\<close>

definition advance_launch :: "session_id \<Rightarrow> manager \<Rightarrow> manager" where
  "advance_launch sid m =
     (let names = map out_name (m_outputs m);
          m = launch_loop sid names m;
          m = arm_stage_timer sid m
      in if is_some_and (session_of m sid) (\<lambda>s. s_state s = St_ReadyBackground)
         then try_reveal m else m)"

text \<open>\<^verbatim>\<open>str::to_lowercase\<close> on ASCII text, which every stage label is.\<close>

definition to_lowercase :: "string \<Rightarrow> string" where
  "to_lowercase = map (\<lambda>c. if 65 \<le> (of_char c :: nat) \<and> (of_char c :: nat) \<le> 90
                          then char_of ((of_char c :: nat) + 32) else c)"

definition on_stage_timeout :: "session_id \<Rightarrow> generation \<Rightarrow> stage \<Rightarrow> manager \<Rightarrow> manager" where
  "on_stage_timeout sid gn st m =
     (case session_gen m sid gn of
        None \<Rightarrow> m
      | Some s \<Rightarrow>
          if \<not> launching s \<or> session_pending s \<noteq> Some st then m
          else fail_launch sid gn E_Timeout
                 (''timed out while '' @ to_lowercase (label_while_pending st)) m)"

text \<open>Displays changed. A launch that already configured its outputs cannot be revealed.\<close>

definition on_outputs_changed :: "manager \<Rightarrow> manager" where
  "on_outputs_changed m =
     (let ls = map (\<lambda>s. (s_id s, s_generation s, la_configured_epoch (s_launch s) \<noteq> None))
                 (filter (\<lambda>s. launching s \<and> s_state s \<noteq> St_Creating) (btm_values (m_sessions m)));
          m = fold (\<lambda>(sid, gn, configured) m.
                 if configured
                 then fail_launch sid gn E_OutputNotReady ''the displays changed while the session started'' m
                 else advance_launch sid m) ls m
      in try_reveal m)"

section \<open>Creation and recovery\<close>

definition new_session :: "session_id \<Rightarrow> generation \<Rightarrow> u32 \<Rightarrow> string \<Rightarrow> u64 \<Rightarrow> session" where
  "new_session sid gn uid name ticket =
     \<lparr>s_id = sid, s_generation = gn, s_uid = uid, s_user_name = name, s_state = St_Creating,
      s_scope = None, s_host_pid = None, s_logind = None, s_socket_path = None,
      s_ticket = Some ticket, s_open_sent = False, s_open_req = None,
      s_progress = Some (snd (progress_reach Stg_AuthAccepted (progress_new sid gn))),
      s_launch = launch_default, s_surfaces = [], s_host_connected = False, s_fg_seq = 0,
      s_recovered = False, s_armed_stage = None, s_evidence_base = None\<rparr>"

definition create_session ::
  "u32 \<Rightarrow> generation \<Rightarrow> u64 \<Rightarrow> manager \<Rightarrow> (session_id \<times> manager) option" where
  "create_session uid gn ticket m =
     (case alloc_session_id m of
        None \<Rightarrow> None
      | Some (sid, m) \<Rightarrow>
          let name = user_name_of m uid;
              m = m\<lparr>m_sessions := btm_insert sid (new_session sid gn uid name ticket) (m_sessions m)\<rparr>;
              m = push (Fx_Scene (Cmd_RegisterSession sid gn uid [] 0 (pol_host_exe (m_policy m)))) m;
              m = arm_stage_timer sid m;
              m = log_msg Log_Info (Some sid) (''session created for uid '' @ show_nat (unat uid)) m
          in Some (sid, m))"

text \<open>Reopened protected, never foreground: the user authenticates to resume.\<close>

definition recovered_record :: "persisted_session \<Rightarrow> session" where
  "recovered_record p =
     \<lparr>s_id = ps_id p, s_generation = ps_generation p, s_uid = ps_uid p, s_user_name = ps_user_name p,
      s_state = St_LockedBackground, s_scope = Some (ps_scope p), s_host_pid = Some (ps_host_pid p),
      s_logind = None, s_socket_path = None, s_ticket = None, s_open_sent = True, s_open_req = None,
      s_progress = None, s_launch = launch_default, s_surfaces = [], s_host_connected = False,
      s_fg_seq = 0, s_recovered = True, s_armed_stage = None, s_evidence_base = None\<rparr>"

definition recover_session :: "persisted_session \<Rightarrow> manager \<Rightarrow> manager" where
  "recover_session p m =
     (let sid = ps_id p;
          m = m\<lparr>m_sessions := btm_insert sid (recovered_record p) (m_sessions m)\<rparr>;
          m = m\<lparr>m_protected := insert sid (m_protected m)\<rparr>;
          m = push (Fx_Scene (Cmd_RegisterSession sid (ps_generation p) (ps_uid p) [] 0
                (pol_host_exe (m_policy m)))) m;
          m = push (Fx_SetTimer (Tmr_Recovery sid (ps_generation p)) (pol_recovery_reconnect (m_policy m))) m
      in log_msg Log_Info (Some sid) ''session recovered protected; waiting for its bridge to reconnect'' m)"

definition on_recovery_timeout :: "session_id \<Rightarrow> generation \<Rightarrow> manager \<Rightarrow> manager" where
  "on_recovery_timeout sid gn m =
     (case session_gen m sid gn of
        None \<Rightarrow> m
      | Some s \<Rightarrow>
          if s_recovered s \<and> \<not> s_host_connected s \<and> is_running (s_state s)
          then session_lost sid gn ''the recovered session did not reconnect''
                 (log_msg Log_Warn (Some sid) ''recovered session did not reconnect; closing it'' m)
          else m)"

section \<open>Helper and compositor events about sessions\<close>

definition on_socket_ready :: "session_id \<Rightarrow> generation \<Rightarrow> string \<Rightarrow> manager \<Rightarrow> manager" where
  "on_socket_ready sid gn path m =
     (let hints = map (\<lambda>out. (out_width out, out_height out)) (m_outputs m);
          (req, m) = helper_req m
      in case session_gen m sid gn of
           None \<Rightarrow> log_msg Log_Warn (Some sid) ''stale SessionSocketReady ignored'' m
         | Some s \<Rightarrow>
             let m = modify_session sid (\<lambda>s. s\<lparr>s_socket_path := Some path\<rparr>) m in
             if s_recovered s then
               push (Fx_Scene (Cmd_Protect sid gn))
                 (push (Fx_Scene (Cmd_BindHost sid gn (unwrap_or (s_scope s) [])
                   (unwrap_or (s_host_pid s) 0))) m)
             else if s_state s \<noteq> St_Creating \<or> s_open_sent s then m
             else case s_ticket s of
               None \<Rightarrow> m
             | Some ticket \<Rightarrow>
                 let m = modify_session sid
                           (\<lambda>s. s\<lparr>s_ticket := None, s_open_sent := True, s_open_req := Some req\<rparr>) m;
                     m = push (Fx_Helper (HReq_OpenSession req ticket sid gn path hints)) m
                 in snd (set_session_state sid St_PamOpening m))"

definition on_session_opened ::
  "u64 \<Rightarrow> session_id \<Rightarrow> generation \<Rightarrow> u32 \<Rightarrow> string \<Rightarrow> string option \<Rightarrow> manager \<Rightarrow> manager" where
  "on_session_opened req sid gn host_pid scope logind m =
     (if \<not> is_some_and (session_of m sid)
            (\<lambda>s. s_generation s = gn \<and> s_state s = St_PamOpening \<and> s_open_req s = Some req)
      then log_msg Log_Warn (Some sid) ''stale SessionOpened ignored'' m
      else if scope = [] \<or> host_pid = 0
      then fail_launch sid gn E_HelperFailure
             ''the helper reported a session without a scope or bridge pid'' m
      else
        let m = modify_session sid
                  (\<lambda>s. s\<lparr>s_scope := Some scope, s_host_pid := Some host_pid, s_logind := logind\<rparr>) m;
            m = push (Fx_Scene (Cmd_BindHost sid gn scope host_pid)) m;
            m = snd (reach_stage sid Stg_PamSession m);
            m = snd (set_session_state sid St_GnoblinStarting m)
        in advance_launch sid m)"

definition on_session_connected :: "session_id \<Rightarrow> generation \<Rightarrow> u32 \<Rightarrow> manager \<Rightarrow> manager" where
  "on_session_connected sid gn pid m =
     (case session_gen m sid gn of
        None \<Rightarrow> log_msg Log_Warn (Some sid) ''stale SessionConnected ignored'' m
      | Some s \<Rightarrow>
          if s_state s \<noteq> St_GnoblinStarting \<and> \<not> (s_recovered s \<and> is_running (s_state s))
          then log_msg Log_Warn (Some sid)
                 (''SessionConnected in state '' @ debug_session_state (s_state s) @ '' ignored'') m
          else if is_some_and (s_host_pid s) (\<lambda>p. p \<noteq> 0 \<and> p \<noteq> pid)
          then log_msg Log_Warn (Some sid)
                 ''connected pid differs from the helper's bridge pid; ignored'' m
          else
            let m = modify_session sid (\<lambda>s. s\<lparr>s_host_connected := True\<rparr>) m in
            if s_recovered s then try_reveal (push (Fx_CancelTimer (Tmr_Recovery sid gn)) m)
            else advance_launch sid m)"

text \<open>Audit only: a probe by another process must not be able to fail a launch.\<close>

definition on_connection_rejected :: "session_id \<Rightarrow> generation \<Rightarrow> string \<Rightarrow> manager \<Rightarrow> manager" where
  "on_connection_rejected sid gn reason m =
     log_msg Log_Warn (Some sid) (''brokered connection rejected: '' @ reason) m"

definition on_surfaces :: "session_id \<Rightarrow> generation \<Rightarrow> surface_evidence list \<Rightarrow> manager \<Rightarrow> manager" where
  "on_surfaces sid gn surfaces m =
     (case session_gen m sid gn of
        None \<Rightarrow> m
      | Some s \<Rightarrow>
          let m = modify_session sid (\<lambda>s. s\<lparr>s_surfaces := surfaces\<rparr>) m in
          if launching s then advance_launch sid m else try_reveal m)"

definition desktop_snapshot :: "session \<Rightarrow> string list \<Rightarrow> (string, u64) btmap" where
  "desktop_snapshot s names =
     fold (\<lambda>n. btm_insert n (case evidence_for s n of None \<Rightarrow> 0 | Some e \<Rightarrow> ev_presented_frames e)) names []"

text \<open>The \<^verbatim>\<open>match report\<close> of \<^verbatim>\<open>on_report\<close>, on a session inside its launch window.\<close>

definition record_report :: "session_id \<Rightarrow> session \<Rightarrow> host_report \<Rightarrow> string list \<Rightarrow> manager \<Rightarrow> manager" where
  "record_report sid s report names m =
     (let set_launch = (\<lambda>f. modify_session sid (\<lambda>s. s\<lparr>s_launch := f (s_launch s)\<rparr>)) in
      case report of
        Rep_GnoblinReady \<Rightarrow>
          if s_host_connected s then set_launch (\<lambda>la. la\<lparr>la_gnoblin_ready := True\<rparr>) m else m
      | Rep_OutputConfigured out \<Rightarrow>
          if la_gnoblin_ready (s_launch s) \<and> out \<in> set names
          then set_launch (\<lambda>la. la\<lparr>la_configured := insert out (la_configured la)\<rparr>) m else m
      | Rep_BinguxLaunched \<Rightarrow>
          if la_gnoblin_ready (s_launch s)
          then set_launch (\<lambda>la. la\<lparr>la_bingux_launched := True\<rparr>) m else m
      | Rep_SurfacesMapped out mapped required \<Rightarrow>
          if la_gnoblin_ready (s_launch s) \<and> out \<in> set names
          then set_launch (\<lambda>la. la\<lparr>la_mapped := btm_insert out (mapped, required) (la_mapped la)\<rparr>) m else m
      | Rep_DesktopReady \<Rightarrow>
          if session_pending s = Some Stg_DesktopReady
          then set_launch (\<lambda>la. la\<lparr>la_desktop_report := Some (desktop_snapshot s names)\<rparr>) m
          else log_msg Log_Warn (Some sid) ''DesktopReady before the surfaces stage ignored'' m)"

definition on_report :: "session_id \<Rightarrow> generation \<Rightarrow> host_report \<Rightarrow> manager \<Rightarrow> manager" where
  "on_report sid gn report m =
     (let names = map out_name (m_outputs m) in
      case session_gen m sid gn of
        None \<Rightarrow> log_msg Log_Warn (Some sid) ''report for a stale generation ignored'' m
      | Some s \<Rightarrow>
          if \<not> launching s \<or> s_state s = St_Creating \<or> s_state s = St_PamOpening
          then log_msg Log_Warn (Some sid) ''report outside the launch window ignored'' m
          else advance_launch sid (record_report sid s report names m))"

definition on_session_gone :: "session_id \<Rightarrow> generation \<Rightarrow> manager \<Rightarrow> manager" where
  "on_session_gone sid gn m =
     (case session_gen m sid gn of
        None \<Rightarrow> m
      | Some s \<Rightarrow>
          if \<not> is_running (s_state s) then m
          else
            let m = modify_session sid (\<lambda>s. s\<lparr>s_host_connected := False\<rparr>) m in
            if s_recovered s then m
            else session_lost sid gn ''the session's bridge connection closed'' m)"

definition on_session_exited :: "session_id \<Rightarrow> generation \<Rightarrow> i32 \<Rightarrow> manager \<Rightarrow> manager" where
  "on_session_exited sid gn status m =
     (case session_gen m sid gn of
        None \<Rightarrow> log_msg Log_Warn (Some sid) ''SessionExited for an unknown session ignored'' m
      | Some s \<Rightarrow>
          if s_state s = St_Stopping \<or> s_state s = St_Failed then terminate_session sid m
          else session_lost sid gn
                 (''the session exited unexpectedly (status '' @ show_int status @ '')'') m)"

definition on_session_failed ::
  "u64 \<Rightarrow> session_id \<Rightarrow> generation \<Rightarrow> error_code \<Rightarrow> string \<Rightarrow> manager \<Rightarrow> manager" where
  "on_session_failed req sid gn code msg m =
     (if is_some_and (session_of m sid) (\<lambda>s. s_generation s = gn \<and> s_open_req s = Some req)
         \<and> is_some_and (session_of m sid) launching
      then fail_launch sid gn code msg m
      else log_msg Log_Warn (Some sid) ''stale SessionFailed ignored'' m)"

end
