(* ===== verification/Security_Model.thy ===== *)
theory Security_Model
  imports Core_Session
begin

text \<open>
  The security kernel of the session manager as an abstract machine. Its state keeps, of the
  manager, only what decides who sees and types into which desktop and who may power the machine
  down; its steps are the changes the manager may make to them, each with its guard. A step that
  needs an outside decision carries a label, and \<^verbatim>\<open>A\<close> is the set of labels that are allowed.
  The predicate \<^verbatim>\<open>cinv\<close> is the inductive strengthening of the predicate the manager checks.
\<close>

section \<open>States and steps\<close>

record csess =
  cs_gen :: generation
  cs_uid :: u32
  cs_state :: session_state

record cop =
  co_id :: operation_id
  co_kind :: op_kind
  co_hosted :: bool
  co_session :: "(session_id \<times> generation) option"
  co_began :: bool
  co_committed :: bool
  co_tstate :: transition_state
  co_action :: "power_action option"
  co_polkit :: bool
  co_inhib :: bool

record cchal =
  cc_req :: u64
  cc_uid :: u32
  cc_op :: operation_id
  cc_plan :: plan

record core =
  k_sess :: "session_id \<Rightarrow> csess option"
  k_fg :: "session_id option"
  k_prot :: "session_id set"
  k_inp :: input_owner
  k_sel :: "u32 option"
  k_chal :: "cchal option"
  k_op :: "cop option"
  k_calls :: "(operation_id \<times> power_action) list"

datatype clabel =
    L_Auth operation_id u32
  | L_Recover
  | L_Reveal operation_id session_id generation
  | L_Polkit operation_id
  | L_Inhib operation_id power_action
  | L_Call operation_id power_action

text \<open>An operation is past its authorisation: by PAM for a reveal, by the checks for power.\<close>

definition authorised :: "transition_state \<Rightarrow> bool" where
  "authorised t \<longleftrightarrow> t \<noteq> Tr_Idle \<and> t \<noteq> Tr_WaitingForAuth"

definition in_state :: "core \<Rightarrow> session_id \<Rightarrow> session_state \<Rightarrow> bool" where
  "in_state c sid st \<longleftrightarrow> (\<exists>s. k_sess c sid = Some s \<and> cs_state s = st)"

definition no_foreground :: "core \<Rightarrow> bool" where
  "no_foreground c \<longleftrightarrow> (\<forall>sid. \<not> in_state c sid St_Foreground)"

definition uid_free :: "core \<Rightarrow> u32 \<Rightarrow> bool" where
  "uid_free c u \<longleftrightarrow> (\<forall>sid s. k_sess c sid = Some s \<longrightarrow> is_running (cs_state s) \<longrightarrow> cs_uid s \<noteq> u)"

definition launch_states :: "session_state set" where
  "launch_states = {St_PamOpening, St_GnoblinStarting, St_BinguxStarting, St_OutputReady, St_ReadyBackground}"

definition put_state :: "session_id \<Rightarrow> session_state \<Rightarrow> core \<Rightarrow> core" where
  "put_state sid st c = c\<lparr>k_sess := (k_sess c)(sid := map_option (\<lambda>s. s\<lparr>cs_state := st\<rparr>) (k_sess c sid))\<rparr>"

definition put_op :: "cop \<Rightarrow> core \<Rightarrow> core" where
  "put_op x c = c\<lparr>k_op := Some x\<rparr>"

text \<open>The session a conversation may unlock, if there is one, belongs to the account it is about.\<close>

definition plan_of_account :: "core \<Rightarrow> cchal \<Rightarrow> bool" where
  "plan_of_account c ch \<longleftrightarrow>
     (\<forall>sid g s. cc_plan ch = Plan_Existing sid g \<longrightarrow> k_sess c sid = Some s \<longrightarrow> cs_gen s = g \<longrightarrow> cs_uid s = cc_uid ch)"

inductive cstep :: "clabel set \<Rightarrow> core \<Rightarrow> core \<Rightarrow> bool" for A where
  c_launch: "k_sess c sid = Some s \<Longrightarrow> launching_state (cs_state s) \<Longrightarrow> st \<in> launch_states \<Longrightarrow>
      cstep A c (put_state sid st c)"
| c_create: "k_sess c sid = None \<Longrightarrow> k_chal c = None \<Longrightarrow> uid_free c u \<Longrightarrow> k_op c = Some x \<Longrightarrow> \<not> authorised (co_tstate x) \<Longrightarrow>
      L_Auth (co_id x) u \<in> A \<Longrightarrow> st = St_Creating \<Longrightarrow>
      cstep A c (c\<lparr>k_sess := (k_sess c)(sid \<mapsto> \<lparr>cs_gen = g, cs_uid = u, cs_state = st\<rparr>)\<rparr>)"
| c_recover: "k_sess c sid = None \<Longrightarrow> k_op c = None \<Longrightarrow> uid_free c u \<Longrightarrow> L_Recover \<in> A \<Longrightarrow>
      cstep A c (c\<lparr>k_sess := (k_sess c)(sid \<mapsto> \<lparr>cs_gen = g, cs_uid = u, cs_state = St_LockedBackground\<rparr>),
                   k_prot := insert sid (k_prot c)\<rparr>)"
| c_cleanup: "k_sess c sid = Some s \<Longrightarrow> is_running (cs_state s) \<Longrightarrow> st \<in> {St_Failed, St_Stopping} \<Longrightarrow>
      cstep A c ((put_state sid st c)
        \<lparr>k_fg := (if k_fg c = Some sid then None else k_fg c), k_prot := k_prot c - {sid},
         k_inp := (if k_inp c = Own_Session sid then Own_Greeter else k_inp c)\<rparr>)"
| c_terminate: "k_sess c sid = Some s \<Longrightarrow> \<not> is_running (cs_state s) \<Longrightarrow>
      cstep A c (c\<lparr>k_sess := (k_sess c)(sid := None), k_prot := k_prot c - {sid}\<rparr>)"
| c_protect: "k_sess c sid = Some s \<Longrightarrow> cs_state s = St_Foreground \<Longrightarrow>
      cstep A c ((put_state sid St_LockRequested c)
        \<lparr>k_inp := (if k_inp c = Own_Session sid then Own_None else k_inp c)\<rparr>)"
| c_ack: "k_sess c sid = Some s \<Longrightarrow> cs_state s = St_LockRequested \<Longrightarrow> st \<in> {St_LockedBackground, St_LockedGreeterForeground} \<Longrightarrow>
      cstep A c ((put_state sid st c)\<lparr>k_prot := insert sid (k_prot c)\<rparr>)"
| c_demote: "k_sess c sid = Some s \<Longrightarrow> cs_state s = St_LockedGreeterForeground \<Longrightarrow>
      cstep A c (put_state sid St_LockedBackground c)"
| c_input: "(\<And>sid. w = Own_Session sid \<Longrightarrow> in_state c sid St_Foreground) \<Longrightarrow> cstep A c (c\<lparr>k_inp := w\<rparr>)"
| c_select: "(\<And>ch. k_chal c = Some ch \<Longrightarrow> u = Some (cc_uid ch)) \<Longrightarrow> cstep A c (c\<lparr>k_sel := u\<rparr>)"
| c_op_new: "k_op c = None \<Longrightarrow> k_chal c = None \<Longrightarrow> co_tstate x = Tr_Idle \<Longrightarrow> \<not> co_began x \<Longrightarrow>
      \<not> co_committed x \<Longrightarrow> \<not> co_polkit x \<Longrightarrow> \<not> co_inhib x \<Longrightarrow> cstep A c (put_op x c)"
| c_op_setup: "k_op c = Some x \<Longrightarrow> co_kind x = Op_Power \<Longrightarrow> co_tstate x = Tr_Idle \<Longrightarrow> \<not> co_inhib x \<Longrightarrow>
      cstep A c (put_op (x\<lparr>co_action := a, co_polkit := \<not> co_hosted x\<rparr>) c)"
| c_op_end: "k_op c = Some x \<Longrightarrow>
      cstep A c (c\<lparr>k_op := None,
                   k_chal := (case k_chal c of Some ch \<Rightarrow> if cc_op ch = co_id x then None else Some ch | None \<Rightarrow> None)\<rparr>)"
| c_op_wait: "k_op c = Some x \<Longrightarrow> co_tstate x = Tr_Idle \<Longrightarrow> \<not> co_began x \<Longrightarrow>
      cstep A c (put_op (x\<lparr>co_tstate := Tr_WaitingForAuth\<rparr>) c)"
| c_op_ready: "k_op c = Some x \<Longrightarrow> co_kind x \<noteq> Op_Reveal \<Longrightarrow> authorised t \<Longrightarrow>
      (co_kind x = Op_Power \<Longrightarrow> co_polkit x \<and> co_inhib x) \<Longrightarrow>
      cstep A c (put_op (x\<lparr>co_tstate := t\<rparr>) c)"
| c_op_auth: "k_op c = Some x \<Longrightarrow> k_chal c = None \<Longrightarrow> co_kind x = Op_Reveal \<Longrightarrow> \<not> co_began x \<Longrightarrow>
      \<not> authorised (co_tstate x) \<Longrightarrow> k_sess c sid = Some s \<Longrightarrow> L_Auth (co_id x) (cs_uid s) \<in> A \<Longrightarrow>
      t = co_tstate x \<or> t = Tr_WaitingForFrames \<Longrightarrow>
      cstep A c (put_op (x\<lparr>co_session := Some (sid, cs_gen s), co_tstate := t\<rparr>) c)"
| c_op_begin: "k_op c = Some x \<Longrightarrow> authorised t \<Longrightarrow>
      (co_kind x = Op_Reveal \<Longrightarrow> no_foreground c \<and> authorised (co_tstate x) \<and> \<not> co_committed x) \<Longrightarrow>
      (co_kind x = Op_Power \<Longrightarrow> co_polkit x \<and> co_inhib x) \<Longrightarrow> k_chal c = None \<Longrightarrow>
      cstep A c (put_op (x\<lparr>co_began := True, co_tstate := t\<rparr>) c)"
| c_op_run: "k_op c = Some x \<Longrightarrow> co_began x \<Longrightarrow> authorised t \<Longrightarrow>
      cstep A c (put_op (x\<lparr>co_tstate := t\<rparr>) c)"
| c_op_commit: "k_op c = Some x \<Longrightarrow> co_began x \<Longrightarrow> cstep A c (put_op (x\<lparr>co_committed := True\<rparr>) c)"
| c_reveal: "k_op c = Some x \<Longrightarrow> co_kind x = Op_Reveal \<Longrightarrow> co_began x \<Longrightarrow> \<not> co_committed x \<Longrightarrow>
      co_session x = Some (sid, cs_gen s) \<Longrightarrow> k_sess c sid = Some s \<Longrightarrow> is_revealable (cs_state s) \<Longrightarrow>
      L_Reveal (co_id x) sid (cs_gen s) \<in> A \<Longrightarrow> authorised t \<Longrightarrow>
      cstep A c ((put_state sid St_Foreground c)
        \<lparr>k_fg := Some sid, k_prot := k_prot c - {sid}, k_inp := Own_Session sid,
         k_sel := Some (cs_uid s), k_op := Some (x\<lparr>co_committed := True, co_tstate := t\<rparr>)\<rparr>)"
| c_chal_new: "k_op c = Some x \<Longrightarrow> co_kind x = Op_Reveal \<Longrightarrow> co_tstate x = Tr_WaitingForAuth \<Longrightarrow>
      \<not> co_began x \<Longrightarrow> \<not> co_committed x \<Longrightarrow> k_chal c = None \<Longrightarrow> cc_op ch = co_id x \<Longrightarrow>
      k_sel c = Some (cc_uid ch) \<Longrightarrow> plan_of_account c ch \<Longrightarrow> cstep A c (c\<lparr>k_chal := Some ch\<rparr>)"
| c_chal_drop: "cstep A c (c\<lparr>k_chal := None\<rparr>)"
| c_op_polkit: "k_op c = Some x \<Longrightarrow> L_Polkit (co_id x) \<in> A \<Longrightarrow>
      cstep A c (put_op (x\<lparr>co_polkit := True\<rparr>) c)"
| c_op_inhib: "k_op c = Some x \<Longrightarrow> L_Inhib (co_id x) (unwrap_or (co_action x) Pw_PowerOff) \<in> A \<Longrightarrow>
      cstep A c (put_op (x\<lparr>co_inhib := True\<rparr>) c)"
| c_call: "k_op c = Some x \<Longrightarrow> co_kind x = Op_Power \<Longrightarrow> co_began x \<Longrightarrow>
      a = unwrap_or (co_action x) Pw_PowerOff \<Longrightarrow> L_Call (co_id x) a \<in> A \<Longrightarrow>
      cstep A c (c\<lparr>k_calls := k_calls c @ [(co_id x, a)]\<rparr>)"

section \<open>The invariant\<close>

definition inv_input :: "core \<Rightarrow> bool" where
  "inv_input c \<longleftrightarrow> (\<forall>sid. k_inp c = Own_Session sid \<longrightarrow> in_state c sid St_Foreground)"

definition inv_foreground :: "core \<Rightarrow> bool" where
  "inv_foreground c \<longleftrightarrow>
     (\<forall>sid. in_state c sid St_Foreground \<longrightarrow> k_fg c = Some sid \<and> sid \<notin> k_prot c)
     \<and> (\<forall>sid. k_fg c = Some sid \<longrightarrow> (\<exists>s. k_sess c sid = Some s \<and> is_running (cs_state s)))"

definition inv_locked :: "core \<Rightarrow> bool" where
  "inv_locked c \<longleftrightarrow>
     (\<forall>sid. in_state c sid St_LockedBackground \<or> in_state c sid St_LockedGreeterForeground
        \<longrightarrow> sid \<in> k_prot c)"

definition inv_uids :: "core \<Rightarrow> bool" where
  "inv_uids c \<longleftrightarrow>
     (\<forall>a b s t. k_sess c a = Some s \<longrightarrow> k_sess c b = Some t \<longrightarrow> is_running (cs_state s) \<longrightarrow>
        is_running (cs_state t) \<longrightarrow> cs_uid s = cs_uid t \<longrightarrow> a = b)"

definition inv_challenge :: "core \<Rightarrow> bool" where
  "inv_challenge c \<longleftrightarrow>
     (\<forall>ch. k_chal c = Some ch \<longrightarrow> k_sel c = Some (cc_uid ch) \<and> plan_of_account c ch \<and>
        (\<exists>x. k_op c = Some x \<and> co_id x = cc_op ch \<and> co_kind x = Op_Reveal \<and>
             co_tstate x = Tr_WaitingForAuth \<and> \<not> co_began x \<and> \<not> co_committed x))"

definition inv_op :: "core \<Rightarrow> bool" where
  "inv_op c \<longleftrightarrow>
     (\<forall>x. k_op c = Some x \<longrightarrow>
        (co_began x \<longrightarrow> authorised (co_tstate x)) \<and> (co_committed x \<longrightarrow> co_began x) \<and>
        (co_kind x = Op_Power \<longrightarrow> authorised (co_tstate x) \<longrightarrow> co_polkit x \<and> co_inhib x) \<and>
        (co_kind x = Op_Reveal \<longrightarrow> co_began x \<longrightarrow> \<not> co_committed x \<longrightarrow> no_foreground c))"

definition cinv :: "core \<Rightarrow> bool" where
  "cinv c \<longleftrightarrow> inv_input c \<and> inv_foreground c \<and> inv_locked c \<and> inv_uids c \<and> inv_challenge c \<and> inv_op c"

lemmas cinv_defs = inv_input_def inv_foreground_def inv_locked_def inv_uids_def inv_challenge_def inv_op_def

section \<open>Every step keeps the invariant\<close>

lemma in_state_put_state:
  "in_state (put_state sid st c) sid' st' \<longleftrightarrow>
     (if sid' = sid then k_sess c sid \<noteq> None \<and> st' = st else in_state c sid' st')"
  by (auto simp: in_state_def put_state_def)

lemma in_state_other_fields [simp]:
  "in_state (c\<lparr>k_fg := a\<rparr>) = in_state c" "in_state (c\<lparr>k_prot := b\<rparr>) = in_state c"
  "in_state (c\<lparr>k_inp := w\<rparr>) = in_state c" "in_state (c\<lparr>k_sel := u\<rparr>) = in_state c"
  "in_state (c\<lparr>k_chal := h\<rparr>) = in_state c" "in_state (c\<lparr>k_op := x\<rparr>) = in_state c"
  "in_state (c\<lparr>k_calls := l\<rparr>) = in_state c" "in_state (put_op y c) = in_state c"
  by (auto simp: in_state_def put_op_def fun_eq_iff)

lemma in_state_upd:
  "in_state (c\<lparr>k_sess := (k_sess c)(sid := v)\<rparr>) sid' st \<longleftrightarrow>
     (if sid' = sid then \<exists>s. v = Some s \<and> cs_state s = st else in_state c sid' st)"
  by (auto simp: in_state_def)

lemma put_fields [simp]:
  "k_sess (put_op y c) = k_sess c" "k_fg (put_op y c) = k_fg c" "k_prot (put_op y c) = k_prot c"
  "k_inp (put_op y c) = k_inp c" "k_sel (put_op y c) = k_sel c" "k_chal (put_op y c) = k_chal c"
  "k_op (put_op y c) = Some y" "k_calls (put_op y c) = k_calls c"
  "k_fg (put_state sid st c) = k_fg c" "k_prot (put_state sid st c) = k_prot c"
  "k_inp (put_state sid st c) = k_inp c" "k_sel (put_state sid st c) = k_sel c"
  "k_chal (put_state sid st c) = k_chal c" "k_op (put_state sid st c) = k_op c"
  "k_calls (put_state sid st c) = k_calls c"
  by (simp_all add: put_op_def put_state_def)

lemma no_foreground_iff: "no_foreground c \<longleftrightarrow> (\<forall>sid. \<not> in_state c sid St_Foreground)"
  by (simp add: no_foreground_def)

lemma in_state_of [simp]: "k_sess c sid = Some s \<Longrightarrow> in_state c sid st \<longleftrightarrow> cs_state s = st"
  by (simp add: in_state_def)

lemma in_state_absent [simp]: "k_sess c sid = None \<Longrightarrow> \<not> in_state c sid st"
  by (simp add: in_state_def)

lemma launch_states_not: "st \<in> launch_states \<Longrightarrow>
   is_running st \<and> st \<noteq> St_Foreground \<and> st \<noteq> St_LockedBackground \<and> st \<noteq> St_LockedGreeterForeground"
  by (auto simp: launch_states_def)

lemma launching_not: "launching_state st \<Longrightarrow>
   is_running st \<and> st \<noteq> St_Foreground \<and> st \<noteq> St_LockedBackground \<and> st \<noteq> St_LockedGreeterForeground"
  by (cases st) (auto simp: launching_state_def)

lemma authorised_simps [simp]:
  "\<not> authorised Tr_Idle" "\<not> authorised Tr_WaitingForAuth" "authorised Tr_WaitingForFrames"
  "authorised Tr_Prepared" "authorised Tr_Animating" "authorised Tr_Committed"
  "authorised Tr_Cancelled" "authorised Tr_Failed"
  by (simp_all add: authorised_def)

lemmas core_view = in_state_put_state in_state_upd no_foreground_iff

lemma cstep_input:
  assumes "cstep A c c'" "cinv c" shows "inv_input c'"
  using assms
  by (cases rule: cstep.cases)
    (auto simp: cinv_def inv_input_def core_view dest: launch_states_not launching_not split: if_splits)

lemma cstep_foreground:
  assumes "cstep A c c'" "cinv c" shows "inv_foreground c'"
  using assms
  by (cases rule: cstep.cases)
    (auto simp: cinv_def inv_foreground_def inv_op_def core_view put_state_def is_revealable_iff
       dest: launch_states_not launching_not split: if_splits)

lemma cstep_locked:
  assumes "cstep A c c'" "cinv c" shows "inv_locked c'"
  using assms
  by (cases rule: cstep.cases)
    (auto simp: cinv_def inv_locked_def core_view dest: launch_states_not launching_not split: if_splits)

lemma cstep_uids:
  assumes "cstep A c c'" "cinv c" shows "inv_uids c'"
  using assms
  by (cases rule: cstep.cases)
    (auto simp: cinv_def inv_uids_def uid_free_def core_view put_state_def is_revealable_iff
       dest: launch_states_not launching_not split: if_splits)

lemma cstep_challenge:
  assumes "cstep A c c'" "cinv c" shows "inv_challenge c'"
  using assms
  by (cases rule: cstep.cases)
    (auto simp: cinv_def inv_challenge_def plan_of_account_def put_state_def split: if_splits option.splits)

lemma cstep_op:
  assumes "cstep A c c'" "cinv c" shows "inv_op c'"
  using assms
  by (cases rule: cstep.cases)
    (auto simp: cinv_def inv_op_def inv_foreground_def core_view dest: launch_states_not launching_not split: if_splits)

lemma cstep_cinv: "cstep A c c' \<Longrightarrow> cinv c \<Longrightarrow> cinv c'"
  unfolding cinv_def [of c']
  using cstep_input cstep_foreground cstep_locked cstep_uids cstep_challenge cstep_op by blast

end
