(* ===== verification/Core_Auth.thy ===== *)
theory Core_Auth
  imports Core_Session
begin

text \<open>
  \<^verbatim>\<open>bsm/manager/src/core/auth.rs\<close>: the greeter control protocol and authentication challenges, with
  \<^verbatim>\<open>on_auth_success\<close> of \<^verbatim>\<open>core/ops.rs\<close>. Handlers that may draw from the generator return an option,
  \<^term>\<open>None\<close> standing for a draw that never ends.
\<close>

section \<open>Selection and power policy\<close>

text \<open>Show another account's identity; never reveals a desktop.\<close>

definition select_user :: "u32 \<Rightarrow> manager \<Rightarrow> unit result \<times> manager" where
  "select_user uid m =
     (if \<not> greeter_authoritative m then (Err E_Unauthorised ''the greeter is not active'', m)
      else if \<not> user_known m uid then (Err E_InvalidAccount ''no such account'', m)
      else if m_selected_uid m = Some uid then (Inr (), m)
      else if is_some_and (m_op m) (\<lambda>o1. o_tstate o1 \<noteq> Tr_WaitingForAuth)
      then (Err E_Busy ''an operation is in progress'', m)
      else
        let m = (if m_op m \<noteq> None
                 then fail_challenge E_Cancelled ''another account was selected'' m else m);
            m = m\<lparr>m_retained_failure := None, m_selected_uid := Some uid\<rparr>
        in (Inr (),
            case greeter_target m of
              Some t \<Rightarrow>
                if s_uid t \<noteq> uid then snd (set_session_state (s_id t) St_LockedBackground m) else m
            | None \<Rightarrow> m))"

definition report_error :: "u64 option \<Rightarrow> 'a result \<times> manager \<Rightarrow> manager" where
  "report_error req r =
     (case r of
        (Inl e, m) \<Rightarrow> greeter_error req (err_code e) (err_message e) m
      | (Inr _, m) \<Rightarrow> m)"

definition greeter_select_user :: "u32 \<Rightarrow> manager \<Rightarrow> manager" where
  "greeter_select_user uid m = report_error None (select_user uid m)"

text \<open>Greeter power policy: stricter while somebody is signed in.\<close>

definition greeter_may_power :: "manager \<Rightarrow> power_action \<Rightarrow> bool" where
  "greeter_may_power m action \<longleftrightarrow>
     (if any_session (\<lambda>s. is_running (s_state s)) m
      then gp_allows (pol_greeter_power_with_sessions (m_policy m)) action
      else gp_allows (pol_greeter_power (m_policy m)) action)"

section \<open>Failure accounting\<close>

definition charge_failure :: "u32 \<Rightarrow> manager \<Rightarrow> manager" where
  "charge_failure uid m =
     (let n = (case btm_get (m_failures m) uid of
                 Some (n, at) \<Rightarrow>
                   if duration_since (now_of m) at < pol_failure_cooldown (m_policy m) then n else 0
               | None \<Rightarrow> 0)
      in m\<lparr>m_failures := btm_insert uid (n + 1, now_of m) (m_failures m)\<rparr>)"

definition failure_cooldown_active :: "manager \<Rightarrow> u32 \<Rightarrow> bool" where
  "failure_cooldown_active m uid \<longleftrightarrow>
     is_some_and (btm_get (m_failures m) uid)
       (\<lambda>(n, at). n \<ge> pol_max_failures (m_policy m)
          \<and> duration_since (now_of m) at < pol_failure_cooldown (m_policy m))"

section \<open>Starting a conversation\<close>

text \<open>What a success may act on: the \<^verbatim>\<open>match intent\<close> of \<^verbatim>\<open>greeter_begin_auth\<close>.\<close>

definition auth_plan ::
  "auth_intent \<Rightarrow> u32 \<Rightarrow> manager \<Rightarrow> ((plan \<times> generation) result \<times> manager) option" where
  "auth_plan intent uid m =
     (if intent = Intent_Unlock then
        (case greeter_target m of
           Some s \<Rightarrow>
             if s_uid s = uid
             then Some (Inr (Plan_Existing (s_id s) (s_generation s), s_generation s), m)
             else Some (Err E_NoSession ''no locked session for this account'', m)
         | None \<Rightarrow> Some (Err E_NoSession ''no locked session for this account'', m))
      else
        (case running_session m uid of
           None \<Rightarrow> map_option (\<lambda>(g, m). (Inr (Plan_New g, g), m)) (alloc_generation m)
         | Some s \<Rightarrow>
             if is_revealable (s_state s)
             then Some (Inr (Plan_Existing (s_id s) (s_generation s), s_generation s), m)
             else Some (Err E_Busy ''this account's session is not ready'', m)))"

text \<open>The part after the plan is fixed: a new operation, its challenge and the helper's request.\<close>

definition start_challenge ::
  "u64 \<Rightarrow> u32 \<Rightarrow> auth_intent \<Rightarrow> string \<Rightarrow> plan \<Rightarrow> generation \<Rightarrow> manager \<Rightarrow> manager" where
  "start_challenge request_id uid intent service pl gn m =
     (let subject = (case pl of Plan_Existing sid g \<Rightarrow> Some (sid, g) | Plan_New _ \<Rightarrow> None);
          m = m\<lparr>m_retained_failure := None\<rparr>;
          (op_id, m) = new_operation Op_Reveal Req_Greeter subject m;
          cid = m_next_challenge m;
          m = m\<lparr>m_next_challenge := m_next_challenge m + 1\<rparr>;
          (hreq, m) = helper_req m;
          m = m\<lparr>m_challenge := Some \<lparr>c_id = cid, c_request_id = request_id, c_helper_req = hreq,
                  c_uid = uid, c_intent = intent, c_op = op_id, c_plan = pl,
                  c_first_prompt_sent = False, c_awaiting_response = False\<rparr>\<rparr>;
          m = op_authorising m;
          m = push (Fx_Helper (HReq_AuthStart hreq (user_name_of m uid) uid intent gn service)) m
      in push (Fx_SetTimer (Tmr_Auth cid) (pol_auth_timeout (m_policy m))) m)"

definition greeter_begin_auth :: "u64 \<Rightarrow> u32 \<Rightarrow> auth_intent \<Rightarrow> manager \<Rightarrow> manager option" where
  "greeter_begin_auth request_id uid intent m =
     (let refuse = (\<lambda>code msg. greeter_error (Some request_id) code msg) in
      if \<not> greeter_authoritative m
      then Some (refuse E_Unauthorised ''the greeter is not active'' m)
      else if \<not> m_helper_up m
      then Some (refuse E_HelperFailure ''the authentication helper is not available'' m)
      else if \<not> user_known m uid then Some (refuse E_InvalidAccount ''no such account'' m)
      else if failure_cooldown_active m uid
      then Some (refuse E_Busy ''too many failed attempts; wait before trying again'' m)
      else if m_selected_uid m \<noteq> Some uid
      then Some (refuse E_StaleGeneration ''the selected account changed; select it again'' m)
      else
        let m = (if is_some_and (m_op m) (\<lambda>o1. o_tstate o1 = Tr_WaitingForAuth)
                 then fail_challenge E_Cancelled ''superseded'' m else m);
            m = (if is_some_and (m_op m) (\<lambda>o1. o_kind o1 = Op_Power \<and> \<not> o_began o1 \<and> \<not> o_committed o1
                      \<and> is_session_requester (o_requester o1))
                 then cancel_immediate m else m)
        in if m_op m \<noteq> None then Some (refuse E_Busy ''an operation is in progress'' m)
           else
             let service = (if intent = Intent_Unlock then pol_unlock_service (m_policy m)
                            else pol_login_service (m_policy m))
             in case auth_plan intent uid m of
                  None \<Rightarrow> None
                | Some (Inl e, m) \<Rightarrow> Some (refuse (err_code e) (err_message e) m)
                | Some (Inr (pl, gn), m) \<Rightarrow>
                    (case select_user uid m of
                       (Inl e, m) \<Rightarrow> Some (refuse (err_code e) (err_message e) m)
                     | (Inr _, m) \<Rightarrow> Some (start_challenge request_id uid intent service pl gn m)))"

section \<open>The conversation\<close>

definition MAX_RESPONSE_BYTES :: nat where
  "MAX_RESPONSE_BYTES = 4096"

definition modify_challenge :: "(challenge \<Rightarrow> challenge) \<Rightarrow> manager \<Rightarrow> manager" where
  "modify_challenge f m = m\<lparr>m_challenge := map_option f (m_challenge m)\<rparr>"

definition greeter_auth_response :: "u64 \<Rightarrow> string \<Rightarrow> manager \<Rightarrow> manager" where
  "greeter_auth_response cid response m =
     (case opt_filter (\<lambda>c. c_id c = cid) (m_challenge m) of
        None \<Rightarrow> greeter_error None E_StaleGeneration ''no such challenge'' m
      | Some c \<Rightarrow>
          if \<not> c_awaiting_response c then greeter_error None E_Busy ''no answer is expected now'' m
          else if length response > MAX_RESPONSE_BYTES
          then greeter_error None E_InvalidArgument ''answer too long'' m
          else
            let m = modify_challenge (\<lambda>c. c\<lparr>c_awaiting_response := False\<rparr>) m;
                m = charge_failure (c_uid c) m
            in push (Fx_Helper (HReq_AuthResponse (c_helper_req c) response)) m)"

fun prompt_of :: "pam_prompt_kind \<Rightarrow> prompt_kind" where
  "prompt_of Pam_EchoOff = Prompt_Secret"
| "prompt_of Pam_EchoOn = Prompt_Visible"
| "prompt_of Pam_Info = Prompt_Info"
| "prompt_of Pam_Error = Prompt_Error"

definition on_auth_prompt :: "u64 \<Rightarrow> pam_prompt_kind \<Rightarrow> string \<Rightarrow> manager \<Rightarrow> manager" where
  "on_auth_prompt req kind txt m =
     (case opt_filter (\<lambda>c. c_helper_req c = req) (m_challenge m) of
        None \<Rightarrow> log_msg Log_Warn None ''stale PAM prompt ignored'' m
      | Some c \<Rightarrow>
          let k = prompt_of kind;
              awaiting = (k = Prompt_Secret \<or> k = Prompt_Visible);
              request_id = (if c_first_prompt_sent c then None else Some (c_request_id c));
              m = modify_challenge
                    (\<lambda>c. c\<lparr>c_awaiting_response := awaiting, c_first_prompt_sent := True\<rparr>) m
          in push (Fx_Greeter (SMsg_AuthPrompt request_id (c_id c) k txt)) m)"

text \<open>Success never reveals a desktop by itself: it lets the operation continue to its gate.\<close>

definition on_auth_success :: "plan \<Rightarrow> u32 \<Rightarrow> u64 option \<Rightarrow> manager \<Rightarrow> manager option" where
  "on_auth_success pl uid ticket m =
     (case pl of
        Plan_New gn \<Rightarrow>
          map_option
            (\<lambda>(sid, m).
               snd (op_set (Some Ph_Preparing) (Some Tr_WaitingForFrames)
                 (modify_op (\<lambda>x. x\<lparr>o_session := Some (sid, gn), o_new_login := True,
                                   o_transition := Kind_NewLoginFade\<rparr>) m)))
            (create_session uid gn (unwrap_or ticket 0) m)
      | Plan_Existing sid gn \<Rightarrow>
          let first_login = is_some_and (session_of m sid) (\<lambda>s. s_state s = St_ReadyBackground);
              m = modify_op (\<lambda>x. x\<lparr>o_session := Some (sid, gn), o_new_login := first_login,
                    o_transition := (if first_login then Kind_NewLoginFade else Kind_UnlockSlideUp)\<rparr>) m;
              m = snd (op_set (Some Ph_Preparing) (Some Tr_WaitingForFrames) m);
              m = (if \<not> first_login \<and> session_of m sid \<noteq> None
                   then push (Fx_Scene (Cmd_RequestEvidence sid gn))
                          (modify_session sid
                            (\<lambda>s. s\<lparr>s_evidence_base :=
                               Some (fold (\<lambda>e. btm_insert (ev_output e) (ev_presented_frames e))
                                      (s_surfaces s) [])\<rparr>) m)
                   else m)
          in Some (try_reveal m))"

text \<open>The world is still the one the challenge was bound to.\<close>

definition auth_still_ok :: "challenge \<Rightarrow> u64 option \<Rightarrow> manager \<Rightarrow> bool" where
  "auth_still_ok c ticket m \<longleftrightarrow>
     m_selected_uid m = Some (c_uid c)
     \<and> is_some_and (m_op m) (\<lambda>o1. o_id o1 = c_op c)
     \<and> g_control (m_greeter m) \<noteq> None
     \<and> (case c_plan c of
          Plan_New _ \<Rightarrow> ticket \<noteq> None \<and> running_session m (c_uid c) = None
        | Plan_Existing sid gn \<Rightarrow>
            is_some_and (session_of m sid) (\<lambda>s. s_generation s = gn \<and> is_revealable (s_state s)))"

definition on_auth_done ::
  "u64 \<Rightarrow> bool \<Rightarrow> error_code option \<Rightarrow> string \<Rightarrow> u64 option \<Rightarrow> manager \<Rightarrow> manager option" where
  "on_auth_done req ok code msg ticket m =
     (case opt_filter (\<lambda>c. c_helper_req c = req) (m_challenge m) of
        None \<Rightarrow> Some (log_msg Log_Warn None ''stale or duplicate AuthDone ignored'' m)
      | Some c \<Rightarrow>
          let m = m\<lparr>m_challenge := None\<rparr>;
              m = push (Fx_CancelTimer (Tmr_Auth (c_id c))) m
          in if \<not> ok then
               let cd = unwrap_or code E_PamFailure;
                   m = push (Fx_Greeter (SMsg_AuthResult (c_id c) False (Some cd) msg)) m
               in Some (op_end_failed (c_op c) cd m)
             else
               let m = m\<lparr>m_failures := btm_remove (c_uid c) (m_failures m)\<rparr> in
               if \<not> auth_still_ok c ticket m then
                 let m = push (Fx_Greeter (SMsg_AuthResult (c_id c) False (Some E_StaleGeneration)
                           ''the request is no longer valid'')) m
                 in Some (op_end_failed (c_op c) E_StaleGeneration m)
               else on_auth_success (c_plan c) (c_uid c) ticket
                      (push (Fx_Greeter (SMsg_AuthResult (c_id c) True None [])) m))"

definition on_auth_timeout :: "u64 \<Rightarrow> manager \<Rightarrow> manager" where
  "on_auth_timeout cid m =
     (if is_some_and (m_challenge m) (\<lambda>c. c_id c = cid)
      then fail_challenge E_Timeout ''the authentication timed out'' m else m)"

section \<open>The control connection\<close>

definition modify_greeter :: "(greeter_state \<Rightarrow> greeter_state) \<Rightarrow> manager \<Rightarrow> manager" where
  "modify_greeter f m = m\<lparr>m_greeter := f (m_greeter m)\<rparr>"

definition greeter_peer_ok :: "u32 \<Rightarrow> u32 \<Rightarrow> manager \<Rightarrow> bool" where
  "greeter_peer_ok uid pid m \<longleftrightarrow>
     pol_greeter_uid (m_policy m) = Some uid \<and> g_pid (m_greeter m) = Some pid
     \<and> g_generation (m_greeter m) \<noteq> None \<and> g_control (m_greeter m) = None"

definition on_greeter_peer :: "u64 \<Rightarrow> u32 \<Rightarrow> u32 \<Rightarrow> manager \<Rightarrow> manager" where
  "on_greeter_peer conn uid pid m =
     (let ok = greeter_peer_ok uid pid m;
          m = (if \<not> ok
               then log_msg Log_Warn None
                      (''greeter control connection refused (uid '' @ show_nat (unat uid) @ '', pid ''
                         @ show_nat (unat pid) @ '')'') m
               else modify_greeter (\<lambda>g. g\<lparr>g_control := Some conn, g_hello := False\<rparr>) m)
      in push (Fx_ConnVerdict conn ok) m)"

definition on_greeter_disconnected :: "u64 \<Rightarrow> manager \<Rightarrow> manager" where
  "on_greeter_disconnected conn m =
     (if g_control (m_greeter m) \<noteq> Some conn then m
      else
        let m = modify_greeter (\<lambda>g. g\<lparr>g_control := None, g_hello := False\<rparr>) m
        in if m_challenge m \<noteq> None then fail_challenge E_Cancelled ''the greeter disconnected'' m else m)"

definition greeter_hello :: "u32 \<Rightarrow> manager \<Rightarrow> manager" where
  "greeter_hello version m =
     (if version \<noteq> PROTOCOL_VERSION then
        modify_greeter (\<lambda>g. g\<lparr>g_control := None\<rparr>)
          (push Fx_DropGreeter (greeter_error None E_InvalidArgument ''unsupported protocol version'' m))
      else
        let m = modify_greeter (\<lambda>g. g\<lparr>g_hello := True\<rparr>) m;
            m = push (Fx_Greeter (SMsg_Snapshot ((build_snapshot m)\<lparr>snap_revision := m_revision m\<rparr>))) m
        in case progress_view m of
             Some p \<Rightarrow> push (Fx_Greeter (SMsg_Progress p)) m
           | None \<Rightarrow> m)"

definition greeter_power_request :: "u64 \<Rightarrow> power_action \<Rightarrow> manager \<Rightarrow> manager" where
  "greeter_power_request request_id action m =
     (if \<not> greeter_authoritative m \<or> pol_greeter_uid (m_policy m) = None
      then greeter_error (Some request_id) E_Unauthorised ''the greeter is not active'' m
      else if \<not> greeter_may_power m action
      then greeter_error (Some request_id) E_Unauthorised ''policy does not allow this action here'' m
      else report_error (Some request_id) (request_power Req_Greeter action None m))"

definition on_greeter_message :: "u64 \<Rightarrow> client_message \<Rightarrow> manager \<Rightarrow> manager option" where
  "on_greeter_message conn msg m =
     (if g_control (m_greeter m) \<noteq> Some conn then Some m
      else
        (case msg of
           CMsg_Hello version \<Rightarrow> Some (greeter_hello version m)
         | _ \<Rightarrow>
             if \<not> g_hello (m_greeter m)
             then Some (greeter_error None E_Unauthorised ''hello is required first'' m)
             else
               (case msg of
                  CMsg_Hello _ \<Rightarrow> Some m
                | CMsg_SelectUser uid \<Rightarrow> Some (greeter_select_user uid m)
                | CMsg_BeginAuth request_id uid intent \<Rightarrow> greeter_begin_auth request_id uid intent m
                | CMsg_AuthResponse cid response \<Rightarrow> Some (greeter_auth_response cid response m)
                | CMsg_CancelAuth cid \<Rightarrow>
                    Some (if is_some_and (m_challenge m) (\<lambda>c. c_id c = cid)
                          then fail_challenge E_Cancelled ''cancelled'' m
                          else greeter_error None E_StaleGeneration ''no such challenge'' m)
                | CMsg_Power request_id action \<Rightarrow> Some (greeter_power_request request_id action m)
                | CMsg_CancelOperation oid \<Rightarrow>
                    Some (report_error None (cancel_operation Req_Greeter oid m)))))"

end
