(* ===== verification/Core_Dbus.thy ===== *)
theory Core_Dbus
  imports Core_Auth
begin

text \<open>
  \<^verbatim>\<open>bsm/manager/src/core/dbus.rs\<close>: who is calling, which principals may call which method, the
  read-only views filtered to the caller's own account, and the publication of appearance.
\<close>

section \<open>Callers\<close>

definition is_ascii_hexdigit :: "char \<Rightarrow> bool" where
  "is_ascii_hexdigit c \<longleftrightarrow>
     (let n = (of_char c :: nat) in (48 \<le> n \<and> n \<le> 57) \<or> (65 \<le> n \<and> n \<le> 70) \<or> (97 \<le> n \<and> n \<le> 102))"

definition valid_accent :: "string \<Rightarrow> bool" where
  "valid_accent s \<longleftrightarrow> length s = 7 \<and> starts_with (CHR ''#'') s \<and> list_all is_ascii_hexdigit (drop 1 s)"

definition session_of_caller :: "manager \<Rightarrow> caller \<Rightarrow> session option" where
  "session_of_caller m cal =
     (case cal_cgroup cal of
        None \<Rightarrow> None
      | Some cg \<Rightarrow>
          List.find (\<lambda>s. is_some_and (s_scope s) (cgroup_in_scope cg) \<and> s_uid s = cal_uid cal)
            (filter (\<lambda>s. is_running (s_state s)) (btm_values (m_sessions m))))"

definition principal_of :: "manager \<Rightarrow> caller \<Rightarrow> principal" where
  "principal_of m cal =
     (if cal_uid cal = 0 then Prin_Root
      else if pol_greeter_uid (m_policy m) = Some (cal_uid cal) then Prin_Greeter
      else case session_of_caller m cal of
        Some s \<Rightarrow> Prin_Session (s_id s)
      | None \<Rightarrow> Prin_User (cal_uid cal))"

text \<open>The uid a caller is limited to: nothing for root and the greeter, and \<^verbatim>\<open>u32::MAX\<close> for a session
  that is gone.\<close>

definition restricted_uid :: "manager \<Rightarrow> principal \<Rightarrow> u32 option" where
  "restricted_uid m who =
     (case who of
        Prin_Root \<Rightarrow> None
      | Prin_Greeter \<Rightarrow> None
      | Prin_User u \<Rightarrow> Some u
      | Prin_Session sid \<Rightarrow> or_else (map_option s_uid (session_of m sid)) (Some (- 1)))"

section \<open>Views\<close>

definition op_is_of :: "manager \<Rightarrow> operation_info \<Rightarrow> u32 option \<Rightarrow> bool" where
  "op_is_of m i own \<longleftrightarrow>
     (case own of
        None \<Rightarrow> True
      | Some u \<Rightarrow>
          (case oi_session i of
             Some sid \<Rightarrow> is_some_and (session_of m sid) (\<lambda>x. s_uid x = u)
           | None \<Rightarrow> False))"

definition user_infos :: "manager \<Rightarrow> user_info list" where
  "user_infos m =
     map (\<lambda>u. let p = ue_profile u; (a, s) = availability_of m (up_uid p) in
            \<lparr>ui_uid = up_uid p, ui_user_name = up_user_name p, ui_display_name = up_display_name p,
             ui_availability = a, ui_session = s, ui_avatar_rev = up_avatar_rev p,
             ui_wallpaper_rev = up_wallpaper_rev p\<rparr>)
       (btm_values (m_users m))"

definition session_infos :: "manager \<Rightarrow> session_info list" where
  "session_infos m =
     map (\<lambda>s. \<lparr>si_id = s_id s, si_generation = s_generation s, si_uid = s_uid s, si_state = s_state s,
               si_availability =
                 unwrap_or (map_option sum_availability
                   (List.find (\<lambda>x. sum_id x = s_id s) (session_summaries m))) Av_Unavailable,
               si_foreground = (m_foreground m = Some (s_id s)),
               si_locked = is_protected (s_state s),
               si_progress = (case opt_filter (\<lambda>_. launching s) (s_progress s) of
                                Some p \<Rightarrow> progress_fraction p | None \<Rightarrow> 100)\<rparr>)
       (filter (\<lambda>s. s_state s \<noteq> St_Terminated) (btm_values (m_sessions m)))"

definition foreground_of :: "manager \<Rightarrow> u32 option \<Rightarrow> session option" where
  "foreground_of m own =
     opt_filter (\<lambda>s. is_none_or own (\<lambda>u. s_uid s = u)) (Option.bind (m_foreground m) (session_of m))"

definition status_info_of :: "manager \<Rightarrow> u32 option \<Rightarrow> status_info" where
  "status_info_of m own =
     \<lparr>sti_seat = m_seat m,
      sti_selected_uid = opt_filter (\<lambda>u. is_none_or own (\<lambda>x. u = x)) (m_selected_uid m),
      sti_last_used_uid = opt_filter (\<lambda>u. is_none_or own (\<lambda>x. u = x)) (m_last_used_uid m),
      sti_foreground = map_option s_id (foreground_of m own),
      sti_revision = m_revision m,
      sti_operation = opt_filter (\<lambda>i. own = None \<or> op_is_of m i own) (map_option op_info (m_op m)),
      sti_greeter_connected = (g_control (m_greeter m) \<noteq> None \<and> g_hello (m_greeter m)),
      sti_helper_connected = m_helper_up m,
      sti_outputs = length (m_outputs m)\<rparr>"

definition transition_infos :: "manager \<Rightarrow> u32 option \<Rightarrow> operation_info list" where
  "transition_infos m own =
     filter (\<lambda>i. own = None \<or> op_is_of m i own)
       ((case m_op m of Some o1 \<Rightarrow> [op_info o1] | None \<Rightarrow> []) @ rev (m_history m))"

section \<open>Actions\<close>

abbreviation deny :: "string \<Rightarrow> 'a result" where
  "deny why \<equiv> Err E_Unauthorised why"

definition own_session_action ::
  "principal \<Rightarrow> session_id option \<Rightarrow> manager \<Rightarrow> (requester \<times> session_id) result" where
  "own_session_action who target m =
     (case who of
        Prin_Session own \<Rightarrow>
          let t = unwrap_or (opt_filter (\<lambda>t. t \<noteq> []) target) own in
          if t \<noteq> own then deny ''a session may act only on itself''
          else Inr (Req_Session own, t)
      | Prin_Root \<Rightarrow>
          (case or_else (opt_filter (\<lambda>t. t \<noteq> []) target) (m_foreground m) of
             Some t \<Rightarrow> Inr (Req_Root, t)
           | None \<Rightarrow> Err E_NoSession ''no session'')
      | Prin_Greeter \<Rightarrow> deny ''only a hosted session or root may do this''
      | Prin_User _ \<Rightarrow> deny ''only a hosted session or root may do this'')"

definition reply_operation :: "operation_id result \<times> manager \<Rightarrow> reply result \<times> manager" where
  "reply_operation r = (case r of (Inl e, m) \<Rightarrow> (Inl e, m) | (Inr oid, m) \<Rightarrow> (Inr (Rpl_Operation oid), m))"

definition reply_done :: "unit result \<times> manager \<Rightarrow> reply result \<times> manager" where
  "reply_done r = (case r of (Inl e, m) \<Rightarrow> (Inl e, m) | (Inr _, m) \<Rightarrow> (Inr Rpl_Done, m))"

definition dbus_power :: "principal \<Rightarrow> caller \<Rightarrow> power_action \<Rightarrow> manager \<Rightarrow> reply result \<times> manager" where
  "dbus_power who cal action m =
     (case who of
        Prin_Root \<Rightarrow> reply_operation (request_power Req_Root action None m)
      | Prin_Session sid \<Rightarrow> reply_operation (request_power (Req_Session sid) action (Some cal) m)
      | Prin_Greeter \<Rightarrow> (deny ''the greeter uses its control socket for power actions'', m)
      | Prin_User _ \<Rightarrow> (deny ''not a hosted session'', m))"

text \<open>The first component is the reply, \<^term>\<open>None\<close> when it is sent later or never.\<close>

definition publish_uid :: "manager \<Rightarrow> principal \<Rightarrow> u32 option result" where
  "publish_uid m who =
     (case who of
        Prin_Session sid \<Rightarrow> Inr (map_option s_uid (session_of m sid))
      | Prin_User u \<Rightarrow> Inr (Some u)
      | _ \<Rightarrow> deny ''only an account's own shell may publish its appearance'')"

definition publish_too_often :: "manager \<Rightarrow> u32 \<Rightarrow> bool" where
  "publish_too_often m uid \<longleftrightarrow>
     uid \<in> m_publishing m
     \<or> is_some_and (btm_get (m_last_publish m) uid)
          (\<lambda>t. duration_since (now_of m) t < pol_publish_interval (m_policy m))"

definition dbus_publish ::
  "call_id \<Rightarrow> principal \<Rightarrow> publish_request \<Rightarrow> manager \<Rightarrow> reply result option \<times> manager" where
  "dbus_publish call who req m =
     (case publish_uid m who of
        Inl e \<Rightarrow> (Some (Inl e), m)
      | Inr None \<Rightarrow> (None, m)
      | Inr (Some uid) \<Rightarrow>
          if \<not> user_known m uid then (Some (Err E_InvalidAccount ''not an eligible account''), m)
          else if \<not> valid_accent (app_accent (pr_appearance req))
          then (Some (Err E_InvalidArgument ''accent must be #rrggbb''), m)
          else if publish_too_often m uid
          then (Some (Err E_Busy ''appearance is published too often''), m)
          else
            let m = m\<lparr>m_publishing := insert uid (m_publishing m),
                      m_last_publish := btm_insert uid (now_of m) (m_last_publish m)\<rparr>
            in (None, push (Fx_PublishAppearance (Some call) uid req) m))"

definition cancel_requester :: "principal \<Rightarrow> requester result" where
  "cancel_requester who =
     (case who of
        Prin_Root \<Rightarrow> Inr Req_Root
      | Prin_Greeter \<Rightarrow> Inr Req_Greeter
      | Prin_Session sid \<Rightarrow> Inr (Req_Session sid)
      | Prin_User _ \<Rightarrow> deny ''not your operation'')"

definition on_own_session ::
  "(requester \<times> session_id) result \<Rightarrow> (requester \<Rightarrow> session_id \<Rightarrow> manager \<Rightarrow> operation_id result \<times> manager)
     \<Rightarrow> manager \<Rightarrow> reply result \<times> manager" where
  "on_own_session r f m =
     (case r of Inl e \<Rightarrow> (Inl e, m) | Inr (req, sid) \<Rightarrow> reply_operation (f req sid m))"

definition dbus_call ::
  "call_id \<Rightarrow> caller \<Rightarrow> principal \<Rightarrow> dbus_method \<Rightarrow> manager \<Rightarrow> reply result option \<times> manager" where
  "dbus_call call cal who mth m =
     (let own = restricted_uid m who; some = apfst Some in
      case mth of
        Mth_GetUsers \<Rightarrow>
          (Some (Inr (Rpl_Users (filter (\<lambda>u. is_none_or own (\<lambda>x. ui_uid u = x)) (user_infos m)))), m)
      | Mth_GetSessions \<Rightarrow>
          (Some (Inr (Rpl_Sessions (filter (\<lambda>s. is_none_or own (\<lambda>x. si_uid s = x)) (session_infos m)))), m)
      | Mth_GetSelectedUser \<Rightarrow>
          (Some (Inr (Rpl_Selected (opt_filter (\<lambda>u. is_none_or own (\<lambda>x. u = x)) (m_selected_uid m)))), m)
      | Mth_GetForegroundSession \<Rightarrow>
          (Some (Inr (Rpl_Foreground (map_option (\<lambda>s. (s_id s, s_generation s)) (foreground_of m own)))), m)
      | Mth_GetStatus \<Rightarrow> (Some (Inr (Rpl_Status (status_info_of m own))), m)
      | Mth_GetOutputs \<Rightarrow> (Some (Inr (Rpl_Outputs (m_outputs m))), m)
      | Mth_GetTransitions \<Rightarrow> (Some (Inr (Rpl_Transitions (transition_infos m own))), m)
      | Mth_SelectGreeterUser uid \<Rightarrow>
          (if who = Prin_Root \<or> who = Prin_Greeter then some (reply_done (select_user uid m))
           else (Some (deny ''only root or the greeter may select the greeter's account''), m))
      | Mth_RequestLock target \<Rightarrow>
          some (on_own_session (own_session_action who target m)
                 (\<lambda>req sid. request_lock req sid Op_Lock) m)
      | Mth_RequestSwitchUser \<Rightarrow>
          some (on_own_session (own_session_action who None m)
                 (\<lambda>req sid. request_lock req sid Op_SwitchUser) m)
      | Mth_RequestLogout target \<Rightarrow>
          some (on_own_session (own_session_action who target m) request_logout m)
      | Mth_RequestSuspend \<Rightarrow> some (dbus_power who cal Pw_Suspend m)
      | Mth_RequestReboot \<Rightarrow> some (dbus_power who cal Pw_Reboot m)
      | Mth_RequestPowerOff \<Rightarrow> some (dbus_power who cal Pw_PowerOff m)
      | Mth_CancelOperation oid \<Rightarrow>
          (case cancel_requester who of
             Inl e \<Rightarrow> (Some (Inl e), m)
           | Inr req \<Rightarrow> some (reply_done (cancel_operation req oid m)))
      | Mth_PublishAppearance req \<Rightarrow> dbus_publish call who req m)"

definition on_dbus :: "call_id \<Rightarrow> caller \<Rightarrow> dbus_method \<Rightarrow> manager \<Rightarrow> manager" where
  "on_dbus call cal mth m =
     (case dbus_call call cal (principal_of m cal) mth m of
        (None, m) \<Rightarrow> m
      | (Some r, m) \<Rightarrow>
          let m = (case r of
                     Inl e \<Rightarrow> log_msg Log_Info None
                       (method_name mth @ '' from uid '' @ show_nat (unat (cal_uid cal)) @ '' refused: ''
                          @ error_code_str (err_code e)) m
                   | Inr _ \<Rightarrow> m)
          in push (Fx_DbusReply call r) m)"

definition apply_view :: "published_view \<Rightarrow> user_profile \<Rightarrow> user_profile" where
  "apply_view v p =
     p\<lparr>up_appearance := pv_appearance v, up_avatar_path := pv_avatar_path v,
       up_avatar_rev := pv_avatar_rev v, up_wallpaper_path := pv_wallpaper_path v,
       up_wallpaper_blur_path := pv_wallpaper_blur_path v, up_wallpaper_rev := pv_wallpaper_rev v,
       up_show_personal_images := pv_show_personal_images v\<rparr>"

definition on_appearance_published ::
  "call_id option \<Rightarrow> u32 \<Rightarrow> published_view result \<Rightarrow> manager \<Rightarrow> manager" where
  "on_appearance_published call uid res m =
     (let m = m\<lparr>m_publishing := m_publishing m - {uid}\<rparr>;
          (reply, m) =
            (case res of
               Inr v \<Rightarrow>
                 let m = m\<lparr>m_users := btm_modify uid (\<lambda>u. u\<lparr>ue_profile := apply_view v (ue_profile u)\<rparr>) (m_users m)\<rparr>;
                     rv = unwrap_or (btm_get (m_appearance_rev m) uid) 0 + 1;
                     m = m\<lparr>m_appearance_rev := btm_insert uid rv (m_appearance_rev m)\<rparr>
                 in (Inr Rpl_Done, push (Fx_Dbus (Sig_AppearanceChanged uid rv)) m)
             | Inl e \<Rightarrow> (Inl e, m))
      in case call of Some c \<Rightarrow> push (Fx_DbusReply c reply) m | None \<Rightarrow> m)"

end
