(* ===== verification/Core_Manager.thy ===== *)
theory Core_Manager
  imports Core_Dbus
begin

text \<open>
  \<^verbatim>\<open>bsm/manager/src/core/mod.rs\<close>: start, accounts and recovery, scene events, the helper connection,
  the greeter process, timers, publication of derived state (\<^verbatim>\<open>settle\<close>), the security predicate
  \<^verbatim>\<open>check_invariants\<close> and the entry point \<^verbatim>\<open>handle\<close>.
\<close>

section \<open>Start, accounts, recovery\<close>

definition on_start :: "persisted \<Rightarrow> manager \<Rightarrow> manager" where
  "on_start p m =
     (if m_started m then m
      else push Fx_LoadAccounts (m\<lparr>m_started := True, m_last_used_uid := per_last_used_uid p\<rparr>))"

definition known_uid :: "manager \<Rightarrow> u32 option \<Rightarrow> u32 option" where
  "known_uid m uid = opt_filter (\<lambda>u. btm_contains (m_users m) u) uid"

definition first_key :: "('k, 'v) btmap \<Rightarrow> 'k option" where
  "first_key es = (case es of [] \<Rightarrow> None | (k, _) # _ \<Rightarrow> Some k)"

definition on_accounts :: "account_entry list \<Rightarrow> manager \<Rightarrow> manager" where
  "on_accounts accounts m =
     (let m = m\<lparr>m_users :=
                 fold (\<lambda>a. btm_insert (acc_uid a) \<lparr>ue_profile = profile_from a\<rparr>) accounts []\<rparr>;
          keep_selected = known_uid m (m_selected_uid m);
          can_change_selection = (m_challenge m = None \<and> m_op m = None)
      in if keep_selected = None \<or> (can_change_selection \<and> m_selected_uid m = None)
         then m\<lparr>m_selected_uid := or_else (known_uid m (m_last_used_uid m)) (first_key (m_users m))\<rparr>
         else m)"

definition recover_one :: "recovered_session \<Rightarrow> manager \<Rightarrow> manager" where
  "recover_one r m =
     (let p = rec_session r in
      if \<not> rec_alive r then
        let m = log_msg Log_Info (Some (ps_id p)) ''recovered session has no bridge; closing it'' m
        in m\<lparr>m_pending_closes := m_pending_closes m @ [(ps_id p, ps_generation p)]\<rparr>
      else if btm_contains (m_sessions m) (ps_id p) \<or> running_session m (ps_uid p) \<noteq> None then m
      else recover_session p m)"

definition on_recovered :: "recovered_session list \<Rightarrow> manager \<Rightarrow> manager" where
  "on_recovered rs m = fold recover_one rs m"

section \<open>The greeter process and the helper connection\<close>

definition maybe_spawn_greeter :: "manager \<Rightarrow> manager option" where
  "maybe_spawn_greeter m =
     (if \<not> m_helper_up m \<or> \<not> m_compositor_ready m \<or> g_generation (m_greeter m) \<noteq> None
         \<or> g_respawn_pending (m_greeter m)
      then Some m
      else case alloc_generation m of
        None \<Rightarrow> None
      | Some (gn, m) \<Rightarrow>
          let (req, m) = helper_req m;
              m = modify_greeter (\<lambda>g. g\<lparr>g_generation := Some gn, g_spawn_req := Some req, g_pid := None\<rparr>) m
          in Some (push (Fx_Helper (HReq_SpawnGreeter req gn (pol_greeter_wayland_socket (m_policy m))
                     (pol_greeter_control_socket (m_policy m)))) m))"

definition drop_greeter_input :: "manager \<Rightarrow> manager" where
  "drop_greeter_input m = (if m_input_owner m = Own_Greeter then m\<lparr>m_input_owner := Own_None\<rparr> else m)"

text \<open>The greeter is gone. Nothing it protected is released.\<close>

definition greeter_lost :: "manager \<Rightarrow> manager" where
  "greeter_lost m =
     (let m = modify_greeter (\<lambda>g. g\<lparr>g_wayland := False\<rparr>) m;
          m = drop_greeter_input m;
          m = modify_greeter (\<lambda>g. g\<lparr>g_generation := None, g_spawn_req := None, g_pid := None\<rparr>) m;
          m = (if g_control (m_greeter m) \<noteq> None
               then push Fx_DropGreeter (modify_greeter (\<lambda>g. g\<lparr>g_control := None\<rparr>) m) else m);
          m = modify_greeter (\<lambda>g. g\<lparr>g_hello := False\<rparr>) m;
          m = (if m_challenge m \<noteq> None
               then fail_challenge E_Cancelled ''the greeter went away'' m else m);
          m = (if \<not> g_respawn_pending (m_greeter m)
               then push (Fx_SetTimer Tmr_GreeterRespawn (pol_greeter_respawn_delay (m_policy m)))
                      (modify_greeter (\<lambda>g. g\<lparr>g_respawn_pending := True\<rparr>) m)
               else m)
      in log_msg Log_Warn None ''greeter lost; sessions stay protected until it returns'' m)"

definition on_helper_greeter_spawned :: "u64 \<Rightarrow> generation \<Rightarrow> u32 \<Rightarrow> manager \<Rightarrow> manager" where
  "on_helper_greeter_spawned req gn pid m =
     (if g_generation (m_greeter m) \<noteq> Some gn \<or> g_spawn_req (m_greeter m) \<noteq> Some req
      then log_msg Log_Warn None ''stale GreeterSpawned ignored'' m
      else push (Fx_Scene (Cmd_RegisterGreeter gn (unwrap_or (pol_greeter_uid (m_policy m)) 0) pid))
             (modify_greeter (\<lambda>g. g\<lparr>g_pid := Some pid\<rparr>) m))"

definition on_helper_connected :: "manager \<Rightarrow> manager option" where
  "on_helper_connected m =
     (let m = m\<lparr>m_helper_up := True\<rparr>;
          closes = m_pending_closes m;
          m = m\<lparr>m_pending_closes := []\<rparr>;
          m = fold (\<lambda>(sid, gn). push (Fx_Helper (HReq_CloseSession sid gn (pol_close_grace_ms (m_policy m))))) closes m;
          m = (if \<not> g_wayland (m_greeter m)
               then modify_greeter (\<lambda>g. g\<lparr>g_generation := None, g_spawn_req := None\<rparr>) m else m)
      in maybe_spawn_greeter m)"

definition on_helper_lost :: "manager \<Rightarrow> manager" where
  "on_helper_lost m =
     (let m = m\<lparr>m_helper_up := False\<rparr>;
          m = log_msg Log_Error None ''helper connection lost'' m;
          m = (if m_challenge m \<noteq> None
               then fail_challenge E_HelperFailure ''the authentication helper is not available'' m else m);
          ls = map (\<lambda>s. (s_id s, s_generation s))
                 (filter (\<lambda>s. launching s \<and> s_open_sent s) (btm_values (m_sessions m)))
      in fold (\<lambda>(sid, gn). fail_launch sid gn E_HelperFailure ''the session helper connection was lost'') ls m)"

definition on_helper :: "helper_event \<Rightarrow> manager \<Rightarrow> manager option" where
  "on_helper e m =
     (case e of
        HEv_Pong _ \<Rightarrow> Some m
      | HEv_AuthPrompt req kind txt \<Rightarrow> Some (on_auth_prompt req kind txt m)
      | HEv_AuthDone req ok code msg ticket \<Rightarrow> on_auth_done req ok code msg ticket m
      | HEv_SessionOpened req sid gn host_pid _ scope logind \<Rightarrow>
          Some (on_session_opened req sid gn host_pid scope logind m)
      | HEv_SessionFailed req sid gn code msg \<Rightarrow> Some (on_session_failed req sid gn code msg m)
      | HEv_SessionExited sid gn status \<Rightarrow> Some (on_session_exited sid gn status m)
      | HEv_GreeterSpawned req gn pid \<Rightarrow> Some (on_helper_greeter_spawned req gn pid m)
      | HEv_GreeterExited gn status \<Rightarrow>
          Some (if g_generation (m_greeter m) = Some gn
                then greeter_lost (log_msg Log_Warn None (''greeter exited with status '' @ show_int status) m)
                else m)
      | HEv_LockedHintResult _ ok _ msg \<Rightarrow>
          Some (if \<not> ok then log_msg Log_Warn None (''SetLockedHint failed: '' @ msg) m else m))"

section \<open>Scene events and timers\<close>

definition update_outputs :: "output_info list \<Rightarrow> manager \<Rightarrow> manager" where
  "update_outputs outs m =
     (if m_outputs m = outs then m
      else on_outputs_changed (m\<lparr>m_outputs := outs, m_outputs_epoch := m_outputs_epoch m + 1\<rparr>))"

definition on_greeter_connected :: "generation \<Rightarrow> u32 \<Rightarrow> manager \<Rightarrow> manager" where
  "on_greeter_connected gn pid m =
     (if g_generation (m_greeter m) = Some gn \<and> is_none_or (g_pid (m_greeter m)) (\<lambda>p. p = pid)
      then try_reveal (modify_greeter (\<lambda>g. g\<lparr>g_wayland := True, g_pid := Some pid\<rparr>) m)
      else log_msg Log_Warn None ''greeter connection for an unknown generation ignored'' m)"

definition on_greeter_gone :: "generation \<Rightarrow> manager \<Rightarrow> manager" where
  "on_greeter_gone gn m =
     (if g_generation (m_greeter m) = Some gn
      then greeter_lost (push (Fx_Helper (HReq_KillGreeter gn)) (drop_greeter_input m)) else m)"

text \<open>An owner that contradicts the manager's state is not adopted: the compositor is corrected.\<close>

definition owner_legit :: "manager \<Rightarrow> input_owner \<Rightarrow> bool" where
  "owner_legit m own \<longleftrightarrow>
     (case own of
        Own_Session sid \<Rightarrow>
          m_foreground m = Some sid
          \<and> is_some_and (session_of m sid) (\<lambda>x. s_state x = St_Foreground)
          \<and> sid \<notin> m_protected m
      | _ \<Rightarrow> True)"

definition on_input_owner_changed :: "input_owner \<Rightarrow> manager \<Rightarrow> manager" where
  "on_input_owner_changed own m =
     (if owner_legit m own then m\<lparr>m_input_owner := own\<rparr>
      else push (Fx_Scene (Cmd_SetInputOwner (m_input_owner m)))
             (log_msg Log_Warn None ''a stale input owner report ignored; the compositor is corrected'' m))"

definition on_scene :: "scene_event \<Rightarrow> manager \<Rightarrow> manager option" where
  "on_scene e m =
     (case e of
        Scn_Ready outs \<Rightarrow>
          maybe_spawn_greeter (push (Fx_Scene Cmd_ShowGreeterOnly)
            (update_outputs outs (m\<lparr>m_compositor_ready := True\<rparr>)))
      | Scn_OutputsChanged outs \<Rightarrow> Some (update_outputs outs m)
      | Scn_GreeterConnected gn pid \<Rightarrow> Some (on_greeter_connected gn pid m)
      | Scn_GreeterGone gn \<Rightarrow> Some (on_greeter_gone gn m)
      | Scn_SessionSocketReady sid gn path \<Rightarrow> Some (on_socket_ready sid gn path m)
      | Scn_SessionConnected sid gn pid \<Rightarrow> Some (on_session_connected sid gn pid m)
      | Scn_SessionConnectionRejected sid gn reason \<Rightarrow> Some (on_connection_rejected sid gn reason m)
      | Scn_SessionSurfaces sid gn surfaces \<Rightarrow> Some (on_surfaces sid gn surfaces m)
      | Scn_SessionReport sid gn report \<Rightarrow> Some (on_report sid gn report m)
      | Scn_SessionGone sid gn \<Rightarrow> Some (on_session_gone sid gn m)
      | Scn_Protected sid gn \<Rightarrow> Some (on_protected sid gn m)
      | Scn_InputOwnerChanged own \<Rightarrow> Some (on_input_owner_changed own m)
      | Scn_TransitionPhase oid phase \<Rightarrow> Some (on_transition_phase oid phase m))"

definition on_timer :: "timer_id \<Rightarrow> manager \<Rightarrow> manager option" where
  "on_timer t m =
     (case t of
        Tmr_GreeterRespawn \<Rightarrow>
          maybe_spawn_greeter (modify_greeter (\<lambda>g. g\<lparr>g_respawn_pending := False\<rparr>) m)
      | Tmr_Stage sid gn st \<Rightarrow> Some (on_stage_timeout sid gn st m)
      | Tmr_Protect sid gn \<Rightarrow> Some (on_protect_timeout sid gn m)
      | Tmr_Frames oid \<Rightarrow> Some (on_frames_timeout oid m)
      | Tmr_Auth cid \<Rightarrow> Some (on_auth_timeout cid m)
      | Tmr_Close sid gn \<Rightarrow> Some (on_close_timeout sid gn m)
      | Tmr_Transition oid \<Rightarrow> Some (on_transition_timeout oid m)
      | Tmr_Checks oid \<Rightarrow> Some (on_checks_timeout oid m)
      | Tmr_Power oid \<Rightarrow> Some (on_power_timeout oid m)
      | Tmr_Recovery sid gn \<Rightarrow> Some (on_recovery_timeout sid gn m))"

section \<open>Publication of derived state\<close>

definition modify_published :: "(published \<Rightarrow> published) \<Rightarrow> manager \<Rightarrow> manager" where
  "modify_published f m = m\<lparr>m_published := f (m_published m)\<rparr>"

definition settle_input :: "manager \<Rightarrow> manager" where
  "settle_input m =
     (if g_wayland (m_greeter m) \<and> m_input_owner m = Own_None \<and> greeter_authoritative m
         \<and> \<not> power_committed m \<and> \<not> is_some_and (m_op m) (\<lambda>o1. o_pending_fail o1 \<noteq> None)
         \<and> \<not> any_session (\<lambda>s. s_state s = St_LockRequested) m
      then set_input_owner Own_Greeter m else m)"

definition settle_persist :: "manager \<Rightarrow> manager" where
  "settle_persist m =
     (let p = persisted_view m in
      if pub_persisted (m_published m) \<noteq> Some p then
        modify_published (\<lambda>b. b\<lparr>pub_persisted := Some p\<rparr>)
          (if pub_persisted (m_published m) \<noteq> None \<or> per_last_used_uid p \<noteq> None \<or> per_sessions p \<noteq> []
           then push (Fx_Persist p) m else m)
      else m)"

definition settle_sessions :: "manager \<Rightarrow> manager" where
  "settle_sessions m =
     (let sums = session_summaries m in
      if sums \<noteq> pub_sessions (m_published m) then
        let m = m\<lparr>m_sessions_revision := m_sessions_revision m + 1\<rparr>;
            m = modify_published (\<lambda>b. b\<lparr>pub_sessions := sums\<rparr>) m
        in push (Fx_Dbus (Sig_SessionsChanged (m_sessions_revision m))) m
      else m)"

definition settle_selected :: "manager \<Rightarrow> manager" where
  "settle_selected m =
     (if pub_selected (m_published m) \<noteq> m_selected_uid m then
        let m = m\<lparr>m_selected_revision := m_selected_revision m + 1\<rparr>;
            m = modify_published (\<lambda>b. b\<lparr>pub_selected := m_selected_uid m\<rparr>) m
        in push (Fx_Dbus (Sig_SelectedUserChanged (m_selected_revision m) (m_selected_uid m))) m
      else m)"

definition settle_foreground :: "manager \<Rightarrow> manager" where
  "settle_foreground m =
     (let fg = map_option (\<lambda>s. (s_id s, s_generation s)) (Option.bind (m_foreground m) (session_of m)) in
      if pub_foreground (m_published m) \<noteq> fg then
        modify_published (\<lambda>b. b\<lparr>pub_foreground := fg\<rparr>)
          (push (Fx_Dbus (Sig_ForegroundChanged (map_option fst fg) (map_option snd fg))) m)
      else m)"

definition running_view :: "(session \<Rightarrow> 'a) \<Rightarrow> manager \<Rightarrow> (session_id, 'a) btmap" where
  "running_view f m =
     fold (\<lambda>s. btm_insert (s_id s) (f s))
       (filter (\<lambda>s. is_running (s_state s)) (btm_values (m_sessions m))) []"

definition settle_locks :: "manager \<Rightarrow> manager" where
  "settle_locks m =
     (let locked = running_view (\<lambda>s. is_protected (s_state s)) m;
          was = pub_locked (m_published m);
          m = fold (\<lambda>(sid, l) m.
                 if btm_get was sid \<noteq> Some l \<and> (l \<or> btm_contains was sid)
                 then push (Fx_Dbus (Sig_LockStateChanged sid l)) m else m) locked m;
          m = fold (\<lambda>(sid, w) m.
                 if w \<and> \<not> btm_contains locked sid
                 then push (Fx_Dbus (Sig_LockStateChanged sid False)) m else m) was m
      in modify_published (\<lambda>b. b\<lparr>pub_locked := locked\<rparr>) m)"

definition settle_ready :: "manager \<Rightarrow> manager" where
  "settle_ready m =
     (let ready = running_view (\<lambda>s. \<not> launching s) m;
          m = fold (\<lambda>(sid, r) m.
                 if btm_get (pub_ready (m_published m)) sid \<noteq> Some r
                 then push (Fx_Dbus (Sig_SessionReadinessChanged sid
                        (unwrap_or (map_option s_generation (session_of m sid)) 0) r)) m else m) ready m
      in modify_published (\<lambda>b. b\<lparr>pub_ready := ready\<rparr>) m)"

definition settle_progress :: "manager \<Rightarrow> manager" where
  "settle_progress m =
     (let progress = progress_view m;
          pkey = map_option (\<lambda>p. (pm_session p, pm_generation p, pm_revision p)) progress
      in if pub_progress (m_published m) \<noteq> pkey then
           modify_published (\<lambda>b. b\<lparr>pub_progress := pkey\<rparr>)
             (case progress of
                Some p \<Rightarrow> push (Fx_Greeter (SMsg_Progress p)) (push (Fx_Dbus (Sig_SessionLaunchProgress p)) m)
              | None \<Rightarrow> m)
         else m)"

definition settle_snapshot :: "manager \<Rightarrow> manager" where
  "settle_snapshot m =
     (let snap = build_snapshot m in
      if pub_snapshot (m_published m) \<noteq> Some snap then
        let m = m\<lparr>m_revision := m_revision m + 1\<rparr>;
            m = modify_published (\<lambda>b. b\<lparr>pub_snapshot := Some snap\<rparr>) m
        in push (Fx_Greeter (SMsg_Snapshot (snap\<lparr>snap_revision := m_revision m\<rparr>))) m
      else m)"

definition settle :: "manager \<Rightarrow> manager" where
  "settle m =
     (let m = settle_input m;
          m = m\<lparr>m_seat := compute_seat m\<rparr>
      in settle_snapshot (settle_progress (settle_ready (settle_locks (settle_foreground
           (settle_selected (settle_sessions (settle_persist m))))))))"

section \<open>The security predicate\<close>

definition check_input_owner :: "manager \<Rightarrow> string + unit" where
  "check_input_owner m =
     (case m_input_owner m of
        Own_Session sid \<Rightarrow>
          (case session_of m sid of
             None \<Rightarrow> Inl ''input owner session does not exist''
           | Some s \<Rightarrow>
               if s_state s \<noteq> St_Foreground
               then Inl (''input owner '' @ sid @ '' is '' @ debug_session_state (s_state s) @ '', not Foreground'')
               else if sid \<in> m_protected m then Inl (''input owner '' @ sid @ '' is protected'')
               else if m_foreground m \<noteq> Some sid
               then Inl (''input owner '' @ sid @ '' is not the foreground session'')
               else Inr ())
      | _ \<Rightarrow> Inr ())"

definition check_foreground_count :: "manager \<Rightarrow> string + unit" where
  "check_foreground_count m =
     (if length (filter (\<lambda>s. s_state s = St_Foreground) (btm_values (m_sessions m))) > 1
      then Inl ''more than one Foreground session'' else Inr ())"

fun check_protection :: "session_id set \<Rightarrow> session list \<Rightarrow> string + unit" where
  "check_protection prot [] = Inr ()"
| "check_protection prot (s # ss) =
     (if (s_state s = St_LockedBackground \<or> s_state s = St_LockedGreeterForeground) \<and> s_id s \<notin> prot
      then Inl (s_id s @ '' is locked but not acknowledged protected'')
      else if s_state s = St_Foreground \<and> s_id s \<in> prot
      then Inl (s_id s @ '' is Foreground and protected'')
      else check_protection prot ss)"

fun check_one_per_uid :: "u32 set \<Rightarrow> session list \<Rightarrow> string + unit" where
  "check_one_per_uid seen [] = Inr ()"
| "check_one_per_uid seen (s # ss) =
     (if s_uid s \<in> seen then Inl (''two running sessions for uid '' @ show_nat (unat (s_uid s)))
      else check_one_per_uid (insert (s_uid s) seen) ss)"

definition check_foreground :: "manager \<Rightarrow> string + unit" where
  "check_foreground m =
     (case m_foreground m of
        None \<Rightarrow> Inr ()
      | Some f \<Rightarrow>
          if \<not> is_some_and (session_of m f) (\<lambda>s. is_running (s_state s))
          then Inl ''foreground session is not running'' else Inr ())"

definition check_challenge :: "manager \<Rightarrow> string + unit" where
  "check_challenge m =
     (case m_challenge m of
        None \<Rightarrow> Inr ()
      | Some c \<Rightarrow>
          if m_selected_uid m \<noteq> Some (c_uid c)
          then Inl ''a challenge exists for an account that is not selected''
          else if m_op m = None then Inl ''a challenge exists without an operation''
          else Inr ())"

definition and_then :: "string + unit \<Rightarrow> string + unit \<Rightarrow> string + unit" where
  "and_then a b = (case a of Inl e \<Rightarrow> Inl e | Inr _ \<Rightarrow> b)"

definition check_invariants :: "manager \<Rightarrow> string + unit" where
  "check_invariants m =
     and_then (check_input_owner m)
    (and_then (check_foreground_count m)
    (and_then (check_protection (m_protected m) (btm_values (m_sessions m)))
    (and_then (check_one_per_uid {} (filter (\<lambda>s. is_running (s_state s)) (btm_values (m_sessions m))))
    (and_then (check_foreground m)
              (check_challenge m)))))"

section \<open>The entry point\<close>

definition dispatch :: "input \<Rightarrow> manager \<Rightarrow> manager option" where
  "dispatch inp m =
     (case inp of
        In_Start p \<Rightarrow> Some (on_start p m)
      | In_Scene e \<Rightarrow> on_scene e m
      | In_Helper e \<Rightarrow> on_helper e m
      | In_HelperConnected \<Rightarrow> on_helper_connected m
      | In_HelperLost \<Rightarrow> Some (on_helper_lost m)
      | In_GreeterPeer conn uid pid \<Rightarrow> Some (on_greeter_peer conn uid pid m)
      | In_GreeterDisconnected conn \<Rightarrow> Some (on_greeter_disconnected conn m)
      | In_Greeter conn msg \<Rightarrow> on_greeter_message conn msg m
      | In_Dbus call cal mth \<Rightarrow> Some (on_dbus call cal mth m)
      | In_Timer t \<Rightarrow> on_timer t m
      | In_Accounts accs \<Rightarrow> Some (on_accounts accs m)
      | In_Recovered rs \<Rightarrow> Some (on_recovered rs m)
      | In_AppearancePublished call uid res \<Rightarrow> Some (on_appearance_published call uid res m)
      | In_PolkitResult oid authorised \<Rightarrow> Some (on_polkit oid authorised m)
      | In_InhibitorsResult oid res \<Rightarrow> Some (on_inhibitors oid res m)
      | In_PowerResult oid res \<Rightarrow> Some (on_power_result oid res m)
      | In_PrepareForSleep start \<Rightarrow> Some (on_prepare_for_sleep start m))"

text \<open>\<^verbatim>\<open>handle\<close> starts with an empty effect list; what it returns is \<^verbatim>\<open>m_fx\<close> of the result.\<close>

definition handle :: "instant \<Rightarrow> input \<Rightarrow> manager \<Rightarrow> manager option" where
  "handle now inp m = map_option settle (dispatch inp (m\<lparr>m_now := Some now, m_fx := []\<rparr>))"

fun handle_all :: "(instant \<times> input) list \<Rightarrow> manager \<Rightarrow> manager option" where
  "handle_all [] m = Some m"
| "handle_all ((now, inp) # rest) m =
     (case handle now inp m of None \<Rightarrow> None | Some m' \<Rightarrow> handle_all rest m')"

end
