(* ===== verification/Refine_Ops.thy ===== *)
theory Refine_Ops
  imports Security_Model Core_Manager
begin

text \<open>
  The manager refines the security kernel: \<^verbatim>\<open>core_of\<close> forgets everything else, and \<^verbatim>\<open>sim A c m\<close> says
  that the abstract machine, started in \<^verbatim>\<open>c\<close> under the labels \<^verbatim>\<open>A\<close>, reaches the view of \<^verbatim>\<open>m\<close>. Every
  operation of the manager keeps \<^verbatim>\<open>sim\<close>; this theory has the operation engine, the later
  ones the handlers.
\<close>

section \<open>The view\<close>

definition sview :: "session \<Rightarrow> csess" where
  "sview s = \<lparr>cs_gen = s_generation s, cs_uid = s_uid s, cs_state = s_state s\<rparr>"

definition opview :: "operation \<Rightarrow> cop" where
  "opview o1 =
     \<lparr>co_id = o_id o1, co_kind = o_kind o1, co_hosted = is_session_requester (o_requester o1),
      co_session = o_session o1, co_began = o_began o1, co_committed = o_committed o1,
      co_tstate = o_tstate o1, co_action = o_action o1, co_polkit = (o_polkit o1 = Some True),
      co_inhib = (o_inhibitors o1 \<noteq> None)\<rparr>"

definition chview :: "challenge \<Rightarrow> cchal" where
  "chview c = \<lparr>cc_req = c_helper_req c, cc_uid = c_uid c, cc_op = c_op c, cc_plan = c_plan c\<rparr>"

definition power_call :: "effect \<Rightarrow> (operation_id \<times> power_action) option" where
  "power_call e = (case e of Fx_SystemPower oid a \<Rightarrow> Some (oid, a) | _ \<Rightarrow> None)"

definition core_of :: "manager \<Rightarrow> core" where
  "core_of m =
     \<lparr>k_sess = (\<lambda>sid. map_option sview (map_of (m_sessions m) sid)), k_fg = m_foreground m,
      k_prot = m_protected m, k_inp = m_input_owner m, k_sel = m_selected_uid m,
      k_chal = map_option chview (m_challenge m), k_op = map_option opview (m_op m),
      k_calls = List.map_filter power_call (m_fx m)\<rparr>"

text \<open>The registry is ordered and every session is stored under its own id.\<close>

definition shape :: "manager \<Rightarrow> bool" where
  "shape m \<longleftrightarrow> btm_wf (m_sessions m) \<and> (\<forall>sid s. map_of (m_sessions m) sid = Some s \<longrightarrow> s_id s = sid)"

definition sim :: "clabel set \<Rightarrow> core \<Rightarrow> manager \<Rightarrow> bool" where
  "sim A c m \<longleftrightarrow> cinv c \<and> (cstep A)\<^sup>*\<^sup>* c (core_of m) \<and> shape m"

lemma csteps_cinv: "(cstep A)\<^sup>*\<^sup>* c c' \<Longrightarrow> cinv c \<Longrightarrow> cinv c'"
  by (induction rule: rtranclp_induct) (auto intro: cstep_cinv)

lemma sim_cinv: "sim A c m \<Longrightarrow> cinv (core_of m)"
  by (auto simp: sim_def intro: csteps_cinv)

lemma sim_shape: "sim A c m \<Longrightarrow> shape m"
  by (simp add: sim_def)

lemma sim_refl: "cinv (core_of m) \<Longrightarrow> shape m \<Longrightarrow> sim A (core_of m) m"
  by (simp add: sim_def)

lemma sim_step: "sim A c m \<Longrightarrow> cstep A (core_of m) (core_of m') \<Longrightarrow> shape m' \<Longrightarrow> sim A c m'"
  by (auto simp: sim_def intro: rtranclp.rtrancl_into_rtrancl)

lemma sim_same: "sim A c m \<Longrightarrow> core_of m' = core_of m \<Longrightarrow> shape m' \<Longrightarrow> sim A c m'"
  by (simp add: sim_def)

section \<open>Changes outside the view\<close>

lemma core_of_fields [simp]:
  "k_sess (core_of m) sid = map_option sview (session_of m sid)"
  "k_fg (core_of m) = m_foreground m" "k_prot (core_of m) = m_protected m"
  "k_inp (core_of m) = m_input_owner m" "k_sel (core_of m) = m_selected_uid m"
  "k_chal (core_of m) = map_option chview (m_challenge m)"
  "k_op (core_of m) = map_option opview (m_op m)"
  "k_calls (core_of m) = List.map_filter power_call (m_fx m)"
  by (simp_all add: core_of_def session_of_def)

lemma view_fields [simp]:
  "cs_gen (sview s) = s_generation s" "cs_uid (sview s) = s_uid s" "cs_state (sview s) = s_state s"
  "co_id (opview x) = o_id x" "co_kind (opview x) = o_kind x"
  "co_hosted (opview x) = is_session_requester (o_requester x)"
  "co_session (opview x) = o_session x" "co_began (opview x) = o_began x"
  "co_committed (opview x) = o_committed x" "co_tstate (opview x) = o_tstate x"
  "co_action (opview x) = o_action x" "co_polkit (opview x) = (o_polkit x = Some True)"
  "co_inhib (opview x) = (o_inhibitors x \<noteq> None)"
  "cc_req (chview h) = c_helper_req h" "cc_uid (chview h) = c_uid h" "cc_op (chview h) = c_op h"
  "cc_plan (chview h) = c_plan h"
  by (simp_all add: sview_def opview_def chview_def)

lemma sim_frame [simp]:
  "sim A c (m\<lparr>m_rng_pos := a1\<rparr>) = sim A c m" "sim A c (m\<lparr>m_now := a2\<rparr>) = sim A c m"
  "sim A c (m\<lparr>m_started := a3\<rparr>) = sim A c m" "sim A c (m\<lparr>m_users := a4\<rparr>) = sim A c m"
  "sim A c (m\<lparr>m_seat := a5\<rparr>) = sim A c m" "sim A c (m\<lparr>m_last_used_uid := a6\<rparr>) = sim A c m"
  "sim A c (m\<lparr>m_history := a7\<rparr>) = sim A c m" "sim A c (m\<lparr>m_retained_failure := a8\<rparr>) = sim A c m"
  "sim A c (m\<lparr>m_switching_user := a9\<rparr>) = sim A c m" "sim A c (m\<lparr>m_bg_logouts := b1\<rparr>) = sim A c m"
  "sim A c (m\<lparr>m_pending_closes := b2\<rparr>) = sim A c m" "sim A c (m\<lparr>m_compositor_ready := b3\<rparr>) = sim A c m"
  "sim A c (m\<lparr>m_outputs := b4\<rparr>) = sim A c m" "sim A c (m\<lparr>m_outputs_epoch := b5\<rparr>) = sim A c m"
  "sim A c (m\<lparr>m_greeter := b6\<rparr>) = sim A c m" "sim A c (m\<lparr>m_helper_up := b7\<rparr>) = sim A c m"
  "sim A c (m\<lparr>m_next_op := b8\<rparr>) = sim A c m" "sim A c (m\<lparr>m_next_challenge := b9\<rparr>) = sim A c m"
  "sim A c (m\<lparr>m_next_helper_req := c1\<rparr>) = sim A c m" "sim A c (m\<lparr>m_fg_seq := c2\<rparr>) = sim A c m"
  "sim A c (m\<lparr>m_revision := c3\<rparr>) = sim A c m" "sim A c (m\<lparr>m_sessions_revision := c4\<rparr>) = sim A c m"
  "sim A c (m\<lparr>m_selected_revision := c5\<rparr>) = sim A c m" "sim A c (m\<lparr>m_failures := c6\<rparr>) = sim A c m"
  "sim A c (m\<lparr>m_last_publish := c7\<rparr>) = sim A c m" "sim A c (m\<lparr>m_publishing := c8\<rparr>) = sim A c m"
  "sim A c (m\<lparr>m_appearance_rev := c9\<rparr>) = sim A c m" "sim A c (m\<lparr>m_shutting_down := d1\<rparr>) = sim A c m"
  "sim A c (m\<lparr>m_published := d2\<rparr>) = sim A c m" "sim A c (m\<lparr>m_sleep_prep := d3\<rparr>) = sim A c m"
  by (simp_all add: sim_def core_of_def shape_def)

lemma push_fields [simp]:
  "m_policy (push e m) = m_policy m" "m_now (push e m) = m_now m" "m_users (push e m) = m_users m"
  "m_sessions (push e m) = m_sessions m" "m_selected_uid (push e m) = m_selected_uid m"
  "m_foreground (push e m) = m_foreground m" "m_protected (push e m) = m_protected m"
  "m_challenge (push e m) = m_challenge m" "m_input_owner (push e m) = m_input_owner m"
  "m_op (push e m) = m_op m" "m_greeter (push e m) = m_greeter m" "m_seat (push e m) = m_seat m"
  "m_sleep_prep (push e m) = m_sleep_prep m" "m_outputs (push e m) = m_outputs m"
  "m_outputs_epoch (push e m) = m_outputs_epoch m" "m_shutting_down (push e m) = m_shutting_down m"
  "m_history (push e m) = m_history m" "m_bg_logouts (push e m) = m_bg_logouts m"
  "m_next_op (push e m) = m_next_op m" "m_failures (push e m) = m_failures m"
  "m_published (push e m) = m_published m" "m_next_challenge (push e m) = m_next_challenge m"
  "m_next_helper_req (push e m) = m_next_helper_req m" "m_rng (push e m) = m_rng m"
  "m_rng_pos (push e m) = m_rng_pos m" "m_helper_up (push e m) = m_helper_up m"
  "m_compositor_ready (push e m) = m_compositor_ready m" "m_fg_seq (push e m) = m_fg_seq m"
  "m_retained_failure (push e m) = m_retained_failure m" "m_fx (push e m) = m_fx m @ [e]"
  by (simp_all add: push_def)

lemma log_is_push: "log_msg l x t m = push (Fx_Log \<lparr>log_level = l, log_session = x, log_message = t\<rparr>) m"
  by (simp add: log_msg_def)

lemma power_call_append: "List.map_filter power_call (xs @ [e]) =
   List.map_filter power_call xs @ (case power_call e of Some x \<Rightarrow> [x] | None \<Rightarrow> [])"
  by (simp add: List.map_filter_def split: option.split)

lemma core_of_push: "power_call e = None \<Longrightarrow> core_of (push e m) = core_of m"
  by (simp add: core_of_def power_call_append)

lemma sim_push [simp]: "power_call e = None \<Longrightarrow> sim A c (push e m) = sim A c m"
  by (simp add: sim_def core_of_push shape_def)

lemma power_call_simps [simp]:
  "power_call (Fx_Scene x1) = None" "power_call (Fx_Helper x2) = None" "power_call (Fx_Greeter x3) = None"
  "power_call (Fx_Dbus x4) = None" "power_call (Fx_DbusReply x5 y5) = None"
  "power_call (Fx_ConnVerdict x6 y6) = None" "power_call Fx_DropGreeter = None"
  "power_call (Fx_SetTimer x7 y7) = None" "power_call (Fx_CancelTimer x8) = None"
  "power_call (Fx_Persist x9) = None" "power_call Fx_LoadAccounts = None"
  "power_call (Fx_PublishAppearance z1 z2 z3) = None" "power_call (Fx_Polkit z4 z5 z6 z7) = None"
  "power_call (Fx_QueryInhibitors z8 z9) = None" "power_call Fx_SleepReady = None"
  "power_call (Fx_Log w1) = None" "power_call (Fx_SystemPower oid a) = Some (oid, a)"
  by (simp_all add: power_call_def)

lemma core_log [simp]: "core_of (log_msg l x t m) = core_of m"
  by (simp add: log_is_push core_of_push)

lemma sim_log [simp]: "sim A c (log_msg l x t m) = sim A c m"
  by (simp add: log_is_push)

lemma log_fields [simp]:
  "m_policy (log_msg l x t m) = m_policy m" "m_sessions (log_msg l x t m) = m_sessions m"
  "m_selected_uid (log_msg l x t m) = m_selected_uid m" "m_foreground (log_msg l x t m) = m_foreground m"
  "m_protected (log_msg l x t m) = m_protected m" "m_challenge (log_msg l x t m) = m_challenge m"
  "m_input_owner (log_msg l x t m) = m_input_owner m" "m_op (log_msg l x t m) = m_op m"
  "m_greeter (log_msg l x t m) = m_greeter m" "m_sleep_prep (log_msg l x t m) = m_sleep_prep m"
  "m_history (log_msg l x t m) = m_history m" "m_bg_logouts (log_msg l x t m) = m_bg_logouts m"
  by (simp_all add: log_is_push)

section \<open>Changes of a session\<close>

lemma core_modify_session:
  "core_of (modify_session sid f m) = (core_of m)\<lparr>k_sess :=
     (k_sess (core_of m))(sid := map_option (\<lambda>s. sview (f s)) (session_of m sid))\<rparr>"
  by (auto simp: core_of_def modify_session_def session_of_def fun_eq_iff map_option.compositionality comp_def)

lemma shape_modify_session:
  "shape m \<Longrightarrow> (\<And>s. s_id (f s) = s_id s) \<Longrightarrow> shape (modify_session sid f m)"
  by (auto simp: shape_def modify_session_def)

lemma modify_session_fields [simp]:
  "m_op (modify_session sid f m) = m_op m" "m_challenge (modify_session sid f m) = m_challenge m"
  "m_input_owner (modify_session sid f m) = m_input_owner m"
  "m_selected_uid (modify_session sid f m) = m_selected_uid m"
  "m_foreground (modify_session sid f m) = m_foreground m"
  "m_protected (modify_session sid f m) = m_protected m"
  "m_policy (modify_session sid f m) = m_policy m" "m_greeter (modify_session sid f m) = m_greeter m"
  "m_sleep_prep (modify_session sid f m) = m_sleep_prep m" "m_outputs (modify_session sid f m) = m_outputs m"
  "m_outputs_epoch (modify_session sid f m) = m_outputs_epoch m" "m_fx (modify_session sid f m) = m_fx m"
  "m_history (modify_session sid f m) = m_history m" "m_bg_logouts (modify_session sid f m) = m_bg_logouts m"
  by (simp_all add: modify_session_def)

lemma core_modify_same:
  "(\<And>s. sview (f s) = sview s) \<Longrightarrow> core_of (modify_session sid f m) = core_of m"
  by (auto simp: core_of_def modify_session_def fun_eq_iff option.map_comp comp_def)

lemma sview_same [simp]:
  "sview (s\<lparr>s_scope := x1\<rparr>) = sview s" "sview (s\<lparr>s_host_pid := x2\<rparr>) = sview s"
  "sview (s\<lparr>s_logind := x3\<rparr>) = sview s" "sview (s\<lparr>s_socket_path := x4\<rparr>) = sview s"
  "sview (s\<lparr>s_ticket := x5\<rparr>) = sview s" "sview (s\<lparr>s_open_sent := x6\<rparr>) = sview s"
  "sview (s\<lparr>s_open_req := x7\<rparr>) = sview s" "sview (s\<lparr>s_progress := x8\<rparr>) = sview s"
  "sview (s\<lparr>s_launch := x9\<rparr>) = sview s" "sview (s\<lparr>s_surfaces := y1\<rparr>) = sview s"
  "sview (s\<lparr>s_host_connected := y2\<rparr>) = sview s" "sview (s\<lparr>s_fg_seq := y3\<rparr>) = sview s"
  "sview (s\<lparr>s_armed_stage := y4\<rparr>) = sview s" "sview (s\<lparr>s_evidence_base := y5\<rparr>) = sview s"
  by (simp_all add: sview_def)

lemma sim_modify_session:
  assumes "sim A c m" "\<And>s. s_id (f s) = s_id s" "\<And>s. sview (f s) = sview s"
  shows "sim A c (modify_session sid f m)"
  by (rule sim_same [OF assms(1) core_modify_same [OF assms(3)]])
    (use assms(2) sim_shape [OF assms(1)] in \<open>auto intro: shape_modify_session\<close>)

lemma core_put_state:
  "core_of (modify_session sid (\<lambda>s. s\<lparr>s_state := st\<rparr>) m) = put_state sid st (core_of m)"
  by (simp add: core_modify_session put_state_def sview_def option.map_comp comp_def)

text \<open>The guarded setter is either one abstract change of state or nothing.\<close>

lemma set_state_cases:
  obtains (refused) "set_session_state sid to m = (False, m) \<or>
      (\<exists>l x t. set_session_state sid to m = (False, log_msg l x t m))"
      "\<And>s. session_of m sid = Some s \<Longrightarrow> \<not> session_legal (s_state s) to"
  | (made) s where "session_of m sid = Some s" "session_legal (s_state s) to"
      "set_session_state sid to m = (True, modify_session sid (\<lambda>s. s\<lparr>s_state := to\<rparr>) m)"
  unfolding set_session_state_def by (cases "session_of m sid") (auto split: if_splits)

lemma sim_launch_state:
  assumes "sim A c m" "to \<in> launch_states"
  shows "sim A c (snd (set_session_state sid to m))"
proof (cases rule: set_state_cases [of sid to m])
  case refused
  then show ?thesis using assms by auto
next
  case (made s)
  from made(2) assms(2) have l: "launching_state (s_state s)"
    by (cases "s_state s") (auto simp: session_legal_def launch_states_def launching_state_def)
  show ?thesis
    unfolding made(3) snd_conv
    by (rule sim_step [OF assms(1)])
      (use assms(2) made(1) l sim_shape [OF assms(1)] in
        \<open>auto simp: core_put_state intro!: c_launch shape_modify_session\<close>)
qed

section \<open>Input, selection and the operation slot\<close>

lemma core_input: "core_of (m\<lparr>m_input_owner := w\<rparr>) = (core_of m)\<lparr>k_inp := w\<rparr>"
  by (simp add: core_of_def)

lemma core_select: "core_of (m\<lparr>m_selected_uid := u\<rparr>) = (core_of m)\<lparr>k_sel := u\<rparr>"
  by (simp add: core_of_def)

lemma core_op: "core_of (m\<lparr>m_op := x\<rparr>) = (core_of m)\<lparr>k_op := map_option opview x\<rparr>"
  by (simp add: core_of_def)

lemma core_challenge: "core_of (m\<lparr>m_challenge := x\<rparr>) = (core_of m)\<lparr>k_chal := map_option chview x\<rparr>"
  by (simp add: core_of_def)

lemma shape_other [simp]:
  "shape (m\<lparr>m_input_owner := w\<rparr>) = shape m" "shape (m\<lparr>m_selected_uid := u\<rparr>) = shape m"
  "shape (m\<lparr>m_op := x\<rparr>) = shape m" "shape (m\<lparr>m_challenge := h\<rparr>) = shape m"
  "shape (m\<lparr>m_foreground := f\<rparr>) = shape m" "shape (m\<lparr>m_protected := p\<rparr>) = shape m"
  "shape (push e m) = shape m" "shape (log_msg l y t m) = shape m"
  by (simp_all add: shape_def)

lemma sim_input:
  assumes "sim A c m" "\<And>sid. w = Own_Session sid \<Longrightarrow> is_some_and (session_of m sid) (\<lambda>s. s_state s = St_Foreground)"
  shows "sim A c (m\<lparr>m_input_owner := w\<rparr>)"
proof (rule sim_step [OF assms(1)])
  have "in_state (core_of m) sid St_Foreground" if "w = Own_Session sid" for sid
    using assms(2) [OF that] by (auto simp: in_state_def is_some_and_iff)
  then show "cstep A (core_of m) (core_of (m\<lparr>m_input_owner := w\<rparr>))"
    by (auto simp: core_input intro: c_input)
qed (use sim_shape [OF assms(1)] in simp)

lemma sim_set_input_owner:
  assumes "sim A c m" "\<And>sid. w = Own_Session sid \<Longrightarrow> is_some_and (session_of m sid) (\<lambda>s. s_state s = St_Foreground)"
  shows "sim A c (set_input_owner w m)"
  using sim_input [OF assms] by (simp add: set_input_owner_def)

lemma sim_select:
  assumes "sim A c m" "m_challenge m = None"
  shows "sim A c (m\<lparr>m_selected_uid := u\<rparr>)"
  by (rule sim_step [OF assms(1)])
    (use assms(2) sim_shape [OF assms(1)] in \<open>auto simp: core_select intro!: c_select\<close>)

lemma sim_drop_challenge: "sim A c m \<Longrightarrow> sim A c (m\<lparr>m_challenge := None\<rparr>)"
  by (rule sim_step) (auto simp: core_challenge intro!: c_chal_drop sim_shape)

text \<open>A change of the operation that its view does not show.\<close>

lemma sim_modify_op:
  assumes "sim A c m" "\<And>x. opview (f x) = opview x"
  shows "sim A c (modify_op f m)"
proof (rule sim_same [OF assms(1)])
  show "core_of (modify_op f m) = core_of m"
    by (cases "m_op m") (simp_all add: modify_op_def core_of_def assms(2))
qed (use sim_shape [OF assms(1)] in \<open>simp add: modify_op_def\<close>)

lemma emit_op_fields [simp]:
  "m_op (emit_op m) = m_op m" "m_challenge (emit_op m) = m_challenge m"
  "m_sessions (emit_op m) = m_sessions m" "m_selected_uid (emit_op m) = m_selected_uid m"
  "m_input_owner (emit_op m) = m_input_owner m" "m_foreground (emit_op m) = m_foreground m"
  "m_protected (emit_op m) = m_protected m" "m_policy (emit_op m) = m_policy m"
  "m_history (emit_op m) = m_history m" "m_greeter (emit_op m) = m_greeter m"
  by (simp_all add: emit_op_def split: option.split)

lemma core_emit_op [simp]: "core_of (emit_op m) = core_of m"
  by (simp add: emit_op_def core_of_push split: option.split)

lemma shape_emit_op [simp]: "shape (emit_op m) = shape m"
  by (simp add: shape_def)

lemma sim_emit_op [simp]: "sim A c (emit_op m) = sim A c m"
  by (simp add: sim_def)

lemma op_set_fields [simp]:
  "m_challenge (snd (op_set p t m)) = m_challenge m" "m_sessions (snd (op_set p t m)) = m_sessions m"
  "m_selected_uid (snd (op_set p t m)) = m_selected_uid m"
  "m_input_owner (snd (op_set p t m)) = m_input_owner m"
  "m_foreground (snd (op_set p t m)) = m_foreground m" "m_protected (snd (op_set p t m)) = m_protected m"
  "m_policy (snd (op_set p t m)) = m_policy m" "m_history (snd (op_set p t m)) = m_history m"
  "m_greeter (snd (op_set p t m)) = m_greeter m"
  "session_of (snd (op_set p t m)) = session_of m"
  by (auto simp: op_set_def Let_def session_of_def fun_eq_iff split: option.split)

lemma op_set_op:
  "\<exists>p' t'. m_op (snd (op_set p t m)) = map_option (\<lambda>x. x\<lparr>o_phase := p', o_tstate := t'\<rparr>) (m_op m)
     \<and> (t' = unwrap_or t t' \<or> m_op (snd (op_set p t m)) = m_op m)"
proof (cases "m_op m")
  case None
  then show ?thesis by (simp add: op_set_def)
next
  case (Some x)
  then have "m_op (snd (op_set p t m)) \<in> {Some x, Some (x\<lparr>o_phase := unwrap_or p (o_phase x), o_tstate := unwrap_or t (o_tstate x)\<rparr>)}"
    by (auto simp: op_set_def Let_def)
  then show ?thesis
  proof (elim insertE emptyE)
    assume "m_op (snd (op_set p t m)) = Some x"
    with Some show ?thesis
      by (intro exI [of _ "o_phase x"] exI [of _ "o_tstate x"]) simp
  next
    assume "m_op (snd (op_set p t m)) = Some (x\<lparr>o_phase := unwrap_or p (o_phase x), o_tstate := unwrap_or t (o_tstate x)\<rparr>)"
    with Some show ?thesis
      by (intro exI [of _ "unwrap_or p (o_phase x)"] exI [of _ "unwrap_or t (o_tstate x)"])
        (cases t; simp)
  qed
qed

text \<open>The setter changes nothing of the view, or exactly the transition state.\<close>

lemma core_op_some: "core_of (m\<lparr>m_op := Some y\<rparr>) = put_op (opview y) (core_of m)"
  by (simp add: core_op put_op_def)

lemma put_op_same: "m_op m = Some x \<Longrightarrow> put_op (opview x) (core_of m) = core_of m"
  by (simp add: put_op_def core_of_def)

lemma opview_set: "opview (x\<lparr>o_phase := p, o_tstate := t\<rparr>) = (opview x)\<lparr>co_tstate := t\<rparr>"
  by (simp add: opview_def)

lemma core_op_set_raw:
  assumes "m_op m = Some x"
  shows "core_of (snd (op_set p t m)) \<in>
     {core_of m, put_op ((opview x)\<lparr>co_tstate := unwrap_or t (o_tstate x)\<rparr>) (core_of m)}"
  using assms by (auto simp: op_set_def Let_def core_op_some opview_set)

lemma core_op_set_illegal:
  assumes "m_op m = Some x" "t \<noteq> o_tstate x" "\<not> transition_legal (o_tstate x) t"
  shows "core_of (snd (op_set p (Some t) m)) = core_of m"
  using assms by (auto simp: op_set_def Let_def)

lemma core_op_set:
  obtains (same) "core_of (snd (op_set p t m)) = core_of m"
  | (changed) x t' where "m_op m = Some x" "t = Some t'" "transition_legal (o_tstate x) t'"
      "core_of (snd (op_set p t m)) = put_op ((opview x)\<lparr>co_tstate := t'\<rparr>) (core_of m)"
proof (cases "core_of (snd (op_set p t m)) = core_of m")
  case False
  then obtain x where x: "m_op m = Some x"
    by (cases "m_op m") (auto simp: op_set_def)
  with False core_op_set_raw [OF x, of p t]
  have raw: "core_of (snd (op_set p t m)) = put_op ((opview x)\<lparr>co_tstate := unwrap_or t (o_tstate x)\<rparr>) (core_of m)"
    by auto
  have same: "(opview x)\<lparr>co_tstate := o_tstate x\<rparr> = opview x"
    by (simp add: opview_def)
  have "unwrap_or t (o_tstate x) \<noteq> o_tstate x"
    using raw False by (metis same put_op_same x)
  then obtain t' where t: "t = Some t'" "t' \<noteq> o_tstate x"
    by (cases t) auto
  with False x core_op_set_illegal [OF x, of t' p] have "transition_legal (o_tstate x) t'"
    by blast
  with x t raw show ?thesis by (intro changed) simp_all
qed (rule same)

lemma shape_op_set [simp]: "shape (snd (op_set p t m)) = shape m"
  by (simp add: shape_def)

text \<open>Used for every operation but a reveal before its authentication.\<close>

lemma sim_op_set:
  assumes "sim A c m"
    and "\<And>x t'. m_op m = Some x \<Longrightarrow> t = Some t' \<Longrightarrow> transition_legal (o_tstate x) t' \<Longrightarrow>
           cstep A (core_of m) (put_op ((opview x)\<lparr>co_tstate := t'\<rparr>) (core_of m))"
  shows "sim A c (snd (op_set p t m))"
  using core_op_set [of p t m]
proof cases
  case same
  then show ?thesis
    by (rule sim_same [OF assms(1)]) (simp add: sim_shape [OF assms(1)])
next
  case (changed x t')
  with assms(2) [OF changed(1-3)] show ?thesis
    by (intro sim_step [OF assms(1)]) (simp_all add: sim_shape [OF assms(1)])
qed

lemma sim_op_set_ready:
  assumes "sim A c m" "authorised t"
    and "\<And>x. m_op m = Some x \<Longrightarrow> o_kind x \<noteq> Op_Reveal \<or> o_began x"
    and "\<And>x. m_op m = Some x \<Longrightarrow> o_kind x = Op_Power \<Longrightarrow> o_began x \<or> (o_polkit x = Some True \<and> o_inhibitors x \<noteq> None)"
  shows "sim A c (snd (op_set p (Some t) m))"
proof (rule sim_op_set [OF assms(1)])
  fix x t' assume x: "m_op m = Some x" "Some t = Some t'"
  show "cstep A (core_of m) (put_op ((opview x)\<lparr>co_tstate := t'\<rparr>) (core_of m))"
  proof (cases "o_began x")
    case True
    with x assms(2) show ?thesis by (auto intro!: c_op_run)
  next
    case False
    with x assms show ?thesis by (auto intro!: c_op_ready)
  qed
qed

section \<open>Ending an operation\<close>

lemma fold_push_fields:
  "m_op (fold (\<lambda>t. push (Fx_CancelTimer t)) ts m) = m_op m"
  "core_of (fold (\<lambda>t. push (Fx_CancelTimer t)) ts m) = core_of m"
  "m_sessions (fold (\<lambda>t. push (Fx_CancelTimer t)) ts m) = m_sessions m"
  by (induction ts arbitrary: m) (simp_all add: core_of_push)

lemma core_history [simp]: "core_of (push_history i m) = core_of m"
  by (simp add: push_history_def core_of_def)

lemma history_fields [simp]: "m_sessions (push_history i m) = m_sessions m" "m_op (push_history i m) = m_op m"
  by (simp_all add: push_history_def)

lemma core_drop_challenge_of:
  "core_of (drop_challenge_of oid code m) = (core_of m)
     \<lparr>k_chal := (case k_chal (core_of m) of Some ch \<Rightarrow> if cc_op ch = oid then None else Some ch | None \<Rightarrow> None)\<rparr>"
  by (auto simp: drop_challenge_of_def core_of_push core_challenge split: option.split)

lemma drop_challenge_fields [simp]:
  "m_sessions (drop_challenge_of oid code m) = m_sessions m" "m_op (drop_challenge_of oid code m) = m_op m"
  by (simp_all add: drop_challenge_of_def split: option.split)

lemma core_op_finish:
  "m_op m = Some x \<Longrightarrow> core_of (op_finish ph t r m) = (core_of m)
     \<lparr>k_op := None,
      k_chal := (case k_chal (core_of m) of Some ch \<Rightarrow> if cc_op ch = o_id x then None else Some ch | None \<Rightarrow> None)\<rparr>"
  by (simp add: op_finish_def Let_def core_op core_of_push fold_push_fields core_drop_challenge_of)

lemma op_finish_fields [simp]:
  "m_sessions (op_finish ph t r m) = m_sessions m" "m_op (op_finish ph t r m) = None"
  by (simp_all add: op_finish_def Let_def fold_push_fields split: option.split)

lemma sim_op_finish: "sim A c m \<Longrightarrow> sim A c (op_finish ph t r m)"
proof (cases "m_op m")
  case None
  then show "sim A c m \<Longrightarrow> ?thesis" by (simp add: op_finish_def)
next
  case (Some x)
  assume s: "sim A c m"
  have "cstep A (core_of m) (core_of (op_finish ph t r m))"
    unfolding core_op_finish [OF Some] view_fields(4) [of x, symmetric]
    by (rule c_op_end) (simp add: Some)
  then show ?thesis
    by (rule sim_step [OF s]) (use sim_shape [OF s] in \<open>simp add: shape_def\<close>)
qed

lemmas op_ending_defs = op_complete_def op_fail_def op_cancelled_def

lemma sim_op_ends:
  "sim A c m \<Longrightarrow> sim A c (op_complete m)" "sim A c m \<Longrightarrow> sim A c (op_fail code m)"
  "sim A c m \<Longrightarrow> sim A c (op_cancelled m)"
  by (simp_all add: op_ending_defs sim_op_finish)

lemma op_ends_fields [simp]:
  "m_op (op_complete m) = None" "m_op (op_fail code m) = None" "m_op (op_cancelled m) = None"
  "m_sessions (op_complete m) = m_sessions m" "m_sessions (op_fail code m) = m_sessions m"
  "m_sessions (op_cancelled m) = m_sessions m"
  by (simp_all add: op_ending_defs)

lemma sim_op_end_failed: "sim A c m \<Longrightarrow> sim A c (op_end_failed oid code m)"
  by (simp add: op_end_failed_def sim_op_ends)

lemma sim_op_abort: "sim A c m \<Longrightarrow> sim A c (op_abort code m)"
  by (auto simp: op_abort_def Let_def intro!: sim_op_ends split: option.split)

lemma sim_fail_challenge: "sim A c m \<Longrightarrow> sim A c (fail_challenge code msg m)"
  by (auto simp: fail_challenge_def Let_def intro!: sim_op_end_failed sim_drop_challenge split: option.split)

lemma sim_greeter_error [simp]: "sim A c (greeter_error r code msg m) = sim A c m"
  by (simp add: greeter_error_def)

lemma sim_cancel_power_checks [simp]: "sim A c (cancel_power_checks m) = sim A c m"
  by (simp add: cancel_power_checks_def split: option.split)

section \<open>Cleanup and protection of a session\<close>

lemma core_cleanup:
  assumes "session_of m sid = Some s" "is_running (s_state s)" "to \<in> {St_Failed, St_Stopping}"
  shows "core_of (begin_cleanup sid to m) = (put_state sid to (core_of m))
     \<lparr>k_fg := (if m_foreground m = Some sid then None else m_foreground m), k_prot := m_protected m - {sid},
      k_inp := (if m_input_owner m = Own_Session sid then Own_Greeter else m_input_owner m)\<rparr>"
proof -
  have legal: "session_legal (s_state s) to" using assms by auto
  have fg: "core_of (n\<lparr>m_foreground := f\<rparr>) = (core_of n)\<lparr>k_fg := f\<rparr>" for n f
    by (simp add: core_of_def)
  have pr: "core_of (n\<lparr>m_protected := p\<rparr>) = (core_of n)\<lparr>k_prot := p\<rparr>" for n p
    by (simp add: core_of_def)
  show ?thesis
    using assms legal
    by (auto simp: begin_cleanup_def set_session_state_def Let_def core_of_push core_put_state core_modify_same fg pr
        set_input_owner_def core_input split: option.split)
qed

lemma shape_sessions_eq: "m_sessions m' = m_sessions m \<Longrightarrow> shape m' = shape m"
  by (simp add: shape_def)

lemma shape_set_state: "shape m \<Longrightarrow> shape (snd (set_session_state sid to m))"
  by (cases rule: set_state_cases [of sid to m]) (auto intro: shape_modify_session)

lemma shape_begin_cleanup: "shape m \<Longrightarrow> shape (begin_cleanup sid to m)"
  using shape_set_state [of m sid to]
  by (auto simp: begin_cleanup_def Let_def set_input_owner_def split: option.split prod.split
      intro!: shape_modify_session)

lemma begin_cleanup_refused:
  assumes "\<And>s. session_of m sid = Some s \<Longrightarrow> \<not> is_running (s_state s)" "to \<in> {St_Failed, St_Stopping}"
  shows "core_of (begin_cleanup sid to m) = core_of m"
  using assms by (auto simp: begin_cleanup_def set_session_state_def Let_def split: option.split)

lemma sim_begin_cleanup:
  assumes "sim A c m" "to \<in> {St_Failed, St_Stopping}"
  shows "sim A c (begin_cleanup sid to m)"
proof (cases "\<exists>s. session_of m sid = Some s \<and> is_running (s_state s)")
  case False
  then show ?thesis
    using begin_cleanup_refused [of m sid to] assms(2)
    by (intro sim_same [OF assms(1)] shape_begin_cleanup sim_shape [OF assms(1)]) auto
next
  case True
  then obtain s where s: "session_of m sid = Some s" "is_running (s_state s)" by blast
  have "cstep A (core_of m) (core_of (begin_cleanup sid to m))"
    unfolding core_cleanup [OF s assms(2)] core_of_fields(2-4) [of m, symmetric]
    by (rule c_cleanup [of _ _ "sview s"]) (use s assms(2) in auto)
  then show ?thesis
    by (rule sim_step [OF assms(1)]) (rule shape_begin_cleanup [OF sim_shape [OF assms(1)]])
qed

lemma begin_cleanup_fields [simp]:
  "m_op (begin_cleanup sid to m) = m_op m" "m_challenge (begin_cleanup sid to m) = m_challenge m"
  "m_selected_uid (begin_cleanup sid to m) = m_selected_uid m"
  "m_policy (begin_cleanup sid to m) = m_policy m" "m_sleep_prep (begin_cleanup sid to m) = m_sleep_prep m"
  by (auto simp: begin_cleanup_def set_session_state_def set_input_owner_def Let_def split: option.split)

lemma sim_cancel_immediate: "sim A c m \<Longrightarrow> sim A c (cancel_immediate m)"
  by (auto simp: cancel_immediate_def split: option.split op_kind.split
      intro!: sim_op_ends sim_fail_challenge sim_begin_cleanup)

lemma sim_interrupt_current: "sim A c m \<Longrightarrow> sim A c (snd (interrupt_current m))"
  by (auto simp: interrupt_current_def sim_cancel_immediate split: option.split)

lemma opview_same [simp]:
  "opview (x\<lparr>o_phase := x1\<rparr>) = opview x" "opview (x\<lparr>o_cancel_requested := x2\<rparr>) = opview x"
  "opview (x\<lparr>o_pending_fail := x3\<rparr>) = opview x" "opview (x\<lparr>o_reason := x4\<rparr>) = opview x"
  "opview (x\<lparr>o_new_login := x5\<rparr>) = opview x" "opview (x\<lparr>o_frames_armed := x6\<rparr>) = opview x"
  "opview (x\<lparr>o_locked_scene_ready := x7\<rparr>) = opview x" "opview (x\<lparr>o_waiting_protect := x8\<rparr>) = opview x"
  "opview (x\<lparr>o_transition := x9\<rparr>) = opview x"
  by (simp_all add: opview_def)

lemma sim_cancel_operation: "sim A c m \<Longrightarrow> sim A c (snd (cancel_operation who oid m))"
  by (auto simp: cancel_operation_def split: option.split intro!: sim_cancel_immediate sim_modify_op)

text \<open>A challenge always belongs to the operation in flight, so an interruption empties both slots.\<close>

lemma challenge_op:
  assumes "cinv (core_of m)" "m_challenge m = Some h"
  obtains x where "m_op m = Some x" "o_id x = c_op h" "o_kind x = Op_Reveal"
    "o_tstate x = Tr_WaitingForAuth" "\<not> o_began x" "\<not> o_committed x" "m_selected_uid m = Some (c_uid h)"
  using assms by (auto simp: cinv_def inv_challenge_def)

lemma no_op_no_challenge: "cinv (core_of m) \<Longrightarrow> m_op m = None \<Longrightarrow> m_challenge m = None"
  by (cases "m_challenge m") (auto elim: challenge_op)

lemma fail_challenge_empties:
  assumes "cinv (core_of m)" "m_challenge m = Some h"
  shows "m_op (fail_challenge code msg m) = None"
proof -
  from assms obtain x where "m_op m = Some x" "o_id x = c_op h"
    by (rule challenge_op)
  with assms(2) show ?thesis
    by (simp add: fail_challenge_def Let_def op_end_failed_def)
qed

lemma cancel_immediate_empties:
  assumes "cinv (core_of m)"
  shows "m_op (cancel_immediate m) = None"
proof (cases "m_challenge m")
  case None
  then show ?thesis
    by (auto simp: cancel_immediate_def split: option.split op_kind.split)
next
  case (Some h)
  from assms Some obtain x where "m_op m = Some x" "o_id x = c_op h" "o_kind x = Op_Reveal"
    by (rule challenge_op)
  with Some show ?thesis
    using fail_challenge_empties [OF assms Some] by (simp add: cancel_immediate_def)
qed

lemma interrupt_current_empties:
  assumes "sim A c m" "interrupt_current m = (Inr u, m')"
  shows "sim A c m'" "m_op m' = None" "m_challenge m' = None"
proof -
  show s: "sim A c m'"
    using sim_interrupt_current [OF assms(1)] assms(2) by simp
  show "m_op m' = None"
    using assms(2) cancel_immediate_empties [OF sim_cinv [OF assms(1)]]
    by (auto simp: interrupt_current_def split: option.splits if_splits)
  then show "m_challenge m' = None"
    by (rule no_op_no_challenge [OF sim_cinv [OF s]])
qed

section \<open>Transitions and the reveal gate\<close>

lemma session_values: "shape m \<Longrightarrow> s \<in> set (btm_values (m_sessions m)) \<longleftrightarrow> session_of m (s_id s) = Some s"
  by (auto simp: shape_def session_of_def btm_values_iff)

lemma session_values_ex: "shape m \<Longrightarrow> s \<in> set (btm_values (m_sessions m)) \<longleftrightarrow> (\<exists>sid. session_of m sid = Some s)"
  by (auto simp: shape_def session_of_def btm_values_iff)

lemma any_session_iff: "shape m \<Longrightarrow> any_session P m \<longleftrightarrow> (\<exists>sid s. session_of m sid = Some s \<and> P s)"
  unfolding any_session_def list_ex_iff using session_values_ex by blast

lemma authoritative_no_foreground:
  assumes "shape m" "greeter_authoritative m"
  shows "no_foreground (core_of m)"
  using assms by (auto simp: greeter_authoritative_def any_session_iff no_foreground_def in_state_def
      on_screen_def split: if_splits)

lemma core_op_set_tstate:
  assumes "m_op m = Some x"
  shows "core_of (snd (op_set None (Some t) m)) =
    put_op ((opview x)\<lparr>co_tstate := (if transition_legal (o_tstate x) t then t else o_tstate x)\<rparr>) (core_of m)"
proof -
  have same: "(opview x)\<lparr>co_tstate := o_tstate x\<rparr> = opview x"
    by (simp add: opview_def)
  from assms show ?thesis
    by (auto simp: op_set_def Let_def core_op_some opview_set same put_op_same)
qed

lemma prepared_authorised:
  "authorised (if transition_legal t Tr_Prepared then Tr_Prepared else t)"
  by (cases t) (auto simp: transition_legal_def)

lemma opview_began: "opview (x\<lparr>o_began := True, o_transition := k\<rparr>) = (opview x)\<lparr>co_began := True\<rparr>"
  by (simp add: opview_def)

lemma put_op_put_op [simp]: "put_op x (put_op y c) = put_op x c"
  by (simp add: put_op_def)

lemma modify_op_fields [simp]:
  "m_op (modify_op f m) = map_option f (m_op m)" "m_sessions (modify_op f m) = m_sessions m"
  "m_challenge (modify_op f m) = m_challenge m" "m_selected_uid (modify_op f m) = m_selected_uid m"
  "m_input_owner (modify_op f m) = m_input_owner m" "m_foreground (modify_op f m) = m_foreground m"
  "m_protected (modify_op f m) = m_protected m" "m_policy (modify_op f m) = m_policy m"
  "m_sleep_prep (modify_op f m) = m_sleep_prep m" "m_greeter (modify_op f m) = m_greeter m"
  "m_history (modify_op f m) = m_history m" "session_of (modify_op f m) = session_of m"
  by (simp_all add: modify_op_def session_of_def fun_eq_iff)

lemma core_modify_op: "m_op m = Some x \<Longrightarrow> core_of (modify_op f m) = put_op (opview (f x)) (core_of m)"
  by (simp add: modify_op_def core_op_some)

lemma core_begin_transition:
  assumes "m_op m = Some x"
  shows "core_of (begin_transition kind src tgt pwr m) =
    put_op ((opview x)\<lparr>co_began := True,
      co_tstate := (if transition_legal (o_tstate x) Tr_Prepared then Tr_Prepared else o_tstate x)\<rparr>) (core_of m)"
proof -
  let ?f = "\<lambda>x. x\<lparr>o_began := True, o_transition := kind\<rparr>"
  obtain n where n: "begin_transition kind src tgt pwr m = snd (op_set None (Some Tr_Prepared) (modify_op ?f n))"
    "m_op n = Some x" "core_of n = core_of m"
    using assms by (auto simp: begin_transition_def Let_def core_of_push)
  show ?thesis
    unfolding n(1) by (subst core_op_set_tstate [of _ "?f x"])
      (simp_all add: n core_modify_op opview_began)
qed

lemma begin_transition_sessions [simp]:
  "m_sessions (begin_transition kind src tgt pwr m) = m_sessions m"
  "m_challenge (begin_transition kind src tgt pwr m) = m_challenge m"
  by (simp_all add: begin_transition_def Let_def split: option.split)

lemma sim_begin_transition:
  assumes "sim A c m" "m_challenge m = None"
    and "\<And>x. m_op m = Some x \<Longrightarrow> o_kind x = Op_Reveal \<Longrightarrow>
           no_foreground (core_of m) \<and> authorised (o_tstate x) \<and> \<not> o_committed x"
    and "\<And>x. m_op m = Some x \<Longrightarrow> o_kind x = Op_Power \<Longrightarrow> o_polkit x = Some True \<and> o_inhibitors x \<noteq> None"
  shows "sim A c (begin_transition kind src tgt pwr m)"
proof (cases "m_op m")
  case None
  then show ?thesis using assms(1) by (simp add: begin_transition_def)
next
  case (Some x)
  have "cstep A (core_of m) (core_of (begin_transition kind src tgt pwr m))"
    unfolding core_begin_transition [OF Some]
    by (rule c_op_begin) (use Some assms prepared_authorised in auto)
  then show ?thesis
    by (rule sim_step [OF assms(1)]) (use sim_shape [OF assms(1)] in \<open>simp add: shape_def\<close>)
qed

lemma sim_fail_launch_ready: "sim A c m \<Longrightarrow> sim A c (fail_launch_ready sid code msg m)"
  by (auto simp: fail_launch_ready_def intro!: sim_op_ends sim_begin_cleanup)

lemma authorised_no_challenge:
  "cinv (core_of m) \<Longrightarrow> m_op m = Some x \<Longrightarrow> authorised (o_tstate x) \<Longrightarrow> m_challenge m = None"
  by (cases "m_challenge m") (auto elim: challenge_op)

lemma other_kind_no_challenge:
  "cinv (core_of m) \<Longrightarrow> m_op m = Some x \<Longrightarrow> o_kind x \<noteq> Op_Reveal \<Longrightarrow> m_challenge m = None"
  by (cases "m_challenge m") (auto elim: challenge_op)

lemma sim_try_reveal:
  assumes "sim A c m"
  shows "sim A c (try_reveal m)"
proof (cases "m_op m")
  case None
  then show ?thesis using assms by (simp add: try_reveal_def)
next
  case (Some x)
  note inv = sim_cinv [OF assms] and shp = sim_shape [OF assms]
  show ?thesis
  proof (cases "o_kind x = Op_Reveal \<and> o_tstate x = Tr_WaitingForFrames \<and> \<not> o_began x")
    case False
    then show ?thesis using assms Some by (simp add: try_reveal_def)
  next
    case True
    have start: "sim A c (begin_transition k src tgt pwr m)" if "greeter_authoritative m" for k src tgt pwr
    proof (rule sim_begin_transition [OF assms])
      show "m_challenge m = None"
        using authorised_no_challenge [OF inv Some] True by simp
      have "\<not> o_committed x"
        using inv Some True by (auto simp: cinv_def inv_op_def)
      then show "no_foreground (core_of m) \<and> authorised (o_tstate y) \<and> \<not> o_committed y" if "m_op m = Some y" for y
        using that Some True authoritative_no_foreground [OF shp \<open>greeter_authoritative m\<close>] by auto
    qed (use Some True in auto)
    then show ?thesis
      using assms Some True
      by (auto simp: try_reveal_def Let_def split: option.split
          intro!: sim_op_ends sim_fail_launch_ready sim_modify_op)
  qed
qed

lemma sim_on_frames_timeout: "sim A c m \<Longrightarrow> sim A c (on_frames_timeout oid m)"
  by (auto simp: on_frames_timeout_def intro!: sim_op_ends split: option.split)

section \<open>Protection\<close>

lemma sim_lock_requested:
  assumes "sim A c m" "session_of m sid = Some s" "s_state s = St_Foreground" "m_input_owner m \<noteq> Own_Session sid"
  shows "sim A c (snd (set_session_state sid St_LockRequested m))"
proof (cases rule: set_state_cases [of sid St_LockRequested m])
  case refused
  then show ?thesis using assms(1) by auto
next
  case (made s')
  have eq: "put_state sid St_LockRequested (core_of m) = (put_state sid St_LockRequested (core_of m))
      \<lparr>k_inp := (if k_inp (core_of m) = Own_Session sid then Own_None else k_inp (core_of m))\<rparr>"
    using assms(4) by (simp add: put_state_def)
  have "cstep A (core_of m) (put_state sid St_LockRequested (core_of m))"
    by (subst eq, rule c_protect [of _ _ "sview s"]) (use assms in auto)
  then show ?thesis
    unfolding made(3) snd_conv
    by (intro sim_step [OF assms(1)])
      (auto simp: core_put_state intro!: shape_modify_session sim_shape [OF assms(1)])
qed

lemma set_state_fields [simp]:
  "m_op (snd (set_session_state sid to m)) = m_op m"
  "m_challenge (snd (set_session_state sid to m)) = m_challenge m"
  "m_input_owner (snd (set_session_state sid to m)) = m_input_owner m"
  "m_selected_uid (snd (set_session_state sid to m)) = m_selected_uid m"
  "m_protected (snd (set_session_state sid to m)) = m_protected m"
  "m_foreground (snd (set_session_state sid to m)) = m_foreground m"
  "m_policy (snd (set_session_state sid to m)) = m_policy m"
  "m_sleep_prep (snd (set_session_state sid to m)) = m_sleep_prep m"
  by (simp_all add: set_session_state_def split: option.split)

lemma sim_begin_protect:
  assumes "sim A c m"
  shows "sim A c (begin_protect sid gn m)"
proof -
  let ?n = "if m_input_owner m = Own_Session sid then set_input_owner Own_None m else m"
  have n: "sim A c ?n" "m_input_owner ?n \<noteq> Own_Session sid" "session_of ?n = session_of m"
    using assms by (auto simp: set_input_owner_def session_of_def fun_eq_iff intro: sim_input)
  then have "sim A c (if is_some_and (session_of ?n sid) (\<lambda>s. s_state s = St_Foreground)
                      then snd (set_session_state sid St_LockRequested ?n) else ?n)"
    by (auto simp: is_some_and_iff intro!: sim_lock_requested)
  then show ?thesis
    by (simp add: begin_protect_def Let_def)
qed

lemma set_input_owner_fields [simp]:
  "m_op (set_input_owner w m) = m_op m" "m_challenge (set_input_owner w m) = m_challenge m"
  "m_input_owner (set_input_owner w m) = w" "m_sessions (set_input_owner w m) = m_sessions m"
  "m_selected_uid (set_input_owner w m) = m_selected_uid m" "m_sleep_prep (set_input_owner w m) = m_sleep_prep m"
  "m_protected (set_input_owner w m) = m_protected m" "m_foreground (set_input_owner w m) = m_foreground m"
  "m_policy (set_input_owner w m) = m_policy m" "session_of (set_input_owner w m) = session_of m"
  by (simp_all add: set_input_owner_def session_of_def fun_eq_iff)

lemma begin_protect_fields [simp]:
  "m_op (begin_protect sid gn m) = m_op m" "m_challenge (begin_protect sid gn m) = m_challenge m"
  by (simp_all add: begin_protect_def Let_def)

lemma sim_set_locked_hint [simp]: "sim A c (set_locked_hint sid b m) = sim A c m"
  by (simp add: set_locked_hint_def helper_req_def Let_def split: option.split)

lemma locked_hint_fields [simp]:
  "m_op (set_locked_hint sid b m) = m_op m" "m_challenge (set_locked_hint sid b m) = m_challenge m"
  "m_sleep_prep (set_locked_hint sid b m) = m_sleep_prep m"
  "m_sessions (set_locked_hint sid b m) = m_sessions m"
  by (simp_all add: set_locked_hint_def helper_req_def Let_def split: option.split)

lemma core_locked_hint [simp]: "core_of (set_locked_hint sid b m) = core_of m"
  by (simp add: set_locked_hint_def helper_req_def Let_def core_of_push split: option.split)
    (simp add: core_of_def)

end
