(* ===== verification/Refine_Power.thy ===== *)
theory Refine_Power
  imports Refine_Ops
begin

text \<open>
  The handlers of \<^verbatim>\<open>core/power.rs\<close> and the transition half of \<^verbatim>\<open>core/ops.rs\<close> keep the simulation.
\<close>

section \<open>New operations\<close>

lemma new_operation_fields [simp]:
  "m_op (snd (new_operation k r s m)) = Some (fresh_operation k r s m)"
  "m_challenge (snd (new_operation k r s m)) = m_challenge m"
  "m_sessions (snd (new_operation k r s m)) = m_sessions m"
  "m_input_owner (snd (new_operation k r s m)) = m_input_owner m"
  "m_selected_uid (snd (new_operation k r s m)) = m_selected_uid m"
  "m_policy (snd (new_operation k r s m)) = m_policy m"
  by (simp_all add: new_operation_def)

lemma fresh_fields [simp]:
  "o_kind (fresh_operation k r s m) = k" "o_tstate (fresh_operation k r s m) = Tr_Idle"
  "o_began (fresh_operation k r s m) = False" "o_committed (fresh_operation k r s m) = False"
  "o_polkit (fresh_operation k r s m) = None" "o_inhibitors (fresh_operation k r s m) = None"
  "o_id (fresh_operation k r s m) = m_next_op m" "o_requester (fresh_operation k r s m) = r"
  "o_session (fresh_operation k r s m) = s" "o_phase (fresh_operation k r s m) = Ph_Requested"
  by (simp_all add: fresh_operation_def)

lemma core_next_op [simp]: "core_of (m\<lparr>m_next_op := n\<rparr>) = core_of m"
  by (simp add: core_of_def)

lemma sim_new_operation:
  assumes "sim A c m" "m_op m = None" "m_challenge m = None"
  shows "sim A c (snd (new_operation k r s m))"
proof (rule sim_step [OF assms(1)])
  have "cstep A (core_of m) (put_op (opview (fresh_operation k r s m)) (core_of m))"
    by (rule c_op_new) (use assms in auto)
  then show "cstep A (core_of m) (core_of (snd (new_operation k r s m)))"
    by (simp add: new_operation_def core_op_some)
  show "shape (snd (new_operation k r s m))"
    using sim_shape [OF assms(1)] by (simp add: shape_def)
qed

text \<open>The start every request shares: interrupt what may be interrupted, then take the slot.\<close>

lemma sim_fresh_slot:
  assumes "sim A c m" "interrupt_current m = (Inr u, m')"
  shows "sim A c (snd (new_operation k r s m'))" "m_challenge (snd (new_operation k r s m')) = None"
  using interrupt_current_empties [OF assms] by (auto intro: sim_new_operation)

lemma op_set_kept:
  assumes "m_op (snd (op_set p t m)) = Some y"
  obtains x where "m_op m = Some x" "o_kind y = o_kind x" "o_polkit y = o_polkit x"
    "o_inhibitors y = o_inhibitors x" "o_began y = o_began x" "o_committed y = o_committed x"
    "o_id y = o_id x" "o_session y = o_session x" "o_action y = o_action x" "o_requester y = o_requester x"
  using op_set_op [of p t m] assms by (auto simp: map_option_case split: option.splits)

section \<open>Power\<close>

lemma opview_power_setup:
  "opview (x\<lparr>o_action := a, o_transition := k, o_polkit := (if is_session_requester (o_requester x) then None else Some True)\<rparr>)
     = (opview x)\<lparr>co_action := a, co_polkit := \<not> co_hosted (opview x)\<rparr>"
  by (simp add: opview_def)

lemma sim_power_setup:
  assumes "sim A c m" "m_op m = Some x" "o_kind x = Op_Power" "o_tstate x = Tr_Idle" "o_inhibitors x = None"
    and f: "f = (\<lambda>x. x\<lparr>o_action := a, o_transition := k,
                    o_polkit := (if is_session_requester (o_requester x) then None else Some True)\<rparr>)"
  shows "sim A c (modify_op f m)"
proof (rule sim_step [OF assms(1)])
  have "cstep A (core_of m) (put_op ((opview x)\<lparr>co_action := a, co_polkit := \<not> co_hosted (opview x)\<rparr>) (core_of m))"
    by (rule c_op_setup) (use assms in auto)
  then show "cstep A (core_of m) (core_of (modify_op f m))"
    unfolding f by (simp only: core_modify_op [OF assms(2)] opview_power_setup)
qed (use sim_shape [OF assms(1)] in \<open>simp add: shape_def\<close>)

lemma sim_op_set_wait:
  assumes "sim A c m" "\<And>x. m_op m = Some x \<Longrightarrow> o_tstate x = Tr_Idle \<and> \<not> o_began x"
  shows "sim A c (snd (op_set p (Some Tr_WaitingForAuth) m))"
  by (rule sim_op_set [OF assms(1)]) (use assms(2) in \<open>auto intro!: c_op_wait\<close>)

lemma sim_request_power:
  assumes "sim A c m"
  shows "sim A c (snd (request_power req action cal m))"
proof (cases "power_committed m \<or> (is_session_requester req \<and> cal = None) \<or>
    (\<exists>e. session_may_not_preempt req m = Inl e) \<or> (\<exists>e n. interrupt_current m = (Inl e, n))")
  case True
  then show ?thesis
    using assms sim_interrupt_current [OF assms]
    by (auto simp: request_power_def Let_def split: sum.split prod.split)
next
  case False
  then obtain u n where n: "interrupt_current m = (Inr u, n)" "session_may_not_preempt req m = Inr ()"
    by (metis old.unit.exhaust sumE surj_pair)
  let ?n1 = "snd (new_operation Op_Power req None n)"
  let ?f = "\<lambda>x. x\<lparr>o_action := Some action, o_transition := (if action = Pw_Suspend then Kind_Suspend else Kind_PowerFade),
              o_polkit := (if is_session_requester (o_requester x) then None else Some True)\<rparr>"
  have s2: "sim A c (modify_op ?f ?n1)"
    by (rule sim_power_setup [OF sim_fresh_slot(1) [OF assms n(1)], OF new_operation_fields(1)]) simp_all
  have f: "modify_op (\<lambda>x. x\<lparr>o_action := Some action, o_transition := (if action = Pw_Suspend then Kind_Suspend else Kind_PowerFade),
              o_polkit := (if is_session_requester req then None else Some True)\<rparr>) ?n1 = modify_op ?f ?n1"
    by (simp add: modify_op_def)
  have "sim A c (snd (op_set (Some Ph_Authorising) (Some Tr_WaitingForAuth) (modify_op ?f ?n1)))"
    by (rule sim_op_set_wait [OF s2]) auto
  with False n f show ?thesis
    by (auto simp: request_power_def Let_def split: option.split prod.split)
qed

lemma sim_protect_one:
  assumes "sim A c m" "m_challenge m = None"
  shows "sim A c (protect_one v m)" "m_challenge (protect_one v m) = None" "m_op (protect_one v m) = m_op m"
  using assms by (auto simp: protect_one_def split: prod.split intro!: sim_begin_protect sim_select)

lemma sim_fold_protect:
  assumes "sim A c m" "m_challenge m = None"
  shows "sim A c (fold protect_one vs m) \<and> m_challenge (fold protect_one vs m) = None
    \<and> m_op (fold protect_one vs m) = m_op m"
  using assms by (induction vs arbitrary: m) (simp_all add: sim_protect_one)

lemma sim_suspend_scene_ready:
  assumes "sim A c m"
    and "\<And>x. m_op m = Some x \<Longrightarrow> o_kind x = Op_Power \<and> o_polkit x = Some True \<and> o_inhibitors x \<noteq> None"
  shows "sim A c (suspend_scene_ready m)"
proof -
  have "m_challenge m = None"
    using assms(2) no_op_no_challenge other_kind_no_challenge sim_cinv [OF assms(1)]
    by (metis op_kind.distinct(7) option.exhaust)
  then have "sim A c (begin_transition Kind_Suspend None None (Some Pw_Suspend) (set_input_owner Own_Greeter m))"
    using assms by (intro sim_begin_transition sim_set_input_owner) auto
  then show ?thesis
    unfolding suspend_scene_ready_def by (rule sim_modify_op) simp
qed

lemma sim_power_checks_done:
  assumes "sim A c m" "\<And>x. m_op m = Some x \<Longrightarrow> o_kind x = Op_Power"
  shows "sim A c (power_checks_done m)"
proof (cases "m_op m")
  case None
  then show ?thesis using assms(1) by (simp add: power_checks_done_def)
next
  case (Some x)
  show ?thesis
  proof (cases "o_polkit x = Some True \<and> o_inhibitors x \<noteq> None")
    case False
    then show ?thesis using assms(1) Some by (auto simp: power_checks_done_def)
  next
    case True
    let ?n = "snd (op_set (Some Ph_Preparing) (Some Tr_WaitingForFrames) (push (Fx_CancelTimer (Tmr_Checks (o_id x))) m))"
    have n: "sim A c ?n"
      by (rule sim_op_set_ready) (use assms Some True in auto)
    have opn: "o_kind y = Op_Power \<and> o_polkit y = Some True \<and> o_inhibitors y \<noteq> None" if "m_op ?n = Some y" for y
      using that by (rule op_set_kept) (use Some assms(2) True in auto)
    have ch: "m_challenge ?n = None"
      using other_kind_no_challenge [OF sim_cinv [OF assms(1)] Some] assms(2) [OF Some] by simp
    have fade: "sim A c (begin_transition Kind_PowerFade src None pwr ?n)" for src pwr
      by (rule sim_begin_transition [OF n ch]) (use opn in auto)
    let ?w = "\<lambda>S. modify_op (\<lambda>x. x\<lparr>o_waiting_protect := S\<rparr>) (fold protect_one (visible_sessions ?n) ?n)"
    have w: "sim A c (?w S)" for S
      by (rule sim_modify_op) (use sim_fold_protect [OF n ch] in simp_all)
    have susp: "sim A c (suspend_scene_ready (?w S))" for S
      by (rule sim_suspend_scene_ready [OF w]) (use opn sim_fold_protect [OF n ch] in auto)
    have "visible_sessions ?n = [] \<Longrightarrow>
        sim A c (suspend_scene_ready (modify_op (\<lambda>x. x\<lparr>o_waiting_protect := {}\<rparr>) ?n))"
      using susp [of "{}"] by simp
    with fade w susp Some True show ?thesis
      by (auto simp: power_checks_done_def Let_def protect_visible_sessions_def)
  qed
qed

lemma opview_checks [simp]:
  "opview (x\<lparr>o_polkit := Some True\<rparr>) = (opview x)\<lparr>co_polkit := True\<rparr>"
  "opview (x\<lparr>o_inhibitors := Some xs\<rparr>) = (opview x)\<lparr>co_inhib := True\<rparr>"
  by (simp_all add: opview_def)

lemma sim_on_polkit:
  assumes "sim A c m" "authorised1 \<Longrightarrow> L_Polkit oid \<in> A"
  shows "sim A c (on_polkit oid authorised1 m)"
proof (cases "is_some_and (m_op m) (\<lambda>o1. o_id o1 = oid \<and> o_kind o1 = Op_Power \<and> o_polkit o1 = None)")
  case False
  then show ?thesis using assms(1) by (simp add: on_polkit_def)
next
  case True
  then obtain x where x: "m_op m = Some x" "o_id x = oid" "o_kind x = Op_Power" "o_polkit x = None"
    by (auto simp: is_some_and_iff)
  let ?n = "modify_op (\<lambda>x. x\<lparr>o_polkit := Some authorised1\<rparr>) m"
  have n: "sim A c ?n"
  proof (cases authorised1)
    case True
    then have "cstep A (core_of m) (core_of ?n)"
      using c_op_polkit [of "core_of m" "opview x" A] x assms(2) by (simp add: core_modify_op)
    then show ?thesis
      by (rule sim_step [OF assms(1)]) (use sim_shape [OF assms(1)] in \<open>simp add: shape_def\<close>)
  next
    case False
    have "opview (x\<lparr>o_polkit := Some False\<rparr>) = opview x"
      using x(4) by (simp add: opview_def)
    with False have "core_of ?n = core_of m"
      by (simp add: core_modify_op [OF x(1)] put_op_same [OF x(1)])
    then show ?thesis
      by (rule sim_same [OF assms(1)]) (use sim_shape [OF assms(1)] in \<open>simp add: shape_def\<close>)
  qed
  then have "sim A c (power_checks_done ?n)"
    by (rule sim_power_checks_done) (use x in auto)
  with n True show ?thesis
    by (auto simp: on_polkit_def Let_def intro!: sim_op_ends)
qed

lemma sim_on_inhibitors:
  assumes "sim A c m"
    and "\<And>x xs. m_op m = Some x \<Longrightarrow> o_id x = oid \<Longrightarrow> res = Inr xs \<Longrightarrow>
           filter (is_blocker (if unwrap_or (o_action x) Pw_PowerOff = Pw_Suspend then ''sleep'' else ''shutdown'')) xs = []
           \<Longrightarrow> L_Inhib oid (unwrap_or (o_action x) Pw_PowerOff) \<in> A"
  shows "sim A c (on_inhibitors oid res m)"
proof (cases "opt_filter (\<lambda>o1. o_id o1 = oid \<and> o_kind o1 = Op_Power \<and> o_inhibitors o1 = None) (m_op m)")
  case None
  then show ?thesis using assms(1) by (simp add: on_inhibitors_def)
next
  case (Some x)
  then have x: "m_op m = Some x" "o_id x = oid" "o_kind x = Op_Power" "o_inhibitors x = None" by auto
  let ?n = "modify_op (\<lambda>x. x\<lparr>o_inhibitors := Some []\<rparr>) m"
  have n: "sim A c (power_checks_done ?n)" if "L_Inhib oid (unwrap_or (o_action x) Pw_PowerOff) \<in> A"
  proof (rule sim_power_checks_done)
    have "cstep A (core_of m) (core_of ?n)"
      using c_op_inhib [of "core_of m" "opview x" A] that x by (simp add: core_modify_op)
    then show "sim A c ?n"
      by (rule sim_step [OF assms(1)]) (use sim_shape [OF assms(1)] in \<open>simp add: shape_def\<close>)
  qed (use x in auto)
  have fin: "sim A c (power_checks_done ?n)" if "res = Inr xs"
    "filter (is_blocker (if unwrap_or (o_action x) Pw_PowerOff = Pw_Suspend then ''sleep'' else ''shutdown'')) xs = []" for xs
    by (rule n) (rule assms(2) [OF x(1,2) that])
  with Some assms(1) show ?thesis
    by (cases "unwrap_or (o_action x) Pw_PowerOff = Pw_Suspend")
      (auto simp: on_inhibitors_def Let_def split: sum.split intro!: sim_op_ends)
qed

lemma sim_on_checks_timeout: "sim A c m \<Longrightarrow> sim A c (on_checks_timeout oid m)"
  by (auto simp: on_checks_timeout_def intro!: sim_op_ends)

lemma power_call_pushed:
  "core_of (push (Fx_SystemPower oid a) m) = (core_of m)\<lparr>k_calls := k_calls (core_of m) @ [(oid, a)]\<rparr>"
  by (simp add: core_of_def power_call_append)

lemma sim_system_power:
  assumes "sim A c m" "m_op m = Some x" "o_kind x = Op_Power" "o_began x" "L_Call (o_id x) (unwrap_or (o_action x) Pw_PowerOff) \<in> A"
  shows "sim A c (push (Fx_SystemPower (o_id x) (unwrap_or (o_action x) Pw_PowerOff)) m)"
proof (rule sim_step [OF assms(1)])
  have "cstep A (core_of m) ((core_of m)\<lparr>k_calls := k_calls (core_of m) @ [(co_id (opview x), unwrap_or (o_action x) Pw_PowerOff)]\<rparr>)"
    by (rule c_call) (use assms in auto)
  then show "cstep A (core_of m) (core_of (push (Fx_SystemPower (o_id x) (unwrap_or (o_action x) Pw_PowerOff)) m))"
    unfolding power_call_pushed by simp
qed (use sim_shape [OF assms(1)] in simp)

lemma sim_commit_power:
  assumes "sim A c m" "\<And>x. m_op m = Some x \<Longrightarrow> o_kind x = Op_Power \<and> o_began x"
    and "\<And>x. m_op m = Some x \<Longrightarrow> L_Call (o_id x) (unwrap_or (o_action x) Pw_PowerOff) \<in> A"
  shows "sim A c (commit_power m)"
proof (cases "m_op m")
  case None
  then show ?thesis using assms(1) by (simp add: commit_power_def)
next
  case (Some x)
  let ?a = "unwrap_or (o_action x) Pw_PowerOff"
  let ?n = "if ?a \<noteq> Pw_Suspend then set_input_owner Own_None m else m"
  have "sim A c (push (Fx_SystemPower (o_id x) ?a) ?n)"
    by (rule sim_system_power) (use Some assms in \<open>auto intro!: sim_set_input_owner\<close>)
  then have "sim A c (snd (op_set (Some Ph_Committed) (Some Tr_Committed)
      (push (Fx_SetTimer (Tmr_Power (o_id x)) d) (push (Fx_SystemPower (o_id x) ?a) ?n))))" for d
    using Some assms(2) by (intro sim_op_set_ready) (auto split: if_splits)
  with Some show ?thesis
    by (simp add: commit_power_def Let_def)
qed

lemma sim_on_power_result: "sim A c m \<Longrightarrow> sim A c (on_power_result oid res m)"
  by (auto simp: on_power_result_def Let_def intro!: sim_op_ends sim_modify_op split: option.split sum.split)

lemma sim_rollback_power_scene: "sim A c m \<Longrightarrow> sim A c (rollback_power_scene m)"
  by (auto simp: rollback_power_scene_def Let_def intro!: sim_set_input_owner split: option.split input_owner.splits)

lemma sim_finish_sleep_prep: "sim A c m \<Longrightarrow> sim A c (finish_sleep_prep m)"
  by (auto simp: finish_sleep_prep_def Let_def intro!: sim_set_input_owner)

lemma sim_maybe_sleep_ready: "sim A c m \<Longrightarrow> sim A c (maybe_sleep_ready m)"
  by (simp add: maybe_sleep_ready_def sim_finish_sleep_prep)

lemma sim_on_power_timeout: "sim A c m \<Longrightarrow> sim A c (on_power_timeout oid m)"
  by (auto simp: on_power_timeout_def Let_def
      intro!: sim_finish_sleep_prep sim_rollback_power_scene sim_op_ends sim_on_power_result)

lemma sim_fold_protect_cmds:
  "sim A c (fold (\<lambda>(sid, gn). push (Fx_Scene (Cmd_Protect sid gn))) xs m) = sim A c m"
  "m_op (fold (\<lambda>(sid, gn). push (Fx_Scene (Cmd_Protect sid gn))) xs m) = m_op m"
  by (induction xs arbitrary: m) (auto split: prod.split)

text \<open>A pending sleep ends whatever was not committed, so no challenge is left when the sessions
  on screen are protected and the selection follows them.\<close>

lemma sleep_interrupts:
  assumes "sim A c m"
  defines "n \<equiv> (if is_some_and (m_op m) (\<lambda>o1. o_began o1 \<and> \<not> o_committed o1)
                then op_abort E_TransitionInterrupted m
                else if is_some_and (m_op m) (\<lambda>o1. \<not> o_committed o1 \<and> \<not> o_began o1)
                then snd (interrupt_current m) else m)"
  shows "sim A c n" "m_challenge n = None"
proof -
  show s: "sim A c n"
    using assms by (auto simp: n_def intro: sim_op_abort sim_interrupt_current)
  show "m_challenge n = None"
  proof (cases "m_challenge m")
    case None
    have "n = m \<or> m_op n = None \<or> n = snd (interrupt_current m)"
      by (auto simp: n_def op_abort_def is_some_and_iff)
    moreover have "m_op (snd (interrupt_current m)) = None \<or> snd (interrupt_current m) = m"
      using cancel_immediate_empties [OF sim_cinv [OF assms(1)]]
      by (auto simp: interrupt_current_def split: option.split)
    ultimately show ?thesis
      using None no_op_no_challenge [OF sim_cinv [OF s]] by auto
  next
    case (Some h)
    obtain x where x: "m_op m = Some x" "o_kind x = Op_Reveal" "\<not> o_began x" "\<not> o_committed x"
      by (rule challenge_op [OF sim_cinv [OF assms(1)] Some])
    then have "n = cancel_immediate m"
      by (simp add: n_def interrupt_current_def is_lock_kind_def)
    with cancel_immediate_empties [OF sim_cinv [OF assms(1)]] have "m_op n = None" by simp
    then show ?thesis by (rule no_op_no_challenge [OF sim_cinv [OF s]])
  qed
qed

lemma sim_on_prepare_for_sleep:
  assumes "sim A c m"
  shows "sim A c (on_prepare_for_sleep start m)"
proof (cases start)
  case True
  note n = sleep_interrupts [OF assms]
  note f = sim_fold_protect [OF n]
  show ?thesis
    using True assms f
    by (auto simp: on_prepare_for_sleep_def Let_def protect_visible_sessions_def intro!: sim_maybe_sleep_ready)
next
  case False
  then show ?thesis
    using assms
    by (auto simp: on_prepare_for_sleep_def Let_def sim_fold_protect_cmds intro!: sim_set_input_owner)
qed

end
