(* ===== verification/Refine_Transitions.thy ===== *)
theory Refine_Transitions
  imports Refine_Power
begin

text \<open>
  Lock, the compositor's transition events, the commits and logout keep the simulation. The
  commit of a reveal is the one place that takes the labelled step \<^verbatim>\<open>L_Reveal\<close>.
\<close>

section \<open>Lock\<close>

lemma sim_request_lock:
  assumes "sim A c m" "is_lock_kind kind"
  shows "sim A c (snd (request_lock req sid kind m))"
proof (cases "session_of m sid")
  case None
  then show ?thesis using assms(1) by (simp add: request_lock_def)
next
  case (Some s)
  show ?thesis
  proof (cases "s_state s = St_Foreground \<and> (\<exists>u. session_may_not_preempt req m = Inr u)
      \<and> (\<exists>u n. interrupt_current m = (Inr u, n))")
    case False
    then show ?thesis
      using Some assms(1) sim_interrupt_current [OF assms(1)]
      by (auto simp: request_lock_def split: sum.split prod.split)
  next
    case True
    then obtain u v n where n: "interrupt_current m = (Inr u, n)" "session_may_not_preempt req m = Inr v" by blast
    let ?gn = "s_generation s"
    let ?n1 = "snd (new_operation kind req (Some (sid, ?gn)) n)"
    let ?n2 = "snd (op_set (Some Ph_Preparing) (Some Tr_WaitingForFrames) ?n1)"
    let ?n3 = "modify_op (\<lambda>x. x\<lparr>o_waiting_protect := insert (sid, ?gn) (o_waiting_protect x)\<rparr>) ?n2"
    have s2: "sim A c ?n2"
      by (rule sim_op_set_ready [OF sim_fresh_slot(1) [OF assms(1) n(1)]])
        (use assms(2) in \<open>auto simp: is_lock_kind_def\<close>)
    have s3: "sim A c ?n3"
      by (rule sim_modify_op [OF s2]) simp
    have "m_challenge ?n3 = None"
      using sim_fresh_slot(2) [OF assms(1) n(1)] by simp
    then have "sim A c (?n3\<lparr>m_selected_uid := Some (s_uid s)\<rparr>)"
      by (rule sim_select [OF s3])
    then have "sim A c (begin_protect sid ?gn (if kind = Op_SwitchUser
         then ?n3\<lparr>m_selected_uid := Some (s_uid s), m_switching_user := True\<rparr>
         else ?n3\<lparr>m_selected_uid := Some (s_uid s)\<rparr>))"
      by (auto intro!: sim_begin_protect)
    with Some True n show ?thesis
      by (auto simp: request_lock_def Let_def split: prod.split)
  qed
qed

lemma sim_lock_scene_ready:
  assumes "sim A c m" "\<And>x. m_op m = Some x \<Longrightarrow> is_lock_kind (o_kind x)"
  shows "sim A c (lock_scene_ready m)"
proof (cases "m_op m")
  case None
  then show ?thesis using assms(1) by (simp add: lock_scene_ready_def)
next
  case (Some x)
  then have k: "o_kind x \<noteq> Op_Reveal" "o_kind x \<noteq> Op_Power"
    using assms(2) by (auto simp: is_lock_kind_def)
  have "m_challenge m = None"
    using other_kind_no_challenge [OF sim_cinv [OF assms(1)] Some k(1)] .
  then have "sim A c (begin_transition (o_transition x) (o_session x) None None (set_input_owner Own_Greeter m))"
    using assms(1) Some k by (intro sim_begin_transition sim_set_input_owner) auto
  then have "sim A c (modify_op (\<lambda>x. x\<lparr>o_locked_scene_ready := True\<rparr>)
      (begin_transition (o_transition x) (o_session x) None None (set_input_owner Own_Greeter m)))"
    by (rule sim_modify_op) simp
  with Some show ?thesis by (simp add: lock_scene_ready_def)
qed

lemma core_protected: "core_of (m\<lparr>m_protected := p\<rparr>) = (core_of m)\<lparr>k_prot := p\<rparr>"
  by (simp add: core_of_def)

lemma put_state_prot: "put_state sid st (c\<lparr>k_prot := p\<rparr>) = (put_state sid st c)\<lparr>k_prot := p\<rparr>"
  by (simp add: put_state_def)

lemma session_of_protected [simp]: "session_of (m\<lparr>m_protected := p\<rparr>) = session_of m"
  by (simp add: session_of_def fun_eq_iff)

lemma sim_acknowledge:
  assumes "sim A c m" "session_of m sid = Some s" "s_state s = St_LockRequested"
    and "nxt \<in> {St_LockedBackground, St_LockedGreeterForeground}"
  shows "sim A c (snd (set_session_state sid nxt (m\<lparr>m_protected := insert sid (m_protected m)\<rparr>)))"
proof -
  have legal: "session_legal (s_state s) nxt"
    using assms(3,4) by (auto simp: session_legal_def)
  have "cstep A (core_of m) ((put_state sid nxt (core_of m))\<lparr>k_prot := insert sid (k_prot (core_of m))\<rparr>)"
    by (rule c_ack [of _ _ "sview s"]) (use assms in auto)
  then show ?thesis
    using assms(2) legal
    by (intro sim_step [OF assms(1)])
      (auto simp: set_session_state_def core_put_state core_protected put_state_prot
        intro!: shape_modify_session sim_shape [OF assms(1)])
qed

lemma sim_acknowledge_protect:
  assumes "sim A c m" "session_of m sid = Some s" "s_state s = St_LockRequested"
  shows "sim A c (acknowledge_protect sid gn uid m)"
  unfolding acknowledge_protect_def Let_def
  by (rule sim_modify_op, simp only: sim_set_locked_hint, rule sim_acknowledge) (use assms in auto)

lemma sim_protect_done:
  assumes "sim A c m"
  shows "sim A c (protect_done m)"
proof -
  have lock: "sim A c (lock_scene_ready m)" if "m_op m = Some x" "is_lock_kind (o_kind x)" for x
    by (rule sim_lock_scene_ready [OF assms]) (use that in auto)
  have "sim A c (suspend_scene_ready m)"
    if x: "m_op m = Some x" "o_kind x = Op_Power" "authorised (o_tstate x)" for x
    by (rule sim_suspend_scene_ready [OF assms]) (use x sim_cinv [OF assms] in \<open>auto simp: cinv_def inv_op_def\<close>)
  with lock assms show ?thesis
    by (auto simp: protect_done_def split: option.split)
qed

lemma sim_on_protected:
  assumes "sim A c m"
  shows "sim A c (on_protected sid gn m)"
proof (cases "session_gen m sid gn")
  case None
  then show ?thesis using assms by (simp add: on_protected_def)
next
  case (Some s)
  then have "session_of m sid = Some s" by (simp add: session_gen_def)
  with Some assms show ?thesis
    by (auto simp: on_protected_def sleep_prep_done_def split: option.split
        intro!: sim_protect_done sim_acknowledge_protect sim_maybe_sleep_ready)
qed

lemma sim_on_protect_timeout: "sim A c m \<Longrightarrow> sim A c (on_protect_timeout sid gn m)"
  by (auto simp: on_protect_timeout_def Let_def intro!: sim_op_ends)

section \<open>Transition events\<close>

lemma sim_input_to_greeter: "sim A c m \<Longrightarrow> sim A c (input_to_greeter_if_hidden m)"
  by (auto simp: input_to_greeter_if_hidden_def intro!: sim_set_input_owner)

lemma sim_on_transition_timeout: "sim A c m \<Longrightarrow> sim A c (on_transition_timeout oid m)"
  by (auto simp: on_transition_timeout_def intro!: sim_op_ends sim_op_abort sim_input_to_greeter split: option.split)

lemma sim_transition_failed: "sim A c m \<Longrightarrow> sim A c (transition_failed code m)"
  by (auto simp: transition_failed_def intro!: sim_op_ends sim_rollback_power_scene sim_input_to_greeter
      split: option.split op_kind.split)

lemma modify_op_None: "m_op m = None \<Longrightarrow> modify_op f m = m"
  by (cases m) (simp add: modify_op_def)

lemma opview_committed [simp]: "opview (x\<lparr>o_committed := b\<rparr>) = (opview x)\<lparr>co_committed := b\<rparr>"
  by (simp add: opview_def)

lemma sim_mark_committed:
  assumes "sim A c m" "\<And>x. m_op m = Some x \<Longrightarrow> o_began x"
  shows "sim A c (modify_op (\<lambda>x. x\<lparr>o_committed := True\<rparr>) m)"
proof (cases "m_op m")
  case None
  then show ?thesis using assms(1) by (simp add: modify_op_None)
next
  case (Some x)
  have "cstep A (core_of m) (core_of (modify_op (\<lambda>x. x\<lparr>o_committed := True\<rparr>) m))"
    using c_op_commit [of "core_of m" "opview x" A] Some assms(2) by (simp add: core_modify_op)
  then show ?thesis
    by (rule sim_step [OF assms(1)]) (use sim_shape [OF assms(1)] in \<open>simp add: shape_def\<close>)
qed

text \<open>The labelled step: the view after the commit of a reveal whose target is still there.\<close>

lemma core_commit_reveal:
  assumes "m_op m = Some x" "session_of m sid = Some s" "s_generation s = gn" "is_revealable (s_state s)"
  shows "\<exists>t. (t = o_tstate x \<or> t = Tr_Committed) \<and>
     core_of (commit_reveal sid gn m) = (put_state sid St_Foreground (core_of m))
       \<lparr>k_fg := Some sid, k_prot := m_protected m - {sid}, k_inp := Own_Session sid,
        k_sel := Some (s_uid s), k_op := Some ((opview x)\<lparr>co_tstate := t\<rparr>)\<rparr>"
proof -
  have legal: "session_legal (s_state s) St_Foreground"
    using assms(4) by (simp add: legal_to_Foreground)
  define m1 where "m1 = m\<lparr>m_fg_seq := m_fg_seq m + 1, m_protected := m_protected m - {sid}\<rparr>"
  define m2 where "m2 = modify_session sid (\<lambda>s. s\<lparr>s_fg_seq := m_fg_seq m + 1, s_ticket := None\<rparr>)
      (modify_session sid (\<lambda>s. s\<lparr>s_state := St_Foreground\<rparr>) m1)"
  define m3 where "m3 = set_locked_hint sid False (set_input_owner (Own_Session sid)
      (m2\<lparr>m_foreground := Some sid, m_selected_uid := Some (s_uid s), m_last_used_uid := Some (s_uid s),
          m_switching_user := False, m_retained_failure := None\<rparr>))"
  have eq: "commit_reveal sid gn m = snd (op_set (Some Ph_Committed) (Some Tr_Committed) m3)"
    using assms legal
    by (simp add: commit_reveal_def set_session_state_def Let_def m3_def m2_def m1_def session_of_def)
  have c3: "core_of m3 = (put_state sid St_Foreground (core_of m))
       \<lparr>k_fg := Some sid, k_prot := m_protected m - {sid}, k_inp := Own_Session sid, k_sel := Some (s_uid s)\<rparr>"
    unfolding m3_def m2_def m1_def
    by (simp add: set_input_owner_def core_of_push core_put_state core_modify_same)
      (auto simp: core_of_def put_state_def modify_session_def fun_eq_iff option.map_comp comp_def sview_def)
  have o3: "m_op m3 = Some x"
    using assms(1) by (simp add: m3_def m2_def m1_def)
  have same: "(opview x)\<lparr>co_tstate := o_tstate x\<rparr> = opview x"
    by (simp add: opview_def)
  have k: "put_op (opview x) (core_of m3) = core_of m3"
    by (rule put_op_same [OF o3])
  from core_op_set_raw [OF o3, of "Some Ph_Committed" "Some Tr_Committed"]
  consider "core_of (commit_reveal sid gn m) = put_op ((opview x)\<lparr>co_tstate := o_tstate x\<rparr>) (core_of m3)"
    | "core_of (commit_reveal sid gn m) = put_op ((opview x)\<lparr>co_tstate := Tr_Committed\<rparr>) (core_of m3)"
    by (auto simp: eq same k)
  then show ?thesis
    by cases (simp_all only: c3, auto simp: put_op_def)
qed

lemma shape_commit_reveal:
  assumes "shape m"
  shows "shape (commit_reveal sid gn m)"
proof -
  have sel: "shape (n\<lparr>m_fg_seq := a1\<rparr>) = shape n" "shape (n\<lparr>m_last_used_uid := a2\<rparr>) = shape n"
    "shape (n\<lparr>m_switching_user := a3\<rparr>) = shape n" "shape (n\<lparr>m_retained_failure := a4\<rparr>) = shape n"
    "shape (set_locked_hint sid False n) = shape n" "shape (set_input_owner w n) = shape n"
    "shape (modify_op f n) = shape n" for n w f a1 a2 a3 a4
    by (simp_all add: shape_def)
  have "shape (op_abort code n) = shape n" for code n
    by (simp add: op_abort_def Let_def shape_def split: option.split)
  with assms show ?thesis
    by (auto simp: commit_reveal_def Let_def sel split: option.split
        intro!: shape_modify_session shape_set_state)
qed

lemma sim_commit_reveal:
  assumes "sim A c m" "m_op m = Some x" "o_kind x = Op_Reveal" "o_began x" "\<not> o_committed x"
    and "o_session x = Some (sid, gn)" "L_Reveal (o_id x) sid gn \<in> A"
  shows "sim A c (commit_reveal sid gn (modify_op (\<lambda>x. x\<lparr>o_committed := True\<rparr>) m))"
proof -
  let ?m = "modify_op (\<lambda>x. x\<lparr>o_committed := True\<rparr>) m"
  have op: "m_op ?m = Some (x\<lparr>o_committed := True\<rparr>)" using assms(2) by simp
  have auth: "authorised (o_tstate x)"
    using sim_cinv [OF assms(1)] assms(2,4) by (auto simp: cinv_def inv_op_def)
  show ?thesis
  proof (cases "\<exists>s. session_of m sid = Some s \<and> s_generation s = gn \<and> is_revealable (s_state s)")
    case True
    then obtain s where s: "session_of m sid = Some s" "s_generation s = gn" "is_revealable (s_state s)" by blast
    obtain t where t: "t = o_tstate x \<or> t = Tr_Committed"
      and c: "core_of (commit_reveal sid gn ?m) = (put_state sid St_Foreground (core_of ?m))
       \<lparr>k_fg := Some sid, k_prot := m_protected ?m - {sid}, k_inp := Own_Session sid,
        k_sel := Some (s_uid s), k_op := Some ((opview (x\<lparr>o_committed := True\<rparr>))\<lparr>co_tstate := t\<rparr>)\<rparr>"
      using core_commit_reveal [OF op, of sid s gn] s by auto
    have "core_of (commit_reveal sid gn ?m) = (put_state sid St_Foreground (core_of m))
       \<lparr>k_fg := Some sid, k_prot := k_prot (core_of m) - {sid}, k_inp := Own_Session sid,
        k_sel := Some (cs_uid (sview s)), k_op := Some ((opview x)\<lparr>co_committed := True, co_tstate := t\<rparr>)\<rparr>"
      unfolding c by (simp add: core_modify_op [OF assms(2)] put_state_def put_op_def)
    moreover have "cstep A (core_of m) \<dots>"
      by (rule c_reveal) (use assms s t auth in auto)
    ultimately show ?thesis
      by (intro sim_step [OF assms(1)] shape_commit_reveal)
        (use sim_shape [OF assms(1)] in \<open>auto simp: shape_def\<close>)
  next
    case False
    let ?m' = "modify_op (\<lambda>x. x\<lparr>o_committed := False\<rparr>) ?m"
    have "(opview x)\<lparr>co_committed := False\<rparr> = opview x"
      using assms(5) by (simp add: opview_def)
    then have "core_of ?m' = core_of m"
      using assms(2) by (simp add: core_modify_op put_op_same)
    then have "sim A c ?m'"
      by (rule sim_same [OF assms(1)]) (use sim_shape [OF assms(1)] in \<open>simp add: shape_def\<close>)
    then have "sim A c (op_abort E_TransitionInterrupted ?m')"
      by (rule sim_op_abort)
    with False show ?thesis
      by (auto simp: commit_reveal_def split: option.split)
  qed
qed

lemma sim_commit_logout:
  assumes "sim A c m" "\<And>x. m_op m = Some x \<Longrightarrow> o_kind x = Op_Logout"
  shows "sim A c (commit_logout sid m)"
proof -
  have ch: "m_challenge m = None"
    using assms(2) no_op_no_challenge other_kind_no_challenge sim_cinv [OF assms(1)]
    by (metis op_kind.distinct(5) option.exhaust)
  let ?n = "begin_cleanup sid St_Stopping (set_input_owner Own_Greeter m)"
  have n: "sim A c ?n" "m_challenge ?n = None" "m_op ?n = m_op m"
    using assms(1) ch by (auto intro!: sim_begin_cleanup sim_set_input_owner)
  let ?n2 = "case map_option s_uid (session_of m sid) of Some u \<Rightarrow> ?n\<lparr>m_selected_uid := Some u\<rparr> | None \<Rightarrow> ?n"
  have "sim A c ?n2" "m_op ?n2 = m_op m"
    using n by (auto intro!: sim_select split: option.split)
  then have "sim A c (snd (op_set (Some Ph_Committed) (Some Tr_Committed) ?n2))"
    by (intro sim_op_set_ready) (use assms(2) in auto)
  then show ?thesis by (simp add: commit_logout_def Let_def)
qed

text \<open>The labels the commit of an operation may use.\<close>

definition commit_labels :: "operation \<Rightarrow> clabel set" where
  "commit_labels x =
     (case o_kind x of
        Op_Reveal \<Rightarrow> (case o_session x of Some (sid, gn) \<Rightarrow> {L_Reveal (o_id x) sid gn} | None \<Rightarrow> {})
      | Op_Power \<Rightarrow> {L_Call (o_id x) (unwrap_or (o_action x) Pw_PowerOff)}
      | _ \<Rightarrow> {})"

lemma sim_commit_op:
  assumes "sim A c m" "\<And>x. m_op m = Some x \<Longrightarrow> o_began x"
    and "\<And>x. m_op m = Some x \<Longrightarrow> \<not> o_committed x \<Longrightarrow> commit_labels x \<subseteq> A"
  shows "sim A c (commit_op m)"
proof (cases "m_op m")
  case None
  then show ?thesis using assms(1) by (simp add: commit_op_def)
next
  case (Some x)
  let ?n = "modify_op (\<lambda>x. x\<lparr>o_committed := True\<rparr>) m"
  have n: "sim A c ?n" by (rule sim_mark_committed [OF assms(1,2)])
  have logout: "sim A c (commit_logout sid ?n)" if "o_kind x = Op_Logout" for sid
    by (rule sim_commit_logout [OF n]) (use Some that in auto)
  have pow: "sim A c (commit_power ?n)" if "o_kind x = Op_Power" "\<not> o_committed x"
    by (rule sim_commit_power [OF n])
      (use Some that assms(2) assms(3) [OF Some] in \<open>auto simp: commit_labels_def\<close>)
  have lock: "sim A c (snd (op_set (Some Ph_Committed) (Some Tr_Committed) ?n))"
    by (rule sim_op_set_ready [OF n]) (use Some assms(2) in auto)
  have reveal: "sim A c (commit_reveal sid gn ?n)"
    if "o_kind x = Op_Reveal" "o_session x = Some (sid, gn)" "\<not> o_committed x" for sid gn
    by (rule sim_commit_reveal [OF assms(1) Some])
      (use Some that assms(2) assms(3) [OF Some] in \<open>auto simp: commit_labels_def\<close>)
  show ?thesis
    using Some assms(1) n logout pow lock reveal
    by (auto simp: commit_op_def Let_def split: option.split op_kind.split)
qed

lemma sim_complete_transition: "sim A c m \<Longrightarrow> sim A c (complete_transition m)"
  by (auto simp: complete_transition_def intro!: sim_op_ends split: option.split)

lemma sim_on_transition_phase:
  assumes "sim A c m"
    and "\<And>x. phase \<in> {Ev_Committed, Ev_Completed} \<Longrightarrow> m_op m = Some x \<Longrightarrow> o_id x = oid \<Longrightarrow> o_began x \<Longrightarrow>
           \<not> o_committed x \<Longrightarrow> commit_labels x \<subseteq> A"
  shows "sim A c (on_transition_phase oid phase m)"
proof (cases "\<exists>x. m_op m = Some x \<and> o_id x = oid \<and> o_began x")
  case False
  then show ?thesis
    using assms(1) by (auto simp: on_transition_phase_def split: option.split)
next
  case True
  then obtain x where x: "m_op m = Some x" "o_id x = oid" "o_began x" by blast
  have "sim A c (commit_op m)" if "phase \<in> {Ev_Committed, Ev_Completed}"
    by (rule sim_commit_op [OF assms(1)]) (use x assms(2) [OF that x] in auto)
  moreover have "sim A c (snd (op_set (Some Ph_Animating) (Some Tr_Animating) m))"
    by (rule sim_op_set_ready [OF assms(1)]) (use x in auto)
  ultimately show ?thesis
    using x assms(1)
    by (auto simp: on_transition_phase_def Let_def split: transition_phase_event.split option.split
        intro!: sim_complete_transition sim_transition_failed sim_op_ends sim_rollback_power_scene)
qed

section \<open>Logout\<close>

lemma sim_emit_bg [simp]: "sim A c (emit_bg oid ph r m) = sim A c m"
  by (simp add: emit_bg_def)

lemma sim_push_history [simp]: "sim A c (push_history i m) = sim A c m"
  by (simp add: push_history_def)

lemma sim_finish_bg_logout [simp]: "sim A c (finish_bg_logout sid gn m) = sim A c m"
  by (simp add: finish_bg_logout_def Let_def split: option.split)

lemma sim_logout_hidden: "sim A c m \<Longrightarrow> sim A c (snd (logout_hidden sid gn st m))"
  by (auto simp: logout_hidden_def Let_def intro!: sim_begin_cleanup sim_op_abort)

lemma sim_request_logout:
  assumes "sim A c m"
  shows "sim A c (snd (request_logout req sid m))"
proof (cases "opt_filter (\<lambda>s. is_running (s_state s)) (session_of m sid)")
  case None
  then show ?thesis using assms by (simp add: request_logout_def)
next
  case (Some s)
  show ?thesis
  proof (cases "s_state s = St_Foreground \<and> (\<exists>u. session_may_not_preempt req m = Inr u)
      \<and> (\<exists>u n. interrupt_current m = (Inr u, n))")
    case False
    then show ?thesis
      using Some assms sim_interrupt_current [OF assms] sim_logout_hidden [OF assms]
      by (auto simp: request_logout_def Let_def split: sum.split prod.split)
  next
    case True
    then obtain u v n where n: "interrupt_current m = (Inr u, n)" "session_may_not_preempt req m = Inr v" by blast
    let ?gn = "s_generation s"
    let ?n1 = "snd (new_operation Op_Logout req (Some (sid, ?gn)) n)"
    let ?n2 = "snd (op_set (Some Ph_Preparing) (Some Tr_WaitingForFrames) ?n1)"
    have n2: "sim A c ?n2"
      by (rule sim_op_set_ready [OF sim_fresh_slot(1) [OF assms n(1)]]) auto
    have k: "o_kind y = Op_Logout" if "m_op ?n2 = Some y" for y
      using that by (rule op_set_kept) simp
    have "sim A c (begin_transition Kind_LogoutFade (Some (sid, ?gn)) None None ?n2)"
      by (rule sim_begin_transition [OF n2]) (use k sim_fresh_slot(2) [OF assms n(1)] in auto)
    with Some True n show ?thesis
      by (auto simp: request_logout_def Let_def split: prod.split)
  qed
qed

end
