(* ===== verification/Refine_Session.thy ===== *)
theory Refine_Session
  imports Refine_Transitions
begin

text \<open>
  The launch gate, session teardown, creation and recovery keep the simulation.
\<close>

section \<open>Teardown\<close>

lemma sim_modify_progress:
  "sim A c m \<Longrightarrow> sim A c (modify_session sid (\<lambda>s. s\<lparr>s_progress := g s\<rparr>) m)"
  by (rule sim_modify_session) simp_all

lemma sim_fail_launch: "sim A c m \<Longrightarrow> sim A c (fail_launch sid gn code msg m)"
  by (auto simp: fail_launch_def Let_def intro!: sim_op_ends sim_begin_cleanup sim_modify_progress split: option.split)

lemma session_of_sessions: "m_sessions m' = m_sessions m \<Longrightarrow> session_of m' = session_of m"
  by (simp add: session_of_def fun_eq_iff)

lemma sim_terminate_session:
  assumes "sim A c m"
  shows "sim A c (terminate_session sid m)"
proof (cases "session_of m sid")
  case None
  then show ?thesis using assms by (simp add: terminate_session_def)
next
  case (Some s)
  show ?thesis
  proof (cases "session_legal (s_state s) St_Terminated")
    case False
    then show ?thesis
      using Some assms by (auto simp: terminate_session_def set_session_state_def Let_def)
  next
    case True
    let ?rm = "\<lambda>m. m\<lparr>m_protected := m_protected m - {sid}, m_sessions := btm_remove sid (m_sessions m)\<rparr>"
    define n where "n = modify_session sid (\<lambda>s. s\<lparr>s_state := St_Terminated\<rparr>) m"
    have core: "core_of (?rm (push e2 (push e1 n))) = (core_of m)\<lparr>k_sess := (k_sess (core_of m))(sid := None), k_prot := k_prot (core_of m) - {sid}\<rparr>"
      if "power_call e1 = None" "power_call e2 = None" for e1 e2
    proof -
      have rm: "core_of (?rm n') = (core_of n')\<lparr>k_sess := (k_sess (core_of n'))(sid := None),
          k_prot := k_prot (core_of n') - {sid}\<rparr>" for n'
        by (auto simp: core_of_def fun_eq_iff)
      show ?thesis
        unfolding rm using that by (simp add: core_of_push n_def core_put_state) (simp add: put_state_def)
    qed
    have "cstep A (core_of m) ((core_of m)\<lparr>k_sess := (k_sess (core_of m))(sid := None), k_prot := k_prot (core_of m) - {sid}\<rparr>)"
      by (rule c_terminate [of _ _ "sview s"]) (use Some True in auto)
    moreover have "shape (?rm (push e2 (push e1 n)))" for e1 e2
      using sim_shape [OF assms] by (auto simp: n_def shape_def modify_session_def split: if_splits)
    ultimately have "sim A c (?rm (push e2 (push e1 n)))"
      if "power_call e1 = None" "power_call e2 = None" for e1 e2
      using core [OF that] by (intro sim_step [OF assms]) auto
    with Some True show ?thesis
      by (simp add: terminate_session_def set_session_state_def Let_def n_def)
  qed
qed

lemma sim_on_close_timeout: "sim A c m \<Longrightarrow> sim A c (on_close_timeout sid gn m)"
  by (auto simp: on_close_timeout_def intro!: sim_terminate_session)

text \<open>The selection may follow a lost session because a conversation about another account ends first.\<close>

lemma reselect_same: "m_selected_uid m = u \<Longrightarrow> m\<lparr>m_selected_uid := u\<rparr> = m"
  by (cases m) simp

lemma sim_reselect:
  assumes "sim A c m"
  shows "sim A c ((if m_selected_uid m \<noteq> Some uid \<and> m_challenge m \<noteq> None
                   then fail_challenge code msg m else m)\<lparr>m_selected_uid := Some uid\<rparr>)"
proof (cases "m_selected_uid m = Some uid")
  case True
  with assms show ?thesis by (simp add: reselect_same)
next
  case False
  let ?n = "if m_challenge m \<noteq> None then fail_challenge code msg m else m"
  have n: "sim A c ?n" using assms by (simp add: sim_fail_challenge)
  have "m_challenge ?n = None"
  proof (cases "m_challenge m")
    case (Some h)
    then have "m_op ?n = None"
      using fail_challenge_empties [OF sim_cinv [OF assms] Some] by simp
    then show ?thesis by (rule no_op_no_challenge [OF sim_cinv [OF n]])
  qed simp
  then have "sim A c (?n\<lparr>m_selected_uid := Some uid\<rparr>)" by (rule sim_select [OF n])
  with False show ?thesis by (auto split: if_splits)
qed

lemma sim_session_lost:
  assumes "sim A c m"
  shows "sim A c (session_lost sid gn why m)"
proof (cases "session_gen m sid gn")
  case None
  then show ?thesis using assms by (simp add: session_lost_def)
next
  case (Some s)
  let ?m1 = "log_msg Log_Error (Some sid) (''session lost: '' @ why) m"
  define m2 where "m2 = begin_cleanup sid St_Failed
     (if op_about sid gn ?m1 then op_abort E_TransitionInterrupted ?m1 else ?m1)"
  define m3 where "m3 = (if is_some_and (m_sleep_prep m2) (\<lambda>S. (sid, gn) \<in> S)
     then maybe_sleep_ready (m2\<lparr>m_sleep_prep := map_option (\<lambda>S. S - {(sid, gn)}) (m_sleep_prep m2)\<rparr>) else m2)"
  define m4 where "m4 = (if on_screen (s_state s) \<or> s_state s = St_LockedGreeterForeground \<or> op_about sid gn ?m1
     then (if m_input_owner (push (Fx_Scene Cmd_ShowGreeterOnly) m3) \<noteq> Own_Greeter
           then set_input_owner Own_Greeter (push (Fx_Scene Cmd_ShowGreeterOnly) m3)
           else push (Fx_Scene Cmd_ShowGreeterOnly) m3) else m3)"
  have "sim A c m2"
    unfolding m2_def using assms by (auto intro!: sim_begin_cleanup sim_op_abort)
  then have "sim A c m3"
    unfolding m3_def by (auto intro!: sim_maybe_sleep_ready)
  then have "sim A c m4"
    unfolding m4_def by (auto intro!: sim_set_input_owner)
  note res = sim_reselect [OF this, of "s_uid s" E_Cancelled "''the displayed account changed''"]
  have "session_lost sid gn why m =
     (if \<not> is_running (s_state s) then m else if launching s then fail_launch sid gn E_HelperFailure why m
      else push (Fx_Greeter (SMsg_Error None E_HelperFailure ''Your session ended unexpectedly.''))
        ((if m_selected_uid m4 \<noteq> Some (s_uid s) \<and> m_challenge m4 \<noteq> None
          then fail_challenge E_Cancelled ''the displayed account changed'' m4 else m4)
           \<lparr>m_selected_uid := Some (s_uid s)\<rparr>))"
    unfolding session_lost_def Some option.case Let_def m4_def m3_def m2_def by (rule refl)
  with res sim_fail_launch [OF assms] assms show ?thesis by simp
qed

section \<open>The launch gate\<close>

lemma sim_reach_stage: "sim A c m \<Longrightarrow> sim A c (snd (reach_stage sid st m))"
  by (auto simp: reach_stage_def Let_def split: option.split prod.split intro!: sim_modify_progress)

lemma sim_stage_effect: "sim A c m \<Longrightarrow> sim A c (stage_effect sid st m)"
  by (cases st) (auto simp: stage_effect_def launch_states_def intro!: sim_launch_state sim_modify_session)

lemma sim_launch_loop: "sim A c m \<Longrightarrow> sim A c (launch_loop sid names m)"
proof (induction sid names m rule: launch_loop.induct)
  case (1 sid names m)
  note IH = 1(1) and s = 1(2)
  have r: "sim A c m'" if "reach_stage sid st m = (ok, m')" for ok m' st
    using sim_reach_stage [OF s, of sid st] that by simp
  show ?case
    using s r
    by (subst launch_loop.simps)
      (auto split: option.split eval.split prod.split intro!: IH sim_modify_progress sim_stage_effect)
qed

lemma sim_arm_stage_timer: "sim A c m \<Longrightarrow> sim A c (arm_stage_timer sid m)"
  by (auto simp: arm_stage_timer_def Let_def intro!: sim_modify_session split: option.split)

lemma sim_advance_launch: "sim A c m \<Longrightarrow> sim A c (advance_launch sid m)"
  by (auto simp: advance_launch_def Let_def intro!: sim_try_reveal sim_arm_stage_timer sim_launch_loop)

lemma sim_on_stage_timeout: "sim A c m \<Longrightarrow> sim A c (on_stage_timeout sid gn st m)"
  by (auto simp: on_stage_timeout_def intro!: sim_fail_launch split: option.split)

lemma sim_fold:
  "(\<And>x m. sim A c m \<Longrightarrow> sim A c (f x m)) \<Longrightarrow> sim A c m \<Longrightarrow> sim A c (fold f xs m)"
  by (induction xs arbitrary: m) auto

lemma sim_on_outputs_changed: "sim A c m \<Longrightarrow> sim A c (on_outputs_changed m)"
  by (auto simp: on_outputs_changed_def Let_def split: prod.split
      intro!: sim_try_reveal sim_fold sim_fail_launch sim_advance_launch)

section \<open>Creation and recovery\<close>

lemma uid_free_of_running:
  assumes "shape m" "running_session m uid = None"
  shows "uid_free (core_of m) uid"
proof -
  from assms(2) have "\<not> (s_uid s = uid \<and> is_running (s_state s))" if "s \<in> set (btm_values (m_sessions m))" for s
    using that by (auto simp: running_session_def filter_empty_conv)
  then have "\<not> (s_uid s = uid \<and> is_running (s_state s))" if "session_of m sid = Some s" for sid s
    using that session_values_ex [OF assms(1), of s] by blast
  then show ?thesis by (auto simp: uid_free_def)
qed

lemma shape_insert: "shape m \<Longrightarrow> s_id s = sid \<Longrightarrow> shape (m\<lparr>m_sessions := btm_insert sid s (m_sessions m)\<rparr>)"
  by (auto simp: shape_def split: if_splits)

lemma core_insert:
  "core_of (m\<lparr>m_sessions := btm_insert sid s (m_sessions m)\<rparr>) = (core_of m)\<lparr>k_sess := (k_sess (core_of m))(sid \<mapsto> sview s)\<rparr>"
  by (auto simp: core_of_def fun_eq_iff)

lemma sim_recover_session:
  assumes "sim A c m" "session_of m (ps_id p) = None" "running_session m (ps_uid p) = None" "L_Recover \<in> A"
    and "m_op m = None"
  shows "sim A c (recover_session p m)"
proof -
  let ?n = "m\<lparr>m_sessions := btm_insert (ps_id p) (recovered_record p) (m_sessions m),
              m_protected := insert (ps_id p) (m_protected m)\<rparr>"
  have v: "sview (recovered_record p) = \<lparr>cs_gen = ps_generation p, cs_uid = ps_uid p, cs_state = St_LockedBackground\<rparr>"
    "s_id (recovered_record p) = ps_id p"
    by (simp_all add: sview_def recovered_record_def)
  have "cstep A (core_of m) (core_of ?n)"
    using c_recover [of "core_of m" "ps_id p" "ps_uid p" A "ps_generation p"] assms
      uid_free_of_running [OF sim_shape [OF assms(1)] assms(3)]
    by (simp add: core_protected core_insert v)
  then have "sim A c ?n"
    by (rule sim_step [OF assms(1)]) (simp add: shape_insert sim_shape [OF assms(1)] v)
  then show ?thesis
    by (simp add: recover_session_def Let_def)
qed

lemma sim_on_recovery_timeout: "sim A c m \<Longrightarrow> sim A c (on_recovery_timeout sid gn m)"
  by (auto simp: on_recovery_timeout_def intro!: sim_session_lost split: option.split)

section \<open>Events about sessions\<close>

lemma sim_helper_req [simp]: "sim A c (snd (helper_req m)) = sim A c m"
  by (simp add: helper_req_def)

lemma sim_on_socket_ready: "sim A c m \<Longrightarrow> sim A c (on_socket_ready sid gn path m)"
  by (auto simp: on_socket_ready_def Let_def helper_req_def launch_states_def split: option.split
      intro!: sim_launch_state sim_modify_session)

lemma sim_on_session_opened: "sim A c m \<Longrightarrow> sim A c (on_session_opened req sid gn pid scope logind m)"
  by (auto simp: on_session_opened_def Let_def launch_states_def
      intro!: sim_advance_launch sim_launch_state sim_reach_stage sim_modify_session sim_fail_launch)

lemma sim_on_session_connected: "sim A c m \<Longrightarrow> sim A c (on_session_connected sid gn pid m)"
  by (auto simp: on_session_connected_def Let_def split: option.split
      intro!: sim_advance_launch sim_modify_session sim_try_reveal)

lemma sim_on_connection_rejected [simp]: "sim A c (on_connection_rejected sid gn r m) = sim A c m"
  by (simp add: on_connection_rejected_def)

lemma sim_on_surfaces: "sim A c m \<Longrightarrow> sim A c (on_surfaces sid gn sf m)"
  by (auto simp: on_surfaces_def Let_def split: option.split
      intro!: sim_advance_launch sim_modify_session sim_try_reveal)

lemma sim_record_report: "sim A c m \<Longrightarrow> sim A c (record_report sid s r names m)"
  by (cases r) (auto simp: record_report_def Let_def intro!: sim_modify_session)

lemma sim_on_report: "sim A c m \<Longrightarrow> sim A c (on_report sid gn r m)"
  by (auto simp: on_report_def Let_def split: option.split intro!: sim_advance_launch sim_record_report)

lemma sim_on_session_gone: "sim A c m \<Longrightarrow> sim A c (on_session_gone sid gn m)"
  by (auto simp: on_session_gone_def Let_def split: option.split intro!: sim_session_lost sim_modify_session)

lemma sim_on_session_exited: "sim A c m \<Longrightarrow> sim A c (on_session_exited sid gn st m)"
  by (auto simp: on_session_exited_def split: option.split intro!: sim_session_lost sim_terminate_session)

lemma sim_on_session_failed: "sim A c m \<Longrightarrow> sim A c (on_session_failed req sid gn code msg m)"
  by (auto simp: on_session_failed_def intro!: sim_fail_launch)

end
