(* ===== verification/Refine_Auth.thy ===== *)
theory Refine_Auth
  imports Refine_Session
begin

text \<open>
  The greeter protocol and the authentication conversation keep the simulation. A success of PAM
  is the only source of the label \<^verbatim>\<open>L_Auth\<close>, and only for the account and the operation of the
  challenge it answers.
\<close>

section \<open>Selection\<close>

lemma op_finish_selected [simp]: "m_selected_uid (op_finish ph t r m) = m_selected_uid m"
proof -
  have f: "m_selected_uid (fold (\<lambda>t. push (Fx_CancelTimer t)) ts n) = m_selected_uid n" for ts n
    by (induction ts arbitrary: n) simp_all
  have d: "m_selected_uid (drop_challenge_of oid code n) = m_selected_uid n" for oid code n
    by (simp add: drop_challenge_of_def split: option.split)
  show ?thesis
    by (simp add: op_finish_def Let_def f d push_history_def split: option.split)
qed

lemma fail_challenge_selected [simp]: "m_selected_uid (fail_challenge code msg m) = m_selected_uid m"
  by (simp add: fail_challenge_def op_end_failed_def op_ending_defs Let_def split: option.split)

lemma cancel_immediate_selected [simp]: "m_selected_uid (cancel_immediate m) = m_selected_uid m"
  by (simp add: cancel_immediate_def op_ending_defs cancel_power_checks_def split: option.split op_kind.split)

lemma fail_challenge_none:
  assumes "sim A c m"
  shows "m_challenge (fail_challenge code msg m) = None"
proof (cases "m_challenge m")
  case None
  then show ?thesis by (simp add: fail_challenge_def)
next
  case (Some h)
  show ?thesis
    by (rule no_op_no_challenge [OF sim_cinv [OF sim_fail_challenge [OF assms]]])
      (rule fail_challenge_empties [OF sim_cinv [OF assms] Some])
qed

lemma greeter_target_session:
  assumes "shape m" "greeter_target m = Some t"
  shows "session_of m (s_id t) = Some t" "s_state t = St_LockedGreeterForeground"
  using assms find_Some_mem [of "\<lambda>s. s_state s = St_LockedGreeterForeground" "btm_values (m_sessions m)" t]
    session_values [OF assms(1), of t]
  by (auto simp: greeter_target_def)

lemma sim_demote:
  assumes "sim A c m" "session_of m sid = Some t" "s_state t = St_LockedGreeterForeground"
  shows "sim A c (snd (set_session_state sid St_LockedBackground m))"
proof (cases rule: set_state_cases [of sid St_LockedBackground m])
  case refused
  then show ?thesis using assms(1) by auto
next
  case (made s)
  have "cstep A (core_of m) (put_state sid St_LockedBackground (core_of m))"
    by (rule c_demote [of _ _ "sview t"]) (use assms in auto)
  then show ?thesis
    unfolding made(3) snd_conv
    by (intro sim_step [OF assms(1)])
      (auto simp: core_put_state intro!: shape_modify_session sim_shape [OF assms(1)])
qed

lemma sim_select_user:
  assumes "sim A c m"
  shows "sim A c (snd (select_user uid m))"
proof -
  let ?n = "if m_op m \<noteq> None then fail_challenge E_Cancelled ''another account was selected'' m else m"
  have n: "sim A c ?n" "m_challenge ?n = None"
    using assms fail_challenge_none [OF assms] no_op_no_challenge [OF sim_cinv [OF assms]]
    by (auto intro: sim_fail_challenge)
  let ?m = "?n\<lparr>m_retained_failure := None, m_selected_uid := Some uid\<rparr>"
  have m: "sim A c ?m"
    using n by (auto intro!: sim_select)
  have "sim A c (snd (set_session_state (s_id t) St_LockedBackground ?m))" if "greeter_target ?m = Some t" for t
    using greeter_target_session [OF sim_shape [OF m] that] by (rule sim_demote [OF m])
  with m assms show ?thesis
    by (auto simp: select_user_def Let_def split: option.split)
qed

lemma select_user_same: "select_user uid m = (Inr u, m') \<Longrightarrow> m_selected_uid m = Some uid \<Longrightarrow> m' = m"
  by (auto simp: select_user_def Let_def split: if_splits)

lemma sim_report_error: "sim A c (snd r) \<Longrightarrow> sim A c (report_error req r)"
  by (auto simp: report_error_def split: prod.split sum.split)

lemma sim_greeter_select_user: "sim A c m \<Longrightarrow> sim A c (greeter_select_user uid m)"
  by (simp add: greeter_select_user_def sim_report_error sim_select_user)

section \<open>Starting a conversation\<close>

lemma alloc_generation_result: "alloc_generation m = Some (g, m') \<Longrightarrow> \<exists>p. m' = m\<lparr>m_rng_pos := p\<rparr>"
  by (auto simp: alloc_generation_def)

lemma running_session_values:
  assumes "shape m" "running_session m uid = Some s"
  shows "session_of m (s_id s) = Some s" "s_uid s = uid"
proof -
  have "s \<in> set (filter (\<lambda>s. s_uid s = uid \<and> is_running (s_state s)) (btm_values (m_sessions m)))"
    using assms(2) unfolding running_session_def by (rule max_by_key_mem)
  then show "session_of m (s_id s) = Some s" "s_uid s = uid"
    unfolding set_filter mem_Collect_eq session_values [OF assms(1)] by blast+
qed

definition plan_ok :: "manager \<Rightarrow> u32 \<Rightarrow> plan \<Rightarrow> bool" where
  "plan_ok m uid pl \<longleftrightarrow>
     (\<forall>sid g s. pl = Plan_Existing sid g \<longrightarrow> session_of m sid = Some s \<longrightarrow> s_uid s = uid)"

lemma auth_plan_result:
  assumes "shape m" "auth_plan intent uid m = Some (r, m')"
  shows "(\<exists>p. m' = m\<lparr>m_rng_pos := p\<rparr>) \<and> (\<forall>pl g. r = Inr (pl, g) \<longrightarrow> plan_ok m uid pl)"
proof -
  have same: "\<exists>p. m = m\<lparr>m_rng_pos := p\<rparr>"
    by (rule exI [of _ "m_rng_pos m"]) simp
  show ?thesis
    using assms(2) same greeter_target_session [OF assms(1)] running_session_values [OF assms(1)]
    by (auto simp: auth_plan_def plan_ok_def dest!: alloc_generation_result split: if_splits option.splits)
qed

lemma op_set_challenge_commute:
  "snd (op_set p t (m\<lparr>m_challenge := h\<rparr>)) = (snd (op_set p t m))\<lparr>m_challenge := h\<rparr>"
  by (auto simp: op_set_def Let_def emit_op_def log_is_push push_def split: option.split)

lemma core_counters [simp]:
  "core_of (m\<lparr>m_next_challenge := a\<rparr>) = core_of m" "core_of (m\<lparr>m_next_helper_req := b\<rparr>) = core_of m"
  "core_of (m\<lparr>m_rng_pos := d\<rparr>) = core_of m" "core_of (m\<lparr>m_retained_failure := e\<rparr>) = core_of m"
  by (simp_all add: core_of_def)

lemma fresh_authorising:
  assumes "m_op n = Some (fresh_operation Op_Reveal r s m)"
  shows "\<exists>x. m_op (op_authorising n) = Some x \<and> o_kind x = Op_Reveal \<and> o_tstate x = Tr_WaitingForAuth
     \<and> \<not> o_began x \<and> \<not> o_committed x \<and> o_id x = m_next_op m"
  using assms by (simp add: op_authorising_def op_set_def Let_def phase_legal_def is_final_def transition_legal_def)

lemma sim_start_challenge:
  assumes "sim A c m" "m_op m = None" "m_selected_uid m = Some uid" "plan_ok m uid pl"
  shows "sim A c (start_challenge rid uid intent service pl gn m)"
proof -
  have ch: "m_challenge m = None"
    by (rule no_op_no_challenge [OF sim_cinv [OF assms(1)] assms(2)])
  define m0 where "m0 = m\<lparr>m_retained_failure := None\<rparr>"
  define subj where "subj = (case pl of Plan_Existing sid g \<Rightarrow> Some (sid, g) | Plan_New _ \<Rightarrow> None)"
  define m1 where "m1 = snd (new_operation Op_Reveal Req_Greeter subj m0)"
  define m2 where "m2 = snd (helper_req (m1\<lparr>m_next_challenge := m_next_challenge m1 + 1\<rparr>))"
  define h where "h = \<lparr>c_id = m_next_challenge m1, c_request_id = rid,
     c_helper_req = fst (helper_req (m1\<lparr>m_next_challenge := m_next_challenge m1 + 1\<rparr>)), c_uid = uid,
     c_intent = intent, c_op = fst (new_operation Op_Reveal Req_Greeter subj m0), c_plan = pl, c_first_prompt_sent = False, c_awaiting_response = False\<rparr>"
  have c_op: "c_op h = m_next_op m"
    by (simp add: h_def new_operation_def m0_def)
  have s1: "sim A c m1"
    unfolding m1_def m0_def by (rule sim_new_operation) (use assms ch in auto)
  have o2: "m_op m2 = Some (fresh_operation Op_Reveal Req_Greeter subj m0)"
    by (simp add: m2_def m1_def helper_req_def)
  have s3: "sim A c (op_authorising m2)"
    unfolding op_authorising_def
    by (rule sim_op_set_wait) (use s1 o2 in \<open>auto simp: m2_def\<close>)
  from fresh_authorising [OF o2] obtain x where x: "m_op (op_authorising m2) = Some x" "o_kind x = Op_Reveal"
    "o_tstate x = Tr_WaitingForAuth" "\<not> o_began x" "\<not> o_committed x" "o_id x = m_next_op m"
    by (auto simp: m0_def)
  have f3: "m_challenge (op_authorising m2) = None" "m_selected_uid (op_authorising m2) = Some uid"
    "session_of (op_authorising m2) = session_of m"
    using ch assms(3) by (simp_all add: op_authorising_def m2_def m1_def m0_def helper_req_def session_of_def fun_eq_iff)
  have "plan_of_account (core_of (op_authorising m2)) (chview h)"
    using assms(4) f3(3) by (auto simp: plan_of_account_def plan_ok_def h_def)
  then have "cstep A (core_of (op_authorising m2)) ((core_of (op_authorising m2))\<lparr>k_chal := Some (chview h)\<rparr>)"
    by (intro c_chal_new) (use x f3 c_op in \<open>auto simp: h_def\<close>)
  then have "sim A c ((op_authorising m2)\<lparr>m_challenge := Some h\<rparr>)"
    by (intro sim_step [OF s3]) (simp_all add: core_challenge sim_shape [OF s3])
  then have "sim A c (op_authorising (m2\<lparr>m_challenge := Some h\<rparr>))"
    by (simp add: op_authorising_def op_set_challenge_commute)
  moreover have "\<exists>e1 e2. start_challenge rid uid intent service pl gn m =
      push e2 (push e1 (op_authorising (m2\<lparr>m_challenge := Some h\<rparr>))) \<and> power_call e1 = None \<and> power_call e2 = None"
    unfolding start_challenge_def Let_def split_beta h_def m2_def m1_def m0_def subj_def
    by (rule exI, rule exI, rule conjI, rule refl) simp
  ultimately show ?thesis by auto
qed

lemma sim_greeter_begin_auth:
  assumes "sim A c m" "greeter_begin_auth rid uid intent m = Some m'"
  shows "sim A c m'"
proof -
  define n1 where "n1 = (if is_some_and (m_op m) (\<lambda>o1. o_tstate o1 = Tr_WaitingForAuth)
     then fail_challenge E_Cancelled ''superseded'' m else m)"
  define n where "n = (if is_some_and (m_op n1) (\<lambda>o1. o_kind o1 = Op_Power \<and> \<not> o_began o1 \<and> \<not> o_committed o1
       \<and> is_session_requester (o_requester o1)) then cancel_immediate n1 else n1)"
  have n: "sim A c n" "m_selected_uid n = m_selected_uid m"
    using assms(1) by (auto simp: n_def n1_def intro: sim_fail_challenge sim_cancel_immediate)
  have go: "sim A c k'" if "m_op n = None" "m_selected_uid n = Some uid"
    "auth_plan intent uid n = Some (Inr (pl, g), k)" "select_user uid k = (Inr u, k2)"
    "k' = start_challenge rid uid intent service pl g k2" for pl g k u k2 k' service
  proof -
    from auth_plan_result [OF sim_shape [OF n(1)] that(3)] obtain p
      where k: "k = n\<lparr>m_rng_pos := p\<rparr>" "plan_ok n uid pl" by auto
    with select_user_same [OF that(4)] that(2) have k2: "k2 = n\<lparr>m_rng_pos := p\<rparr>" by simp
    show ?thesis
      unfolding that(5) by (rule sim_start_challenge) (use k k2 n that in \<open>auto simp: plan_ok_def session_of_def\<close>)
  qed
  have plan_err: "sim A c k" if "auth_plan intent uid n = Some (r, k)" for r k
    using auth_plan_result [OF sim_shape [OF n(1)] that] n(1) by auto
  have sel_err: "sim A c k2" if "auth_plan intent uid n = Some (r, k)" "select_user uid k = (r2, k2)" for r k r2 k2
    using sim_select_user [OF plan_err [OF that(1)], of uid] that(2) by simp
  show ?thesis
    using assms n go plan_err sel_err unfolding greeter_begin_auth_def Let_def n1_def [symmetric] n_def [symmetric]
    by (fastforce split: if_splits option.splits prod.splits sum.splits)
qed

section \<open>The conversation\<close>

lemma core_modify_challenge:
  "(\<And>h. chview (f h) = chview h) \<Longrightarrow> core_of (modify_challenge f m) = core_of m"
  by (cases "m_challenge m") (simp_all add: modify_challenge_def core_of_def)

lemma sim_modify_challenge:
  assumes "sim A c m" "\<And>h. chview (f h) = chview h"
  shows "sim A c (modify_challenge f m)"
  by (rule sim_same [OF assms(1) core_modify_challenge [OF assms(2)]])
    (use sim_shape [OF assms(1)] in \<open>simp add: modify_challenge_def\<close>)

lemma chview_same [simp]:
  "chview (h\<lparr>c_first_prompt_sent := a\<rparr>) = chview h" "chview (h\<lparr>c_awaiting_response := b\<rparr>) = chview h"
  by (simp_all add: chview_def)

lemma sim_charge_failure [simp]: "sim A c (charge_failure uid m) = sim A c m"
  by (simp add: charge_failure_def Let_def)

lemma sim_greeter_auth_response: "sim A c m \<Longrightarrow> sim A c (greeter_auth_response cid r m)"
  by (auto simp: greeter_auth_response_def Let_def intro!: sim_modify_challenge split: option.split)

lemma sim_on_auth_prompt: "sim A c m \<Longrightarrow> sim A c (on_auth_prompt req k t m)"
  by (auto simp: on_auth_prompt_def Let_def intro!: sim_modify_challenge split: option.split)

lemma sim_on_auth_timeout: "sim A c m \<Longrightarrow> sim A c (on_auth_timeout cid m)"
  by (simp add: on_auth_timeout_def sim_fail_challenge)

text \<open>The id a new session gets is not in use.\<close>

lemma draw_session_id_fresh: "draw_session_id rng ss pos = Some r \<Longrightarrow> \<not> btm_contains ss (fst r)"
  by (rule draw_session_id.raw_induct [where P = "\<lambda>rng ss pos r. \<not> btm_contains ss (fst r)"])
    (auto split: if_splits)

lemma sim_create_session:
  assumes "sim A c m" "create_session uid gn ticket m = Some (sid, m')" "m_op m = Some x"
    "\<not> authorised (o_tstate x)" "m_challenge m = None" "running_session m uid = None" "L_Auth (o_id x) uid \<in> A"
  shows "sim A c m'" "m_op m' = Some x" "m_challenge m' = None"
    "\<exists>s. session_of m' sid = Some s \<and> s_generation s = gn \<and> s_uid s = uid"
proof -
  from assms(2) obtain p where p: "draw_session_id (m_rng m) (m_sessions m) (m_rng_pos m) = Some (sid, p)"
    by (auto simp: create_session_def alloc_session_id_def Let_def split: option.splits)
  let ?s = "new_session sid gn uid (user_name_of (m\<lparr>m_rng_pos := p\<rparr>) uid) ticket"
  define n where "n = m\<lparr>m_rng_pos := p, m_sessions := btm_insert sid ?s (m_sessions m)\<rparr>"
  have free: "session_of m sid = None"
    using draw_session_id_fresh [OF p] by (simp add: session_of_def btm_contains_def)
  have v: "sview ?s = \<lparr>cs_gen = gn, cs_uid = uid, cs_state = St_Creating\<rparr>" "s_id ?s = sid"
    by (simp_all add: sview_def new_session_def)
  have "core_of n = (core_of m)\<lparr>k_sess := (k_sess (core_of m))(sid \<mapsto> sview ?s)\<rparr>"
    using core_insert [where m = "m\<lparr>m_rng_pos := p\<rparr>" and sid = sid and s = ?s] by (simp add: n_def)
  moreover have "cstep A (core_of m) \<dots>"
    unfolding v by (rule c_create [of _ _ _ "opview x"])
      (use assms free uid_free_of_running [OF sim_shape [OF assms(1)] assms(6)] in auto)
  ultimately have n: "sim A c n"
    by (intro sim_step [OF assms(1)])
      (use sim_shape [OF assms(1)] v in \<open>auto simp: n_def shape_def split: if_splits\<close>)
  have m': "m' = log_msg Log_Info (Some sid) (''session created for uid '' @ show_nat (unat uid))
      (arm_stage_timer sid (push (Fx_Scene (Cmd_RegisterSession sid gn uid [] 0 (pol_host_exe (m_policy n)))) n))"
    using assms(2) p by (simp add: create_session_def alloc_session_id_def Let_def n_def)
  show "sim A c m'"
    unfolding m' using n by (auto intro!: sim_arm_stage_timer)
  have arm: "m_op (arm_stage_timer sid k) = m_op k" "m_challenge (arm_stage_timer sid k) = m_challenge k"
    "map_option sview (session_of (arm_stage_timer sid k) sid) = map_option sview (session_of k sid)" for k
    by (auto simp: arm_stage_timer_def Let_def session_of_modify option.map_comp comp_def split: option.split)
  show "m_op m' = Some x" "m_challenge m' = None"
    using assms(3,5) by (simp_all add: m' arm n_def)
  have "map_option sview (session_of m' sid) = Some (sview ?s)"
    by (simp add: m' arm) (simp add: n_def session_of_def)
  then show "\<exists>s. session_of m' sid = Some s \<and> s_generation s = gn \<and> s_uid s = uid"
    by (auto simp: v) (simp_all add: sview_def)
qed

text \<open>The labelled step of a success: the operation gets its target and leaves the waiting state.\<close>

lemma sim_op_auth:
  assumes "sim A c m" "m_op m = Some x" "m_challenge m = None" "o_kind x = Op_Reveal" "\<not> o_began x"
    "\<not> authorised (o_tstate x)" "session_of m sid = Some s" "s_generation s = gn" "L_Auth (o_id x) (s_uid s) \<in> A"
    and f: "opview (f x) = (opview x)\<lparr>co_session := Some (sid, gn)\<rparr>"
  shows "sim A c (snd (op_set p (Some Tr_WaitingForFrames) (modify_op f m)))"
proof -
  have op: "m_op (modify_op f m) = Some (f x)" using assms(2) by simp
  have core: "core_of (modify_op f m) = put_op ((opview x)\<lparr>co_session := Some (sid, gn)\<rparr>) (core_of m)"
    using assms(2) f by (simp add: core_modify_op)
  have same: "(opview x)\<lparr>co_session := q\<rparr> = (opview x)\<lparr>co_session := q, co_tstate := co_tstate (opview x)\<rparr>" for q
    by simp
  obtain t where t: "t = co_tstate (opview x) \<or> t = Tr_WaitingForFrames"
    and c: "core_of (snd (op_set p (Some Tr_WaitingForFrames) (modify_op f m))) =
      put_op ((opview x)\<lparr>co_session := Some (sid, gn), co_tstate := t\<rparr>) (core_of m)"
  proof (cases "core_of (snd (op_set p (Some Tr_WaitingForFrames) (modify_op f m))) = core_of (modify_op f m)")
    case True
    then show ?thesis
      by (intro that [of "co_tstate (opview x)"]) (simp_all only: core same [symmetric] simp_thms)
  next
    case False
    then show ?thesis
      using core_op_set_raw [OF op, of p "Some Tr_WaitingForFrames"]
      by (intro that [of Tr_WaitingForFrames]) (simp_all add: core f)
  qed
  have "cstep A (core_of m) (core_of (snd (op_set p (Some Tr_WaitingForFrames) (modify_op f m))))"
    unfolding c using c_op_auth [of "core_of m" "opview x" sid "sview s" A t] assms t by simp
  then show ?thesis
    by (rule sim_step [OF assms(1)]) (use sim_shape [OF assms(1)] in \<open>simp add: shape_def\<close>)
qed

lemma opview_target:
  "opview (x\<lparr>o_session := q, o_new_login := b, o_transition := k\<rparr>) = (opview x)\<lparr>co_session := q\<rparr>"
  by (simp add: opview_def)

lemma sim_on_auth_success:
  assumes "sim A c m" "on_auth_success pl uid ticket m = Some m'" "m_op m = Some x" "m_challenge m = None"
    "o_kind x = Op_Reveal" "\<not> o_began x" "\<not> authorised (o_tstate x)" "L_Auth (o_id x) uid \<in> A"
    and new: "\<And>gn. pl = Plan_New gn \<Longrightarrow> running_session m uid = None"
    and old: "\<And>sid gn. pl = Plan_Existing sid gn \<Longrightarrow>
          \<exists>s. session_of m sid = Some s \<and> s_generation s = gn \<and> s_uid s = uid"
  shows "sim A c m'"
proof (cases pl)
  case (Plan_New gn)
  with assms(2) obtain sid n where n: "create_session uid gn (unwrap_or ticket 0) m = Some (sid, n)"
    and m': "m' = snd (op_set (Some Ph_Preparing) (Some Tr_WaitingForFrames)
      (modify_op (\<lambda>x. x\<lparr>o_session := Some (sid, gn), o_new_login := True, o_transition := Kind_NewLoginFade\<rparr>) n))"
    by (auto simp: on_auth_success_def)
  note cs = sim_create_session [OF assms(1) n assms(3,7,4) new [OF Plan_New] assms(8)]
  from cs(4) obtain s where "session_of n sid = Some s" "s_generation s = gn" "s_uid s = uid" by blast
  then show ?thesis
    unfolding m' by (intro sim_op_auth [OF cs(1-3)]) (use assms in \<open>auto simp: opview_target\<close>)
next
  case (Plan_Existing sid gn)
  let ?fl = "is_some_and (session_of m sid) (\<lambda>s. s_state s = St_ReadyBackground)"
  let ?n = "snd (op_set (Some Ph_Preparing) (Some Tr_WaitingForFrames)
     (modify_op (\<lambda>x. x\<lparr>o_session := Some (sid, gn), o_new_login := ?fl,
        o_transition := (if ?fl then Kind_NewLoginFade else Kind_UnlockSlideUp)\<rparr>) m))"
  from old [OF Plan_Existing] obtain s where s: "session_of m sid = Some s" "s_generation s = gn" "s_uid s = uid" by blast
  have "sim A c ?n"
    by (rule sim_op_auth [OF assms(1,3,4), of sid s]) (use assms s in \<open>auto simp: opview_target\<close>)
  with Plan_Existing assms(2) show ?thesis
    by (auto simp: on_auth_success_def Let_def intro!: sim_try_reveal sim_modify_session split: if_splits)
qed

lemma sim_on_auth_done:
  assumes "sim A c m" "on_auth_done req ok code msg ticket m = Some m'"
    and A: "\<And>h. ok \<Longrightarrow> m_challenge m = Some h \<Longrightarrow> c_helper_req h = req \<Longrightarrow> L_Auth (c_op h) (c_uid h) \<in> A"
  shows "sim A c m'"
proof (cases "opt_filter (\<lambda>h. c_helper_req h = req) (m_challenge m)")
  case None
  with assms show ?thesis by (auto simp: on_auth_done_def)
next
  case (Some h)
  then have h: "m_challenge m = Some h" "c_helper_req h = req" by auto
  obtain x where x: "m_op m = Some x" "o_id x = c_op h" "o_kind x = Op_Reveal"
    "o_tstate x = Tr_WaitingForAuth" "\<not> o_began x"
    by (rule challenge_op [OF sim_cinv [OF assms(1)] h(1)])
  have plan: "plan_of_account (core_of m) (chview h)"
    using sim_cinv [OF assms(1)] h(1) by (auto simp: cinv_def inv_challenge_def)
  define n where "n = push (Fx_CancelTimer (Tmr_Auth (c_id h))) (m\<lparr>m_challenge := None\<rparr>)"
  have n: "sim A c n" "m_op n = Some x" "m_challenge n = None" "session_of n = session_of m"
    using sim_drop_challenge [OF assms(1)] x(1) by (simp_all add: n_def session_of_def fun_eq_iff)
  show ?thesis
  proof (cases "ok \<and> auth_still_ok h ticket (n\<lparr>m_failures := btm_remove (c_uid h) (m_failures n)\<rparr>)")
    case False
    with assms(2) Some n show ?thesis
      by (auto simp: on_auth_done_def Let_def n_def intro!: sim_op_end_failed split: if_splits)
  next
    case True
    define k where "k = push (Fx_Greeter (SMsg_AuthResult (c_id h) True None []))
       (n\<lparr>m_failures := btm_remove (c_uid h) (m_failures n)\<rparr>)"
    have k: "sim A c k" "m_op k = Some x" "m_challenge k = None" "session_of k = session_of m"
      "running_session k = running_session (n\<lparr>m_failures := btm_remove (c_uid h) (m_failures n)\<rparr>)"
      using n by (simp_all add: k_def session_of_def running_session_def fun_eq_iff)
    have ok: "on_auth_success (c_plan h) (c_uid h) ticket k = Some m'"
      using True assms(2) Some by (simp add: on_auth_done_def Let_def n_def k_def)
    show ?thesis
    proof (rule sim_on_auth_success [OF k(1) ok k(2,3) x(3,5)])
      show "\<not> authorised (o_tstate x)" "L_Auth (o_id x) (c_uid h) \<in> A"
        using x True A h by auto
      show "running_session k (c_uid h) = None" if "c_plan h = Plan_New gn" for gn
        using True that k(5) by (simp add: auth_still_ok_def)
      show "\<exists>s. session_of k sid = Some s \<and> s_generation s = gn \<and> s_uid s = c_uid h"
        if "c_plan h = Plan_Existing sid gn" for sid gn
        using True that plan k(4) n(4)
        by (auto simp: auth_still_ok_def plan_of_account_def is_some_and_iff session_of_def fun_eq_iff)
    qed
  qed
qed

section \<open>The control connection\<close>

lemma sim_modify_greeter [simp]: "sim A c (modify_greeter f m) = sim A c m"
  by (simp add: modify_greeter_def)

lemma sim_on_greeter_peer [simp]: "sim A c (on_greeter_peer conn uid pid m) = sim A c m"
  by (simp add: on_greeter_peer_def Let_def)

lemma sim_on_greeter_disconnected: "sim A c m \<Longrightarrow> sim A c (on_greeter_disconnected conn m)"
  by (auto simp: on_greeter_disconnected_def Let_def intro!: sim_fail_challenge)

lemma sim_greeter_hello [simp]: "sim A c (greeter_hello v m) = sim A c m"
  by (simp add: greeter_hello_def Let_def split: option.split)

lemma sim_greeter_power_request: "sim A c m \<Longrightarrow> sim A c (greeter_power_request rid a m)"
  by (auto simp: greeter_power_request_def intro!: sim_report_error sim_request_power)

lemma sim_on_greeter_message:
  assumes "sim A c m" "on_greeter_message conn msg m = Some m'"
  shows "sim A c m'"
  using assms
  by (auto simp: on_greeter_message_def
      intro!: sim_greeter_select_user sim_greeter_auth_response sim_fail_challenge sim_greeter_power_request
        sim_report_error sim_cancel_operation
      dest: sim_greeter_begin_auth
      split: if_splits client_message.splits)

end
