(* ===== verification/Refine_Manager.thy ===== *)
theory Refine_Manager
  imports Refine_Auth
begin

text \<open>
  D-Bus, scene events, timers, publication and finally \<^verbatim>\<open>handle\<close> keep the simulation. The labels an
  input may use are computed by \<^verbatim>\<open>labels\<close>; \<^verbatim>\<open>env_ok\<close> is what the driver guarantees about the two
  inputs it feeds itself.
\<close>

section \<open>D-Bus\<close>

lemma sim_reply_operation [simp]: "snd (reply_operation r) = snd r"
  by (simp add: reply_operation_def split: prod.split sum.split)

lemma sim_reply_done [simp]: "snd (reply_done r) = snd r"
  by (simp add: reply_done_def split: prod.split sum.split)

lemma sim_on_own_session:
  "sim A c m \<Longrightarrow> (\<And>req sid. sim A c (snd (f req sid m))) \<Longrightarrow> sim A c (snd (on_own_session r f m))"
  by (auto simp: on_own_session_def split: sum.split prod.split)

lemma sim_dbus_power: "sim A c m \<Longrightarrow> sim A c (snd (dbus_power who cal a m))"
  by (auto simp: dbus_power_def intro: sim_request_power split: principal.split)

lemma sim_dbus_publish: "sim A c m \<Longrightarrow> sim A c (snd (dbus_publish call who req m))"
  by (auto simp: dbus_publish_def Let_def split: sum.split option.split)

lemma sim_dbus_call:
  assumes "sim A c m"
  shows "sim A c (snd (dbus_call call cal who mth m))"
proof -
  have lock: "sim A c (snd (request_lock req sid k m))" if "k = Op_Lock \<or> k = Op_SwitchUser" for req sid k
    by (rule sim_request_lock [OF assms]) (use that in \<open>simp add: is_lock_kind_def\<close>)
  have req: "sim A c (snd (on_own_session r f m))" if "\<And>req sid. sim A c (snd (f req sid m))" for r f
    by (rule sim_on_own_session [OF assms]) (rule that)
  show ?thesis
    using assms sim_dbus_publish [OF assms, of call who] sim_dbus_power [OF assms] sim_select_user [OF assms]
      sim_cancel_operation [OF assms] sim_request_logout [OF assms]
    by (cases mth) (auto simp: dbus_call_def Let_def split: sum.split intro!: req lock)
qed

lemma sim_on_dbus: "sim A c m \<Longrightarrow> sim A c (on_dbus call cal mth m)"
  using sim_dbus_call [of A c m call cal "principal_of m cal" mth]
  by (auto simp: on_dbus_def Let_def split: prod.split option.split sum.split)

lemma sim_on_appearance_published [simp]: "sim A c (on_appearance_published call uid res m) = sim A c m"
  by (auto simp: on_appearance_published_def Let_def split: sum.split option.split)

section \<open>Start, accounts, recovery\<close>

lemma sim_on_start [simp]: "sim A c (on_start p m) = sim A c m"
  by (simp add: on_start_def)

lemma btm_get_collect:
  "btm_get (fold (\<lambda>x. btm_insert (k x) (v x)) xs m) u \<noteq> None \<longleftrightarrow> u \<in> k ` set xs \<or> btm_get m u \<noteq> None"
  by (induction xs arbitrary: m) auto

lemma sim_on_accounts:
  assumes "sim A c m" "\<And>h. m_challenge m = Some h \<Longrightarrow> c_uid h \<in> acc_uid ` set accs"
  shows "sim A c (on_accounts accs m)"
proof (cases "m_challenge m")
  case None
  with assms(1) show ?thesis
    by (auto simp: on_accounts_def Let_def intro!: sim_select)
next
  case (Some h)
  have "m_selected_uid m = Some (c_uid h)"
    by (rule challenge_op [OF sim_cinv [OF assms(1)] Some])
  with Some assms show ?thesis
    using btm_get_collect [of acc_uid "\<lambda>a. \<lparr>ue_profile = profile_from a\<rparr>" accs "[]" "c_uid h"]
    by (auto simp: on_accounts_def Let_def known_uid_def btm_contains_def)
qed

lemma sim_recover_one:
  assumes "sim A c m" "m_op m = None" "L_Recover \<in> A"
  shows "sim A c (recover_one r m) \<and> m_op (recover_one r m) = None"
  using assms
  by (auto simp: recover_one_def Let_def btm_contains_def session_of_def intro!: sim_recover_session)
    (simp_all add: recover_session_def Let_def)

lemma sim_on_recovered:
  assumes "sim A c m" "m_op m = None" "L_Recover \<in> A"
  shows "sim A c (on_recovered rs m)"
  using assms unfolding on_recovered_def
  by (induction rs arbitrary: m) (simp_all add: sim_recover_one)

section \<open>The greeter process, the helper and scene events\<close>

lemma sim_maybe_spawn_greeter: "sim A c m \<Longrightarrow> maybe_spawn_greeter m = Some m' \<Longrightarrow> sim A c m'"
  by (auto simp: maybe_spawn_greeter_def helper_req_def Let_def dest!: alloc_generation_result
      split: if_splits option.splits)

lemma sim_drop_greeter_input: "sim A c m \<Longrightarrow> sim A c (drop_greeter_input m)"
  by (auto simp: drop_greeter_input_def intro!: sim_input)

lemma sim_greeter_lost: "sim A c m \<Longrightarrow> sim A c (greeter_lost m)"
  by (auto simp: greeter_lost_def Let_def intro!: sim_fail_challenge sim_drop_greeter_input)

lemma sim_on_helper_greeter_spawned [simp]: "sim A c (on_helper_greeter_spawned req gn pid m) = sim A c m"
  by (simp add: on_helper_greeter_spawned_def)

lemma sim_fold_closes [simp]:
  "sim A c (fold (\<lambda>(sid, gn). push (Fx_Helper (HReq_CloseSession sid gn g))) xs m) = sim A c m"
  by (induction xs arbitrary: m) (auto split: prod.split)

lemma sim_on_helper_connected: "sim A c m \<Longrightarrow> on_helper_connected m = Some m' \<Longrightarrow> sim A c m'"
  by (auto simp: on_helper_connected_def Let_def elim!: sim_maybe_spawn_greeter [rotated] split: if_splits)

lemma sim_on_helper_lost: "sim A c m \<Longrightarrow> sim A c (on_helper_lost m)"
  by (auto simp: on_helper_lost_def Let_def split: prod.split intro!: sim_fold sim_fail_launch sim_fail_challenge)

lemma sim_update_outputs: "sim A c m \<Longrightarrow> sim A c (update_outputs outs m)"
  by (auto simp: update_outputs_def intro!: sim_on_outputs_changed)

lemma sim_on_greeter_connected: "sim A c m \<Longrightarrow> sim A c (on_greeter_connected gn pid m)"
  by (auto simp: on_greeter_connected_def intro!: sim_try_reveal)

lemma sim_on_greeter_gone: "sim A c m \<Longrightarrow> sim A c (on_greeter_gone gn m)"
  by (auto simp: on_greeter_gone_def intro!: sim_greeter_lost sim_drop_greeter_input)

lemma sim_on_input_owner_changed: "sim A c m \<Longrightarrow> sim A c (on_input_owner_changed w m)"
  by (auto simp: on_input_owner_changed_def owner_legit_def intro!: sim_input)

section \<open>Publication\<close>

lemma sim_modify_published [simp]: "sim A c (modify_published f m) = sim A c m"
  by (simp add: modify_published_def)

lemma sim_fold_publish:
  "(\<And>x m. sim A c (f x m) = sim A c m) \<Longrightarrow> sim A c (fold f xs m) = sim A c m"
  by (induction xs arbitrary: m) auto

lemma sim_settle:
  assumes "sim A c m"
  shows "sim A c (settle m)"
proof -
  have inp: "sim A c (settle_input m)"
    using assms by (auto simp: settle_input_def intro!: sim_set_input_owner)
  have persist: "sim A c (settle_persist n) = sim A c n" for n
    by (simp add: settle_persist_def Let_def)
  have sess: "sim A c (settle_sessions n) = sim A c n" for n
    by (simp add: settle_sessions_def Let_def)
  have sel: "sim A c (settle_selected n) = sim A c n" for n
    by (simp add: settle_selected_def Let_def)
  have fg: "sim A c (settle_foreground n) = sim A c n" for n
    by (simp add: settle_foreground_def Let_def)
  have locks: "sim A c (settle_locks n) = sim A c n" for n
    unfolding settle_locks_def Let_def sim_modify_published
    by (subst sim_fold_publish, simp split: prod.split)+ simp
  have ready: "sim A c (settle_ready n) = sim A c n" for n
    unfolding settle_ready_def Let_def sim_modify_published
    by (subst sim_fold_publish) (simp_all split: prod.split)
  have progress: "sim A c (settle_progress n) = sim A c n" for n
    by (simp add: settle_progress_def Let_def split: option.split)
  have snap: "sim A c (settle_snapshot n) = sim A c n" for n
    by (simp add: settle_snapshot_def Let_def)
  show ?thesis
    unfolding settle_def Let_def by (simp add: persist sess sel fg locks ready progress snap inp)
qed

section \<open>Every input\<close>

text \<open>The labels that one input can use in a given state.\<close>

definition unblocked :: "power_action \<Rightarrow> inhibitor list \<Rightarrow> bool" where
  "unblocked a xs \<longleftrightarrow> filter (is_blocker (if a = Pw_Suspend then ''sleep'' else ''shutdown'')) xs = []"

definition labels :: "input \<Rightarrow> manager \<Rightarrow> clabel set" where
  "labels inp m =
     (case inp of
        In_Helper (HEv_AuthDone req ok _ _ _) \<Rightarrow>
          (case m_challenge m of
             Some h \<Rightarrow> if ok \<and> c_helper_req h = req then {L_Auth (c_op h) (c_uid h)} else {}
           | None \<Rightarrow> {})
      | In_Recovered _ \<Rightarrow> {L_Recover}
      | In_Scene (Scn_TransitionPhase oid ph) \<Rightarrow>
          (case m_op m of
             Some x \<Rightarrow>
               if (ph = Ev_Committed \<or> ph = Ev_Completed) \<and> o_id x = oid \<and> o_began x \<and> \<not> o_committed x
               then commit_labels x else {}
           | None \<Rightarrow> {})
      | In_PolkitResult oid ok \<Rightarrow> if ok then {L_Polkit oid} else {}
      | In_InhibitorsResult oid (Inr xs) \<Rightarrow>
          (case m_op m of
             Some x \<Rightarrow>
               let a = unwrap_or (o_action x) Pw_PowerOff in
               if o_id x = oid \<and> unblocked a xs then {L_Inhib oid a} else {}
           | None \<Rightarrow> {})
      | _ \<Rightarrow> {})"

text \<open>The driver feeds \<^verbatim>\<open>Recovered\<close> before anything else can have started an operation, and \<^verbatim>\<open>Accounts\<close>
  never drops an account in the middle of its conversation (\<^verbatim>\<open>runtime/driver.rs\<close> loads the accounts
  once, before the first conversation can start).\<close>

definition env_ok :: "input \<Rightarrow> manager \<Rightarrow> bool" where
  "env_ok inp m \<longleftrightarrow>
     (case inp of
        In_Accounts accs \<Rightarrow> is_none_or (m_challenge m) (\<lambda>h. c_uid h \<in> acc_uid ` set accs)
      | In_Recovered _ \<Rightarrow> m_op m = None
      | _ \<Rightarrow> True)"

lemma sim_on_scene:
  assumes "sim A c m" "on_scene e m = Some m'" "labels (In_Scene e) m \<subseteq> A"
  shows "sim A c m'"
proof (cases "\<exists>oid ph. e = Scn_TransitionPhase oid ph")
  case True
  then obtain oid ph where e: "e = Scn_TransitionPhase oid ph" by blast
  have "sim A c (on_transition_phase oid ph m)"
    by (rule sim_on_transition_phase [OF assms(1)]) (use assms(3) e in \<open>auto simp: labels_def\<close>)
  with e assms(2) show ?thesis by (simp add: on_scene_def)
next
  case False
  with assms(1,2) show ?thesis
    by (cases e) (auto simp: on_scene_def elim!: sim_maybe_spawn_greeter [rotated]
      intro!: sim_update_outputs sim_on_greeter_connected sim_on_greeter_gone sim_on_socket_ready
        sim_on_session_connected sim_on_surfaces sim_on_report sim_on_session_gone sim_on_protected
        sim_on_input_owner_changed)
qed

lemma sim_on_timer:
  assumes "sim A c m" "on_timer t m = Some m'"
  shows "sim A c m'"
  using assms
  by (cases t) (auto simp: on_timer_def elim!: sim_maybe_spawn_greeter [rotated]
      intro!: sim_on_stage_timeout sim_on_protect_timeout sim_on_frames_timeout sim_on_auth_timeout
        sim_on_close_timeout sim_on_transition_timeout sim_on_checks_timeout sim_on_power_timeout
        sim_on_recovery_timeout)

lemma sim_on_helper:
  assumes "sim A c m" "on_helper e m = Some m'" "labels (In_Helper e) m \<subseteq> A"
  shows "sim A c m'"
proof (cases "\<exists>req ok code msg ticket. e = HEv_AuthDone req ok code msg ticket")
  case True
  then obtain req ok code msg ticket where e: "e = HEv_AuthDone req ok code msg ticket" by blast
  with assms(2) have "on_auth_done req ok code msg ticket m = Some m'" by (simp add: on_helper_def)
  then show ?thesis
    by (rule sim_on_auth_done [OF assms(1)]) (use assms(3) e in \<open>auto simp: labels_def split: if_splits\<close>)
next
  case False
  with assms(1,2) show ?thesis
    by (cases e) (auto simp: on_helper_def intro!: sim_on_auth_prompt sim_on_session_opened
        sim_on_session_failed sim_on_session_exited sim_greeter_lost)
qed

lemma sim_dispatch:
  assumes "sim A c m" "dispatch inp m = Some m'" "labels inp m \<subseteq> A" "env_ok inp m"
  shows "sim A c m'"
proof (cases inp)
  case (In_Scene e)
  with assms show ?thesis
    by (auto simp: dispatch_def intro: sim_on_scene)
next
  case (In_InhibitorsResult oid res)
  have "sim A c (on_inhibitors oid res m)"
    by (rule sim_on_inhibitors [OF assms(1)])
      (use assms(3) In_InhibitorsResult in \<open>auto simp: labels_def unblocked_def Let_def split: sum.splits\<close>)
  with assms(2) In_InhibitorsResult show ?thesis by (auto simp: dispatch_def)
next
  case (In_PolkitResult oid ok)
  have "sim A c (on_polkit oid ok m)"
    by (rule sim_on_polkit [OF assms(1)]) (use assms(3) In_PolkitResult in \<open>auto simp: labels_def\<close>)
  with assms(2) In_PolkitResult show ?thesis by (auto simp: dispatch_def)
next
  case (In_Recovered rs)
  with assms show ?thesis
    by (auto simp: dispatch_def labels_def env_ok_def intro!: sim_on_recovered)
next
  case (In_Accounts accs)
  with assms show ?thesis
    by (auto simp: dispatch_def env_ok_def is_none_or_iff intro!: sim_on_accounts)
next
  case (In_Helper e)
  with assms show ?thesis
    by (auto simp: dispatch_def intro: sim_on_helper)
qed (use assms in \<open>auto simp: dispatch_def intro: sim_on_helper_connected sim_on_timer sim_on_greeter_message
      intro!: sim_on_helper_lost sim_on_greeter_disconnected sim_on_dbus sim_on_power_result
        sim_on_prepare_for_sleep\<close>)

text \<open>One \<^verbatim>\<open>handle\<close> is a sequence of steps of the security kernel from the state with no effects.\<close>

lemma sim_handle:
  assumes "sim A c (m\<lparr>m_now := Some now, m_fx := []\<rparr>)" "handle now inp m = Some m'"
    "labels inp m \<subseteq> A" "env_ok inp m"
  shows "sim A c m'"
proof -
  from assms(2) obtain k where k: "dispatch inp (m\<lparr>m_now := Some now, m_fx := []\<rparr>) = Some k" "m' = settle k"
    by (auto simp: handle_def)
  have "labels inp (m\<lparr>m_now := Some now, m_fx := []\<rparr>) = labels inp m"
    by (auto simp: labels_def unblocked_def split: input.split helper_event.split scene_event.split sum.split)
  moreover have "env_ok inp (m\<lparr>m_now := Some now, m_fx := []\<rparr>) = env_ok inp m"
    by (simp add: env_ok_def split: input.split)
  ultimately have "sim A c k"
    using sim_dispatch [OF assms(1) k(1)] assms(3,4) by simp
  then show ?thesis unfolding k(2) by (rule sim_settle)
qed

end
