(* ===== verification/Scenario.thy ===== *)
theory Scenario
  imports Core_Manager
begin

text \<open>
  A concrete seat on which the properties are exercised: the greeter account 900, the account
  1000 and one display, driven through the inputs that the running system sends.
\<close>

definition demo_policy :: policy where
  "demo_policy = policy_default\<lparr>pol_greeter_uid := Some 900\<rparr>"

text \<open>A generator that counts up from 1.\<close>

definition demo_rng :: "nat \<Rightarrow> u64" where
  "demo_rng n = of_nat n + 1"

definition demo_output :: output_info where
  "demo_output =
     \<lparr>out_name = ''A'', out_x = 0, out_y = 0, out_width = 1920, out_height = 1080,
      out_scale_120 = 120, out_refresh_mhz = 60000, out_transform = 0\<rparr>"

definition demo_account :: "u32 \<Rightarrow> account_entry" where
  "demo_account uid =
     \<lparr>acc_uid = uid, acc_user_name = ''u'', acc_display_name = ''U'', acc_published = None\<rparr>"

definition demo_persisted :: persisted where
  "demo_persisted = \<lparr>per_version = 1, per_last_used_uid = None, per_sessions = []\<rparr>"

definition demo_sid :: session_id where
  "demo_sid = ''s00000003''"

definition demo_evidence :: "u64 \<Rightarrow> surface_evidence list" where
  "demo_evidence n =
     [\<lparr>ev_output = ''A'', ev_configure_serial = 1, ev_acked = True, ev_presented_frames = n\<rparr>]"

text \<open>Boot to a greeter that is connected, registered and has said hello.\<close>

definition boot_inputs :: "input list" where
  "boot_inputs =
     [In_Start demo_persisted, In_Accounts [demo_account 1000, demo_account 1001],
      In_HelperConnected, In_Scene (Scn_Ready [demo_output]),
      In_Helper (HEv_GreeterSpawned 1 1 777), In_Scene (Scn_GreeterConnected 1 777),
      In_GreeterPeer 5 900 777, In_Greeter 5 (CMsg_Hello 1)]"

text \<open>A login of account 1000, up to the successful answer of PAM.\<close>

definition begin_inputs :: "input list" where
  "begin_inputs =
     [In_Greeter 5 (CMsg_BeginAuth 1 1000 Intent_Login), In_Helper (HEv_AuthPrompt 2 Pam_EchoOff ''p''),
      In_Greeter 5 (CMsg_AuthResponse 1 ''secret'')]"

definition auth_inputs :: "input list" where
  "auth_inputs = [In_Helper (HEv_AuthDone 2 True None [] (Some 77))]"

text \<open>The launch of the session, up to the frames that let the reveal begin.\<close>

definition launch_inputs :: "input list" where
  "launch_inputs =
     [In_Scene (Scn_SessionSocketReady demo_sid 2 ''/s''),
      In_Helper (HEv_SessionOpened 3 demo_sid 2 4000 4001 ''/scope'' (Some ''c1'')),
      In_Scene (Scn_SessionConnected demo_sid 2 4000),
      In_Scene (Scn_SessionReport demo_sid 2 Rep_GnoblinReady),
      In_Scene (Scn_SessionReport demo_sid 2 (Rep_OutputConfigured ''A'')),
      In_Scene (Scn_SessionSurfaces demo_sid 2 (demo_evidence 1)),
      In_Scene (Scn_SessionReport demo_sid 2 Rep_BinguxLaunched),
      In_Scene (Scn_SessionReport demo_sid 2 (Rep_SurfacesMapped ''A'' 2 2)),
      In_Scene (Scn_SessionReport demo_sid 2 Rep_DesktopReady),
      In_Scene (Scn_SessionSurfaces demo_sid 2 (demo_evidence 2))]"

definition reveal_inputs :: "input list" where
  "reveal_inputs = [In_Scene (Scn_TransitionPhase 1 Ev_Committed), In_Scene (Scn_TransitionPhase 1 Ev_Completed)]"

text \<open>A shorter way to a desktop: a session of account 1000 survives a restart of the manager, the
  greeter comes up, and the account authenticates to resume it.\<close>

definition demo_recovered :: recovered_session where
  "demo_recovered =
     \<lparr>rec_session = \<lparr>ps_id = ''s1'', ps_generation = 7, ps_uid = 1000, ps_user_name = ''u'',
                     ps_scope = ''/scope'', ps_host_pid = 4000\<rparr>, rec_alive = True\<rparr>"

definition greeter_inputs :: "input list" where
  "greeter_inputs =
     [In_Start demo_persisted, In_Recovered [demo_recovered], In_Accounts [demo_account 1000],
      In_HelperConnected, In_Scene (Scn_Ready [demo_output]),
      In_Helper (HEv_GreeterSpawned 1 1 777), In_Scene (Scn_GreeterConnected 1 777),
      In_GreeterPeer 5 900 777, In_Greeter 5 (CMsg_Hello 1)]"

definition unlock_inputs :: "input list" where
  "unlock_inputs =
     [In_Greeter 5 (CMsg_BeginAuth 1 1000 Intent_Switch), In_Helper (HEv_AuthDone 2 True None [] None),
      In_Scene (Scn_SessionConnected ''s1'' 7 4000), In_Scene (Scn_SessionSurfaces ''s1'' 7 (demo_evidence 3))]"

definition commit_input :: input where
  "commit_input = In_Scene (Scn_TransitionPhase 1 Ev_Committed)"

definition timed :: "input list \<Rightarrow> (instant \<times> input) list" where
  "timed xs = map (Pair 0) xs"

definition demo_start :: manager where
  "demo_start = manager_new demo_policy demo_rng"

definition demo_run :: "input list \<Rightarrow> manager" where
  "demo_run xs = the (handle_all (timed xs) demo_start)"

end
