(* ===== verification/Security.thy ===== *)
theory Security
  imports Refine_Manager Scenario
begin

text \<open>
  The security theorems of the manager: its states and inputs as a transition system, the predicate
  it checks in debug builds as an invariant of every reachable state, what has to have happened
  before a desktop is revealed, and what before the machine is powered down.
\<close>

section \<open>What steps of the kernel can change\<close>

lemma cstep_foreground_origin:
  assumes "cstep A c c'" "k_sess c' sid = Some s'" "cs_state s' = St_Foreground"
  shows "(\<exists>s. k_sess c sid = Some s \<and> cs_state s = St_Foreground \<and> cs_gen s = cs_gen s')
    \<or> (\<exists>oid. L_Reveal oid sid (cs_gen s') \<in> A)"
  using assms
  by (cases rule: cstep.cases) (auto simp: put_state_def dest: launch_states_not split: if_splits)

lemma csteps_foreground_origin:
  assumes "(cstep A)\<^sup>*\<^sup>* c c'" "k_sess c' sid = Some s'" "cs_state s' = St_Foreground" "\<not> in_state c sid St_Foreground"
  shows "\<exists>oid. L_Reveal oid sid (cs_gen s') \<in> A"
  using assms
proof (induction arbitrary: s' rule: rtranclp_induct)
  case base
  then show ?case by (simp add: in_state_def)
next
  case (step y z)
  from cstep_foreground_origin [OF step.hyps(2) step.prems(1,2)] step.IH step.prems(3)
  show ?case by metis
qed

lemma csteps_sessions_origin:
  assumes "(cstep A)\<^sup>*\<^sup>* c c'" "L_Recover \<notin> A" "\<And>oid u. L_Auth oid u \<notin> A" "k_sess c' sid = Some s'"
  shows "\<exists>s. k_sess c sid = Some s \<and> cs_gen s = cs_gen s' \<and> cs_uid s = cs_uid s'"
  using assms
proof (induction arbitrary: s' rule: rtranclp_induct)
  case base
  then show ?case by blast
next
  case (step y z)
  have "\<exists>s. k_sess y sid = Some s \<and> cs_gen s = cs_gen s' \<and> cs_uid s = cs_uid s'"
    using step.hyps(2) step.prems
    by (cases rule: cstep.cases) (auto simp: put_state_def split: if_splits)
  then show ?case using step.IH step.prems(1,2) by metis
qed

lemma csteps_calls_origin:
  "(cstep A)\<^sup>*\<^sup>* c c' \<Longrightarrow> (oid, a) \<in> set (k_calls c') \<Longrightarrow> (oid, a) \<in> set (k_calls c) \<or> L_Call oid a \<in> A"
proof (induction rule: rtranclp_induct)
  case (step y z)
  from step.hyps(2) step.prems have "(oid, a) \<in> set (k_calls y) \<or> L_Call oid a \<in> A"
    by (cases rule: cstep.cases) auto
  then show ?case using step.IH by blast
qed blast

text \<open>A reveal past its authentication, with the session it targets and that session's account.\<close>

definition auth_target :: "core \<Rightarrow> operation_id \<Rightarrow> session_id \<Rightarrow> u32 \<Rightarrow> bool" where
  "auth_target c oid sid u \<longleftrightarrow>
     (\<exists>x s. k_op c = Some x \<and> co_kind x = Op_Reveal \<and> authorised (co_tstate x) \<and> co_id x = oid \<and>
        co_session x = Some (sid, cs_gen s) \<and> k_sess c sid = Some s \<and> cs_uid s = u)"

lemma cstep_auth_origin:
  assumes "cstep A c c'" "cinv c" "auth_target c' oid sid u"
  shows "auth_target c oid sid u \<or> L_Auth oid u \<in> A"
  using assms
  by (cases rule: cstep.cases)
    (auto simp: auth_target_def put_state_def cinv_def inv_op_def split: if_splits)

lemma csteps_auth_origin:
  assumes "(cstep A)\<^sup>*\<^sup>* c c'" "cinv c" "auth_target c' oid sid u"
  shows "auth_target c oid sid u \<or> L_Auth oid u \<in> A"
  using assms
proof (induction rule: rtranclp_induct)
  case (step y z)
  then show ?case
    using cstep_auth_origin csteps_cinv by blast
qed blast

text \<open>A power operation that has one of its two clearances.\<close>

definition polkit_cleared :: "core \<Rightarrow> operation_id \<Rightarrow> bool" where
  "polkit_cleared c oid \<longleftrightarrow> (\<exists>x. k_op c = Some x \<and> co_id x = oid \<and> co_hosted x \<and> co_polkit x)"

definition inhib_cleared :: "core \<Rightarrow> operation_id \<Rightarrow> power_action \<Rightarrow> bool" where
  "inhib_cleared c oid a \<longleftrightarrow>
     (\<exists>x. k_op c = Some x \<and> co_id x = oid \<and> co_inhib x \<and> unwrap_or (co_action x) Pw_PowerOff = a)"

lemma csteps_polkit_origin:
  "(cstep A)\<^sup>*\<^sup>* c c' \<Longrightarrow> polkit_cleared c' oid \<Longrightarrow> polkit_cleared c oid \<or> L_Polkit oid \<in> A"
proof (induction rule: rtranclp_induct)
  case (step y z)
  from step.hyps(2) step.prems have "polkit_cleared y oid \<or> L_Polkit oid \<in> A"
    by (cases rule: cstep.cases) (auto simp: polkit_cleared_def)
  then show ?case using step.IH by blast
qed blast

lemma csteps_inhib_origin:
  "(cstep A)\<^sup>*\<^sup>* c c' \<Longrightarrow> inhib_cleared c' oid a \<Longrightarrow> inhib_cleared c oid a \<or> L_Inhib oid a \<in> A"
proof (induction rule: rtranclp_induct)
  case (step y z)
  from step.hyps(2) step.prems have "inhib_cleared y oid a \<or> L_Inhib oid a \<in> A"
    by (cases rule: cstep.cases) (auto simp: inhib_cleared_def)
  then show ?case using step.IH by blast
qed blast

section \<open>The manager as a transition system\<close>

definition bsm_init :: "manager \<Rightarrow> bool" where
  "bsm_init m \<longleftrightarrow> (\<exists>pol rng. m = manager_new pol rng)"

definition bsm_step :: "manager \<Rightarrow> instant \<times> input \<Rightarrow> manager \<Rightarrow> bool" where
  "bsm_step m i m' \<longleftrightarrow> env_ok (snd i) m \<and> handle (fst i) (snd i) m = Some m'"

definition bsm_inv :: "manager \<Rightarrow> bool" where
  "bsm_inv m \<longleftrightarrow> cinv (core_of m) \<and> shape m"

lemma core_fresh_fx: "core_of (m\<lparr>m_now := now, m_fx := []\<rparr>) = (core_of m)\<lparr>k_calls := []\<rparr>"
  by (simp add: core_of_def List.map_filter_def)

lemma cinv_calls [simp]: "cinv (c\<lparr>k_calls := l\<rparr>) = cinv c"
  by (simp add: cinv_def cinv_defs no_foreground_def plan_of_account_def)

lemma handle_kernel:
  assumes "bsm_inv m" "env_ok inp m" "handle now inp m = Some m'"
  shows "(cstep (labels inp m))\<^sup>*\<^sup>* ((core_of m)\<lparr>k_calls := []\<rparr>) (core_of m')" "bsm_inv m'"
proof -
  let ?m0 = "m\<lparr>m_now := Some now, m_fx := []\<rparr>"
  have "cinv (core_of ?m0)" "shape ?m0"
    using assms(1) unfolding core_fresh_fx by (simp_all add: bsm_inv_def shape_def)
  from sim_handle [OF sim_refl [OF this] assms(3) subset_refl assms(2)]
  have s: "sim (labels inp m) (core_of ?m0) m'" .
  then show "(cstep (labels inp m))\<^sup>*\<^sup>* ((core_of m)\<lparr>k_calls := []\<rparr>) (core_of m')"
    unfolding core_fresh_fx by (simp add: sim_def)
  from s show "bsm_inv m'"
    by (simp add: bsm_inv_def sim_cinv sim_shape)
qed

lemma bsm_inv_new: "bsm_inv (manager_new pol rng)"
  by (simp add: bsm_inv_def shape_def manager_new_def core_of_def cinv_def cinv_defs in_state_def)

interpretation bsm: invariant_system bsm_init bsm_step bsm_inv
  by unfold_locales (auto simp: bsm_init_def bsm_step_def bsm_inv_new dest: handle_kernel(2))

section \<open>The checked predicate\<close>

lemma and_then_ok [simp]: "and_then a b = Inr u \<longleftrightarrow> a = Inr () \<and> b = Inr ()"
  by (cases a; cases b) (simp_all add: and_then_def)

lemma check_protection_ok:
  "check_protection prot ss = Inr () \<longleftrightarrow>
     (\<forall>s \<in> set ss. (s_state s = St_LockedBackground \<or> s_state s = St_LockedGreeterForeground \<longrightarrow> s_id s \<in> prot)
        \<and> (s_state s = St_Foreground \<longrightarrow> s_id s \<notin> prot))"
  by (induction prot ss rule: check_protection.induct) auto

lemma check_one_per_uid_ok:
  "check_one_per_uid seen ss = Inr () \<longleftrightarrow> distinct (map s_uid ss) \<and> s_uid ` set ss \<inter> seen = {}"
  by (induction seen ss rule: check_one_per_uid.induct) auto

lemma at_most_one_value:
  assumes "distinct (map fst xs)" "\<And>k v. (k, v) \<in> set xs \<Longrightarrow> P v \<Longrightarrow> k = key"
  shows "length (filter P (map snd xs)) \<le> 1"
  using assms
proof (induction xs)
  case (Cons e xs)
  show ?case
  proof (cases "P (snd e)")
    case True
    have "\<not> P v" if kv: "(k, v) \<in> set xs" for k v
    proof
      assume "P v"
      then have "k = key" using Cons.prems(2) [of k v] kv by simp
      moreover have "fst e = key" using Cons.prems(2) [of "fst e" "snd e"] True by simp
      ultimately have "fst e \<in> fst ` set xs" using imageI [OF kv, of fst] by simp
      with Cons.prems(1) show False by simp
    qed
    then have "filter P (map snd xs) = []" by (auto simp: filter_empty_conv)
    then show ?thesis by simp
  next
    case False
    then show ?thesis using Cons by auto
  qed
qed simp

lemma session_entry: "shape m \<Longrightarrow> (sid, s) \<in> set (m_sessions m) \<longleftrightarrow> session_of m sid = Some s"
  by (simp add: shape_def session_of_def btm.entries_lookup)

lemma values_distinct: "shape m \<Longrightarrow> distinct (btm_values (m_sessions m))"
  by (auto simp: shape_def distinct_map inj_on_def btm.entries_lookup dest!: btm_wf_distinct)
    metis

lemma one_running_session:
  assumes "cinv (core_of m)" "session_of m a = Some s" "session_of m b = Some t"
    "is_running (s_state s)" "is_running (s_state t)" "s_uid s = s_uid t"
  shows "a = b"
proof -
  have "inv_uids (core_of m)" using assms(1) by (simp add: cinv_def)
  then have "k_sess (core_of m) a = Some (sview s) \<longrightarrow> k_sess (core_of m) b = Some (sview t) \<longrightarrow>
      is_running (cs_state (sview s)) \<longrightarrow> is_running (cs_state (sview t)) \<longrightarrow>
      cs_uid (sview s) = cs_uid (sview t) \<longrightarrow> a = b"
    unfolding inv_uids_def by blast
  with assms show ?thesis by simp
qed

lemma bsm_inv_check:
  assumes "bsm_inv m"
  shows "check_invariants m = Inr ()"
proof -
  from assms have inv: "cinv (core_of m)" and shp: "shape m"
    by (simp_all add: bsm_inv_def)
  have fg: "m_foreground m = Some sid \<and> sid \<notin> m_protected m"
    if "session_of m sid = Some s" "s_state s = St_Foreground" for sid s
    using inv that by (auto simp: cinv_def inv_foreground_def in_state_def)
  have "check_input_owner m = Inr ()"
  proof (cases "m_input_owner m")
    case (Own_Session sid)
    then obtain s where "session_of m sid = Some s" "s_state s = St_Foreground"
      using inv by (auto simp: cinv_def inv_input_def in_state_def)
    with Own_Session fg show ?thesis by (simp add: check_input_owner_def)
  qed (simp_all add: check_input_owner_def)
  moreover have "length (filter (\<lambda>s. s_state s = St_Foreground) (btm_values (m_sessions m))) \<le> 1"
  proof (rule at_most_one_value [where key = "the (m_foreground m)"])
    show "distinct (btm_keys (m_sessions m))"
      using shp by (simp add: shape_def btm_wf_distinct)
    show "sid = the (m_foreground m)" if "(sid, s) \<in> set (m_sessions m)" "s_state s = St_Foreground" for sid s
      using that fg by (simp add: session_entry [OF shp])
  qed
  then have "check_foreground_count m = Inr ()"
    by (simp add: check_foreground_count_def)
  moreover have "check_protection (m_protected m) (btm_values (m_sessions m)) = Inr ()"
    unfolding check_protection_ok
  proof (intro ballI conjI impI)
    fix s assume s: "s \<in> set (btm_values (m_sessions m))"
    then have look: "session_of m (s_id s) = Some s" using session_values [OF shp] by simp
    show "s_id s \<in> m_protected m" if "s_state s = St_LockedBackground \<or> s_state s = St_LockedGreeterForeground"
      using inv look that by (auto simp: cinv_def inv_locked_def in_state_def)
    show "s_id s \<notin> m_protected m" if "s_state s = St_Foreground"
      using fg [OF look that] by simp
  qed
  moreover have "distinct (map s_uid (filter (\<lambda>s. is_running (s_state s)) (btm_values (m_sessions m))))"
    unfolding distinct_map
  proof
    show "distinct (filter (\<lambda>s. is_running (s_state s)) (btm_values (m_sessions m)))"
      using values_distinct [OF shp] by (rule distinct_filter)
    show "inj_on s_uid (set (filter (\<lambda>s. is_running (s_state s)) (btm_values (m_sessions m))))"
    proof (rule inj_onI)
      fix s t
      assume "s \<in> set (filter (\<lambda>s. is_running (s_state s)) (btm_values (m_sessions m)))"
        "t \<in> set (filter (\<lambda>s. is_running (s_state s)) (btm_values (m_sessions m)))" "s_uid s = s_uid t"
      then have look: "session_of m (s_id s) = Some s" "session_of m (s_id t) = Some t"
        "is_running (s_state s)" "is_running (s_state t)" "s_uid s = s_uid t"
        using session_values [OF shp] by auto
      have "s_id s = s_id t" by (rule one_running_session [OF inv look])
      with look(1,2) show "s = t" by (metis option.inject)
    qed
  qed
  then have "check_one_per_uid {} (filter (\<lambda>s. is_running (s_state s)) (btm_values (m_sessions m))) = Inr ()"
    by (simp add: check_one_per_uid_ok)
  moreover have "check_foreground m = Inr ()"
    using inv by (auto simp: check_foreground_def cinv_def inv_foreground_def split: option.split)
  moreover have "check_challenge m = Inr ()"
    using inv by (auto simp: check_challenge_def cinv_def inv_challenge_def split: option.split)
  ultimately show ?thesis
    by (simp add: check_invariants_def)
qed

section \<open>Runs\<close>

text \<open>A run from a list of timed inputs, as long as the driver's guarantees hold.\<close>

fun run_env :: "(instant \<times> input) list \<Rightarrow> manager \<Rightarrow> manager option" where
  "run_env [] m = Some m"
| "run_env ((now, inp) # rest) m =
     (if env_ok inp m then case handle now inp m of None \<Rightarrow> None | Some m' \<Rightarrow> run_env rest m' else None)"

lemma run_env_reachable:
  "reachable_by bsm_init bsm_step m \<Longrightarrow> run_env xs m = Some m' \<Longrightarrow> reachable_by bsm_init bsm_step m'"
proof (induction xs m rule: run_env.induct)
  case (2 now inp rest m)
  then obtain m1 where m1: "env_ok inp m" "handle now inp m = Some m1" "run_env rest m1 = Some m'"
    by (auto split: if_splits option.splits)
  then have "bsm_step m (now, inp) m1" by (simp add: bsm_step_def)
  with 2 m1 show ?case by (blast intro: reachable_step)
qed simp

lemma demo_start_reachable: "reachable_by bsm_init bsm_step demo_start"
  by (rule reachable_init) (auto simp: bsm_init_def demo_start_def)

lemmas demo_reachable = run_env_reachable [OF demo_start_reachable]

text \<open>The observations the concrete instances below share: a session is resumed and revealed.\<close>

lemma demo_unlock:
  "case run_env (timed (greeter_inputs @ unlock_inputs)) demo_start of
     None \<Rightarrow> False
   | Some m \<Rightarrow>
       is_some_and (m_op m) (\<lambda>x. o_id x = 1 \<and> o_kind x = Op_Reveal \<and> o_began x) \<and>
       is_some_and (session_of m ''s1'') (\<lambda>s. s_state s = St_LockedBackground) \<and>
       (case handle 0 commit_input m of
          None \<Rightarrow> False
        | Some m' \<Rightarrow>
            is_some_and (session_of m' ''s1'') (\<lambda>s. s_state s = St_Foreground \<and> s_uid s = 1000 \<and> s_generation s = 7)
            \<and> m_input_owner m' = Own_Session ''s1'')"
  by code_simp

lemma demo_reveal_step:
  obtains m m' s s' where "run_env (timed (greeter_inputs @ unlock_inputs)) demo_start = Some m"
    "reachable_by bsm_init bsm_step m" "bsm_step m (0, commit_input) m'"
    "session_of m ''s1'' = Some s" "s_state s = St_LockedBackground" "session_of m' ''s1'' = Some s'"
    "s_state s' = St_Foreground" "s_uid s' = 1000" "s_generation s' = 7" "m_input_owner m' = Own_Session ''s1''"
proof -
  from demo_unlock obtain m m' where m: "run_env (timed (greeter_inputs @ unlock_inputs)) demo_start = Some m"
    "handle 0 commit_input m = Some m'"
    by (auto split: option.splits)
  have "env_ok commit_input m" by (simp add: env_ok_def commit_input_def)
  with m demo_unlock demo_reachable [OF m(1)] show ?thesis
    by (auto simp: bsm_step_def is_some_and_iff intro!: that [of m m'])
qed

text \<open>A reboot asked for by root.\<close>

definition demo_root :: caller where
  "demo_root = \<lparr>cal_uid = 0, cal_pid = 1, cal_bus_name = '':1.1'', cal_cgroup = None\<rparr>"

definition reboot_inputs :: "input list" where
  "reboot_inputs = [In_Dbus 1 demo_root Mth_RequestReboot, In_InhibitorsResult 1 (Inr [])]"

lemma demo_reboot:
  "case run_env (timed reboot_inputs) demo_start of
     None \<Rightarrow> False
   | Some m \<Rightarrow>
       (case handle 0 commit_input m of
          None \<Rightarrow> False
        | Some m' \<Rightarrow> list_ex (\<lambda>e. power_call e = Some (1, Pw_Reboot)) (m_fx m'))"
  by code_simp

lemma power_call_iff: "power_call e = Some (oid, a) \<longleftrightarrow> e = Fx_SystemPower oid a"
  by (cases e) (simp_all add: power_call_def)

lemma demo_power_step:
  obtains m m' where "run_env (timed reboot_inputs) demo_start = Some m"
    "reachable_by bsm_init bsm_step m" "bsm_step m (0, commit_input) m'" "Fx_SystemPower 1 Pw_Reboot \<in> set (m_fx m')"
proof -
  from demo_reboot obtain m m' where m: "run_env (timed reboot_inputs) demo_start = Some m"
    "handle 0 commit_input m = Some m'" "list_ex (\<lambda>e. power_call e = Some (1, Pw_Reboot)) (m_fx m')"
    by (auto split: option.splits)
  from m(3) have "Fx_SystemPower 1 Pw_Reboot \<in> set (m_fx m')"
    by (auto simp: list_ex_iff power_call_iff)
  moreover have "env_ok commit_input m" by (simp add: env_ok_def commit_input_def)
  ultimately show ?thesis
    using m demo_reachable [OF m(1)] by (auto simp: bsm_step_def intro!: that [of m m'])
qed

section \<open>What has happened before\<close>

text \<open>A successful answer of PAM, in a state whose conversation is for account \<^verbatim>\<open>u\<close> and operation \<^verbatim>\<open>oid\<close>.\<close>

definition authenticates :: "manager \<times> instant \<times> input \<Rightarrow> operation_id \<Rightarrow> u32 \<Rightarrow> bool" where
  "authenticates e oid u \<longleftrightarrow>
     (case e of
        (m, _, In_Helper (HEv_AuthDone req ok _ _ _)) \<Rightarrow>
          ok \<and> is_some_and (m_challenge m) (\<lambda>h. c_helper_req h = req \<and> c_op h = oid \<and> c_uid h = u)
      | _ \<Rightarrow> False)"

text \<open>The answer of logind that nothing blocks the action, and the answer of polkit that allows it.\<close>

definition clears_inhibitors :: "manager \<times> instant \<times> input \<Rightarrow> operation_id \<Rightarrow> power_action \<Rightarrow> bool" where
  "clears_inhibitors e oid a \<longleftrightarrow>
     (case e of (_, _, In_InhibitorsResult k (Inr xs)) \<Rightarrow> k = oid \<and> unblocked a xs | _ \<Rightarrow> False)"

definition clears_polkit :: "manager \<times> instant \<times> input \<Rightarrow> operation_id \<Rightarrow> bool" where
  "clears_polkit e oid \<longleftrightarrow> (case e of (_, _, In_PolkitResult k ok) \<Rightarrow> k = oid \<and> ok | _ \<Rightarrow> False)"

definition accounted :: "(manager \<times> instant \<times> input) list \<Rightarrow> manager \<Rightarrow> bool" where
  "accounted tr m \<longleftrightarrow>
     (\<forall>oid sid u. auth_target (core_of m) oid sid u \<longrightarrow> (\<exists>e \<in> set tr. authenticates e oid u)) \<and>
     (\<forall>oid. polkit_cleared (core_of m) oid \<longrightarrow> (\<exists>e \<in> set tr. clears_polkit e oid)) \<and>
     (\<forall>oid a. inhib_cleared (core_of m) oid a \<longrightarrow> (\<exists>e \<in> set tr. clears_inhibitors e oid a))"

lemmas label_splits = input.splits helper_event.splits scene_event.splits sum.splits option.splits if_splits
  op_kind.splits

lemma auth_label: "L_Auth oid u \<in> labels inp m \<Longrightarrow> authenticates (m, now, inp) oid u"
  by (auto simp: labels_def commit_labels_def authenticates_def Let_def split: label_splits)

lemma polkit_label: "L_Polkit oid \<in> labels inp m \<Longrightarrow> clears_polkit (m, now, inp) oid"
  by (auto simp: labels_def commit_labels_def clears_polkit_def Let_def split: label_splits)

lemma inhib_label: "L_Inhib oid a \<in> labels inp m \<Longrightarrow> clears_inhibitors (m, now, inp) oid a"
  by (auto simp: labels_def commit_labels_def clears_inhibitors_def Let_def split: label_splits)

lemma cleared_calls [simp]:
  "auth_target (c\<lparr>k_calls := l\<rparr>) = auth_target c" "polkit_cleared (c\<lparr>k_calls := l\<rparr>) = polkit_cleared c"
  "inhib_cleared (c\<lparr>k_calls := l\<rparr>) = inhib_cleared c"
  by (auto simp: fun_eq_iff auth_target_def polkit_cleared_def inhib_cleared_def)

lemma accounted_step:
  assumes "bsm_inv m" "accounted tr m" "bsm_step m i m'"
  shows "accounted (tr @ [(m, i)]) m'"
proof -
  obtain now inp where i: "i = (now, inp)" by (cases i)
  have steps: "(cstep (labels inp m))\<^sup>*\<^sup>* ((core_of m)\<lparr>k_calls := []\<rparr>) (core_of m')"
    using assms(3) handle_kernel(1) [OF assms(1), of inp now m'] by (simp add: bsm_step_def i)
  have inv: "cinv ((core_of m)\<lparr>k_calls := []\<rparr>)" using assms(1) by (simp add: bsm_inv_def)
  have "\<exists>e \<in> set (tr @ [(m, i)]). authenticates e oid u" if "auth_target (core_of m') oid sid u" for oid sid u
    using csteps_auth_origin [OF steps inv that] assms(2) auth_label [of oid u inp m now]
    by (auto simp: accounted_def i)
  moreover have "\<exists>e \<in> set (tr @ [(m, i)]). clears_polkit e oid" if "polkit_cleared (core_of m') oid" for oid
    using csteps_polkit_origin [OF steps that] assms(2) polkit_label [of oid inp m now]
    by (auto simp: accounted_def i)
  moreover have "\<exists>e \<in> set (tr @ [(m, i)]). clears_inhibitors e oid a" if "inhib_cleared (core_of m') oid a" for oid a
    using csteps_inhib_origin [OF steps that] assms(2) inhib_label [of oid a inp m now]
    by (auto simp: accounted_def i)
  ultimately show ?thesis unfolding accounted_def by blast
qed

lemma accounted_new: "accounted [] (manager_new pol rng)"
  by (simp add: accounted_def auth_target_def polkit_cleared_def inhib_cleared_def manager_new_def core_of_def)

interpretation bsm_hist: history_system bsm_init bsm_step bsm_inv accounted
  by unfold_locales (auto simp: bsm_init_def accounted_new intro: accounted_step)

lemma step_kernel:
  assumes "reachable_by bsm_init bsm_step m" "bsm_step m (now, inp) m'"
  shows "(cstep (labels inp m))\<^sup>*\<^sup>* ((core_of m)\<lparr>k_calls := []\<rparr>) (core_of m')"
  using assms(2) handle_kernel(1) [OF bsm.reachable_invariant [OF assms(1)], of inp now m']
  by (simp add: bsm_step_def)

lemma reveal_label:
  "L_Reveal oid sid gn \<in> labels inp m \<Longrightarrow>
     \<exists>ph x. inp = In_Scene (Scn_TransitionPhase oid ph) \<and> (ph = Ev_Committed \<or> ph = Ev_Completed) \<and>
       m_op m = Some x \<and> o_id x = oid \<and> o_kind x = Op_Reveal \<and> o_began x \<and> \<not> o_committed x \<and>
       o_session x = Some (sid, gn)"
  by (auto simp: labels_def commit_labels_def Let_def
      split: label_splits)

lemma call_label:
  "L_Call oid a \<in> labels inp m \<Longrightarrow>
     \<exists>ph x. inp = In_Scene (Scn_TransitionPhase oid ph) \<and> (ph = Ev_Committed \<or> ph = Ev_Completed) \<and>
       m_op m = Some x \<and> o_id x = oid \<and> o_kind x = Op_Power \<and> o_began x \<and> \<not> o_committed x \<and>
       unwrap_or (o_action x) Pw_PowerOff = a"
  by (auto simp: labels_def commit_labels_def Let_def
      split: label_splits)

lemma foreground_origin:
  assumes "reachable_by bsm_init bsm_step m" "bsm_step m (now, inp) m'"
    "session_of m' sid = Some s'" "s_state s' = St_Foreground"
    "\<not> is_some_and (session_of m sid) (\<lambda>s. s_state s = St_Foreground)"
  shows "\<exists>oid. L_Reveal oid sid (s_generation s') \<in> labels inp m"
proof -
  have "\<not> in_state ((core_of m)\<lparr>k_calls := []\<rparr>) sid St_Foreground"
    using assms(5) by (auto simp: in_state_def is_some_and_iff)
  then show ?thesis
    using csteps_foreground_origin [OF step_kernel [OF assms(1,2)], of sid "sview s'"] assms(3,4) by auto
qed

lemma reveal_session:
  assumes "reachable_by bsm_init bsm_step m" "bsm_step m (now, inp) m'" "session_of m' sid = Some s'"
    "s_state s' = St_Foreground" "\<not> is_some_and (session_of m sid) (\<lambda>s. s_state s = St_Foreground)"
  obtains x where "m_op m = Some x" "o_kind x = Op_Reveal"
    "auth_target (core_of m) (o_id x) sid (s_uid s')"
proof -
  from foreground_origin [OF assms] obtain oid where lab: "L_Reveal oid sid (s_generation s') \<in> labels inp m" by blast
  from reveal_label [OF this] obtain ph x where x: "inp = In_Scene (Scn_TransitionPhase oid ph)" "m_op m = Some x"
    "o_kind x = Op_Reveal" "o_began x" "o_session x = Some (sid, s_generation s')" by blast
  have no: "L_Recover \<notin> labels inp m" "L_Auth k u \<notin> labels inp m" for k u
    by (auto simp: x(1) labels_def commit_labels_def split: label_splits)
  obtain s where s: "session_of m sid = Some s" "s_generation s = s_generation s'" "s_uid s = s_uid s'"
    using csteps_sessions_origin [OF step_kernel [OF assms(1,2)] no, of sid "sview s'"] assms(3) by auto
  have "authorised (o_tstate x)"
    using bsm.reachable_invariant [OF assms(1)] x(2,4) by (auto simp: bsm_inv_def cinv_def inv_op_def)
  with x s show ?thesis by (intro that [of x]) (auto simp: auth_target_def)
qed

lemma reveal_authenticated:
  assumes "run_by bsm_init bsm_step tr m" "bsm_step m (now, inp) m'"
    and "session_of m' sid = Some s'" "s_state s' = St_Foreground"
    and "\<not> is_some_and (session_of m sid) (\<lambda>s. s_state s = St_Foreground)"
  shows "\<exists>x. m_op m = Some x \<and> o_kind x = Op_Reveal \<and> (\<exists>e \<in> set tr. authenticates e (o_id x) (s_uid s'))"
proof -
  obtain x where x: "m_op m = Some x" "o_kind x = Op_Reveal" "auth_target (core_of m) (o_id x) sid (s_uid s')"
    using reveal_session [OF run_reachable [OF assms(1)] assms(2-5)] by metis
  with bsm_hist.run_history [OF assms(1)] show ?thesis by (auto simp: accounted_def)
qed

lemma power_call_op:
  assumes "reachable_by bsm_init bsm_step m" "bsm_step m (now, inp) m'" "Fx_SystemPower oid a \<in> set (m_fx m')"
  obtains ph x where "inp = In_Scene (Scn_TransitionPhase oid ph)" "ph = Ev_Committed \<or> ph = Ev_Completed"
    "m_op m = Some x" "o_id x = oid" "o_kind x = Op_Power" "o_began x" "\<not> o_committed x"
    "unwrap_or (o_action x) Pw_PowerOff = a" "o_polkit x = Some True" "o_inhibitors x \<noteq> None"
proof -
  have "(oid, a) \<in> set (k_calls (core_of m'))"
    using assms(3) by (force simp: List.map_filter_def power_call_iff)
  then have "L_Call oid a \<in> labels inp m"
    using csteps_calls_origin [OF step_kernel [OF assms(1,2)]] by fastforce
  from call_label [OF this] obtain ph x where x: "inp = In_Scene (Scn_TransitionPhase oid ph)"
    "ph = Ev_Committed \<or> ph = Ev_Completed" "m_op m = Some x" "o_id x = oid" "o_kind x = Op_Power" "o_began x"
    "\<not> o_committed x" "unwrap_or (o_action x) Pw_PowerOff = a" by blast
  moreover have "o_polkit x = Some True \<and> o_inhibitors x \<noteq> None"
    using bsm.reachable_invariant [OF assms(1)] x by (auto simp: bsm_inv_def cinv_def inv_op_def)
  ultimately show ?thesis using that by blast
qed

end
