(* ===== verification/Security_Theorems.thy ===== *)
theory Security_Theorems
  imports Security
begin

text \<open>
  The claims about the whole manager: what holds of every state it reaches, and what must have
  happened before a desktop is shown or the machine is powered down.
\<close>



text \<open>
  C4. A session becomes Foreground in one way only: the compositor reports the commit of a
  transition that the manager itself has begun, for the reveal operation in flight, and that
  operation targets this session in this generation.
\<close>

theorem reveal_needs_commit:
  assumes "reachable_by bsm_init bsm_step m" "bsm_step m (now, inp) m'"
    and "session_of m' sid = Some s'" "s_state s' = St_Foreground"
    and "\<not> is_some_and (session_of m sid) (\<lambda>s. s_state s = St_Foreground)"
  shows "\<exists>oid ph x. inp = In_Scene (Scn_TransitionPhase oid ph) \<and> (ph = Ev_Committed \<or> ph = Ev_Completed) \<and>
    m_op m = Some x \<and> o_id x = oid \<and> o_kind x = Op_Reveal \<and> o_began x \<and> \<not> o_committed x \<and>
    o_session x = Some (sid, s_generation s')"
  using foreground_origin [OF assms] reveal_label by blast

theorem reveal_needs_commit_witness:
  "\<exists>m x. run_env (timed (greeter_inputs @ unlock_inputs)) demo_start = Some m \<and>
     m_op m = Some x \<and> o_kind x = Op_Reveal \<and> o_began x \<and> o_session x = Some (''s1'', 7)"
proof -
  obtain m m' s s' where r: "run_env (timed (greeter_inputs @ unlock_inputs)) demo_start = Some m"
    "reachable_by bsm_init bsm_step m" "bsm_step m (0, commit_input) m'"
    "session_of m ''s1'' = Some s" "s_state s = St_LockedBackground" "session_of m' ''s1'' = Some s'"
    "s_state s' = St_Foreground" "s_generation s' = 7"
    by (rule demo_reveal_step)
  have "\<not> is_some_and (session_of m ''s1'') (\<lambda>s. s_state s = St_Foreground)" using r(4,5) by simp
  from reveal_needs_commit [OF r(2,3,6,7) this] r(1,8) show ?thesis by auto
qed

text \<open>
  C5. No desktop is shown without a successful authentication: when a session becomes Foreground,
  an earlier input was PAM's success, given while the conversation was for the account that owns
  this session and for the very operation that is now being committed.
\<close>

theorem reveal_needs_authentication:
  assumes "run_by bsm_init bsm_step tr m" "bsm_step m (now, inp) m'"
    and "session_of m' sid = Some s'" "s_state s' = St_Foreground"
    and "\<not> is_some_and (session_of m sid) (\<lambda>s. s_state s = St_Foreground)"
  shows "\<exists>x. m_op m = Some x \<and> o_kind x = Op_Reveal \<and> (\<exists>e \<in> set tr. authenticates e (o_id x) (s_uid s'))"
  by (rule reveal_authenticated [OF assms])

theorem reveal_needs_authentication_witness:
  "\<exists>tr m m'. run_by bsm_init bsm_step tr m \<and> handle 0 commit_input m = Some m' \<and>
     m_input_owner m' = Own_Session ''s1'' \<and> (\<exists>oid. \<exists>e \<in> set tr. authenticates e oid 1000)"
proof -
  obtain m m' s s' where r: "reachable_by bsm_init bsm_step m" "bsm_step m (0, commit_input) m'"
    "session_of m ''s1'' = Some s" "s_state s = St_LockedBackground" "session_of m' ''s1'' = Some s'"
    "s_state s' = St_Foreground" "s_uid s' = 1000" "m_input_owner m' = Own_Session ''s1''"
    by (rule demo_reveal_step)
  obtain tr where tr: "run_by bsm_init bsm_step tr m" using reachable_run [OF r(1)] by blast
  have "\<not> is_some_and (session_of m ''s1'') (\<lambda>s. s_state s = St_Foreground)" using r(3,4) by simp
  from reveal_needs_authentication [OF tr r(2,5,6) this] r(7)
  have "\<exists>oid. \<exists>e \<in> set tr. authenticates e oid 1000" by auto
  moreover have "handle 0 commit_input m = Some m'" using r(2) by (simp add: bsm_step_def)
  ultimately show ?thesis using tr r(8) by blast
qed



text \<open>
  C7. Before that, logind has answered for this operation that no inhibitor blocks this action, and,
  when a hosted session asked, polkit has answered that its user may.
\<close>

theorem power_was_cleared:
  assumes "run_by bsm_init bsm_step tr m" "bsm_step m (now, inp) m'" "Fx_SystemPower oid a \<in> set (m_fx m')"
  shows "\<exists>x. m_op m = Some x \<and> (\<exists>e \<in> set tr. clears_inhibitors e oid a) \<and>
    (is_session_requester (o_requester x) \<longrightarrow> (\<exists>e \<in> set tr. clears_polkit e oid))"
proof -
  obtain x where x: "m_op m = Some x" "o_id x = oid" "unwrap_or (o_action x) Pw_PowerOff = a"
      "o_polkit x = Some True" "o_inhibitors x \<noteq> None"
    using power_call_op [OF run_reachable [OF assms(1)] assms(2,3)] by metis
  then have "inhib_cleared (core_of m) oid a" "is_session_requester (o_requester x) \<longrightarrow> polkit_cleared (core_of m) oid"
    by (auto simp: inhib_cleared_def polkit_cleared_def)
  with bsm_hist.run_history [OF assms(1)] x(1) show ?thesis by (auto simp: accounted_def)
qed

theorem power_was_cleared_witness:
  "\<exists>tr m m'. run_by bsm_init bsm_step tr m \<and> handle 0 commit_input m = Some m' \<and>
     Fx_SystemPower 1 Pw_Reboot \<in> set (m_fx m') \<and> (\<exists>e \<in> set tr. clears_inhibitors e 1 Pw_Reboot)"
proof -
  obtain m m' where r: "reachable_by bsm_init bsm_step m" "bsm_step m (0, commit_input) m'"
    "Fx_SystemPower 1 Pw_Reboot \<in> set (m_fx m')"
    by (rule demo_power_step)
  obtain tr where tr: "run_by bsm_init bsm_step tr m" using reachable_run [OF r(1)] by blast
  from power_was_cleared [OF tr r(2,3)] have "\<exists>e \<in> set tr. clears_inhibitors e 1 Pw_Reboot" by blast
  moreover have "handle 0 commit_input m = Some m'" using r(2) by (simp add: bsm_step_def)
  ultimately show ?thesis using tr r(3) by blast
qed



section \<open>Two behaviours that differ from what the code says of itself\<close>

definition dropped_account_inputs :: "input list" where
  "dropped_account_inputs =
     [In_Accounts [demo_account 1000], In_HelperConnected, In_Scene (Scn_Ready [demo_output]),
      In_Helper (HEv_GreeterSpawned 1 1 777), In_Scene (Scn_GreeterConnected 1 777),
      In_GreeterPeer 5 900 777, In_Greeter 5 (CMsg_Hello 1),
      In_Greeter 5 (CMsg_BeginAuth 1 1000 Intent_Login), In_Accounts [demo_account 1001]]"

text \<open>
  A defect: the guard \<^verbatim>\<open>can_change_selection\<close> of \<^verbatim>\<open>on_accounts\<close> protects only one side of its
  disjunction. An account list that no longer contains the account on screen changes the selection
  in the middle of that account's conversation, and the manager's own predicate fails.
\<close>

theorem accounts_can_break_the_predicate:
  "case handle_all (timed dropped_account_inputs) demo_start of
     None \<Rightarrow> False
   | Some m \<Rightarrow> check_invariants m = Inl ''a challenge exists for an account that is not selected''"
  by code_simp

definition inside_caller :: caller where
  "inside_caller = \<lparr>cal_uid = 1000, cal_pid = 4100, cal_bus_name = '':1.7'', cal_cgroup = Some ''/scope/app''\<rparr>"

text \<open>
  A divergence from the rule that a hosted session never cancels an operation that is running: while
  the greeter reveals a locked session at its user's request, a process inside that session can
  ask for a logout, and the reveal ends.
\<close>

theorem hidden_session_ends_a_reveal:
  "case handle_all (timed (greeter_inputs @ unlock_inputs)) demo_start of
     None \<Rightarrow> False
   | Some m \<Rightarrow>
       principal_of m inside_caller = Prin_Session ''s1'' \<and>
       is_some_and (m_op m) (\<lambda>x. o_kind x = Op_Reveal \<and> o_requester x = Req_Greeter) \<and>
       (case handle 0 (In_Dbus 3 inside_caller (Mth_RequestLogout None)) m of
          None \<Rightarrow> False
        | Some m' \<Rightarrow> m_op m' = None \<and> is_some_and (session_of m' ''s1'') (\<lambda>s. s_state s = St_Stopping))"
  by code_simp

section \<open>A login\<close>

text \<open>
  The machine makes progress: from its first input, a login goes through the greeter, PAM, the
  launch of the desktop stage by stage and the reveal, and ends with the new session in the
  foreground, owning the input, and no operation left.
\<close>

theorem login_reaches_the_desktop:
  "case handle_all (timed (boot_inputs @ begin_inputs @ auth_inputs @ launch_inputs @ reveal_inputs)) demo_start of
     None \<Rightarrow> False
   | Some m \<Rightarrow>
       is_some_and (session_of m demo_sid) (\<lambda>s. s_state s = St_Foreground \<and> s_uid s = 1000) \<and>
       m_input_owner m = Own_Session demo_sid \<and> m_op m = None \<and> m_seat m = Seat_UserForeground"
  by code_simp

end
