(* ===== verification/Access_Theorems.thy ===== *)
theory Access_Theorems
  imports Core_Manager
begin

text \<open>
  Claims about the two doors of the manager: the greeter's control socket (conversations, the
  cooldown after wrong answers, its power policy) and the D-Bus interface (who may call what, what
  a caller is told, the publication of appearance).
\<close>

section \<open>Wrong answers\<close>

text \<open>A series of answers submitted for one account, each at its own time, as
  \<^verbatim>\<open>greeter_auth_response\<close> charges them.\<close>

definition charge_at :: "u32 \<Rightarrow> instant \<Rightarrow> manager \<Rightarrow> manager" where
  "charge_at uid t m = charge_failure uid (m\<lparr>m_now := Some t\<rparr>)"

text \<open>Times of which each is less than the cooldown after the one before it.\<close>

fun spaced :: "duration \<Rightarrow> instant \<Rightarrow> instant list \<Rightarrow> bool" where
  "spaced d t [] = True"
| "spaced d t (u # us) = (duration_since u t < d \<and> spaced d u us)"

lemma charge_fields [simp]:
  "m_policy (charge_at uid t m) = m_policy m" "m_op (charge_at uid t m) = m_op m"
  "m_challenge (charge_at uid t m) = m_challenge m"
  by (simp_all add: charge_at_def charge_failure_def Let_def)

lemma charge_count:
  assumes "btm_get (m_failures m) uid = Some (n, at)" "duration_since t at < pol_failure_cooldown (m_policy m)"
  shows "btm_get (m_failures (charge_at uid t m)) uid = Some (n + 1, t)"
  using assms by (simp add: charge_at_def charge_failure_def now_of_def)

lemma charges_count:
  assumes "btm_get (m_failures m) uid = Some (n, at)" "spaced (pol_failure_cooldown (m_policy m)) at ts"
  shows "btm_get (m_failures (fold (charge_at uid) ts m)) uid = Some (n + of_nat (length ts), last (at # ts))"
  using assms
proof (induction ts arbitrary: m n at)
  case (Cons t ts)
  from Cons.prems have "duration_since t at < pol_failure_cooldown (m_policy m)" by simp
  note c = charge_count [OF Cons.prems(1) this]
  show ?case using Cons.IH [OF c] Cons.prems(2) by (simp add: ac_simps)
qed simp

lemma fold_charge_policy [simp]: "m_policy (fold (charge_at uid) ts m) = m_policy m"
  by (induction ts arbitrary: m) simp_all

lemma charge_first:
  "btm_get (m_failures m) uid = None \<Longrightarrow> btm_get (m_failures (charge_at uid t m)) uid = Some (1, t)"
  by (simp add: charge_at_def charge_failure_def now_of_def)


definition locked_out :: manager where
  "locked_out = (fold (charge_at 1000) [0, 1000, 2000, 3000, 4000] (manager_new policy_default (\<lambda>_. 1)))\<lparr>m_now := Some 5000\<rparr>"


text \<open>
  An answer reaches PAM only for the conversation it names, only while that conversation waits
  for one and only up to the size limit; then it is charged to the account once and the
  conversation stops waiting, so that one prompt never takes two answers.
\<close>

theorem answer_forwarded_once:
  assumes "m' = greeter_auth_response cid response m" "m_fx m' = m_fx m @ [Fx_Helper (HReq_AuthResponse req response)]"
  shows "\<exists>c c'. m_challenge m = Some c \<and> c_id c = cid \<and> c_helper_req c = req \<and> c_awaiting_response c \<and>
    length response \<le> MAX_RESPONSE_BYTES \<and> m_challenge m' = Some c' \<and> \<not> c_awaiting_response c' \<and>
    m_failures m' = m_failures (charge_failure (c_uid c) m)"
  using assms
  by (cases "m_challenge m")
    (auto simp: greeter_auth_response_def greeter_error_def push_def charge_failure_def modify_challenge_def
       now_of_def Let_def split: if_splits option.splits)

definition waiting_greeter :: manager where
  "waiting_greeter = (manager_new policy_default (\<lambda>_. 1))\<lparr>m_challenge :=
     Some \<lparr>c_id = 4, c_request_id = 1, c_helper_req = 8, c_uid = 1000, c_intent = Intent_Login, c_op = 1,
           c_plan = Plan_New 5, c_first_prompt_sent = True, c_awaiting_response = True\<rparr>\<rparr>"

theorem answer_forwarded_once_witness:
  "\<exists>c. m_challenge (greeter_auth_response 4 ''pw'' waiting_greeter) = Some c \<and> \<not> c_awaiting_response c"
proof -
  have "m_fx (greeter_auth_response 4 ''pw'' waiting_greeter) = m_fx waiting_greeter @ [Fx_Helper (HReq_AuthResponse 8 ''pw'')]"
    by (simp add: greeter_auth_response_def waiting_greeter_def manager_new_def MAX_RESPONSE_BYTES_def
        modify_challenge_def charge_failure_def push_def)
  from answer_forwarded_once [OF refl this] show ?thesis by blast
qed

text \<open>
  Under the default policy the greeter may do anything with the machine while nobody is signed
  in, and only suspend it while somebody is.
\<close>

lemma greeter_power_policy:
  assumes "m_policy m = policy_default"
  shows "greeter_may_power m a \<longleftrightarrow> a = Pw_Suspend \<or> \<not> any_session (\<lambda>s. is_running (s_state s)) m"
  using assms
  by (cases a) (auto simp: greeter_may_power_def policy_default_def greeter_power_default_def)

lemma greeter_power_policy_witness:
  "greeter_may_power (manager_new policy_default (\<lambda>_. 1)) Pw_Reboot"
  using greeter_power_policy [of "manager_new policy_default (\<lambda>_. 1)" Pw_Reboot]
  by (simp add: manager_new_def any_session_def)

section \<open>D-Bus\<close>

text \<open>Methods that only read, and the account a reply is about.\<close>

definition is_read :: "dbus_method \<Rightarrow> bool" where
  "is_read mth \<longleftrightarrow>
     (case mth of
        Mth_GetUsers \<Rightarrow> True | Mth_GetSessions \<Rightarrow> True | Mth_GetSelectedUser \<Rightarrow> True
      | Mth_GetForegroundSession \<Rightarrow> True | Mth_GetStatus \<Rightarrow> True | Mth_GetOutputs \<Rightarrow> True
      | Mth_GetTransitions \<Rightarrow> True | _ \<Rightarrow> False)"

definition about_uid :: "manager \<Rightarrow> u32 \<Rightarrow> reply \<Rightarrow> bool" where
  "about_uid m u r \<longleftrightarrow>
     (case r of
        Rpl_Users us \<Rightarrow> \<forall>x \<in> set us. ui_uid x = u
      | Rpl_Sessions ss \<Rightarrow> \<forall>x \<in> set ss. si_uid x = u
      | Rpl_Selected v \<Rightarrow> \<forall>x. v = Some x \<longrightarrow> x = u
      | Rpl_Foreground f \<Rightarrow> \<forall>sid g. f = Some (sid, g) \<longrightarrow>
          (\<exists>s fg. m_foreground m = Some fg \<and> session_of m fg = Some s \<and> s_id s = sid \<and> s_uid s = u)
      | Rpl_Status st \<Rightarrow>
          (\<forall>x. sti_selected_uid st = Some x \<longrightarrow> x = u) \<and> (\<forall>x. sti_last_used_uid st = Some x \<longrightarrow> x = u) \<and>
          (\<forall>sid. sti_foreground st = Some sid \<longrightarrow>
             (\<exists>s fg. m_foreground m = Some fg \<and> session_of m fg = Some s \<and> s_id s = sid \<and> s_uid s = u)) \<and>
          (\<forall>i. sti_operation st = Some i \<longrightarrow>
             (\<exists>sid s. oi_session i = Some sid \<and> session_of m sid = Some s \<and> s_uid s = u))
      | Rpl_Transitions xs \<Rightarrow>
          \<forall>i \<in> set xs. \<exists>sid s. oi_session i = Some sid \<and> session_of m sid = Some s \<and> s_uid s = u
      | _ \<Rightarrow> True)"

lemma op_is_of_own: "op_is_of m i (Some u) \<Longrightarrow> \<exists>sid s. oi_session i = Some sid \<and> session_of m sid = Some s \<and> s_uid s = u"
  by (auto simp: op_is_of_def is_some_and_iff split: option.splits)

lemma foreground_of_own:
  "foreground_of m (Some u) = Some s \<Longrightarrow> \<exists>fg. m_foreground m = Some fg \<and> session_of m fg = Some s \<and> s_uid s = u"
  by (auto simp: foreground_of_def bind_eq_Some_conv)



text \<open>
  C37. A user outside any hosted session can do nothing but read and publish its own appearance: every
  other method is answered with Unauthorised and leaves the manager as it is.
\<close>

theorem dbus_user_denied:
  assumes "\<not> is_read mth" "\<And>req. mth \<noteq> Mth_PublishAppearance req"
  shows "\<exists>why. dbus_call call cal (Prin_User u) mth m = (Some (deny why), m)"
  using assms
  by (cases mth)
    (auto simp: dbus_call_def Let_def is_read_def own_session_action_def on_own_session_def dbus_power_def
       cancel_requester_def)

theorem dbus_user_denied_witness:
  "\<exists>why. dbus_call 1 \<lparr>cal_uid = 1000, cal_pid = 2, cal_bus_name = [], cal_cgroup = None\<rparr> (Prin_User 1000) Mth_RequestPowerOff
     (manager_new policy_default (\<lambda>_. 1)) = (Some (deny why), manager_new policy_default (\<lambda>_. 1))"
  by (rule dbus_user_denied) (simp_all add: is_read_def)

text \<open>
  A caller is taken for a hosted session only when the session is running, belongs to the caller's
  uid and its scope contains the caller's cgroup; root and the greeter never are.
\<close>

theorem principal_session_sound:
  assumes "principal_of m cal = Prin_Session sid"
  shows "\<exists>s cg sc. s \<in> set (btm_values (m_sessions m)) \<and> s_id s = sid \<and> is_running (s_state s) \<and>
    s_uid s = cal_uid cal \<and> cal_uid cal \<noteq> 0 \<and> pol_greeter_uid (m_policy m) \<noteq> Some (cal_uid cal) \<and>
    cal_cgroup cal = Some cg \<and> s_scope s = Some sc \<and> cgroup_in_scope cg sc"
proof -
  from assms obtain s where s: "session_of_caller m cal = Some s" "s_id s = sid" "cal_uid cal \<noteq> 0"
    "pol_greeter_uid (m_policy m) \<noteq> Some (cal_uid cal)"
    by (auto simp: principal_of_def split: if_splits option.splits)
  then obtain cg where cg: "cal_cgroup cal = Some cg"
    and f: "List.find (\<lambda>s. is_some_and (s_scope s) (cgroup_in_scope cg) \<and> s_uid s = cal_uid cal)
      (filter (\<lambda>s. is_running (s_state s)) (btm_values (m_sessions m))) = Some s"
    by (auto simp: session_of_caller_def split: option.splits)
  from find_Some_mem [OF f] s cg show ?thesis
    by (auto simp: is_some_and_iff)
qed

definition hosted_demo :: manager where
  "hosted_demo = recover_session \<lparr>ps_id = ''s1'', ps_generation = 7, ps_uid = 1000, ps_user_name = ''a'',
     ps_scope = ''bsm-s1.scope'', ps_host_pid = 9\<rparr> (manager_new policy_default (\<lambda>_. 1))"

definition hosted_caller :: caller where
  "hosted_caller = \<lparr>cal_uid = 1000, cal_pid = 12, cal_bus_name = '':1.5'', cal_cgroup = Some ''/u/bsm-s1.scope/app''\<rparr>"

theorem principal_session_sound_witness:
  "\<exists>s. s \<in> set (btm_values (m_sessions hosted_demo)) \<and> s_uid s = 1000 \<and> is_running (s_state s)"
proof -
  have "principal_of hosted_demo hosted_caller = Prin_Session ''s1''" by code_simp
  from principal_session_sound [OF this] show ?thesis by (auto simp: hosted_caller_def)
qed

definition session_request :: "manager \<Rightarrow> session_id \<Rightarrow> dbus_method \<Rightarrow> bool" where
  "session_request m sid mth \<longleftrightarrow>
     (case mth of
        Mth_RequestLock _ \<Rightarrow> True | Mth_RequestSwitchUser \<Rightarrow> True | Mth_RequestSuspend \<Rightarrow> True
      | Mth_RequestReboot \<Rightarrow> True | Mth_RequestPowerOff \<Rightarrow> True
      | Mth_RequestLogout _ \<Rightarrow> is_some_and (session_of m sid) (\<lambda>s. s_state s = St_Foreground)
      | _ \<Rightarrow> False)"

text \<open>
  While an operation is in flight, no lock, user switch, power request or logout of the desktop on
  screen from a hosted session can disturb it: the operation, the conversation, the sessions and
  the input owner stay as they are and the session is told why.
\<close>

theorem session_cannot_preempt:
  assumes "m_op m = Some x" "session_request m sid mth"
  shows "\<exists>e. dbus_call call cal (Prin_Session sid) mth m = (Some (Inl e), m)"
  using assms
  by (cases mth)
    (auto simp: dbus_call_def Let_def session_request_def own_session_action_def on_own_session_def dbus_power_def
       request_lock_def request_logout_def request_power_def session_may_not_preempt_def reply_operation_def
       is_session_requester_def is_some_and_iff split: option.split if_splits)

theorem session_cannot_preempt_witness:
  "\<exists>e. dbus_call 1 hosted_caller (Prin_Session ''s1'') (Mth_RequestLock None)
     (snd (new_operation Op_Power Req_Root None hosted_demo))
     = (Some (Inl e), snd (new_operation Op_Power Req_Root None hosted_demo))"
  by (rule session_cannot_preempt [of _ "fresh_operation Op_Power Req_Root None hosted_demo"])
    (simp_all add: session_request_def new_operation_def emit_op_def push_def split: option.split)

section \<open>Publishing appearance\<close>

lemma on_appearance_published_fields [simp]:
  "m_last_publish (on_appearance_published call uid res m) = m_last_publish m"
  "m_policy (on_appearance_published call uid res m) = m_policy m"
  by (auto simp: on_appearance_published_def push_def Let_def split: sum.split option.split)

lemma dbus_publish_accepted:
  assumes "dbus_publish call who req m = (r, m1)" "m_fx m1 = m_fx m @ [Fx_PublishAppearance (Some call) uid req]"
  shows "publish_uid m who = Inr (Some uid) \<and> \<not> publish_too_often m uid \<and> valid_accent (app_accent (pr_appearance req)) \<and>
    user_known m uid \<and> uid \<in> m_publishing m1 \<and> btm_get (m_last_publish m1) uid = Some (now_of m) \<and> m_policy m1 = m_policy m"
  using assms by (auto simp: dbus_publish_def push_def Let_def split: sum.splits option.splits if_splits)

text \<open>
  Publications of one account are at least the policy's interval apart: after one was accepted,
  whether or not its result has come back, no request made for the same account before the
  interval is over is passed on.
\<close>

theorem publish_rate_limited:
  assumes "dbus_publish call who req m = (r, m1)" "m_fx m1 = m_fx m @ [Fx_PublishAppearance (Some call) uid req]"
    and "m2 = m1 \<or> m2 = on_appearance_published c u res m1"
    and "duration_since now (now_of m) < pol_publish_interval (m_policy m)"
    and "publish_uid (m2\<lparr>m_now := Some now\<rparr>) who' = Inr (Some uid)"
  shows "\<exists>e. dbus_publish call' who' req' (m2\<lparr>m_now := Some now\<rparr>) = (Some (Inl e), m2\<lparr>m_now := Some now\<rparr>)"
proof -
  have "btm_get (m_last_publish m2) uid = Some (now_of m)" "m_policy m2 = m_policy m"
    using dbus_publish_accepted [OF assms(1,2)] assms(3) by auto
  then have "publish_too_often (m2\<lparr>m_now := Some now\<rparr>) uid"
    using assms(4) by (simp add: publish_too_often_def now_of_def)
  then show ?thesis using assms(5) by (auto simp: dbus_publish_def)
qed

definition publish_demo :: manager where
  "publish_demo = (manager_new policy_default (\<lambda>_. 1))\<lparr>m_now := Some 1000,
     m_users := [(1000, \<lparr>ue_profile = profile_from \<lparr>acc_uid = 1000, acc_user_name = ''a'', acc_display_name = ''A'', acc_published = None\<rparr>\<rparr>)]\<rparr>"

definition demo_request :: publish_request where
  "demo_request = \<lparr>pr_appearance = appearance_default, pr_show_personal_images = False, pr_wallpaper = None, pr_avatar = None\<rparr>"

lemma publish_demo_accepted:
  "dbus_publish 1 (Prin_User 1000) demo_request publish_demo
     = (None, push (Fx_PublishAppearance (Some 1) 1000 demo_request)
         (publish_demo\<lparr>m_publishing := insert 1000 (m_publishing publish_demo),
            m_last_publish := btm_insert 1000 (now_of publish_demo) (m_last_publish publish_demo)\<rparr>))"
proof -
  have "user_known publish_demo 1000" "valid_accent (app_accent (pr_appearance demo_request))"
    "\<not> publish_too_often publish_demo 1000"
    by code_simp+
  then show ?thesis by (simp add: dbus_publish_def publish_uid_def Let_def)
qed

theorem publish_rate_limited_witness:
  "\<exists>e. dbus_publish 2 (Prin_User 1000) demo_request
     ((on_appearance_published (Some 1) 1000 (Inr \<lparr>pv_appearance = appearance_default, pv_avatar_path = None, pv_avatar_rev = 0,
        pv_wallpaper_path = None, pv_wallpaper_blur_path = None, pv_wallpaper_rev = 0, pv_show_personal_images = False\<rparr>)
        (snd (dbus_publish 1 (Prin_User 1000) demo_request publish_demo)))\<lparr>m_now := Some 1200\<rparr>) = e \<and> fst e \<noteq> None"
proof -
  let ?m1 = "snd (dbus_publish 1 (Prin_User 1000) demo_request publish_demo)"
  let ?v = "Inr \<lparr>pv_appearance = appearance_default, pv_avatar_path = None, pv_avatar_rev = 0,
        pv_wallpaper_path = None, pv_wallpaper_blur_path = None, pv_wallpaper_rev = 0, pv_show_personal_images = False\<rparr>
        :: published_view result"
  have "dbus_publish 1 (Prin_User 1000) demo_request publish_demo = (None, ?m1)"
    "m_fx ?m1 = m_fx publish_demo @ [Fx_PublishAppearance (Some 1) 1000 demo_request]"
    by (simp_all add: publish_demo_accepted push_def)
  moreover have "duration_since 1200 (now_of publish_demo) < pol_publish_interval (m_policy publish_demo)"
    by code_simp
  ultimately have "\<exists>e. dbus_publish 2 (Prin_User 1000) demo_request ((on_appearance_published (Some 1) 1000 ?v ?m1)\<lparr>m_now := Some 1200\<rparr>)
    = (Some (Inl e), (on_appearance_published (Some 1) 1000 ?v ?m1)\<lparr>m_now := Some 1200\<rparr>)"
    by (rule publish_rate_limited [OF _ _ disjI2 [OF refl]]) (simp add: publish_uid_def)
  then show ?thesis by auto
qed

end
