(* ===== verification/Launch_Theorems.thy ===== *)
theory Launch_Theorems
  imports Refine_Manager
begin

text \<open>
  Claims about starting, revealing and protecting a desktop: which evidence a launch needs, what the
  reveal gate checks, what a lock takes away at once, and how long the history is.
\<close>

section \<open>Counting outputs\<close>

lemma count_if_all:
  assumes "length xs < 2 ^ 32"
  shows "count_if P xs = of_nat (length xs) \<longleftrightarrow> (\<forall>x \<in> set xs. P x)"
proof -
  have le: "length (filter P xs) \<le> length xs" by simp
  have "count_if P xs = of_nat (length xs) \<longleftrightarrow> length (filter P xs) = length xs"
  proof
    assume "count_if P xs = of_nat (length xs)"
    then have "unat (of_nat (length (filter P xs)) :: u32) = unat (of_nat (length xs) :: u32)"
      by (simp add: count_if_def)
    moreover have "length (filter P xs) < 2 ^ 32" using assms le by linarith
    ultimately show "length (filter P xs) = length xs"
      using assms by (simp add: unsigned_of_nat take_bit_nat_eq_self)
  qed (simp add: count_if_def)
  also have "\<dots> \<longleftrightarrow> (\<forall>x \<in> set xs. P x)"
    by (metis filter_True length_filter_less nat_neq_iff)
  finally show ?thesis .
qed

lemma eval_counted_reached:
  assumes "length xs < 2 ^ 32"
  shows "eval_counted (count_if P xs) (of_nat (length xs)) = Eval_Reached \<longleftrightarrow> xs \<noteq> [] \<and> (\<forall>x \<in> set xs. P x)"
proof -
  have "(of_nat (length xs) :: u32) > 0 \<longleftrightarrow> xs \<noteq> []"
    using assms by (simp add: word_greater_zero_iff word_of_nat_eq_0_iff) (auto dest: dvd_imp_le)
  then show ?thesis
    using count_if_all [OF assms] by (simp add: eval_counted_def)
qed

text \<open>
  The desktop counts as ready only on fresh evidence: there is an output, the shell has reported the
  desktop, and every output shows a surface that is acknowledged and has presented a frame later
  than the one it had presented when the report was made.
\<close>

lemma desktop_ready_evidence:
  assumes "length names < 2 ^ 32"
  shows "evaluate m s Stg_DesktopReady names = Eval_Reached \<longleftrightarrow>
    (\<exists>anchor. la_desktop_report (s_launch s) = Some anchor \<and> names \<noteq> [] \<and>
      (\<forall>n \<in> set names. \<exists>e. evidence_for s n = Some e \<and> ev_acked e \<and>
         ev_presented_frames e > unwrap_or (btm_get anchor n) 0))"
  using eval_counted_reached [OF assms]
  by (auto simp: evaluate_def Let_def is_some_and_iff split: option.split)

definition reported_session :: session where
  "reported_session = (new_session ''s1'' 7 1000 ''a'' 3)
     \<lparr>s_launch := launch_default\<lparr>la_desktop_report := Some [(''eDP-1'', 4)]\<rparr>,
      s_surfaces := [\<lparr>ev_output = ''eDP-1'', ev_configure_serial = 1, ev_acked = True, ev_presented_frames = 5\<rparr>]\<rparr>"

lemma desktop_ready_evidence_witness:
  "evaluate (manager_new policy_default (\<lambda>_. 1)) reported_session Stg_DesktopReady [''eDP-1''] = Eval_Reached"
proof -
  have "la_desktop_report (s_launch reported_session) = Some [(''eDP-1'', 4)]"
    "is_some_and (evidence_for reported_session ''eDP-1'') (\<lambda>e. ev_acked e \<and> ev_presented_frames e > 4)" by code_simp+
  then show ?thesis
    using desktop_ready_evidence [of "[''eDP-1'']" "manager_new policy_default (\<lambda>_. 1)" reported_session]
    by (auto simp: is_some_and_iff)
qed

section \<open>The launch loop\<close>

lemma reach_stage_result:
  assumes "reach_stage sid st m = (True, m')" "session_of m sid = Some s"
  shows "\<exists>p p'. s_progress s = Some p \<and> progress_pending p = Some st \<and> pm_reached p' = pm_reached p @ [st] \<and>
    session_of m' sid = Some (s\<lparr>s_progress := Some p'\<rparr>) \<and> m_outputs_epoch m' = m_outputs_epoch m"
proof -
  from assms obtain p p' where p: "s_progress s = Some p" "progress_reach st p = (True, p')"
    and m': "m' = log_msg Log_Info (Some sid) (''stage reached: '' @ debug_stage st)
                    (modify_session sid (\<lambda>s. s\<lparr>s_progress := Some p'\<rparr>) m)"
    by (auto simp: reach_stage_def split: option.splits prod.splits if_splits)
  then have "progress_pending p = Some st" "pm_reached p' = pm_reached p @ [st]"
    by (auto simp: progress_reach_def split: if_splits)
  moreover have "session_of m' sid = Some (s\<lparr>s_progress := Some p'\<rparr>)"
    using assms(2) by (simp add: m' session_of_modify)
  moreover have "m_outputs_epoch m' = m_outputs_epoch m"
    by (simp add: m' log_msg_def push_def modify_session_def)
  ultimately show ?thesis using p(1) by blast
qed

text \<open>What a session in ReadyBackground has behind it.\<close>

definition launch_complete :: "manager \<Rightarrow> session \<Rightarrow> bool" where
  "launch_complete m s \<longleftrightarrow>
     (\<exists>p. s_progress s = Some p \<and> (\<forall>st. progress_has p st)) \<and>
     la_configured_epoch (s_launch s) = Some (m_outputs_epoch m)"

definition ready_is_complete :: "session_id \<Rightarrow> manager \<Rightarrow> bool" where
  "ready_is_complete sid m \<longleftrightarrow>
     (\<forall>s. session_of m sid = Some s \<longrightarrow> s_state s = St_ReadyBackground \<longrightarrow> launch_complete m s)"

lemma stage_in_all: "st \<in> set stage_all"
  by (cases st) (simp_all add: stage_all_def)

lemma last_stage_all_others:
  assumes "progress_pending p = Some Stg_ReadyToReveal" "pm_reached p' = pm_reached p @ [Stg_ReadyToReveal]"
  shows "progress_has p' st"
proof -
  from assms(1) have "\<forall>x \<in> set (butlast stage_all). progress_has p x"
    by (auto simp: progress_pending_def stage_all_def split: if_splits)
  moreover have "st \<in> set (butlast stage_all) \<or> st = Stg_ReadyToReveal"
    by (cases st) (simp_all add: stage_all_def)
  ultimately show ?thesis using assms(2) by (auto simp: progress_has_def)
qed

lemma set_session_state_of:
  "session_of m sid = Some s \<Longrightarrow>
     session_of (snd (set_session_state sid to m)) sid = Some (if session_legal (s_state s) to then s\<lparr>s_state := to\<rparr> else s)"
  by (simp add: set_session_state_def session_of_modify)

lemma set_session_state_epoch [simp]: "m_outputs_epoch (snd (set_session_state sid to m)) = m_outputs_epoch m"
  by (simp add: set_session_state_def modify_session_def log_msg_def push_def split: option.split)

lemma stage_effect_epoch [simp]: "m_outputs_epoch (stage_effect sid st m) = m_outputs_epoch m"
  by (simp add: stage_effect_def modify_session_def split: stage.split)

lemma step_ready_is_complete:
  assumes "session_of m sid = Some s" "launching s" "session_pending s = Some st"
    "evaluate m s st names = Eval_Reached" "reach_stage sid st m = (True, m')"
  shows "ready_is_complete sid (stage_effect sid st m')"
proof -
  obtain p p' where p: "s_progress s = Some p" "progress_pending p = Some st" "pm_reached p' = pm_reached p @ [st]"
    "session_of m' sid = Some (s\<lparr>s_progress := Some p'\<rparr>)" "m_outputs_epoch m' = m_outputs_epoch m"
    using reach_stage_result [OF assms(5,1)] by blast
  have nr: "s_state s \<noteq> St_ReadyBackground" using assms(2) by (auto simp: launching_def launching_state_def)
  show ?thesis
  proof (cases "st = Stg_ReadyToReveal")
    case True
    have "la_configured_epoch (s_launch s) = Some (m_outputs_epoch m)"
      using assms(4) True by (simp add: evaluate_def eval_when_def Let_def split: if_splits)
    then show ?thesis
      using p True nr last_stage_all_others [of p p']
      by (auto simp: ready_is_complete_def launch_complete_def stage_effect_def set_session_state_of [OF p(4)])
  next
    case False
    have "session_of (modify_session sid f m') sid = Some (f (s\<lparr>s_progress := Some p'\<rparr>))" for f
      using p(4) by (simp add: session_of_modify)
    note mod = set_session_state_of [OF this]
    show ?thesis
      using False p(4) nr
      by (cases st)
        (auto simp: ready_is_complete_def stage_effect_def mod set_session_state_of [OF p(4)] split: if_splits)
  qed
qed

lemma launch_loop_complete: "ready_is_complete sid m \<Longrightarrow> ready_is_complete sid (launch_loop sid names m)"
proof (induction sid names m rule: launch_loop.induct)
  case (1 sid names m)
  show ?case
  proof (cases "\<exists>s st m'. session_of m sid = Some s \<and> launching s \<and> session_pending s = Some st \<and>
      evaluate m s st names = Eval_Reached \<and> reach_stage sid st m = (True, m')")
    case True
    then obtain s st m' where s: "session_of m sid = Some s" "launching s" "session_pending s = Some st"
      "evaluate m s st names = Eval_Reached" "reach_stage sid st m = (True, m')" by blast
    then have "launch_loop sid names m = launch_loop sid names (stage_effect sid st m')"
      by (subst launch_loop.simps) simp
    moreover have "ready_is_complete sid (launch_loop sid names (stage_effect sid st m'))"
      using 1(1) [OF s(1) _ s(3,4) s(5) [symmetric]] s step_ready_is_complete [OF s] by simp
    ultimately show ?thesis by simp
  next
    case False
    have count: "ready_is_complete sid (modify_session sid f m)"
      if "session_of m sid = Some s" "launching s" "\<And>s. s_state (f s) = s_state s" for f s
      using that by (auto simp: ready_is_complete_def session_of_modify launching_def launching_state_def)
    have same: "reach_stage sid st m = (False, m') \<Longrightarrow> m' = m" for st m'
      by (auto simp: reach_stage_def progress_reach_def modify_session_def session_of_def btm_modify_def
          split: option.splits prod.splits if_splits)
    show ?thesis
      using False 1(2)
      by (subst launch_loop.simps)
        (auto split: option.split eval.split prod.split intro!: count dest: same)
  qed
qed

text \<open>
  C34. A launch makes a session ready to be shown only when it has gone through every stage of the
  documented order and its outputs were configured for the displays as they are now.
\<close>

theorem ready_needs_every_stage:
  assumes "session_of m sid = Some s" "launching s" "session_of (launch_loop sid names m) sid = Some s'"
    "s_state s' = St_ReadyBackground"
  shows "launch_complete (launch_loop sid names m) s'"
proof -
  have "ready_is_complete sid m"
    using assms(1,2) by (auto simp: ready_is_complete_def launching_def launching_state_def)
  from launch_loop_complete [OF this, of names] assms(3,4) show ?thesis
    by (simp add: ready_is_complete_def)
qed

definition launching_demo :: manager where
  "launching_demo = (manager_new policy_default (\<lambda>_. 1))\<lparr>m_sessions :=
     [(''s1'', (new_session ''s1'' 7 1000 ''a'' 3)
        \<lparr>s_state := St_OutputReady,
         s_progress := Some ((progress_new ''s1'' 7)\<lparr>pm_reached := butlast stage_all\<rparr>),
         s_launch := launch_default\<lparr>la_configured_epoch := Some 0\<rparr>\<rparr>)]\<rparr>"

theorem ready_needs_every_stage_witness:
  "\<exists>s. session_of (launch_loop ''s1'' [''eDP-1''] launching_demo) ''s1'' = Some s \<and>
     launch_complete (launch_loop ''s1'' [''eDP-1''] launching_demo) s"
proof -
  have "is_some_and (session_of launching_demo ''s1'') launching"
    "is_some_and (session_of (launch_loop ''s1'' [''eDP-1''] launching_demo) ''s1'') (\<lambda>s. s_state s = St_ReadyBackground)"
    by code_simp+
  then obtain s s' where "session_of launching_demo ''s1'' = Some s" "launching s"
    "session_of (launch_loop ''s1'' [''eDP-1''] launching_demo) ''s1'' = Some s'" "s_state s' = St_ReadyBackground"
    by (auto simp: is_some_and_iff)
  then show ?thesis using ready_needs_every_stage by blast
qed

section \<open>The reveal gate\<close>

text \<open>
  C33. The transition that shows a desktop begins only through the gate: the operation is a reveal past its
  authentication, its session is there in the same generation and may be shown, the greeter is on
  screen and connected, and every output has an acknowledged surface with a presented frame, newer
  than any the session had presented before the unlock.
\<close>

theorem reveal_gate:
  assumes "m_op m = Some x" "\<not> o_began x" "m_op (try_reveal m) = Some y" "o_began y"
  shows "\<exists>sid gn s. o_kind x = Op_Reveal \<and> o_tstate x = Tr_WaitingForFrames \<and> o_session x = Some (sid, gn) \<and>
    session_of m sid = Some s \<and> s_generation s = gn \<and> is_revealable (s_state s) \<and> g_wayland (m_greeter m) \<and>
    greeter_authoritative m \<and> s_host_connected s \<and> m_outputs m \<noteq> [] \<and>
    (\<forall>out \<in> set (m_outputs m).
       (\<exists>e \<in> set (s_surfaces s). ev_output e = out_name out \<and> ev_acked e \<and> ev_presented_frames e \<ge> 1) \<and>
       (\<forall>base. s_evidence_base s = Some base \<longrightarrow>
          (\<exists>e. evidence_for s (out_name out) = Some e \<and> ev_presented_frames e > unwrap_or (btm_get base (out_name out)) 0)))"
proof -
  from assms obtain sid gn s where g: "o_kind x = Op_Reveal" "o_tstate x = Tr_WaitingForFrames" "o_session x = Some (sid, gn)"
    "session_gen m sid gn = Some s" "is_revealable (s_state s)" "g_wayland (m_greeter m)" "greeter_authoritative m"
    "surfaces_ready m s"
    by (auto simp: try_reveal_def fail_launch_ready_def Let_def split: if_splits option.splits)
  then show ?thesis
    by (auto simp: session_gen_def surfaces_ready_def is_none_or_iff is_some_and_iff list_all_iff list_ex_iff)
qed

definition demo_display :: output_info where
  "demo_display =
     \<lparr>out_name = ''eDP-1'', out_x = 0, out_y = 0, out_width = 1920, out_height = 1080,
      out_scale_120 = 120, out_refresh_mhz = 60000, out_transform = 0\<rparr>"

definition gate_demo :: manager where
  "gate_demo =
     (let m = manager_new policy_default (\<lambda>_. 1);
          s = (new_session ''s1'' 7 1000 ''a'' 3)\<lparr>s_state := St_LockedBackground, s_host_connected := True,
                s_surfaces := [\<lparr>ev_output = ''eDP-1'', ev_configure_serial = 1, ev_acked = True, ev_presented_frames = 5\<rparr>],
                s_evidence_base := Some [(''eDP-1'', 4)]\<rparr>
      in m\<lparr>m_sessions := [(''s1'', s)], m_protected := {''s1''},
           m_greeter := (m_greeter m)\<lparr>g_wayland := True\<rparr>,
           m_outputs := [demo_display],
           m_op := Some ((fresh_operation Op_Reveal Req_Greeter (Some (''s1'', 7)) m)\<lparr>o_tstate := Tr_WaitingForFrames\<rparr>)\<rparr>)"

theorem reveal_gate_witness:
  "\<exists>x y. m_op gate_demo = Some x \<and> m_op (try_reveal gate_demo) = Some y \<and> o_began y \<and> o_kind x = Op_Reveal \<and>
     greeter_authoritative gate_demo"
proof -
  have "is_some_and (m_op gate_demo) (\<lambda>x. \<not> o_began x)" "is_some_and (m_op (try_reveal gate_demo)) o_began"
    by code_simp+
  then obtain x y where "m_op gate_demo = Some x" "\<not> o_began x" "m_op (try_reveal gate_demo) = Some y" "o_began y"
    by (auto simp: is_some_and_iff)
  with reveal_gate [OF this] show ?thesis by blast
qed

section \<open>Locking\<close>

lemma begin_cleanup_other: "sid' \<noteq> sid \<Longrightarrow> session_of (begin_cleanup sid to m) sid' = session_of m sid'"
  by (simp add: begin_cleanup_def set_session_state_def set_input_owner_def session_of_def modify_session_def
      push_def log_msg_def Let_def split: option.split)

lemma fail_challenge_sessions [simp]: "m_sessions (fail_challenge code msg m) = m_sessions m"
  by (simp add: fail_challenge_def op_end_failed_def Let_def split: option.split)

lemma interrupt_keeps_session:
  assumes "session_of m sid = Some s" "\<not> launching s"
  shows "session_of (snd (interrupt_current m)) sid = Some s"
proof -
  have "session_of (begin_cleanup sid' to m) sid = Some s"
    if "is_some_and (session_of m sid') (\<lambda>s. s_generation s = gn \<and> launching s)" for sid' gn to
    using that assms begin_cleanup_other [of sid sid'] by (cases "sid' = sid") auto
  moreover have "session_of (op_cancelled n) sid = session_of n sid" "session_of (fail_challenge code msg n) sid = session_of n sid"
    "session_of (cancel_power_checks n) sid = session_of n sid" for n code msg
    by (simp_all add: session_of_def cancel_power_checks_def split: option.split)
  ultimately show ?thesis
    using assms(1)
    by (auto simp: interrupt_current_def cancel_immediate_def split: option.split op_kind.split)
qed

lemma begin_protect_session:
  assumes "session_of m sid = Some s" "s_state s = St_Foreground"
  shows "session_of (begin_protect sid gn m) sid = Some (s\<lparr>s_state := St_LockRequested\<rparr>)"
    "m_input_owner (begin_protect sid gn m) \<noteq> Own_Session sid"
  using assms
  by (auto simp: begin_protect_def set_session_state_def session_of_modify session_legal_def Let_def)

text \<open>
  A lock that is accepted takes the desktop away at once: before the request returns the session is
  LockRequested, it no longer owns the input, and the operation waits for the compositor to
  acknowledge the protection of exactly this session.
\<close>

theorem lock_takes_effect_at_once:
  assumes "request_lock req sid kind m = (Inr oid, m')" "session_of m sid = Some s"
  shows "\<exists>s' x. session_of m' sid = Some s' \<and> s_state s' = St_LockRequested \<and> m_input_owner m' \<noteq> Own_Session sid \<and>
    m_op m' = Some x \<and> o_id x = oid \<and> o_kind x = kind \<and> (sid, s_generation s) \<in> o_waiting_protect x"
proof -
  from assms obtain n where fg: "s_state s = St_Foreground" and n: "interrupt_current m = (Inr (), n)"
    by (auto simp: request_lock_def split: if_splits sum.splits prod.splits)
  have "session_of n sid = Some s"
    using interrupt_keeps_session [OF assms(2)] fg n by (simp add: launching_def launching_state_def)
  define k where "k = snd (op_set (Some Ph_Preparing) (Some Tr_WaitingForFrames) (snd (new_operation kind req (Some (sid, s_generation s)) n)))"
  define k' where "k' = modify_op (\<lambda>x. x\<lparr>o_waiting_protect := insert (sid, s_generation s) (o_waiting_protect x)\<rparr>) k"
  obtain x where x: "m_op k = Some x" "o_id x = m_next_op n" "o_kind x = kind"
    using op_set_op [of "Some Ph_Preparing" "Some Tr_WaitingForFrames" "snd (new_operation kind req (Some (sid, s_generation s)) n)"]
    by (auto simp: k_def)
  have ks: "session_of k' sid = Some s"
    using \<open>session_of n sid = Some s\<close> by (simp add: k'_def k_def session_of_def modify_op_def)
  from assms n fg have m': "oid = m_next_op n"
    "m' = begin_protect sid (s_generation s)
       (if kind = Op_SwitchUser then k'\<lparr>m_selected_uid := Some (s_uid s), m_switching_user := True\<rparr>
        else k'\<lparr>m_selected_uid := Some (s_uid s)\<rparr>)"
    by (auto simp: request_lock_def k'_def k_def Let_def new_operation_def split: sum.splits)
  let ?k = "if kind = Op_SwitchUser then k'\<lparr>m_selected_uid := Some (s_uid s), m_switching_user := True\<rparr>
        else k'\<lparr>m_selected_uid := Some (s_uid s)\<rparr>"
  have "session_of ?k sid = Some s" using ks by (simp add: session_of_def)
  from begin_protect_session [OF this fg] x show ?thesis
    by (auto simp: m' k'_def modify_op_def)
qed

theorem lock_takes_effect_at_once_witness:
  "\<exists>s'. session_of (snd (request_lock Req_Root ''s1'' Op_Lock (modify_session ''s1'' (\<lambda>s. s\<lparr>s_state := St_Foreground\<rparr>) launching_demo))) ''s1'' = Some s' \<and>
     s_state s' = St_LockRequested"
proof -
  let ?m = "modify_session ''s1'' (\<lambda>s. s\<lparr>s_state := St_Foreground\<rparr>) launching_demo"
  have "case request_lock Req_Root ''s1'' Op_Lock ?m of (Inr _, _) \<Rightarrow> True | _ \<Rightarrow> False" by code_simp
  then obtain oid m' where r: "request_lock Req_Root ''s1'' Op_Lock ?m = (Inr oid, m')"
    by (auto split: sum.splits)
  have "session_of ?m ''s1'' \<noteq> None" by code_simp
  then obtain s where "session_of ?m ''s1'' = Some s" by blast
  from lock_takes_effect_at_once [OF r this] r show ?thesis by auto
qed

section \<open>History\<close>

lemma trim_front_eq: "trim_front n xs = drop (length xs - n) xs"
  by (induction n xs rule: trim_front.induct) (auto simp: Suc_diff_le)

text \<open>
  The history keeps exactly the most recent operations, at most as many as the policy says, the new
  one last.
\<close>

lemma history_keeps_newest:
  "m_history (push_history i m) = drop (Suc (length (m_history m)) - pol_history_len (m_policy m)) (m_history m @ [i]) \<and>
   length (m_history (push_history i m)) \<le> pol_history_len (m_policy m)"
  by (simp add: push_history_def trim_front_eq)

end
