(* ===== verification/Settle_Theorems.thy ===== *)
theory Settle_Theorems
  imports Refine_Manager
begin

text \<open>
  Claims about \<^verbatim>\<open>handle\<close> as a whole that are not about security: it always returns, and what it
  publishes is published once.
\<close>

section \<open>Publication reaches a fixed point\<close>

text \<open>The fields that every view of the state is computed from. Publication changes none of them.\<close>

definition same_views :: "manager \<Rightarrow> manager \<Rightarrow> bool" where
  "same_views m n \<longleftrightarrow>
     m_policy n = m_policy m \<and> m_sessions n = m_sessions m \<and> m_users n = m_users m \<and> m_op n = m_op m \<and>
     m_selected_uid n = m_selected_uid m \<and> m_last_used_uid n = m_last_used_uid m \<and>
     m_foreground n = m_foreground m \<and> m_retained_failure n = m_retained_failure m \<and>
     m_greeter n = m_greeter m \<and> m_compositor_ready n = m_compositor_ready m \<and>
     m_switching_user n = m_switching_user m \<and> m_input_owner n = m_input_owner m \<and> m_seat n = m_seat m \<and>
     m_shutting_down n = m_shutting_down m"

lemma same_views_refl [simp]: "same_views m m"
  by (simp add: same_views_def)

lemma same_views_trans: "same_views m n \<Longrightarrow> same_views n k \<Longrightarrow> same_views m k"
  by (simp add: same_views_def)

lemma session_of_views: "same_views m n \<Longrightarrow> session_of n = session_of m"
  by (simp add: same_views_def session_of_def fun_eq_iff)

lemma running_session_views: "same_views m n \<Longrightarrow> running_session n = running_session m"
  by (simp add: same_views_def running_session_def fun_eq_iff)

lemma any_session_views: "same_views m n \<Longrightarrow> any_session P n = any_session P m"
  by (simp add: same_views_def any_session_def)

lemma greeter_target_views: "same_views m n \<Longrightarrow> greeter_target n = greeter_target m"
  by (simp add: same_views_def greeter_target_def)

lemma power_committed_views: "same_views m n \<Longrightarrow> power_committed n = power_committed m"
  by (simp add: same_views_def power_committed_def)

lemma seat_by_sessions_views: "same_views m n \<Longrightarrow> seat_by_sessions n = seat_by_sessions m"
  using any_session_views [of m n] greeter_target_views [of m n]
  by (simp add: same_views_def seat_by_sessions_def)

lemma same_viewsD:
  assumes "same_views m n"
  shows "m_op n = m_op m" "m_compositor_ready n = m_compositor_ready m" "m_retained_failure n = m_retained_failure m"
    "m_selected_uid n = m_selected_uid m" "m_foreground n = m_foreground m" "m_users n = m_users m" "m_policy n = m_policy m"
  using assms by (simp_all add: same_views_def)

lemma compute_seat_views: "same_views m n \<Longrightarrow> compute_seat n = compute_seat m"
  unfolding compute_seat_def
  by (simp only: same_viewsD [of m n] power_committed_views [of m n] seat_by_sessions_views [of m n] cong: option.case_cong)

lemma availability_of_views: "same_views m n \<Longrightarrow> availability_of n = availability_of m"
  using running_session_views [of m n] any_session_views [of m n]
  by (simp add: availability_of_def fun_eq_iff split: option.split)

lemma progress_view_views: "same_views m n \<Longrightarrow> progress_view n = progress_view m"
  unfolding progress_view_def by (simp only: same_viewsD [of m n] session_of_views [of m n])

lemma build_snapshot_views: "same_views m n \<Longrightarrow> build_snapshot n = build_snapshot m"
  unfolding build_snapshot_def
  by (simp only: same_viewsD [of m n] availability_of_views [of m n] greeter_target_views [of m n] progress_view_views [of m n])

lemma list_views:
  "same_views m n \<Longrightarrow> persisted_view n = persisted_view m"
  "same_views m n \<Longrightarrow> session_summaries n = session_summaries m"
  "same_views m n \<Longrightarrow> running_view f n = running_view f m"
  by (simp_all add: same_views_def persisted_view_def session_summaries_def running_view_def)

lemmas views_same = session_of_views compute_seat_views progress_view_views build_snapshot_views list_views

text \<open>What has been published agrees with the state.\<close>

definition up_to_date :: "manager \<Rightarrow> published \<Rightarrow> bool" where
  "up_to_date m b \<longleftrightarrow>
     pub_persisted b = Some (persisted_view m) \<and> pub_sessions b = session_summaries m \<and>
     pub_selected b = m_selected_uid m \<and>
     pub_foreground b = map_option (\<lambda>s. (s_id s, s_generation s)) (Option.bind (m_foreground m) (session_of m)) \<and>
     pub_locked b = running_view (\<lambda>s. is_protected (s_state s)) m \<and> pub_ready b = running_view (\<lambda>s. \<not> launching s) m \<and>
     pub_progress b = map_option (\<lambda>p. (pm_session p, pm_generation p, pm_revision p)) (progress_view m) \<and>
     pub_snapshot b = Some (build_snapshot m)"

lemma fold_cond_push:
  assumes "\<And>x n. f x n = n \<or> (\<exists>e. f x n = push e n)"
  shows "\<exists>es. fold f xs m = m\<lparr>m_fx := m_fx m @ es\<rparr>"
proof (induction xs arbitrary: m)
  case Nil
  then show ?case by (auto intro!: exI [of _ "[]"])
next
  case (Cons x xs)
  from Cons [of "f x m"] obtain es where "fold f xs (f x m) = (f x m)\<lparr>m_fx := m_fx (f x m) @ es\<rparr>" by blast
  with assms [of x m] show ?case
    by (auto simp: push_def)
qed

lemma settle_persist_eq:
  "same_views m (settle_persist m) \<and> m_published (settle_persist m) = (m_published m)\<lparr>pub_persisted := Some (persisted_view m)\<rparr>"
  by (auto simp: settle_persist_def modify_published_def push_def same_views_def Let_def)

lemma settle_sessions_eq:
  "same_views m (settle_sessions m) \<and> m_published (settle_sessions m) = (m_published m)\<lparr>pub_sessions := session_summaries m\<rparr>"
  by (auto simp: settle_sessions_def modify_published_def push_def same_views_def Let_def)

lemma settle_selected_eq:
  "same_views m (settle_selected m) \<and> m_published (settle_selected m) = (m_published m)\<lparr>pub_selected := m_selected_uid m\<rparr>"
  by (auto simp: settle_selected_def modify_published_def push_def same_views_def Let_def)

lemma settle_foreground_eq:
  "same_views m (settle_foreground m) \<and> m_published (settle_foreground m) = (m_published m)\<lparr>pub_foreground := map_option (\<lambda>s. (s_id s, s_generation s)) (Option.bind (m_foreground m) (session_of m))\<rparr>"
  by (auto simp: settle_foreground_def modify_published_def push_def same_views_def Let_def)

lemma settle_locks_eq:
  "same_views m (settle_locks m) \<and> m_published (settle_locks m) = (m_published m)\<lparr>pub_locked := running_view (\<lambda>s. is_protected (s_state s)) m\<rparr>"
proof -
  let ?l = "running_view (\<lambda>s. is_protected (s_state s)) m" and ?w = "pub_locked (m_published m)"
  let ?f = "\<lambda>(sid, l) n. if btm_get ?w sid \<noteq> Some l \<and> (l \<or> btm_contains ?w sid) then push (Fx_Dbus (Sig_LockStateChanged sid l)) n else n"
  let ?g = "\<lambda>(sid, w) n. if w \<and> \<not> btm_contains ?l sid then push (Fx_Dbus (Sig_LockStateChanged sid False)) n else n"
  obtain es1 where 1: "fold ?f ?l m = m\<lparr>m_fx := m_fx m @ es1\<rparr>" using fold_cond_push [of ?f ?l m] by fastforce
  obtain es2 where 2: "fold ?g ?w (m\<lparr>m_fx := m_fx m @ es1\<rparr>) = (m\<lparr>m_fx := m_fx m @ es1\<rparr>)\<lparr>m_fx := (m_fx m @ es1) @ es2\<rparr>"
    using fold_cond_push [of ?g ?w "m\<lparr>m_fx := m_fx m @ es1\<rparr>"] by fastforce
  show ?thesis
    unfolding settle_locks_def Let_def 1 2 by (simp add: modify_published_def same_views_def)
qed

lemma settle_ready_eq:
  "same_views m (settle_ready m) \<and> m_published (settle_ready m) = (m_published m)\<lparr>pub_ready := running_view (\<lambda>s. \<not> launching s) m\<rparr>"
proof -
  let ?f = "\<lambda>(sid, r) n. if btm_get (pub_ready (m_published n)) sid \<noteq> Some r
     then push (Fx_Dbus (Sig_SessionReadinessChanged sid (unwrap_or (map_option s_generation (session_of n sid)) 0) r)) n else n"
  obtain es1 where 1: "fold ?f (running_view (\<lambda>s. \<not> launching s) m) m = m\<lparr>m_fx := m_fx m @ es1\<rparr>"
    using fold_cond_push [of ?f "running_view (\<lambda>s. \<not> launching s) m" m] by fastforce
  show ?thesis
    unfolding settle_ready_def Let_def 1 by (simp add: modify_published_def same_views_def)
qed

lemma settle_progress_eq:
  "same_views m (settle_progress m) \<and> m_published (settle_progress m) = (m_published m)\<lparr>pub_progress := map_option (\<lambda>p. (pm_session p, pm_generation p, pm_revision p)) (progress_view m)\<rparr>"
  by (auto simp: settle_progress_def modify_published_def push_def same_views_def Let_def split: option.split)

lemma settle_snapshot_eq:
  "same_views m (settle_snapshot m) \<and> m_published (settle_snapshot m) = (m_published m)\<lparr>pub_snapshot := Some (build_snapshot m)\<rparr>"
  by (auto simp: settle_snapshot_def modify_published_def push_def same_views_def Let_def)

text \<open>The publishing half of \<^verbatim>\<open>settle\<close>, after the input owner and the seat are fixed.\<close>

definition publish :: "manager \<Rightarrow> manager" where
  "publish m = settle_snapshot (settle_progress (settle_ready (settle_locks (settle_foreground
     (settle_selected (settle_sessions (settle_persist m)))))))"

lemma publish_up_to_date: "same_views m (publish m) \<and> up_to_date m (m_published (publish m))"
proof -
  define m1 where "m1 = settle_persist m"
  define m2 where "m2 = settle_sessions m1"
  define m3 where "m3 = settle_selected m2"
  define m4 where "m4 = settle_foreground m3"
  define m5 where "m5 = settle_locks m4"
  define m6 where "m6 = settle_ready m5"
  define m7 where "m7 = settle_progress m6"
  have 1: "same_views m m1 \<and> m_published m1 = (m_published m)\<lparr>pub_persisted := Some (persisted_view m)\<rparr>"
    unfolding m1_def by (rule settle_persist_eq)
  have 2: "same_views m m2 \<and> m_published m2 = (m_published m1)\<lparr>pub_sessions := session_summaries m\<rparr>"
    using settle_sessions_eq [of m1] 1 views_same(6) [of m m1] unfolding m2_def by (auto elim: same_views_trans)
  have 3: "same_views m m3 \<and> m_published m3 = (m_published m2)\<lparr>pub_selected := m_selected_uid m\<rparr>"
    using settle_selected_eq [of m2] 2 same_viewsD(4) [of m m2] unfolding m3_def by (auto elim: same_views_trans)
  have 4: "same_views m m4 \<and> m_published m4 = (m_published m3)
      \<lparr>pub_foreground := map_option (\<lambda>s. (s_id s, s_generation s)) (Option.bind (m_foreground m) (session_of m))\<rparr>"
    using settle_foreground_eq [of m3] 3 same_viewsD(5) [of m m3] session_of_views [of m m3] unfolding m4_def by (auto elim: same_views_trans)
  have 5: "same_views m m5 \<and> m_published m5 = (m_published m4)\<lparr>pub_locked := running_view (\<lambda>s. is_protected (s_state s)) m\<rparr>"
    using settle_locks_eq [of m4] 4 list_views(3) [of m m4 "\<lambda>s. is_protected (s_state s)"] unfolding m5_def by (auto elim: same_views_trans)
  have 6: "same_views m m6 \<and> m_published m6 = (m_published m5)\<lparr>pub_ready := running_view (\<lambda>s. \<not> launching s) m\<rparr>"
    using settle_ready_eq [of m5] 5 list_views(3) [of m m5 "\<lambda>s. \<not> launching s"] unfolding m6_def by (auto elim: same_views_trans)
  have 7: "same_views m m7 \<and> m_published m7 = (m_published m6)
      \<lparr>pub_progress := map_option (\<lambda>p. (pm_session p, pm_generation p, pm_revision p)) (progress_view m)\<rparr>"
    using settle_progress_eq [of m6] 6 progress_view_views [of m m6] unfolding m7_def by (auto elim: same_views_trans)
  have 8: "same_views m (publish m) \<and> m_published (publish m) = (m_published m7)\<lparr>pub_snapshot := Some (build_snapshot m)\<rparr>"
    using settle_snapshot_eq [of m7] 7 build_snapshot_views [of m m7]
    unfolding publish_def m1_def [symmetric] m2_def [symmetric] m3_def [symmetric] m4_def [symmetric]
      m5_def [symmetric] m6_def [symmetric] m7_def [symmetric]
    by (auto elim: same_views_trans)
  then show ?thesis
    using 1 2 3 4 5 6 7 by (simp add: up_to_date_def)
qed

lemma fold_id: "(\<And>x. x \<in> set xs \<Longrightarrow> f x m = m) \<Longrightarrow> fold f xs m = m"
  by (induction xs) simp_all

lemma running_view_wf: "btm_wf (running_view f m)"
proof -
  have "btm_wf acc \<Longrightarrow> btm_wf (fold (\<lambda>s. btm_insert (s_id s) (f s)) xs acc)" for xs acc
    by (induction xs arbitrary: acc) simp_all
  then show ?thesis by (simp add: running_view_def)
qed

lemma publish_fixed:
  assumes "up_to_date m (m_published m)"
  shows "publish m = m"
proof -
  let ?l = "running_view (\<lambda>s. is_protected (s_state s)) m" and ?r = "running_view (\<lambda>s. \<not> launching s) m"
  have pub: "pub_locked (m_published m) = ?l" "pub_ready (m_published m) = ?r"
    using assms by (simp_all add: up_to_date_def)
  have look: "(sid, v) \<in> set (running_view f m) \<Longrightarrow> btm_get (running_view f m) sid = Some v" for sid v and f :: "session \<Rightarrow> bool"
    by (simp add: btm.entries_lookup [OF running_view_wf])
  have same: "m\<lparr>m_published := (m_published m)\<lparr>pub_locked := ?l\<rparr>\<rparr> = m" "m\<lparr>m_published := (m_published m)\<lparr>pub_ready := ?r\<rparr>\<rparr> = m"
    unfolding pub [symmetric] by simp_all
  have "settle_locks m = m"
    unfolding settle_locks_def Let_def pub
    by (subst fold_id, auto simp: look btm_contains_def)+ (simp add: modify_published_def same)
  moreover have "settle_ready m = m"
    unfolding settle_ready_def Let_def
    by (subst fold_id, auto simp: pub look) (simp add: modify_published_def same)
  moreover have "settle_persist m = m" "settle_sessions m = m" "settle_selected m = m" "settle_foreground m = m"
    "settle_progress m = m" "settle_snapshot m = m"
    using assms
    by (simp_all add: up_to_date_def settle_persist_def settle_sessions_def settle_selected_def settle_foreground_def
        settle_progress_def settle_snapshot_def Let_def)
  ultimately show ?thesis by (simp add: publish_def)
qed

lemma settle_publish: "settle m = publish ((settle_input m)\<lparr>m_seat := compute_seat (settle_input m)\<rparr>)"
  by (simp add: settle_def publish_def Let_def)

lemma up_to_date_views: "same_views m n \<Longrightarrow> up_to_date m b \<Longrightarrow> up_to_date n b"
  unfolding up_to_date_def
  by (simp only: views_same(1) [of m n] views_same(3-) [of m n] same_viewsD(4,5) [of m n])

lemma compute_seat_seat [simp]: "compute_seat (m\<lparr>m_seat := x\<rparr>) = compute_seat m"
proof -
  have "seat_by_sessions (m\<lparr>m_seat := x\<rparr>) = seat_by_sessions m"
    by (simp add: seat_by_sessions_def any_session_def greeter_target_def)
  then show ?thesis
    unfolding compute_seat_def power_committed_def by (simp cong: option.case_cong if_cong op_kind.case_cong)
qed

lemma compute_seat_shutting: "compute_seat m = Seat_ShuttingDown \<longleftrightarrow> power_committed m"
  by (auto simp: compute_seat_def seat_by_sessions_def split: option.split op_kind.split)

definition wants_greeter_input :: "manager \<Rightarrow> bool" where
  "wants_greeter_input m \<longleftrightarrow>
     g_wayland (m_greeter m) \<and> m_input_owner m = Own_None \<and> greeter_authoritative m
     \<and> \<not> power_committed m \<and> \<not> is_some_and (m_op m) (\<lambda>o1. o_pending_fail o1 \<noteq> None)
     \<and> \<not> any_session (\<lambda>s. s_state s = St_LockRequested) m"

lemma settle_input_eq: "settle_input m = (if wants_greeter_input m then set_input_owner Own_Greeter m else m)"
  by (simp add: settle_input_def wants_greeter_input_def)

lemma wants_greeter_input_views: "same_views m n \<Longrightarrow> wants_greeter_input n = wants_greeter_input m"
  using power_committed_views [of m n] any_session_views [of m n]
  by (auto simp: wants_greeter_input_def greeter_authoritative_def same_views_def)

text \<open>
  Publishing is idempotent: a second round with nothing in between sends no effect and changes
  nothing, so every change is announced exactly once. (After a shutdown that was called off the
  seat is recomputed first, which is why that case is excluded.)
\<close>

theorem settle_idempotent:
  assumes "m_seat m = Seat_ShuttingDown \<longrightarrow> power_committed m"
  shows "settle (settle m) = settle m"
proof -
  define n where "n = (settle_input m)\<lparr>m_seat := compute_seat (settle_input m)\<rparr>"
  define k where "k = settle m"
  have k: "same_views n k" "up_to_date n (m_published k)"
    using publish_up_to_date [of n] by (simp_all add: k_def settle_publish n_def)
  have "\<not> wants_greeter_input n"
  proof (cases "wants_greeter_input m")
    case True
    then show ?thesis by (simp add: wants_greeter_input_def n_def settle_input_eq)
  next
    case False
    with assms compute_seat_shutting [of m] show ?thesis
      by (auto simp: n_def settle_input_eq wants_greeter_input_def greeter_authoritative_def power_committed_def any_session_def)
  qed
  then have inp: "settle_input k = k"
    using wants_greeter_input_views [OF k(1)] by (simp add: settle_input_eq)
  have "m_seat k = compute_seat k"
    using k(1) compute_seat_views [OF k(1)] by (simp add: same_views_def n_def)
  then have seat: "k\<lparr>m_seat := compute_seat k\<rparr> = k" by simp
  have "settle k = publish k"
    unfolding settle_publish inp seat ..
  also have "\<dots> = k"
    by (rule publish_fixed [OF up_to_date_views [OF k]])
  finally show ?thesis by (simp add: k_def)
qed

theorem settle_idempotent_witness:
  "settle (settle (manager_new policy_default (\<lambda>_. 1))) = settle (manager_new policy_default (\<lambda>_. 1))"
  by (rule settle_idempotent) (simp add: manager_new_def)

section \<open>Every input is answered\<close>

lemma rng_push [simp]: "m_rng (push e m) = m_rng m" "m_rng (log_msg l s t m) = m_rng m"
  by (simp_all add: push_def log_msg_def)

lemma rng_modify [simp]:
  "m_rng (modify_session sid f m) = m_rng m" "m_rng (modify_op g m) = m_rng m" "m_rng (modify_greeter h m) = m_rng m"
  "m_rng (push_history i m) = m_rng m"
  by (simp_all add: modify_session_def modify_op_def modify_greeter_def push_history_def)

lemma rng_emit [simp]: "m_rng (emit_op m) = m_rng m"
  by (simp add: emit_op_def split: option.split)

lemma rng_state [simp]:
  "m_rng (snd (set_session_state sid st m)) = m_rng m" "m_rng (snd (op_set p t m)) = m_rng m"
  by (simp_all add: set_session_state_def op_set_def Let_def split: option.split)

lemma rng_op_finish [simp]: "m_rng (op_finish p t r m) = m_rng m"
  by (simp add: op_finish_def drop_challenge_of_def Let_def split: option.split)

lemma rng_op_ends [simp]:
  "m_rng (op_fail code m) = m_rng m" "m_rng (op_cancelled m) = m_rng m" "m_rng (op_abort code m) = m_rng m"
  "m_rng (op_end_failed oid code m) = m_rng m"
  by (simp_all add: op_fail_def op_cancelled_def op_abort_def op_end_failed_def Let_def split: option.split)

lemma rng_cleanup [simp]: "m_rng (begin_cleanup sid st m) = m_rng m"
  by (auto simp: begin_cleanup_def set_input_owner_def set_session_state_def Let_def split: option.split)

lemma rng_cancel [simp]:
  "m_rng (fail_challenge code msg m) = m_rng m" "m_rng (cancel_power_checks m) = m_rng m" "m_rng (cancel_immediate m) = m_rng m"
proof -
  show *: "m_rng (fail_challenge code msg m) = m_rng m" for code msg m
    by (simp add: fail_challenge_def Let_def split: option.split)
  show **: "m_rng (cancel_power_checks m) = m_rng m" for m
    by (simp add: cancel_power_checks_def split: option.split)
  show "m_rng (cancel_immediate m) = m_rng m"
    by (simp add: cancel_immediate_def * ** split: option.split op_kind.split)
qed

lemma rng_try_reveal [simp]: "m_rng (try_reveal m) = m_rng m"
  by (auto simp: try_reveal_def fail_launch_ready_def begin_transition_def Let_def split: option.split)

lemma rng_arm [simp]: "m_rng (arm_stage_timer sid m) = m_rng m"
  by (auto simp: arm_stage_timer_def Let_def split: option.split)

lemma rng_reach: "reach_stage sid st m = (ok, m') \<Longrightarrow> m_rng m' = m_rng m"
  by (auto simp: reach_stage_def split: option.splits prod.splits if_splits)

lemma rng_stage_effect [simp]: "m_rng (stage_effect sid st m) = m_rng m"
  by (simp add: stage_effect_def split: stage.split)

lemma rng_launch_loop [simp]: "m_rng (launch_loop sid names m) = m_rng m"
proof (induction sid names m rule: launch_loop.induct)
  case (1 sid names m)
  then show ?case
    by (subst launch_loop.simps) (auto dest: rng_reach split: option.split eval.split prod.split)
qed

lemma rng_launch [simp]: "m_rng (advance_launch sid m) = m_rng m" "m_rng (fail_launch sid gn code msg m) = m_rng m"
  by (auto simp: advance_launch_def fail_launch_def Let_def split: option.split)

lemma rng_fold: "(\<And>x m. m_rng (f x m) = m_rng m) \<Longrightarrow> m_rng (fold f xs m) = m_rng m"
  by (induction xs arbitrary: m) simp_all

lemma rng_update_outputs [simp]: "m_rng (update_outputs outs m) = m_rng m"
  by (auto simp: update_outputs_def on_outputs_changed_def Let_def rng_fold split: prod.split)

lemma maybe_spawn_greeter_some:
  assumes "fair_rng (m_rng m)"
  shows "\<exists>m'. maybe_spawn_greeter m = Some m'"
  using alloc_generation_some [OF assms] by (auto simp: maybe_spawn_greeter_def Let_def split: prod.split)

lemma auth_plan_some: "fair_rng (m_rng m) \<Longrightarrow> auth_plan intent uid m \<noteq> None"
  using alloc_generation_some [of m] by (auto simp: auth_plan_def split: option.split)

lemma if_answers: "(b \<Longrightarrow> x \<noteq> None) \<Longrightarrow> (\<not> b \<Longrightarrow> y \<noteq> None) \<Longrightarrow> (if b then x else y) \<noteq> None"
  by simp

lemma case_answers: "x \<noteq> None \<Longrightarrow> (\<And>a. f a \<noteq> None) \<Longrightarrow> case_option None f x \<noteq> None"
  by auto

lemma greeter_begin_auth_some: "fair_rng (m_rng m) \<Longrightarrow> greeter_begin_auth req uid intent m \<noteq> None"
  unfolding greeter_begin_auth_def Let_def
  by (intro if_answers case_answers auth_plan_some) (simp_all split: sum.split prod.split)

lemma create_session_some:
  "fair_rng (m_rng m) \<Longrightarrow> length (m_sessions m) < 2 ^ 32 \<Longrightarrow> create_session uid gn t m \<noteq> None"
  using alloc_session_id_some [of m] by (auto simp: create_session_def Let_def)

lemma on_auth_done_some:
  assumes "fair_rng (m_rng m)" "length (m_sessions m) < 2 ^ 32"
  shows "on_auth_done req ok code msg ticket m \<noteq> None"
proof -
  have "on_auth_success pl uid t n \<noteq> None" if "fair_rng (m_rng n)" "length (m_sessions n) < 2 ^ 32" for pl uid t n
    using create_session_some [OF that, of uid _ "unwrap_or t 0"]
    by (auto simp: on_auth_success_def Let_def split: plan.split option.split)
  then show ?thesis
    using assms by (auto simp: on_auth_done_def Let_def split: option.split)
qed

lemma on_helper_connected_some: "fair_rng (m_rng m) \<Longrightarrow> on_helper_connected m \<noteq> None"
  using maybe_spawn_greeter_some
  by (auto simp: on_helper_connected_def Let_def rng_fold split: prod.split)

text \<open>
  C38. Every input is answered: as long as the generator keeps producing values and there are fewer than
  \<^verbatim>\<open>2^32\<close> sessions, \<^verbatim>\<open>handle\<close> returns, whatever the state and whatever the input.
\<close>

theorem handle_returns:
  assumes "fair_rng (m_rng m)" "length (m_sessions m) < 2 ^ 32"
  shows "\<exists>m'. handle now inp m = Some m'"
proof -
  let ?m = "m\<lparr>m_now := Some now, m_fx := []\<rparr>"
  have f: "fair_rng (m_rng ?m)" "length (m_sessions ?m) < 2 ^ 32" using assms by simp_all
  have spawn: "maybe_spawn_greeter n \<noteq> None" if "m_rng n = m_rng m" for n
    using maybe_spawn_greeter_some [of n] that assms(1) by auto
  have "dispatch inp ?m \<noteq> None"
  proof (cases inp)
    case (In_Scene e)
    then show ?thesis
      using spawn by (cases e) (simp_all add: dispatch_def on_scene_def)
  next
    case (In_Helper e)
    then show ?thesis
      using on_auth_done_some [OF f] by (cases e) (simp_all add: dispatch_def on_helper_def)
  next
    case (In_Greeter conn msg)
    then show ?thesis
      using greeter_begin_auth_some [OF f(1)]
      by (cases msg) (simp_all add: dispatch_def on_greeter_message_def)
  next
    case (In_Timer t)
    then show ?thesis
      using spawn by (cases t) (simp_all add: dispatch_def on_timer_def)
  qed (use on_helper_connected_some [OF f(1)] in \<open>simp_all add: dispatch_def\<close>)
  then show ?thesis by (auto simp: handle_def)
qed

theorem handle_returns_witness:
  "\<exists>m'. handle 0 In_HelperConnected (manager_new policy_default (splitmix_tape 42)) = Some m'"
  by (rule handle_returns) (simp_all add: manager_new_def fair_splitmix)

text \<open>
  Drawing a session id ends and gives an id that no session has. With the test generator no
  assumption about randomness is left: splitmix64 is a permutation of all \<^verbatim>\<open>2^64\<close> values, so every id
  comes up.
\<close>

theorem session_ids_are_fresh:
  assumes "m_rng m = splitmix_tape seed" "length (m_sessions m) < 2 ^ 32"
  shows "\<exists>sid pos. alloc_session_id m = Some (sid, m\<lparr>m_rng_pos := pos\<rparr>) \<and> btm_get (m_sessions m) sid = None"
  by (rule alloc_session_id_some) (use assms fair_splitmix in simp_all)

theorem session_ids_are_fresh_witness:
  "\<exists>sid m'. alloc_session_id (manager_new policy_default (splitmix_tape 42)) = Some (sid, m')"
  using session_ids_are_fresh [of "manager_new policy_default (splitmix_tape 42)" 42]
  by (auto simp: manager_new_def)

end

