(* ===== verification/Manager_Frames.thy ===== *)
theory Manager_Frames
  imports Refine_Manager
begin

text \<open>
  What the handlers of the manager leave alone. The locale \<^verbatim>\<open>manager_frame\<close> takes a predicate on
  managers that only looks at the effects, the counter of helper requests, the challenge and the
  accounts, and that the few primitive changes of these keep; it concludes that every input keeps the
  predicate, except the few that are about just these.
\<close>

section \<open>Requests to the helper\<close>

text \<open>The requests among the effects of one input, and the conversations they ask for.\<close>

definition requests :: "effect list \<Rightarrow> helper_request list" where
  "requests es = List.map_filter (\<lambda>e. case e of Fx_Helper r \<Rightarrow> Some r | _ \<Rightarrow> None) es"

definition asks :: "helper_request list \<Rightarrow> (u64 \<times> u32) list" where
  "asks rs = List.map_filter (\<lambda>r. case r of HReq_AuthStart req _ uid _ _ _ \<Rightarrow> Some (req, uid) | _ \<Rightarrow> None) rs"

text \<open>The effects that ask for a conversation or for the accounts.\<close>

fun is_ask :: "effect \<Rightarrow> bool" where
  "is_ask (Fx_Helper (HReq_AuthStart _ _ _ _ _ _)) = True"
| "is_ask Fx_LoadAccounts = True"
| "is_ask _ = False"

lemma requests_simps [simp]:
  "requests [] = []" "requests (xs @ ys) = requests xs @ requests ys" "requests [Fx_Helper r] = [r]"
  by (simp_all add: requests_def List.map_filter_def)

lemma asks_simps [simp]:
  "asks [] = []" "asks (xs @ ys) = asks xs @ asks ys" "asks [HReq_AuthStart req n uid i g v] = [(req, uid)]"
  by (simp_all add: asks_def List.map_filter_def)

lemma asks_single: "\<not> is_ask e \<Longrightarrow> asks (requests [e]) = []"
  by (cases e rule: is_ask.cases) (simp_all add: asks_def requests_def List.map_filter_def)

text \<open>The inputs that ask, change the accounts, or draw a request number without using it.\<close>

fun stands_apart :: "input \<Rightarrow> bool" where
  "stands_apart (In_Scene (Scn_SessionSocketReady _ _ _)) = True"
| "stands_apart (In_Greeter _ (CMsg_BeginAuth _ _ _)) = True"
| "stands_apart (In_Start _) = True"
| "stands_apart (In_Accounts _) = True"
| "stands_apart _ = False"

section \<open>Every handler is made of a few changes\<close>

locale manager_frame =
  fixes P :: "manager \<Rightarrow> bool"
  assumes view: "m_next_helper_req m' = m_next_helper_req m \<Longrightarrow> m_challenge m' = m_challenge m \<Longrightarrow> m_fx m' = m_fx m
      \<Longrightarrow> m_users m' = m_users m \<Longrightarrow> P m' \<longleftrightarrow> P m"
    and pushed: "P m \<Longrightarrow> \<not> is_ask e \<Longrightarrow> P (push e m)"
    and drawn: "P m \<Longrightarrow> \<not> is_ask e \<Longrightarrow> requests [e] \<noteq> [] \<Longrightarrow> P (push e (snd (helper_req m)))"
    and profiled: "P m \<Longrightarrow> P (m\<lparr>m_users := btm_modify uid g (m_users m)\<rparr>)"
    and dropped: "P m \<Longrightarrow> P (m\<lparr>m_challenge := None\<rparr>)"
    and marked: "P m \<Longrightarrow> (\<And>c. c_helper_req (f c) = c_helper_req c \<and> c_uid (f c) = c_uid c) \<Longrightarrow> P (modify_challenge f m)"
begin

declare pushed [intro!]

lemma fields [simp]:
  "P (m\<lparr>m_sessions := a1\<rparr>) = P m" "P (m\<lparr>m_op := a2\<rparr>) = P m"
  "P (m\<lparr>m_selected_uid := a4\<rparr>) = P m" "P (m\<lparr>m_foreground := a5\<rparr>) = P m" "P (m\<lparr>m_protected := a6\<rparr>) = P m"
  "P (m\<lparr>m_input_owner := a7\<rparr>) = P m" "P (m\<lparr>m_rng_pos := a8\<rparr>) = P m" "P (m\<lparr>m_now := a9\<rparr>) = P m"
  "P (m\<lparr>m_started := b1\<rparr>) = P m" "P (m\<lparr>m_seat := b2\<rparr>) = P m" "P (m\<lparr>m_last_used_uid := b3\<rparr>) = P m"
  "P (m\<lparr>m_history := b4\<rparr>) = P m" "P (m\<lparr>m_retained_failure := b5\<rparr>) = P m" "P (m\<lparr>m_switching_user := b6\<rparr>) = P m"
  "P (m\<lparr>m_bg_logouts := b7\<rparr>) = P m" "P (m\<lparr>m_pending_closes := b8\<rparr>) = P m" "P (m\<lparr>m_compositor_ready := b9\<rparr>) = P m"
  "P (m\<lparr>m_outputs := c1\<rparr>) = P m" "P (m\<lparr>m_outputs_epoch := c2\<rparr>) = P m" "P (m\<lparr>m_greeter := c3\<rparr>) = P m"
  "P (m\<lparr>m_helper_up := c4\<rparr>) = P m" "P (m\<lparr>m_next_op := c5\<rparr>) = P m" "P (m\<lparr>m_next_challenge := c6\<rparr>) = P m"
  "P (m\<lparr>m_fg_seq := c7\<rparr>) = P m" "P (m\<lparr>m_revision := c8\<rparr>) = P m" "P (m\<lparr>m_sessions_revision := c9\<rparr>) = P m"
  "P (m\<lparr>m_selected_revision := d1\<rparr>) = P m" "P (m\<lparr>m_failures := d2\<rparr>) = P m" "P (m\<lparr>m_last_publish := d3\<rparr>) = P m"
  "P (m\<lparr>m_publishing := d4\<rparr>) = P m" "P (m\<lparr>m_appearance_rev := d5\<rparr>) = P m" "P (m\<lparr>m_shutting_down := d6\<rparr>) = P m"
  "P (m\<lparr>m_published := d7\<rparr>) = P m" "P (m\<lparr>m_sleep_prep := d8\<rparr>) = P m"
  by (rule view; simp)+

lemma modifies [simp]:
  "P (modify_session sid f m) = P m" "P (modify_op g m) = P m" "P (modify_greeter h m) = P m"
  "P (modify_published u m) = P m" "P (push_history i m) = P m"
  by (simp_all add: modify_session_def modify_op_def modify_greeter_def modify_published_def push_history_def)

lemma logged [intro!]: "P m \<Longrightarrow> P (log_msg l s t m)"
  by (simp add: log_msg_def pushed)

lemma refused [intro!]: "P m \<Longrightarrow> P (greeter_error r c t m)"
  by (simp add: greeter_error_def pushed)

lemma folded: "P m \<Longrightarrow> (\<And>x m. P m \<Longrightarrow> P (f x m)) \<Longrightarrow> P (fold f xs m)"
  by (induction xs arbitrary: m) simp_all

lemma chosen: "(b \<Longrightarrow> P x) \<Longrightarrow> (\<not> b \<Longrightarrow> P y) \<Longrightarrow> P (if b then x else y)"
  by simp

lemmas kept_fields = fields [THEN iffD2] modifies [THEN iffD2]

subsection \<open>Operations\<close>

lemma owner [intro!]: "P m \<Longrightarrow> P (set_input_owner w m)"
  by (simp add: set_input_owner_def pushed)

lemma state_set [intro!]: "P m \<Longrightarrow> P (snd (set_session_state sid st m))"
  by (auto simp: set_session_state_def split: option.split)

lemma op_emitted [intro!]: "P m \<Longrightarrow> P (emit_op m)"
  by (simp add: emit_op_def pushed split: option.split)

lemma op_created [intro!]: "P m \<Longrightarrow> P (snd (new_operation k r s m))"
  unfolding new_operation_def snd_conv by (rule op_emitted) simp

lemma op_changed [intro!]: "P m \<Longrightarrow> P (snd (op_set p t m))"
  by (auto simp: op_set_def Let_def split: option.split)

lemma challenge_dropped [intro!]: "P m \<Longrightarrow> P (drop_challenge_of oid code m)"
  by (simp add: drop_challenge_of_def pushed dropped split: option.split)

lemma op_finished [intro!]: "P m \<Longrightarrow> P (op_finish p t r m)"
  unfolding op_finish_def Let_def
  by (cases "m_op m") (auto)

lemma op_ended [intro!]:
  "P m \<Longrightarrow> P (op_fail code m)" "P m \<Longrightarrow> P (op_cancelled m)" "P m \<Longrightarrow> P (op_complete m)"
  "P m \<Longrightarrow> P (op_abort code m)" "P m \<Longrightarrow> P (op_end_failed oid code m)"
  by (auto simp: op_fail_def op_cancelled_def op_complete_def op_abort_def op_end_failed_def Let_def split: option.split)

lemma challenge_failed [intro!]: "P m \<Longrightarrow> P (fail_challenge code msg m)"
  by (auto simp: fail_challenge_def Let_def intro!: dropped split: option.split)

lemma cleaned [intro!]: "P m \<Longrightarrow> P (begin_cleanup sid st m)"
proof (cases "session_of m sid")
  case (Some s)
  assume "P m"
  then have "P (snd (set_session_state sid st m))" ..
  with Some show ?thesis
    by (auto simp: begin_cleanup_def Let_def split: option.split prod.split)
qed (simp add: begin_cleanup_def)

lemma cancelled [intro!]:
  "P m \<Longrightarrow> P (cancel_power_checks m)" "P m \<Longrightarrow> P (cancel_immediate m)" "P m \<Longrightarrow> P (snd (interrupt_current m))"
  "P m \<Longrightarrow> P (snd (cancel_operation who oid m))"
proof -
  show *: "P m \<Longrightarrow> P (cancel_power_checks m)" for m by (simp add: cancel_power_checks_def pushed split: option.split)
  show **: "P m \<Longrightarrow> P (cancel_immediate m)" for m
    by (auto simp: cancel_immediate_def * split: option.split op_kind.split)
  show "P m \<Longrightarrow> P (snd (interrupt_current m))" by (simp add: interrupt_current_def ** split: option.split)
  show "P m \<Longrightarrow> P (snd (cancel_operation who oid m))"
    by (simp add: cancel_operation_def ** pushed split: option.split)
qed

lemma transition_begun [intro!]: "P m \<Longrightarrow> P (begin_transition k s t p m)"
  by (auto simp: begin_transition_def Let_def split: option.split)

lemma revealed [intro!]: "P m \<Longrightarrow> P (try_reveal m)"
  by (auto simp: try_reveal_def fail_launch_ready_def Let_def split: option.split)

lemma hinted [intro!]: "P m \<Longrightarrow> P (set_locked_hint sid b m)"
  using drawn [of m "Fx_Helper (HReq_SetLockedHint _ _ _ _)"]
  by (auto simp: set_locked_hint_def helper_req_def split: option.split)

lemma protected [intro!]: "P m \<Longrightarrow> P (begin_protect sid gn m)"
  by (auto simp: begin_protect_def Let_def)

lemma frames_timed [intro!]: "P m \<Longrightarrow> P (on_frames_timeout oid m)"
  by (auto simp: on_frames_timeout_def split: option.split)

subsection \<open>Power and transitions\<close>

lemma power_asked [intro!]: "P m \<Longrightarrow> P (snd (request_power req a cal m))"
proof -
  assume "P m"
  then have "P (snd (interrupt_current m))" ..
  then show ?thesis using \<open>P m\<close>
    by (auto simp: request_power_def new_operation_def Let_def split: option.split sum.split prod.split)
qed

lemma visible_protected: "P m \<Longrightarrow> P (fold protect_one xs m)"
  by (auto simp: protect_one_def intro!: folded)

lemma sleeping [intro!]: "P m \<Longrightarrow> P (finish_sleep_prep m)" "P m \<Longrightarrow> P (maybe_sleep_ready m)"
  by (auto simp: maybe_sleep_ready_def finish_sleep_prep_def Let_def)

lemma power_steps [intro!]:
  "P m \<Longrightarrow> P (suspend_scene_ready m)" "P m \<Longrightarrow> P (power_checks_done m)" "P m \<Longrightarrow> P (commit_power m)"
  "P m \<Longrightarrow> P (rollback_power_scene m)"
proof -
  show *: "P m \<Longrightarrow> P (suspend_scene_ready m)" for m
    by (simp add: suspend_scene_ready_def transition_begun owner)
  show "P m \<Longrightarrow> P (power_checks_done m)"
    by (auto simp: power_checks_done_def protect_visible_sessions_def Let_def intro!: * visible_protected
        split: option.split)
  show "P m \<Longrightarrow> P (commit_power m)"
    by (auto simp: commit_power_def Let_def split: option.split)
  show "P m \<Longrightarrow> P (rollback_power_scene m)"
    by (auto simp: rollback_power_scene_def Let_def split: option.split)
qed

lemma power_events [intro!]:
  "P m \<Longrightarrow> P (on_polkit oid b m)" "P m \<Longrightarrow> P (on_inhibitors oid res m)" "P m \<Longrightarrow> P (on_checks_timeout oid m)"
  "P m \<Longrightarrow> P (on_power_result oid r m)" "P m \<Longrightarrow> P (on_power_timeout oid m)" "P m \<Longrightarrow> P (on_prepare_for_sleep b m)"
proof -
  show "P m \<Longrightarrow> P (on_polkit oid b m)"
    by (auto simp: on_polkit_def Let_def)
  show "P m \<Longrightarrow> P (on_inhibitors oid res m)"
    by (auto simp: on_inhibitors_def Let_def split: option.split sum.split)
  show "P m \<Longrightarrow> P (on_checks_timeout oid m)"
    by (auto simp: on_checks_timeout_def)
  show *: "P m \<Longrightarrow> P (on_power_result oid r m)" for r
    by (auto simp: on_power_result_def Let_def split: option.split sum.split)
  show "P m \<Longrightarrow> P (on_power_timeout oid m)"
    by (auto simp: on_power_timeout_def Let_def intro!: *)
  show "P m \<Longrightarrow> P (on_prepare_for_sleep b m)"
    by (auto simp: on_prepare_for_sleep_def protect_visible_sessions_def Let_def intro!: visible_protected folded)
qed

lemma lock_steps [intro!]:
  "P m \<Longrightarrow> P (snd (request_lock req sid k m))" "P m \<Longrightarrow> P (on_protected sid gn m)" "P m \<Longrightarrow> P (on_protect_timeout sid gn m)"
proof -
  show "P m \<Longrightarrow> P (snd (request_lock req sid k m))"
  proof -
    assume m: "P m"
    then have "P (snd (interrupt_current m))" ..
    then show ?thesis using m
      by (auto simp: request_lock_def new_operation_def Let_def split: option.split sum.split prod.split)
  qed
  have a: "P m \<Longrightarrow> P (acknowledge_protect sid gn uid m)" for uid m
    by (auto simp: acknowledge_protect_def Let_def)
  have b: "P m \<Longrightarrow> P (protect_done m)" for m
    by (auto simp: protect_done_def lock_scene_ready_def split: option.split)
  show "P m \<Longrightarrow> P (on_protected sid gn m)"
    by (auto simp: on_protected_def sleep_prep_done_def intro!: a b split: option.split)
  show "P m \<Longrightarrow> P (on_protect_timeout sid gn m)"
    by (auto simp: on_protect_timeout_def Let_def)
qed

lemma input_fallback [intro!]: "P m \<Longrightarrow> P (input_to_greeter_if_hidden m)"
  by (simp add: input_to_greeter_if_hidden_def owner)

lemma failed_transition [intro!]: "P m \<Longrightarrow> P (transition_failed code m)" "P m \<Longrightarrow> P (on_transition_timeout oid m)"
  by (auto simp: transition_failed_def on_transition_timeout_def
      split: option.split op_kind.split)

lemma committed [intro!]:
  "P m \<Longrightarrow> P (commit_reveal sid gn m)" "P m \<Longrightarrow> P (commit_logout sid m)" "P m \<Longrightarrow> P (commit_op m)"
proof -
  show a: "P m \<Longrightarrow> P (commit_reveal sid gn m)" for sid gn m
    by (auto simp: commit_reveal_def Let_def split: option.split)
  show b: "P m \<Longrightarrow> P (commit_logout sid m)" for sid m
    by (auto simp: commit_logout_def Let_def split: option.split)
  show "P m \<Longrightarrow> P (commit_op m)"
    by (auto simp: commit_op_def Let_def intro!: a b split: option.split op_kind.split)
qed

lemma phase_seen [intro!]: "P m \<Longrightarrow> P (on_transition_phase oid ph m)"
proof -
  have "P m \<Longrightarrow> P (complete_transition m)" for m
    by (simp add: complete_transition_def op_ended split: option.split)
  then show "P m \<Longrightarrow> P (on_transition_phase oid ph m)"
    by (auto simp: on_transition_phase_def Let_def
        split: option.split transition_phase_event.split)
qed

lemma logged_out [intro!]: "P m \<Longrightarrow> P (snd (request_logout req sid m))" "P m \<Longrightarrow> P (finish_bg_logout sid gn m)"
proof -
  have h: "P m \<Longrightarrow> P (snd (logout_hidden sid gn st m))" for sid gn st
    by (auto simp: logout_hidden_def emit_bg_def Let_def)
  show "P m \<Longrightarrow> P (snd (request_logout req sid m))"
  proof -
    assume m: "P m"
    then have "P (snd (interrupt_current m))" ..
    then show ?thesis using m
      by (auto simp: request_logout_def new_operation_def Let_def intro!: h split: option.split sum.split prod.split)
  qed
  show "P m \<Longrightarrow> P (finish_bg_logout sid gn m)"
    by (auto simp: finish_bg_logout_def emit_bg_def Let_def split: option.split)
qed

subsection \<open>Sessions\<close>

lemma launch_failed [intro!]: "P m \<Longrightarrow> P (fail_launch sid gn code msg m)"
  by (auto simp: fail_launch_def Let_def split: option.split)

lemma terminated [intro!]: "P m \<Longrightarrow> P (terminate_session sid m)" "P m \<Longrightarrow> P (on_close_timeout sid gn m)"
proof -
  show t: "P m \<Longrightarrow> P (terminate_session sid m)" for sid m
  proof (cases "session_of m sid")
    case (Some s)
    assume "P m"
    then have "P (snd (set_session_state sid St_Terminated m))" ..
    with Some show ?thesis
      by (auto simp: terminate_session_def Let_def split: prod.split)
  qed (simp add: terminate_session_def)
  show "P m \<Longrightarrow> P (on_close_timeout sid gn m)"
    by (auto simp: on_close_timeout_def intro!: t)
qed

lemma lost [intro!]: "P m \<Longrightarrow> P (session_lost sid gn why m)"
proof (cases "session_gen m sid gn")
  case (Some s)
  assume "P m"
  with Some show ?thesis
    unfolding session_lost_def Some option.case Let_def
    by (intro chosen kept_fields pushed logged owner op_ended cleaned challenge_failed launch_failed sleeping) simp_all
qed (simp add: session_lost_def)

lemma stage_steps [intro!]:
  "P m \<Longrightarrow> P (snd (reach_stage sid st m))" "P m \<Longrightarrow> P (stage_effect sid st m)" "P m \<Longrightarrow> P (arm_stage_timer sid m)"
proof -
  show "P m \<Longrightarrow> P (snd (reach_stage sid st m))"
    by (auto simp: reach_stage_def split: option.split prod.split)
  show "P m \<Longrightarrow> P (stage_effect sid st m)"
    by (auto simp: stage_effect_def split: stage.split)
  show "P m \<Longrightarrow> P (arm_stage_timer sid m)"
    by (auto simp: arm_stage_timer_def Let_def split: option.split)
qed

lemma launch_looped: "P m \<Longrightarrow> P (launch_loop sid names m)"
proof (induction sid names m rule: launch_loop.induct)
  case (1 sid names m)
  have "P m'" if "reach_stage sid st m = (ok, m')" for st ok m'
    using stage_steps(1) [OF 1(2), of sid st] that by simp
  then show ?case
    using 1(2) by (subst launch_loop.simps) (auto intro!: 1(1) stage_steps(2) split: option.split eval.split prod.split)
qed

lemma launch_advanced [intro!]: "P m \<Longrightarrow> P (advance_launch sid m)"
  by (auto simp: advance_launch_def Let_def intro!: launch_looped)

lemma session_events [intro!]:
  "P m \<Longrightarrow> P (on_stage_timeout sid gn st m)" "P m \<Longrightarrow> P (on_outputs_changed m)" "P m \<Longrightarrow> P (recover_session p m)"
  "P m \<Longrightarrow> P (on_recovery_timeout sid gn m)" "P m \<Longrightarrow> P (on_session_opened req sid gn pid scope lg m)"
  "P m \<Longrightarrow> P (on_session_connected sid gn pid m)" "P m \<Longrightarrow> P (on_connection_rejected sid gn why m)"
  "P m \<Longrightarrow> P (on_surfaces sid gn sf m)" "P m \<Longrightarrow> P (on_session_gone sid gn m)"
  "P m \<Longrightarrow> P (on_session_exited sid gn status m)" "P m \<Longrightarrow> P (on_session_failed req sid gn code msg m)"
proof -
  assume m: "P m"
  show "P (on_stage_timeout sid gn st m)" "P (recover_session p m)" "P (on_connection_rejected sid gn why m)"
    "P (on_session_failed req sid gn code msg m)" "P (on_session_exited sid gn status m)"
    using m by (auto simp: on_stage_timeout_def recover_session_def on_connection_rejected_def on_session_failed_def
        on_session_exited_def Let_def split: option.split)
  show "P (on_outputs_changed m)" "P (on_surfaces sid gn sf m)" "P (on_session_gone sid gn m)" "P (on_recovery_timeout sid gn m)"
    using m by (auto simp: on_outputs_changed_def on_surfaces_def on_session_gone_def on_recovery_timeout_def Let_def intro!: folded split: option.split)
  show "P (on_session_opened req sid gn pid scope lg m)" "P (on_session_connected sid gn pid m)"
    using m by (auto simp: on_session_opened_def on_session_connected_def Let_def split: option.split)
qed

lemma reported [intro!]: "P m \<Longrightarrow> P (on_report sid gn rep m)"
  by (auto simp: on_report_def record_report_def Let_def split: option.split host_report.split)

lemma created: "P m \<Longrightarrow> create_session uid gn t m = Some (sid, m') \<Longrightarrow> P m'"
  by (auto simp: create_session_def alloc_session_id_def Let_def split: option.splits)

subsection \<open>The greeter and D-Bus\<close>

lemma selected [intro!]: "P m \<Longrightarrow> P (snd (select_user uid m))"
  by (auto simp: select_user_def Let_def split: option.split)

lemma answered [intro!]: "P m \<Longrightarrow> P (greeter_auth_response cid r m)"
proof -
  have [simp]: "P (charge_failure uid m) = P m" for uid m by (simp add: charge_failure_def Let_def)
  show "P m \<Longrightarrow> P (greeter_auth_response cid r m)"
    by (auto simp: greeter_auth_response_def Let_def intro!: marked split: option.split)
qed

lemma prompted [intro!]: "P m \<Longrightarrow> P (on_auth_prompt req k t m)"
  by (auto simp: on_auth_prompt_def Let_def intro!: marked split: option.split)

lemma succeeded:
  assumes "P m" "on_auth_success pl uid t m = Some m'"
  shows "P m'"
proof (cases pl)
  case (Plan_New gn)
  with assms(2) obtain sid m1 where m1: "create_session uid gn (unwrap_or t 0) m = Some (sid, m1)"
    and m': "m' = snd (op_set (Some Ph_Preparing) (Some Tr_WaitingForFrames) (modify_op (\<lambda>x. x\<lparr>o_session := Some (sid, gn),
        o_new_login := True, o_transition := Kind_NewLoginFade\<rparr>) m1))"
    by (auto simp: on_auth_success_def)
  from created [OF assms(1) m1] show ?thesis by (auto simp: m')
next
  case (Plan_Existing sid gn)
  with assms show ?thesis by (auto simp: on_auth_success_def Let_def)
qed

lemma auth_finished: "P m \<Longrightarrow> on_auth_done req ok code msg t m = Some m' \<Longrightarrow> P m'"
  by (auto simp: on_auth_done_def Let_def intro!: dropped elim!: succeeded [rotated] split: option.splits if_splits)

lemma error_reported [intro!]: "P (snd x) \<Longrightarrow> P (report_error r x)"
  by (auto simp: report_error_def split: sum.split prod.split)

lemma greeter_events [intro!]:
  "P m \<Longrightarrow> P (on_greeter_peer conn uid pid m)" "P m \<Longrightarrow> P (on_greeter_disconnected conn m)" "P m \<Longrightarrow> P (greeter_hello v m)"
  "P m \<Longrightarrow> P (greeter_power_request rid a m)" "P m \<Longrightarrow> P (on_auth_timeout cid m)"
  by (auto simp: on_greeter_peer_def on_greeter_disconnected_def greeter_hello_def greeter_power_request_def
      on_auth_timeout_def Let_def split: option.split)

lemma greeter_said:
  assumes "P m" "on_greeter_message conn msg m = Some m'" "\<not> stands_apart (In_Greeter conn msg)"
  shows "P m'"
  using assms by (cases msg) (auto simp: on_greeter_message_def greeter_select_user_def split: if_splits)

lemma dbus_called: "P m \<Longrightarrow> P (snd (dbus_call call cal who mth m))"
proof -
  assume m: "P m"
  have o: "P (snd (reply_operation x))" if "P (snd x)" for x using that by (auto simp: reply_operation_def split: sum.split prod.split)
  have d: "P (snd (reply_done x))" if "P (snd x)" for x using that by (auto simp: reply_done_def split: sum.split prod.split)
  have p: "P (snd (dbus_power who cal a m))" for a using m by (auto simp: dbus_power_def intro!: o split: principal.split)
  have s: "P (snd (on_own_session r f m))" if "\<And>req sid. P (snd (f req sid m))" for r f
    using m that by (auto simp: on_own_session_def intro!: o split: sum.split prod.split)
  have u: "P (snd (dbus_publish call who req m))" for req
    using m by (auto simp: dbus_publish_def Let_def split: sum.split option.split)
  show ?thesis
    using m u by (cases mth) (auto simp: dbus_call_def Let_def intro!: s d p split: sum.split)
qed

lemma dbus_done [intro!]: "P m \<Longrightarrow> P (on_dbus call cal mth m)" "P m \<Longrightarrow> P (on_appearance_published c uid res m)"
proof -
  show "P (on_dbus call cal mth m)" if "P m"
    using dbus_called [OF that, of call cal "principal_of m cal" mth]
    by (auto simp: on_dbus_def Let_def split: option.split prod.split sum.split)
  have "P (m\<lparr>m_publishing := ps, m_users := btm_modify uid g (m_users m)\<rparr>)" if "P m" for ps g
    using profiled [of "m\<lparr>m_publishing := ps\<rparr>" uid g] that by simp
  then show "P m \<Longrightarrow> P (on_appearance_published c uid res m)"
    by (auto simp: on_appearance_published_def Let_def split: option.split sum.split)
qed

lemma socket_ready: "P (snd (helper_req m)) \<Longrightarrow> P (on_socket_ready sid gn path m)"
  by (auto simp: on_socket_ready_def helper_req_def Let_def split: option.split)

lemma auth_begun:
  assumes "P m" "greeter_begin_auth rid uid intent m = Some m'"
    and challenge: "\<And>service pl gn n. P n \<Longrightarrow> P (start_challenge rid uid intent service pl gn n)"
  shows "P m'"
proof -
  define m1 where "m1 = (if is_some_and (m_op m) (\<lambda>o1. o_tstate o1 = Tr_WaitingForAuth) then fail_challenge E_Cancelled ''superseded'' m else m)"
  define m2 where "m2 = (if is_some_and (m_op m1) (\<lambda>o1. o_kind o1 = Op_Power \<and> \<not> o_began o1 \<and> \<not> o_committed o1
      \<and> is_session_requester (o_requester o1)) then cancel_immediate m1 else m1)"
  have 2: "P m2" using assms(1) by (auto simp: m1_def m2_def)
  have plan: "P y" if "auth_plan intent uid m2 = Some (x, y)" for x y
    using that 2 by (auto simp: auth_plan_def alloc_generation_def split: option.splits if_splits)
  have select: "P (snd (select_user uid y))" if "auth_plan intent uid m2 = Some (x, y)" for x y
    using plan [OF that] by auto
  from assms(2) show ?thesis
    unfolding greeter_begin_auth_def Let_def m1_def [symmetric] m2_def [symmetric]
    using 2 assms(1) plan select challenge by (auto split: if_splits option.splits sum.splits prod.splits)
qed

subsection \<open>The entry point\<close>

lemma spawned:
  assumes "P m" "maybe_spawn_greeter m = Some m'"
  shows "P m'"
proof (cases "m' = m")
  case False
  with assms(2) obtain g ws cs where "m_fx m' = m_fx m @ [Fx_Helper (HReq_SpawnGreeter (m_next_helper_req m) g ws cs)]"
    "m_challenge m' = m_challenge m" "m_next_helper_req m' = m_next_helper_req m + 1" "m_users m' = m_users m"
    by (auto simp: maybe_spawn_greeter_def alloc_generation_def helper_req_def modify_greeter_def Let_def split: option.splits if_splits)
  then have "P m' \<longleftrightarrow> P (push (Fx_Helper (HReq_SpawnGreeter (m_next_helper_req m) g ws cs)) (snd (helper_req m)))"
    by (intro view) (simp_all add: helper_req_def)
  then show ?thesis using drawn [OF assms(1)] by simp
qed (use assms in simp)

lemma greeter_gone [intro!]: "P m \<Longrightarrow> P (greeter_lost m)"
  unfolding greeter_lost_def drop_greeter_input_def Let_def
  by (intro chosen kept_fields logged pushed challenge_failed) simp_all

lemma helper_events: "P m \<Longrightarrow> on_helper e m = Some m' \<Longrightarrow> P m'"
  by (cases e) (auto simp: on_helper_def on_helper_greeter_spawned_def intro: auth_finished)

lemma helper_joined:
  assumes "P m" "on_helper_connected m = Some m'"
  shows "P m'"
proof -
  have "P (fold (\<lambda>(sid, gn). push (Fx_Helper (HReq_CloseSession sid gn g))) xs n)" if "P n" for g xs n
    using that by (auto intro!: folded)
  with assms show ?thesis
    by (auto simp: on_helper_connected_def Let_def elim!: spawned [rotated] split: if_splits)
qed

lemma helper_gone [intro!]: "P m \<Longrightarrow> P (on_helper_lost m)"
  unfolding on_helper_lost_def Let_def by (intro folded chosen) auto

lemma scene_seen:
  assumes "P m" "on_scene e m = Some m'" "\<not> stands_apart (In_Scene e)"
  shows "P m'"
proof -
  have [intro!]: "P (update_outputs outs m)" if "P m" for outs m using that by (auto simp: update_outputs_def)
  show ?thesis using assms
    by (cases e) (auto simp: on_scene_def on_greeter_connected_def on_greeter_gone_def drop_greeter_input_def on_input_owner_changed_def
        elim!: spawned [rotated] split: if_splits)
qed

lemma timer_fired: "P m \<Longrightarrow> on_timer t m = Some m' \<Longrightarrow> P m'"
  by (cases t) (auto simp: on_timer_def elim!: spawned [rotated])

lemma recovered [intro!]: "P m \<Longrightarrow> P (on_recovered rs m)"
  unfolding on_recovered_def recover_one_def Let_def by (rule folded) auto

lemma settled [intro!]: "P m \<Longrightarrow> P (settle m)"
proof -
  have "P (settle_input m)" if "P m" for m using that by (auto simp: settle_input_def)
  moreover have "P (settle_persist m)" "P (settle_sessions m)" "P (settle_selected m)" "P (settle_foreground m)"
    "P (settle_progress m)" "P (settle_snapshot m)" if "P m" for m
    using that by (auto simp: settle_persist_def settle_sessions_def settle_selected_def settle_foreground_def
        settle_progress_def settle_snapshot_def Let_def split: option.split)
  moreover have "P (settle_locks m)" "P (settle_ready m)" if "P m" for m
    using that by (auto simp: settle_locks_def settle_ready_def Let_def intro!: folded)
  ultimately show "P m \<Longrightarrow> P (settle m)" by (simp add: settle_def Let_def)
qed

lemma dispatched:
  assumes "P m" "dispatch inp m = Some m'" "\<not> stands_apart inp"
  shows "P m'"
  using assms
  by (cases inp) (auto simp: dispatch_def Let_def split: if_splits
      intro: scene_seen helper_events helper_joined greeter_said timer_fired)

lemma handled:
  assumes "P (m\<lparr>m_now := Some now, m_fx := []\<rparr>)" "handle now inp m = Some m'" "\<not> stands_apart inp"
  shows "P m'"
  using assms by (auto simp: handle_def dest: dispatched)

end

end
