(* ===== verification/Login_Requests.thy ===== *)
theory Login_Requests
  imports Manager_Frames
begin

text \<open>
  The numbers the manager gives to its requests. Every request to start a conversation carries a
  number of its own, and the challenge the manager waits on is one it has asked the helper about
  under exactly that number and for exactly that account.
\<close>

section \<open>Numbers in order\<close>

text \<open>Since the counter stood at \<^term>\<open>n\<close> it has moved by \<^term>\<open>k\<close>, at most \<^term>\<open>d\<close> more than requests were
  sent; the conversations asked for carry increasing numbers of that range; the challenge is one of
  them or one of \<^term>\<open>H\<close>.\<close>

definition numbered :: "nat \<Rightarrow> u64 \<Rightarrow> (u64 \<times> u32) set \<Rightarrow> nat \<Rightarrow> nat list \<Rightarrow> manager \<Rightarrow> bool" where
  "numbered d n H k js m \<longleftrightarrow>
     k \<le> d + length (requests (m_fx m)) \<and> m_next_helper_req m = n + of_nat k
     \<and> map fst (asks (requests (m_fx m))) = map (\<lambda>j. n + of_nat j) js \<and> sorted_wrt (<) js \<and> (\<forall>j \<in> set js. j < k)
     \<and> (\<forall>c. m_challenge m = Some c \<longrightarrow> (c_helper_req c, c_uid c) \<in> H \<union> set (asks (requests (m_fx m))))"

definition tidy :: "nat \<Rightarrow> u64 \<Rightarrow> (u64 \<times> u32) set \<Rightarrow> manager \<Rightarrow> bool" where
  "tidy d n H m \<longleftrightarrow> (\<exists>k js. numbered d n H k js m)"

lemma numbered_push: "numbered d n H k js m \<Longrightarrow> \<not> is_ask e \<Longrightarrow> numbered d n H k js (push e m)"
  by (auto simp: numbered_def asks_single)

lemma numbered_draw: "numbered d n H k js m \<Longrightarrow> numbered (Suc d) n H (Suc k) js (snd (helper_req m))"
  by (auto simp: numbered_def helper_req_def less_Suc_eq)

lemma numbered_paid:
  "numbered (Suc d) n H k js m \<Longrightarrow> \<not> is_ask e \<Longrightarrow> requests [e] \<noteq> [] \<Longrightarrow> numbered d n H k js (push e m)"
  using asks_single [of e] by (cases "requests [e]") (auto simp: numbered_def)

lemma numbered_mark:
  "numbered d n H k js m \<Longrightarrow> (\<And>c. c_helper_req (f c) = c_helper_req c \<and> c_uid (f c) = c_uid c) \<Longrightarrow>
     numbered d n H k js (modify_challenge f m)"
  by (auto simp: numbered_def modify_challenge_def)

text \<open>A new conversation takes the next number.\<close>

lemma numbered_ask:
  assumes "numbered d n H k js m" "m_next_helper_req m' = m_next_helper_req m + 1"
    "m_fx m' = m_fx m @ es" "requests es = [HReq_AuthStart (m_next_helper_req m) name uid intent gn service]"
    "\<And>c. m_challenge m' = Some c \<Longrightarrow> c_helper_req c = m_next_helper_req m \<and> c_uid c = uid"
  shows "numbered d n H (Suc k) (js @ [k]) m'"
  using assms by (auto simp: numbered_def sorted_wrt_append less_Suc_eq)

interpretation ids: manager_frame "tidy d n H" for d n H
proof unfold_locales
  fix m m' :: manager and e :: effect and f
  show "m_next_helper_req m' = m_next_helper_req m \<Longrightarrow> m_challenge m' = m_challenge m \<Longrightarrow> m_fx m' = m_fx m
      \<Longrightarrow> m_users m' = m_users m \<Longrightarrow> tidy d n H m' \<longleftrightarrow> tidy d n H m"
    by (simp add: tidy_def numbered_def)
  show "tidy d n H m \<Longrightarrow> \<not> is_ask e \<Longrightarrow> tidy d n H (push e m)"
    unfolding tidy_def using numbered_push by blast
  show "tidy d n H m \<Longrightarrow> \<not> is_ask e \<Longrightarrow> requests [e] \<noteq> [] \<Longrightarrow> tidy d n H (push e (snd (helper_req m)))"
    unfolding tidy_def using numbered_paid numbered_draw by blast
  show "tidy d n H m \<Longrightarrow> tidy d n H (m\<lparr>m_users := btm_modify uid g (m_users m)\<rparr>)" for uid g by (simp add: tidy_def numbered_def)
  show "tidy d n H m \<Longrightarrow> tidy d n H (m\<lparr>m_challenge := None\<rparr>)" by (auto simp: tidy_def numbered_def)
  show "tidy d n H m \<Longrightarrow> (\<And>c. c_helper_req (f c) = c_helper_req c \<and> c_uid (f c) = c_uid c) \<Longrightarrow> tidy d n H (modify_challenge f m)"
    unfolding tidy_def using numbered_mark by blast
qed

section \<open>The two inputs that draw a number\<close>

lemma tidy_socket_ready:
  assumes "tidy 0 n H m"
  shows "tidy 1 n H (on_socket_ready sid gn path m)"
  using assms numbered_draw by (intro ids.socket_ready) (unfold tidy_def One_nat_def, blast)

lemma challenge_requests:
  assumes "m' = start_challenge rid uid intent service pl gn m"
  shows "m_next_helper_req m' = m_next_helper_req m + 1"
    "\<exists>c. m_challenge m' = Some c \<and> c_helper_req c = m_next_helper_req m \<and> c_uid c = uid"
    "\<exists>es name. m_fx m' = m_fx m @ es \<and> requests es = [HReq_AuthStart (m_next_helper_req m) name uid intent gn service]"
  using assms by (simp_all add: start_challenge_def new_operation_def helper_req_def emit_op_def op_authorising_def op_set_def
      fresh_operation_def log_msg_def requests_def List.map_filter_def Let_def)

lemma tidy_start_challenge:
  assumes "tidy d n H m"
  shows "tidy d n H (start_challenge rid uid intent service pl gn m)"
  using assms challenge_requests [OF refl, of rid uid intent service pl gn m] numbered_ask [of d n H]
  unfolding tidy_def by (metis option.inject)

text \<open>Every input: it draws at most one number more than it sends requests, the conversations it asks for
  have fresh increasing numbers, and the challenge it leaves is an old one or one of these.\<close>

lemma handle_tidy:
  assumes "handle now inp m = Some m'" "\<And>c. m_challenge m = Some c \<Longrightarrow> (c_helper_req c, c_uid c) \<in> H"
  shows "tidy 1 (m_next_helper_req m) H m'"
proof -
  let ?n = "m_next_helper_req m" and ?m0 = "m\<lparr>m_now := Some now, m_fx := []\<rparr>"
  have 0: "tidy d ?n H ?m0" for d
    using assms(2) unfolding tidy_def numbered_def by (intro exI [of _ 0] exI [of _ "[]"]) simp
  show ?thesis
  proof (cases "stands_apart inp")
    case False
    then show ?thesis using ids.handled [OF 0 assms(1)] by blast
  next
    case True
    then consider sid gn path where "inp = In_Scene (Scn_SessionSocketReady sid gn path)"
      | conn rid uid intent where "inp = In_Greeter conn (CMsg_BeginAuth rid uid intent)"
      | p where "inp = In_Start p" | accs where "inp = In_Accounts accs"
      by (cases inp rule: stands_apart.cases) auto
    then show ?thesis
    proof cases
      case 1
      then have "m' = settle (on_socket_ready sid gn path ?m0)" using assms(1) by (simp add: handle_def dispatch_def on_scene_def)
      then show ?thesis using tidy_socket_ready [OF 0] by auto
    next
      case 2
      then obtain m1 where "on_greeter_message conn (CMsg_BeginAuth rid uid intent) ?m0 = Some m1" "m' = settle m1"
        using assms(1) by (auto simp: handle_def dispatch_def)
      then show ?thesis using 0 by (auto simp: on_greeter_message_def intro: ids.auth_begun [OF 0 _ tidy_start_challenge] split: if_splits)
    next
      case 3
      then have "m' = settle (on_start p ?m0)" using assms(1) by (simp add: handle_def dispatch_def)
      moreover have "tidy 1 ?n H (on_start p ?m0)" using 0 [of 1]
        by (auto simp: on_start_def tidy_def numbered_def asks_def requests_def List.map_filter_def)
      ultimately show ?thesis by auto
    next
      case 4
      then have "m' = settle (on_accounts accs ?m0)" using assms(1) by (simp add: handle_def dispatch_def)
      moreover have "tidy 1 ?n H (on_accounts accs ?m0)" using 0 [of 1]
        by (simp add: on_accounts_def tidy_def numbered_def Let_def)
      ultimately show ?thesis by auto
    qed
  qed
qed

end
