(* ===== verification/Helper_Config.thy ===== *)
theory Helper_Config
  imports Core_Types
begin

text \<open>
  The configuration of the privileged helper (\<^verbatim>\<open>src/bsm/helper/src/config.rs\<close>): its records and
  defaults, the validation of the commands it starts and the expansion of their placeholders. A
  path is the string it is written as. Reading the file and the TOML syntax are not modelled. The
  message of a validation error is its constructor.
\<close>

section \<open>The records\<close>

record socket_config =
  sk_path :: string
  sk_allowed_user :: string
  sk_allowed_uid :: "u32 option"
  sk_allowed_exe :: string
  sk_allowed_cgroup :: string

record pam_config =
  pc_login_service :: string
  pc_unlock_service :: string
  pc_confdir :: "string option"
  pc_conversation_timeout_secs :: u64
  pc_prompt_timeout_secs :: u64
  pc_ticket_ttl_secs :: u64
  pc_free_failures :: u32

record session_config =
  sc_gnoblin :: "string list"
  sc_bridge :: "string list"
  sc_min_uid :: u32
  sc_path :: string
  sc_session_desktop :: string
  sc_current_desktop :: string
  sc_require_scope :: bool
  sc_require_user_runtime :: bool
  sc_runtime_wait_secs :: u64
  sc_start_timeout_secs :: u64
  sc_default_grace_ms :: u32
  sc_socket_dir :: string
  sc_locale_conf :: string
  sc_extra_env :: "(string, string) btmap"

record greeter_config =
  gc_user :: string
  gc_command :: "string list"
  gc_runtime_root :: string
  gc_socket_root :: string
  gc_path :: string
  gc_extra_env :: "(string, string) btmap"

record helper_config =
  hc_socket :: socket_config
  hc_state_dir :: string
  hc_pam :: pam_config
  hc_session :: session_config
  hc_greeter :: greeter_config

definition TICKET_TTL_SECS :: u64 where
  "TICKET_TTL_SECS = 30"

definition socket_config_default :: socket_config where
  "socket_config_default =
     \<lparr>sk_path = ''/run/bsm-helper/helper.sock'', sk_allowed_user = ''bsm'', sk_allowed_uid = None,
      sk_allowed_exe = ''/usr/bin/bsm'', sk_allowed_cgroup = ''bsm.service''\<rparr>"

definition pam_config_default :: pam_config where
  "pam_config_default =
     \<lparr>pc_login_service = ''bsm-login'', pc_unlock_service = ''bsm-unlock'', pc_confdir = None,
      pc_conversation_timeout_secs = 120, pc_prompt_timeout_secs = 60,
      pc_ticket_ttl_secs = TICKET_TTL_SECS, pc_free_failures = 3\<rparr>"

definition session_config_default :: session_config where
  "session_config_default =
     \<lparr>sc_gnoblin = [''/usr/bin/gnoblin'', ''--hosted'', ''--wayland-display'', ''{wayland_display}''],
      sc_bridge = [''/usr/libexec/bsm/bsm-host''], sc_min_uid = 1000, sc_path = ''/usr/local/bin:/usr/bin'',
      sc_session_desktop = ''gnoblin'', sc_current_desktop = ''Gnoblin'', sc_require_scope = True,
      sc_require_user_runtime = True, sc_runtime_wait_secs = 20, sc_start_timeout_secs = 60,
      sc_default_grace_ms = 5000, sc_socket_dir = ''/run/bsm/sessions'', sc_locale_conf = ''/etc/locale.conf'',
      sc_extra_env = []\<rparr>"

definition greeter_config_default :: greeter_config where
  "greeter_config_default =
     \<lparr>gc_user = ''bingux-greeter'', gc_command = [''/usr/bin/bingux-bsm-greeter''],
      gc_runtime_root = ''/run/bsm-greeter'', gc_socket_root = ''/run/bsm'', gc_path = ''/usr/local/bin:/usr/bin'',
      gc_extra_env = []\<rparr>"

definition helper_config_default :: helper_config where
  "helper_config_default =
     \<lparr>hc_socket = socket_config_default, hc_state_dir = ''/run/bsm-helper'', hc_pam = pam_config_default,
      hc_session = session_config_default, hc_greeter = greeter_config_default\<rparr>"

definition ticket_ttl :: "helper_config \<Rightarrow> duration" where
  "ticket_ttl c = from_secs (unat (min (pc_ticket_ttl_secs (hc_pam c)) TICKET_TTL_SECS))"

section \<open>Placeholders\<close>

text \<open>\<^verbatim>\<open>str::split_once\<close>, and \<^verbatim>\<open>str::find\<close> of a character with the two slices around it.\<close>

fun split_once :: "char \<Rightarrow> string \<Rightarrow> (string \<times> string) option" where
  "split_once c [] = None"
| "split_once c (x # xs) =
     (if x = c then Some ([], xs) else map_option (\<lambda>(a, b). (x # a, b)) (split_once c xs))"

lemma split_once_Some: "split_once c s = Some (a, b) \<longleftrightarrow> s = a @ c # b \<and> c \<notin> set a"
proof (induction s arbitrary: a)
  case (Cons x xs)
  then show ?case by (cases a) auto
qed simp

lemma split_once_None: "split_once c s = None \<longleftrightarrow> c \<notin> set s"
  by (induction s) auto

definition TEMPLATE_KEYS :: "string list" where
  "TEMPLATE_KEYS = [''wayland_display'', ''session_id'', ''generation'', ''runtime_dir'', ''uid'', ''user'']"

record template =
  tp_wayland_display :: string
  tp_session_id :: string
  tp_generation :: u64
  tp_runtime_dir :: string
  tp_uid :: u32
  tp_user :: string

definition template_value :: "template \<Rightarrow> string \<Rightarrow> string option" where
  "template_value t key =
     (if key = ''wayland_display'' then Some (tp_wayland_display t)
      else if key = ''session_id'' then Some (tp_session_id t)
      else if key = ''generation'' then Some (show_nat (unat (tp_generation t)))
      else if key = ''runtime_dir'' then Some (tp_runtime_dir t)
      else if key = ''uid'' then Some (show_nat (unat (tp_uid t)))
      else if key = ''user'' then Some (tp_user t)
      else None)"

function expand_loop :: "template \<Rightarrow> string \<Rightarrow> string \<Rightarrow> string" where
  "expand_loop t acc rest =
     (case split_once (CHR ''{'') rest of
        None \<Rightarrow> acc @ rest
      | Some (before, after) \<Rightarrow>
          (case split_once (CHR ''}'') after of
             None \<Rightarrow> expand_loop t (acc @ before @ ''{'') after
           | Some (key, after') \<Rightarrow>
               (case template_value t key of
                  None \<Rightarrow> expand_loop t (acc @ before @ ''{'') after
                | Some v \<Rightarrow> expand_loop t (acc @ before @ v) after')))"
  by pat_completeness auto
termination
  by (relation "measure (\<lambda>(_, _, rest). length rest)") (auto simp: split_once_Some)

declare expand_loop.simps [simp del]

definition expand_one :: "template \<Rightarrow> string \<Rightarrow> string" where
  "expand_one t arg = expand_loop t [] arg"

definition expand_argv :: "template \<Rightarrow> string list \<Rightarrow> string list" where
  "expand_argv t argv = map (expand_one t) argv"

section \<open>Validation\<close>

datatype config_error =
    Cfg_Empty string
  | Cfg_NotAbsolute string string
  | Cfg_Nul string
  | Cfg_Placeholder string string
  | Cfg_Service string
  | Cfg_SameService
  | Cfg_Ttl
  | Cfg_Dirs

text \<open>The placeholder loop of \<^verbatim>\<open>check_argv\<close>: the first unknown key of one argument.\<close>

function unknown_key :: "string \<Rightarrow> string option" where
  "unknown_key rest =
     (case split_once (CHR ''{'') rest of
        None \<Rightarrow> None
      | Some (_, after) \<Rightarrow>
          (case split_once (CHR ''}'') after of
             None \<Rightarrow> None
           | Some (key, after') \<Rightarrow>
               if key \<notin> set TEMPLATE_KEYS then Some key else unknown_key after'))"
  by pat_completeness auto
termination
  by (relation "measure length") (auto simp: split_once_Some)

declare unknown_key.simps [simp del]

definition check_argv :: "string \<Rightarrow> string list \<Rightarrow> bool \<Rightarrow> config_error + unit" where
  "check_argv name argv templated =
     (case argv of
        [] \<Rightarrow> Inl (Cfg_Empty name)
      | first # _ \<Rightarrow>
          if \<not> starts_with (CHR ''/'') first then Inl (Cfg_NotAbsolute name first)
          else if list_ex (\<lambda>a. CHR 0x00 \<in> set a) argv then Inl (Cfg_Nul name)
          else if templated then
            (case List.find (\<lambda>a. unknown_key a \<noteq> None) argv of
               None \<Rightarrow> Inr ()
             | Some a \<Rightarrow> Inl (Cfg_Placeholder name (the (unknown_key a))))
          else Inr ())"

definition is_ascii_alphanumeric :: "char \<Rightarrow> bool" where
  "is_ascii_alphanumeric c \<longleftrightarrow>
     (let n = (of_char c :: nat) in 48 \<le> n \<and> n \<le> 57 \<or> 65 \<le> n \<and> n \<le> 90 \<or> 97 \<le> n \<and> n \<le> 122)"

definition plain_name :: "nat \<Rightarrow> string \<Rightarrow> bool" where
  "plain_name limit s \<longleftrightarrow>
     s \<noteq> [] \<and> length s \<le> limit \<and>
     list_all (\<lambda>c. is_ascii_alphanumeric c \<or> c = CHR ''-'' \<or> c = CHR ''_'') s"

fun and_check :: "'e + unit \<Rightarrow> 'e + unit \<Rightarrow> 'e + unit" where
  "and_check (Inl e) r = Inl e"
| "and_check (Inr ()) r = r"

definition check_services :: "helper_config \<Rightarrow> config_error + unit" where
  "check_services c =
     (case List.find (\<lambda>s. \<not> plain_name 64 s) [pc_login_service (hc_pam c), pc_unlock_service (hc_pam c)] of
        Some s \<Rightarrow> Inl (Cfg_Service s)
      | None \<Rightarrow> Inr ())"

definition config_validate :: "helper_config \<Rightarrow> config_error + unit" where
  "config_validate c =
     and_check (check_argv ''session.gnoblin'' (sc_gnoblin (hc_session c)) True)
    (and_check (check_argv ''session.bridge'' (sc_bridge (hc_session c)) True)
    (and_check (check_argv ''greeter.command'' (gc_command (hc_greeter c)) False)
    (and_check (check_services c)
    (if pc_login_service (hc_pam c) = pc_unlock_service (hc_pam c) then Inl Cfg_SameService
     else if pc_ticket_ttl_secs (hc_pam c) = 0 then Inl Cfg_Ttl
     else if \<not> starts_with (CHR ''/'') (sc_socket_dir (hc_session c))
             \<or> \<not> starts_with (CHR ''/'') (gc_runtime_root (hc_greeter c)) then Inl Cfg_Dirs
     else Inr ()))))"

section \<open>Expansion of a checked command\<close>

text \<open>Substitution as it is meant: left to right, a group in braces is its value, everything else
  stands for itself, and a substituted value is not looked at again.\<close>

function substituted :: "(string \<Rightarrow> string) \<Rightarrow> string \<Rightarrow> string" where
  "substituted f [] = []"
| "substituted f (c # s) =
     (if c = CHR ''{'' then
        (case split_once (CHR ''}'') s of
           Some (key, s') \<Rightarrow> f key @ substituted f s'
         | None \<Rightarrow> c # substituted f s)
      else c # substituted f s)"
  by pat_completeness auto
termination
  by (relation "measure (\<lambda>(_, s). length s)") (auto simp: split_once_Some)

lemma substituted_plain: "CHR ''{'' \<notin> set a \<Longrightarrow> substituted f (a @ s) = a @ substituted f s"
  by (induction a) auto

lemma substituted_open: "CHR ''}'' \<notin> set s \<Longrightarrow> substituted f s = s"
  by (induction s) (auto simp: split_once_None split: option.split dest: split_once_Some [THEN iffD1])

lemma template_value_iff: "template_value t k \<noteq> None \<longleftrightarrow> k \<in> set TEMPLATE_KEYS"
  by (auto simp: template_value_def TEMPLATE_KEYS_def)

lemma expand_loop_open: "CHR ''}'' \<notin> set rest \<Longrightarrow> expand_loop t acc rest = acc @ rest"
proof (induction t acc rest rule: expand_loop.induct)
  case (1 t acc rest)
  show ?case
  proof (cases "split_once (CHR ''{'') rest")
    case None
    then show ?thesis by (simp add: expand_loop.simps)
  next
    case (Some p)
    obtain before after where p: "p = (before, after)" by (cases p)
    with Some have rest: "rest = before @ CHR ''{'' # after" by (simp add: split_once_Some)
    with "1.prems" have none: "split_once (CHR ''}'') after = None" by (simp add: split_once_None)
    from "1.prems" rest have "CHR ''}'' \<notin> set after" by simp
    note ih = "1.IH"(1) [OF Some p [symmetric] none this]
    have "expand_loop t acc rest = expand_loop t (acc @ before @ ''{'') after"
      using Some p none by (subst expand_loop.simps) simp
    with ih rest show ?thesis by simp
  qed
qed

lemma expand_loop_checked:
  "unknown_key rest = None \<Longrightarrow> expand_loop t acc rest = acc @ substituted (\<lambda>k. the (template_value t k)) rest"
proof (induction t acc rest rule: expand_loop.induct)
  case (1 t acc rest)
  show ?case
  proof (cases "split_once (CHR ''{'') rest")
    case None
    then have "CHR ''{'' \<notin> set rest" by (simp add: split_once_None)
    then show ?thesis using None substituted_plain [of rest _ "[]"] by (simp add: expand_loop.simps)
  next
    case (Some p)
    obtain before after where p: "p = (before, after)" by (cases p)
    with Some have rest: "rest = before @ CHR ''{'' # after" "CHR ''{'' \<notin> set before" by (simp_all add: split_once_Some)
    show ?thesis
    proof (cases "split_once (CHR ''}'') after")
      case None
      then have "CHR ''}'' \<notin> set after" by (simp add: split_once_None)
      moreover have "expand_loop t acc rest = expand_loop t (acc @ before @ ''{'') after"
        using None Some p by (subst expand_loop.simps) simp
      ultimately show ?thesis using None rest by (simp add: substituted_plain expand_loop_open substituted_open)
    next
      case (Some q)
      obtain key after' where q: "q = (key, after')" by (cases q)
      have key: "key \<in> set TEMPLATE_KEYS" "unknown_key after' = None"
        using "1.prems" \<open>split_once (CHR ''{'') rest = Some p\<close> Some p q
        by (simp_all add: unknown_key.simps [of rest] split: if_splits)
      then obtain v where v: "template_value t key = Some v" using template_value_iff [of t key] by auto
      note ih = "1.IH"(3) [OF \<open>split_once (CHR ''{'') rest = Some p\<close> p [symmetric] Some q [symmetric] v key(2)]
      have "expand_loop t acc rest = expand_loop t (acc @ before @ v) after'"
        using \<open>split_once (CHR ''{'') rest = Some p\<close> Some p q v by (subst expand_loop.simps) simp
      with ih Some q v rest show ?thesis by (simp add: substituted_plain)
    qed
  qed
qed

text \<open>
  The commands of a configuration that passed \<^verbatim>\<open>validate\<close> expand as written: every
  group in braces is replaced by the value of its key, nothing else changes, and no text of a
  value is expanded again.
\<close>

theorem checked_commands_expand:
  assumes "config_validate c = Inr ()" "arg \<in> set (sc_gnoblin (hc_session c)) \<union> set (sc_bridge (hc_session c))"
  shows "expand_one t arg = substituted (\<lambda>k. the (template_value t k)) arg"
proof -
  have "unknown_key arg = None"
  proof (rule ccontr)
    assume "unknown_key arg \<noteq> None"
    with assms show False
      by (auto simp: config_validate_def check_argv_def find_None_iff split: list.splits if_splits option.splits
          elim!: and_check.elims)
  qed
  then show ?thesis by (simp add: expand_one_def expand_loop_checked)
qed

definition demo_template :: template where
  "demo_template = \<lparr>tp_wayland_display = ''bsm-{uid}'', tp_session_id = ''s0'', tp_generation = 7,
     tp_runtime_dir = ''/run/user/1000'', tp_uid = 1000, tp_user = ''ann''\<rparr>"

lemma default_config_valid: "config_validate helper_config_default = Inr ()"
  by code_simp

theorem checked_commands_expand_witness:
  "expand_one demo_template ''{wayland_display}'' = ''bsm-{uid}''"
proof -
  have "''{wayland_display}'' \<in> set (sc_gnoblin (hc_session helper_config_default)) \<union> set (sc_bridge (hc_session helper_config_default))"
    by (simp add: helper_config_default_def session_config_default_def)
  from checked_commands_expand [OF default_config_valid this, of demo_template] show ?thesis
    by (simp add: template_value_def demo_template_def)
qed

end
