(* ===== verification/Helper_Env.thy ===== *)
theory Helper_Env
  imports Helper_Config
begin

text \<open>
  The pure parts of the privileged helper that decide what a started process sees: the environment
  of a hosted session (\<^verbatim>\<open>env.rs\<close>) and of the greeter (\<^verbatim>\<open>greeter.rs\<close>), the check of socket paths
  (\<^verbatim>\<open>greeter.rs\<close>), the names that end up in paths (\<^verbatim>\<open>session.rs\<close>, \<^verbatim>\<open>logind.rs\<close>) and the parsing of
  cgroup files (\<^verbatim>\<open>cgroup.rs\<close>). A string is its list of bytes; white space is ASCII white space.
\<close>

section \<open>Strings\<close>

definition is_white :: "char \<Rightarrow> bool" where
  "is_white c \<longleftrightarrow> (let n = (of_char c :: nat) in 9 \<le> n \<and> n \<le> 13 \<or> n = 32)"

definition trim_by :: "(char \<Rightarrow> bool) \<Rightarrow> string \<Rightarrow> string" where
  "trim_by P s = rev (dropWhile P (rev (dropWhile P s)))"

text \<open>\<^verbatim>\<open>str::lines\<close>: a final line break does not start another line, and a carriage return before a
  line break belongs to it.\<close>

definition strip_cr :: "string \<Rightarrow> string" where
  "strip_cr l = (if l \<noteq> [] \<and> last l = CHR 0x0D then butlast l else l)"

definition str_lines :: "string \<Rightarrow> string list" where
  "str_lines s =
     (let parts = split_on (CHR 0x0A) s in
      map strip_cr (butlast parts) @ (if last parts = [] then [] else [last parts]))"

definition has_prefix :: "string \<Rightarrow> string \<Rightarrow> bool" where
  "has_prefix p s \<longleftrightarrow> strip_prefix p s \<noteq> None"

definition has_suffix :: "string \<Rightarrow> string \<Rightarrow> bool" where
  "has_suffix p s \<longleftrightarrow> has_prefix (rev p) (rev s)"

text \<open>\<^verbatim>\<open>env.insert\<close> for every entry of a list, in order.\<close>

definition insert_all :: "(string \<times> string) list \<Rightarrow> (string, string) btmap \<Rightarrow> (string, string) btmap" where
  "insert_all kvs env = fold (\<lambda>(k, v). btm_insert k v) kvs env"

lemma get_insert_all: "btm_get (insert_all kvs env) = btm_get env ++ map_of (rev kvs)"
  unfolding insert_all_def by (induction kvs arbitrary: env) (auto simp: map_add_upd_left fun_upd_def map_add_def fun_eq_iff split: option.splits)

section \<open>Environment of a hosted session\<close>

record passwd =
  pw_name :: string
  pw_uid :: u32
  pw_gid :: u32
  pw_home :: string
  pw_shell :: string

record session_env_inputs =
  ei_pw :: passwd
  ei_session_id :: string
  ei_generation :: u64
  ei_path :: string
  ei_session_desktop :: string
  ei_current_desktop :: string
  ei_locale :: "(string, string) btmap"
  ei_extra :: "(string, string) btmap"

definition ENV_SESSION_ID :: string where "ENV_SESSION_ID = ''BSM_SESSION_ID''"
definition ENV_GENERATION :: string where "ENV_GENERATION = ''BSM_GENERATION''"
definition ENV_HOST_SOCKET :: string where "ENV_HOST_SOCKET = ''BSM_HOST_SOCKET''"

definition rejected_from_pam :: "string \<Rightarrow> bool" where
  "rejected_from_pam name \<longleftrightarrow>
     has_prefix ''LD_'' name \<or> name = ''XDG_SEAT'' \<or> name = ''XDG_VTNR'' \<or> name = ENV_HOST_SOCKET \<or>
     name = ''WAYLAND_DISPLAY'' \<or> name = ''DISPLAY'' \<or> name = ''BASH_ENV'' \<or> name = ''ENV''"

definition pam_pairs :: "string list \<Rightarrow> (string \<times> string) list" where
  "pam_pairs pam_env =
     filter (\<lambda>(k, _). k \<noteq> [] \<and> \<not> rejected_from_pam k) (List.map_filter (split_once (CHR ''='')) pam_env)"

text \<open>The map before the forced variables.\<close>

definition env_base :: "session_env_inputs \<Rightarrow> string list \<Rightarrow> (string, string) btmap" where
  "env_base inp pam_env =
     insert_all (pam_pairs pam_env)
       (insert_all (filter (\<lambda>(k, _). \<not> rejected_from_pam k) (ei_extra inp))
         (insert_all (ei_locale inp) (btm_insert ''PATH'' (ei_path inp) [])))"

definition runtime_dir :: "session_env_inputs \<Rightarrow> string list \<Rightarrow> string" where
  "runtime_dir inp pam_env =
     unwrap_or (opt_filter (\<lambda>v. v \<noteq> []) (btm_get (env_base inp pam_env) ''XDG_RUNTIME_DIR''))
       (''/run/user/'' @ show_nat (unat (pw_uid (ei_pw inp))))"

definition forced_env :: "session_env_inputs \<Rightarrow> string \<Rightarrow> (string \<times> string) list" where
  "forced_env inp runtime =
     [(''HOME'', pw_home (ei_pw inp)),
      (''USER'', pw_name (ei_pw inp)),
      (''LOGNAME'', pw_name (ei_pw inp)),
      (''SHELL'', if pw_shell (ei_pw inp) = [] then ''/bin/sh'' else pw_shell (ei_pw inp)),
      (''XDG_RUNTIME_DIR'', runtime),
      (''XDG_SESSION_TYPE'', ''wayland''),
      (''XDG_SESSION_CLASS'', ''user''),
      (''XDG_SESSION_DESKTOP'', ei_session_desktop inp),
      (''DESKTOP_SESSION'', ei_session_desktop inp),
      (''XDG_CURRENT_DESKTOP'', ei_current_desktop inp),
      (ENV_SESSION_ID, ei_session_id inp),
      (ENV_GENERATION, show_nat (unat (ei_generation inp))),
      (''DBUS_SESSION_BUS_ADDRESS'', ''unix:path='' @ runtime @ ''/bus'')]"

definition session_env :: "session_env_inputs \<Rightarrow> string list \<Rightarrow> (string, string) btmap" where
  "session_env inp pam_env =
     insert_all (forced_env inp (runtime_dir inp pam_env)) (env_base inp pam_env)"

definition pam_session_vars :: "session_env_inputs \<Rightarrow> string list" where
  "pam_session_vars inp =
     [''XDG_SESSION_TYPE=wayland'',
      ''XDG_SESSION_CLASS=user'',
      ''XDG_SESSION_DESKTOP='' @ ei_session_desktop inp,
      ''DESKTOP_SESSION='' @ ei_session_desktop inp,
      ''XDG_CURRENT_DESKTOP='' @ ei_current_desktop inp,
      ENV_SESSION_ID @ ''='' @ ei_session_id inp,
      ENV_GENERATION @ ''='' @ show_nat (unat (ei_generation inp))]"

definition locale_line :: "string \<Rightarrow> (string \<times> string) option" where
  "locale_line l =
     (let line = trim_by is_white l in
      if starts_with (CHR ''#'') line then None
      else case split_once (CHR ''='') line of
        None \<Rightarrow> None
      | Some (k0, v0) \<Rightarrow>
          (let k = trim_by is_white k0 in
           if \<not> (k = ''LANG'' \<or> k = ''LANGUAGE'' \<or> has_prefix ''LC_'' k) then None
           else let v = trim_by (\<lambda>c. c = CHR 0x22 \<or> c = CHR 0x27) (trim_by is_white v0) in
             if v \<noteq> [] \<and> CHR 0x00 \<notin> set v then Some (k, v) else None))"

definition parse_locale_conf :: "string \<Rightarrow> (string, string) btmap" where
  "parse_locale_conf text = insert_all (List.map_filter locale_line (str_lines text)) []"

section \<open>Environment of the greeter\<close>

record greeter_run =
  gr_dir :: string
  gr_runtime :: string
  gr_home :: string

definition greeter_forced ::
  "passwd \<Rightarrow> greeter_run \<Rightarrow> u64 \<Rightarrow> string \<Rightarrow> string \<Rightarrow> (string \<times> string) list" where
  "greeter_forced pw run gen wayland_socket control_socket =
     [(''HOME'', gr_home run),
      (''USER'', pw_name pw),
      (''LOGNAME'', pw_name pw),
      (''SHELL'', if pw_shell pw = [] then ''/usr/bin/nologin'' else pw_shell pw),
      (''XDG_RUNTIME_DIR'', gr_runtime run),
      (''XDG_CACHE_HOME'', gr_home run @ ''/.cache''),
      (''XDG_CONFIG_HOME'', gr_home run @ ''/.config''),
      (''XDG_DATA_HOME'', gr_home run @ ''/.local/share''),
      (''XDG_STATE_HOME'', gr_home run @ ''/.local/state''),
      (''WAYLAND_DISPLAY'', wayland_socket),
      (''BSM_CONTROL_SOCKET'', control_socket),
      (ENV_GENERATION, show_nat (unat gen)),
      (''QT_QPA_PLATFORM'', ''wayland''),
      (''XDG_SESSION_TYPE'', ''wayland'')]"

definition greeter_env ::
  "greeter_config \<Rightarrow> passwd \<Rightarrow> greeter_run \<Rightarrow> u64 \<Rightarrow> string \<Rightarrow> string \<Rightarrow> (string, string) btmap \<Rightarrow>
   (string, string) btmap" where
  "greeter_env cfg pw run gen wayland_socket control_socket loc =
     insert_all (greeter_forced pw run gen wayland_socket control_socket)
       (insert_all (filter (\<lambda>(k, _). \<not> has_prefix ''LD_'' k) (gc_extra_env cfg))
         (insert_all loc (btm_insert ''PATH'' (gc_path cfg) [])))"

section \<open>Paths and names\<close>

text \<open>\<^verbatim>\<open>Path::components\<close> on Unix: empty parts are skipped, and so is \<^verbatim>\<open>.\<close> except at the very start of a
  relative path.\<close>

datatype path_component = RootDir | CurDir | ParentDir | Normal string

definition part_component :: "string \<Rightarrow> path_component option" where
  "part_component p =
     (if p = [] \<or> p = ''.'' then None else if p = ''..'' then Some ParentDir else Some (Normal p))"

definition path_components :: "string \<Rightarrow> path_component list" where
  "path_components s =
     (let parts = split_on (CHR ''/'') s in
      (if starts_with (CHR ''/'') s then [RootDir] else if hd parts = ''.'' then [CurDir] else [])
      @ List.map_filter part_component parts)"

definition path_starts_with :: "string \<Rightarrow> string \<Rightarrow> bool" where
  "path_starts_with p root \<longleftrightarrow> prefix (path_components root) (path_components p)"

definition path_within :: "string \<Rightarrow> string \<Rightarrow> bool" where
  "path_within root path \<longleftrightarrow>
     starts_with (CHR ''/'') path \<and> CHR 0x00 \<notin> set path \<and> CHR 0x0A \<notin> set path \<and>
     path_starts_with path root \<and>
     list_all (\<lambda>c. c \<noteq> ParentDir \<and> c \<noteq> CurDir) (path_components path)"

definition valid_session_id :: "string \<Rightarrow> bool" where
  "valid_session_id s \<longleftrightarrow>
     s \<noteq> [] \<and> length s \<le> 32 \<and> list_all (\<lambda>b. is_ascii_alphanumeric b \<or> b = CHR ''-'' \<or> b = CHR ''_'') s"

definition logind_valid_session_id :: "string \<Rightarrow> bool" where
  "logind_valid_session_id s \<longleftrightarrow> s \<noteq> [] \<and> length s \<le> 32 \<and> list_all is_ascii_alphanumeric s"

section \<open>cgroup files\<close>

fun find_map :: "('a \<Rightarrow> 'b option) \<Rightarrow> 'a list \<Rightarrow> 'b option" where
  "find_map f [] = None"
| "find_map f (x # xs) = (case f x of Some y \<Rightarrow> Some y | None \<Rightarrow> find_map f xs)"

definition parse_unified_path :: "string \<Rightarrow> string option" where
  "parse_unified_path text = map_option (trim_by is_white) (find_map (strip_prefix ''0::'') (str_lines text))"

definition scope_unit :: "string \<Rightarrow> string option" where
  "scope_unit path =
     (let l = last (split_on (CHR ''/'') path) in
      if has_suffix ''.scope'' l \<and> length l > length ''.scope'' then Some l else None)"

definition parse_populated :: "string \<Rightarrow> bool option" where
  "parse_populated text =
     map_option (\<lambda>v. trim_by is_white v = ''1'') (find_map (strip_prefix ''populated '') (str_lines text))"

section \<open>What a session can and cannot be given\<close>

lemma has_prefix_iff: "has_prefix p s \<longleftrightarrow> prefix p s"
  by (auto simp: has_prefix_def prefix_def strip_prefix_iff)

lemma get_insert_all_None:
  "btm_get (insert_all kvs env) k = None \<longleftrightarrow> btm_get env k = None \<and> (\<forall>v. (k, v) \<notin> set kvs)"
  unfolding get_insert_all map_add_None by (force simp: map_of_eq_None_iff)

lemma get_insert_all_distinct:
  "distinct (map fst kvs) \<Longrightarrow> (k, v) \<in> set kvs \<Longrightarrow> btm_get (insert_all kvs env) k = Some v"
proof -
  assume "distinct (map fst kvs)" "(k, v) \<in> set kvs"
  then have "map_of (rev kvs) k = Some v" by (intro map_of_is_SomeI) (simp_all add: rev_map [symmetric])
  then show ?thesis by (simp add: get_insert_all map_add_Some_iff)
qed

lemma locale_line_key:
  "locale_line l = Some (k, v) \<Longrightarrow> k = ''LANG'' \<or> k = ''LANGUAGE'' \<or> prefix ''LC_'' k"
  by (auto simp: locale_line_def Let_def has_prefix_iff split: if_splits option.splits)

lemma parse_locale_key:
  "btm_get (parse_locale_conf text) k \<noteq> None \<Longrightarrow> k = ''LANG'' \<or> k = ''LANGUAGE'' \<or> prefix ''LC_'' k"
proof -
  assume "btm_get (parse_locale_conf text) k \<noteq> None"
  then obtain v where "(k, v) \<in> set (List.map_filter locale_line (str_lines text))"
    unfolding parse_locale_conf_def get_insert_all_None by auto
  then obtain l where "locale_line l = Some (k, v)" by (auto simp: map_filter_def)
  then show ?thesis by (rule locale_line_key)
qed

lemma rejected_iff:
  "rejected_from_pam k \<longleftrightarrow> prefix ''LD_'' k \<or>
     k \<in> {''XDG_SEAT'', ''XDG_VTNR'', ''BSM_HOST_SOCKET'', ''WAYLAND_DISPLAY'', ''DISPLAY'', ''BASH_ENV'', ''ENV''}"
  by (simp add: rejected_from_pam_def has_prefix_iff ENV_HOST_SOCKET_def)

lemma locale_not_rejected: "k = ''LANG'' \<or> k = ''LANGUAGE'' \<or> prefix ''LC_'' k \<Longrightarrow> \<not> rejected_from_pam k"
  by (auto simp: rejected_iff prefix_def)

lemma forced_keys:
  "map fst (forced_env inp r) =
     [''HOME'', ''USER'', ''LOGNAME'', ''SHELL'', ''XDG_RUNTIME_DIR'', ''XDG_SESSION_TYPE'', ''XDG_SESSION_CLASS'',
      ''XDG_SESSION_DESKTOP'', ''DESKTOP_SESSION'', ''XDG_CURRENT_DESKTOP'', ''BSM_SESSION_ID'', ''BSM_GENERATION'',
      ''DBUS_SESSION_BUS_ADDRESS'']"
  by (simp add: forced_env_def ENV_SESSION_ID_def ENV_GENERATION_def)

lemma forced_not_rejected: "(k, v) \<in> set (forced_env inp r) \<Longrightarrow> \<not> rejected_from_pam k"
proof -
  assume "(k, v) \<in> set (forced_env inp r)"
  then have "k \<in> set (map fst (forced_env inp r))" by force
  then show ?thesis unfolding forced_keys rejected_iff by auto
qed

lemma runtime_dir_nonempty: "runtime_dir inp pam_env \<noteq> []"
  by (cases "btm_get (env_base inp pam_env) ''XDG_RUNTIME_DIR''") (auto simp: runtime_dir_def)

lemma session_env_forced: "(k, v) \<in> set (forced_env inp (runtime_dir inp pam_env)) \<Longrightarrow> btm_get (session_env inp pam_env) k = Some v"
  unfolding session_env_def by (rule get_insert_all_distinct) (auto simp: forced_keys)


definition demo_env_inputs :: session_env_inputs where
  "demo_env_inputs = \<lparr>ei_pw = \<lparr>pw_name = ''ann'', pw_uid = 1000, pw_gid = 1000, pw_home = ''/home/ann'', pw_shell = []\<rparr>,
     ei_session_id = ''s0000abcd'', ei_generation = 42, ei_path = ''/usr/bin'', ei_session_desktop = ''gnoblin'',
     ei_current_desktop = ''Gnoblin'', ei_locale = parse_locale_conf ''LANG=C'', ei_extra = []\<rparr>"


section \<open>Paths stay inside\<close>

text \<open>Walking a path: the names of the directories one is in.\<close>

fun walk :: "string list \<Rightarrow> path_component list \<Rightarrow> string list" where
  "walk dirs [] = dirs"
| "walk dirs (RootDir # cs) = walk [] cs"
| "walk dirs (CurDir # cs) = walk dirs cs"
| "walk dirs (ParentDir # cs) = walk (butlast dirs) cs"
| "walk dirs (Normal n # cs) = walk (dirs @ [n]) cs"

lemma walk_append: "walk dirs (a @ b) = walk (walk dirs a) b"
  by (induction dirs a rule: walk.induct) auto

lemma walk_normal: "\<forall>c \<in> set cs. \<exists>n. c = Normal n \<Longrightarrow> prefix dirs (walk dirs cs)"
proof (induction cs arbitrary: dirs)
  case (Cons c cs)
  then obtain n where "c = Normal n" by auto
  moreover have "prefix (dirs @ [n]) (walk (dirs @ [n]) cs)" using Cons by auto
  ultimately show ?case by (auto dest: append_prefixD)
qed simp

lemma tl_components: "RootDir \<notin> set (tl (path_components p)) \<and> (path_components p = [] \<or> hd (path_components p) \<noteq> RootDir \<or> starts_with (CHR ''/'') p)"
proof -
  have "RootDir \<notin> set (List.map_filter part_component ps)" for ps
    by (auto simp: map_filter_def part_component_def split: if_splits)
  then show ?thesis
    unfolding path_components_def Let_def
    by (auto dest: list.set_sel(2) [rotated] simp: hd_append split: if_splits)
      (metis hd_in_set list.sel(2) list.set_sel(2) empty_iff list.set(1))+
qed

text \<open>
  A socket path that \<^verbatim>\<open>path_within\<close> accepts never leaves the directory: walking it component by
  component, from the point where the directory is reached one is always inside it.
\<close>

theorem path_stays_inside:
  assumes "path_within root p" "prefix (path_components root) cs" "prefix cs (path_components p)"
  shows "prefix (walk [] (path_components root)) (walk [] cs)"
proof (cases "path_components root")
  case Nil
  then show ?thesis by simp
next
  case (Cons c0 root')
  obtain b where b: "cs = path_components root @ b" using assms(2) by (auto simp: prefix_def)
  obtain e where e: "path_components p = cs @ e" using assms(3) by (auto simp: prefix_def)
  have "set b \<subseteq> set (tl (path_components p))" using b e Cons by auto
  moreover have "set b \<subseteq> set (path_components p)" using b e by auto
  ultimately have "\<forall>c \<in> set b. c \<noteq> RootDir \<and> c \<noteq> CurDir \<and> c \<noteq> ParentDir"
    using tl_components [of p] assms(1) by (auto simp: path_within_def list_all_iff)
  then have "\<forall>c \<in> set b. \<exists>n. c = Normal n" by (metis path_component.exhaust)
  then show ?thesis unfolding b walk_append by (rule walk_normal)
qed

theorem path_stays_inside_witness:
  "path_within ''/run/bsm'' ''/run//bsm/./x.sock''
     \<and> prefix (walk [] (path_components ''/run/bsm'')) (walk [] (path_components ''/run//bsm/./x.sock''))"
proof -
  have ok: "path_within ''/run/bsm'' ''/run//bsm/./x.sock''"
    and pre: "prefix (path_components ''/run/bsm'') (path_components ''/run//bsm/./x.sock'')" by code_simp+
  from path_stays_inside [OF ok pre] ok show ?thesis by simp
qed

end
