(* ===== verification/Helper_Ticket.thy ===== *)
theory Helper_Ticket
  imports Ordered_Map Proto_State
begin

text \<open>
  The single-use authentication tickets of the privileged helper
  (\<^verbatim>\<open>src/bsm/helper/src/ticket.rs\<close>). The hash map is the list of its entries in key order; the one
  place where its iteration order can be observed, the choice among tickets that expire at the same
  instant when the store is full, takes the position of every key in that order as a parameter
  \<^term>\<open>rank\<close>. The random source of \<^verbatim>\<open>mint\<close> is a tape of values: drawing may not end, so it is a
  partial function.
\<close>

section \<open>The store\<close>

definition MAX_TICKETS :: nat where
  "MAX_TICKETS = 64"

record ticket =
  t_uid :: u32
  t_user :: string
  t_intent :: auth_intent
  t_generation :: generation
  t_expires :: instant

datatype redeem_error = Redeem_Unknown | Redeem_Expired | Redeem_WrongGeneration | Redeem_WrongIntent

record 'p tickets =
  tk_ttl :: duration
  tk_map :: "(u64, ticket \<times> 'p) btmap"

definition tickets_new :: "duration \<Rightarrow> 'p tickets" where
  "tickets_new ttl = \<lparr>tk_ttl = ttl, tk_map = []\<rparr>"

definition tickets_expire :: "instant \<Rightarrow> 'p tickets \<Rightarrow> 'p tickets" where
  "tickets_expire now tk = tk\<lparr>tk_map := filter (\<lambda>(_, t, _). now < t_expires t) (tk_map tk)\<rparr>"

definition tickets_clear :: "'p tickets \<Rightarrow> 'p tickets" where
  "tickets_clear tk = tk\<lparr>tk_map := []\<rparr>"

definition next_expiry :: "'p tickets \<Rightarrow> instant option" where
  "next_expiry tk =
     (case map (\<lambda>(_, t, _). t_expires t) (tk_map tk) of [] \<Rightarrow> None | x # xs \<Rightarrow> Some (fold min xs x))"

section \<open>Minting\<close>

text \<open>\<^verbatim>\<open>Iterator::min_by_key\<close>: the first of the elements with the least key.\<close>

fun min_by_key :: "('a \<Rightarrow> 'b::linorder) \<Rightarrow> 'a list \<Rightarrow> 'a option" where
  "min_by_key f [] = None"
| "min_by_key f (x # xs) =
     (case min_by_key f xs of None \<Rightarrow> Some x | Some y \<Rightarrow> Some (if f x \<le> f y then x else y))"

lemma min_by_key_mem: "min_by_key f xs = Some x \<Longrightarrow> x \<in> set xs"
  by (induction xs arbitrary: x) (auto split: option.splits if_splits)

lemma min_by_key_None [simp]: "min_by_key f xs = None \<longleftrightarrow> xs = []"
  by (cases xs) (auto split: option.splits)

definition oldest :: "(u64 \<Rightarrow> nat) \<Rightarrow> (u64, ticket \<times> 'p) btmap \<Rightarrow> u64 option" where
  "oldest rank m = map_option fst (min_by_key (\<lambda>(_, t, _). t_expires t) (sort_key (rank \<circ> fst) m))"

lemma oldest_key: "oldest rank m = Some k \<Longrightarrow> k \<in> set (btm_keys m)"
  by (force simp: oldest_def dest!: min_by_key_mem)

lemma oldest_None: "oldest rank m = None \<longleftrightarrow> m = []"
proof -
  have "sort_key (rank \<circ> fst) m = [] \<longleftrightarrow> m = []"
    by (metis length_0_conv length_sort)
  then show ?thesis by (simp add: oldest_def)
qed

lemma btm_remove_shrinks: "k \<in> set (btm_keys m) \<Longrightarrow> length (btm_remove k m) < length m"
proof -
  assume "k \<in> set (btm_keys m)"
  then obtain v where "(k, v) \<in> set m" by force
  then show ?thesis unfolding btm_remove_def by (intro length_filter_less [of "(k, v)"]) simp_all
qed

text \<open>\<^verbatim>\<open>while self.map.len() >= MAX_TICKETS\<close>: the ticket that expires first goes.\<close>

function evict :: "(u64 \<Rightarrow> nat) \<Rightarrow> (u64, ticket \<times> 'p) btmap \<Rightarrow> (u64, ticket \<times> 'p) btmap" where
  "evict rank m =
     (if length m < MAX_TICKETS then m
      else case oldest rank m of None \<Rightarrow> m | Some k \<Rightarrow> evict rank (btm_remove k m))"
  by pat_completeness auto
termination
  by (relation "measure (\<lambda>(_, m). length m)") (auto intro: btm_remove_shrinks oldest_key)

declare evict.simps [simp del]

text \<open>\<^verbatim>\<open>loop { let id = rand(); .. }\<close>: zero and the keys in use are drawn again.\<close>

partial_function (option) draw_ticket ::
  "(nat \<Rightarrow> u64) \<Rightarrow> (u64, 'v) btmap \<Rightarrow> nat \<Rightarrow> (u64 \<times> nat) option" where
  "draw_ticket rand m pos =
     (if rand pos \<noteq> 0 \<and> \<not> btm_contains m (rand pos) then Some (rand pos, Suc pos)
      else draw_ticket rand m (Suc pos))"

declare draw_ticket.simps [code]

definition tickets_mint ::
  "(u64 \<Rightarrow> nat) \<Rightarrow> (nat \<Rightarrow> u64) \<Rightarrow> nat \<Rightarrow> instant \<Rightarrow> u32 \<Rightarrow> string \<Rightarrow> auth_intent \<Rightarrow> generation \<Rightarrow> 'p \<Rightarrow>
   'p tickets \<Rightarrow> (u64 \<times> nat \<times> 'p tickets) option" where
  "tickets_mint rank rand pos now uid user intent gen payload tk =
     (let m = evict rank (tk_map (tickets_expire now tk)) in
      case draw_ticket rand m pos of
        None \<Rightarrow> None
      | Some (i, pos') \<Rightarrow>
          Some (i, pos', tk\<lparr>tk_map := btm_insert i
            (\<lparr>t_uid = uid, t_user = user, t_intent = intent, t_generation = gen, t_expires = now + tk_ttl tk\<rparr>,
             payload) m\<rparr>))"

section \<open>Redeeming\<close>

definition tickets_redeem ::
  "instant \<Rightarrow> u64 \<Rightarrow> generation \<Rightarrow> auth_intent list \<Rightarrow> 'p tickets \<Rightarrow>
   (redeem_error + ticket \<times> 'p) \<times> 'p tickets" where
  "tickets_redeem now i gen intents tk =
     (let tk' = tk\<lparr>tk_map := btm_remove i (tk_map tk)\<rparr> in
      case btm_get (tk_map tk) i of
        None \<Rightarrow> (Inl Redeem_Unknown, tk)
      | Some (t, payload) \<Rightarrow>
          if t_expires t \<le> now then (Inl Redeem_Expired, tk')
          else if t_generation t \<noteq> gen then (Inl Redeem_WrongGeneration, tk')
          else if t_intent t \<notin> set intents then (Inl Redeem_WrongIntent, tk')
          else (Inr (t, payload), tk'))"

text \<open>\<^verbatim>\<open>payloads_mut\<close>: an update of every payload.\<close>

definition map_payloads :: "('p \<Rightarrow> 'p) \<Rightarrow> 'p tickets \<Rightarrow> 'p tickets" where
  "map_payloads f tk = tk\<lparr>tk_map := map (\<lambda>(k, t, p). (k, t, f p)) (tk_map tk)\<rparr>"

section \<open>The invariant of the store\<close>

definition tickets_wf :: "'p tickets \<Rightarrow> bool" where
  "tickets_wf tk \<longleftrightarrow> btm_wf (tk_map tk) \<and> length (tk_map tk) \<le> MAX_TICKETS \<and> btm_get (tk_map tk) 0 = None"

lemma btm_wf_filter: "btm_wf m \<Longrightarrow> btm_wf (filter P m)"
  by (auto simp: btm_wf_def sorted_wrt_map sorted_wrt_filter)

lemma btm_get_filter: "btm_wf m \<Longrightarrow> btm_get (filter P m) k = opt_filter (\<lambda>v. P (k, v)) (btm_get m k)"
proof -
  assume wf: "btm_wf m"
  have "btm_get (filter P m) k = Some v \<longleftrightarrow> btm_get m k = Some v \<and> P (k, v)" for v
    using btm.entries_lookup [OF wf, of k v] btm.entries_lookup [OF btm_wf_filter [OF wf, of P], of k v] by auto
  then have "btm_get (filter P m) k = Some v \<longleftrightarrow> opt_filter (\<lambda>v. P (k, v)) (btm_get m k) = Some v" for v
    by simp
  then show ?thesis by (metis option.exhaust)
qed

lemma length_btm_insert: "length (btm_insert k v m) \<le> Suc (length m)"
  by (induction k v m rule: btm_insert.induct) auto

lemma length_btm_remove: "length (btm_remove k m) \<le> length m"
  by (simp add: btm_remove_def)

lemma evict_sub: "set (evict rank m) \<subseteq> set m \<and> (btm_wf m \<longrightarrow> btm_wf (evict rank m))"
proof (induction rank m rule: evict.induct)
  case (1 rank m)
  show ?case
  proof (cases "length m < MAX_TICKETS \<or> oldest rank m = None")
    case True
    then show ?thesis by (auto simp: evict.simps)
  next
    case False
    then obtain k where "\<not> length m < MAX_TICKETS" "oldest rank m = Some k" by auto
    with 1 [of k] show ?thesis by (auto simp: evict.simps [of rank m] btm_remove_def intro: btm_wf_filter)
  qed
qed

lemma evict_bound: "length (evict rank m) < MAX_TICKETS"
proof (induction rank m rule: evict.induct)
  case (1 rank m)
  then show ?case
    by (subst evict.simps) (auto simp: oldest_None MAX_TICKETS_def split: option.splits)
qed

lemma evict_small: "length m < MAX_TICKETS \<Longrightarrow> evict rank m = m"
  by (simp add: evict.simps)

lemma draw_ticket_result:
  assumes "draw_ticket rand m pos = Some (i, pos')"
  shows "i \<noteq> 0 \<and> \<not> btm_contains m i \<and> pos < pos' \<and> i = rand (pos' - 1)"
proof -
  have "(\<lambda>r. case r of (i, pos') \<Rightarrow> i \<noteq> 0 \<and> \<not> btm_contains m i \<and> pos < pos' \<and> i = rand (pos' - 1)) (i, pos')"
  proof (rule draw_ticket.raw_induct [OF _ assms], goal_cases)
    case (1 draw rand m pos y)
    show ?case
    proof (cases "rand pos \<noteq> 0 \<and> \<not> btm_contains m (rand pos)")
      case True
      with 1(2) show ?thesis by auto
    next
      case False
      with 1(2) have "draw rand m (Suc pos) = Some y" by auto
      from 1(1) [OF this] show ?thesis by auto
    qed
  qed
  then show ?thesis by auto
qed

lemma draw_ticket_some:
  assumes "pos \<le> n" "rand n \<noteq> 0" "\<not> btm_contains m (rand n)"
  shows "\<exists>r. draw_ticket rand m pos = Some r"
  using assms
proof (induction "n - pos" arbitrary: pos)
  case 0
  then show ?case by (subst draw_ticket.simps) auto
next
  case (Suc d)
  then have "\<exists>r. draw_ticket rand m (Suc pos) = Some r" by auto
  then show ?case by (subst draw_ticket.simps) auto
qed

lemma tickets_wf_expire [simp]: "tickets_wf tk \<Longrightarrow> tickets_wf (tickets_expire now tk)"
  by (auto simp: tickets_wf_def tickets_expire_def btm_wf_filter btm_get_filter opt_filter_None_iff
      intro: order_trans [OF length_filter_le])

lemma tickets_wf_clear [simp]: "tickets_wf (tickets_clear tk)"
  by (simp add: tickets_wf_def tickets_clear_def)

lemma tickets_wf_new [simp]: "tickets_wf (tickets_new ttl)"
  by (simp add: tickets_wf_def tickets_new_def)

lemma tickets_wf_redeem: "tickets_wf tk \<Longrightarrow> tickets_wf (snd (tickets_redeem now i gen intents tk))"
  using length_btm_remove [of i "tk_map tk"]
  by (auto simp: tickets_wf_def tickets_redeem_def Let_def split: option.splits)

lemma keys_map_payloads: "btm_keys (tk_map (map_payloads f tk)) = btm_keys (tk_map tk)"
  by (auto simp: map_payloads_def)

lemma tickets_wf_payloads [simp]: "tickets_wf (map_payloads f tk) = tickets_wf tk"
proof -
  have len: "length (tk_map (map_payloads f tk)) = length (tk_map tk)" by (simp add: map_payloads_def)
  show ?thesis
    unfolding tickets_wf_def btm_wf_def map_of_eq_None_iff keys_map_payloads len list.set_map [symmetric] ..
qed

lemma tickets_wf_mint:
  assumes "tickets_wf tk" "tickets_mint rank rand pos now uid user intent gen payload tk = Some (i, pos', tk')"
  shows "tickets_wf tk'"
proof -
  define m where "m = evict rank (tk_map (tickets_expire now tk))"
  have m: "btm_wf m" "length m < MAX_TICKETS" "btm_get m 0 = None"
    using tickets_wf_expire [OF assms(1), of now] evict_sub [of rank "tk_map (tickets_expire now tk)"]
      evict_bound [of rank "tk_map (tickets_expire now tk)"]
    unfolding m_def tickets_wf_def map_of_eq_None_iff by auto
  obtain v where "draw_ticket rand m pos = Some (i, pos')" "tk' = tk\<lparr>tk_map := btm_insert i v m\<rparr>"
    using assms(2) by (auto simp: tickets_mint_def m_def [symmetric] Let_def split: option.splits prod.splits)
  with m show ?thesis
    using draw_ticket_result [of rand m pos i pos'] length_btm_insert [of i v m] by (auto simp: tickets_wf_def)
qed

section \<open>Properties\<close>

lemma min_by_key_least: "min_by_key f xs = Some x \<Longrightarrow> y \<in> set xs \<Longrightarrow> f x \<le> f y"
proof (induction xs arbitrary: x)
  case Nil
  then show ?case by simp
next
  case (Cons z zs)
  show ?case
  proof (cases "min_by_key f zs")
    case None
    with Cons.prems show ?thesis by simp
  next
    case (Some w)
    with Cons show ?thesis by (fastforce split: if_splits)
  qed
qed

lemma oldest_least:
  assumes "oldest rank m = Some k" "btm_wf m" "btm_get m k = Some (t, p)" "btm_get m k' = Some (t', p')"
  shows "t_expires t \<le> t_expires t'"
proof -
  obtain t0 p0 where e: "min_by_key (\<lambda>(_, t, _). t_expires t) (sort_key (rank \<circ> fst) m) = Some (k, t0, p0)"
    using assms(1) by (auto simp: oldest_def)
  then have "(k, t0, p0) \<in> set m" by (auto dest: min_by_key_mem)
  then have "t0 = t" using assms(2,3) btm.entries_lookup [OF assms(2)] by auto
  with min_by_key_least [OF e, of "(k', t', p')"] assms(4) show ?thesis by (auto dest: map_of_SomeD)
qed

text \<open>With one ticket too many, \<^verbatim>\<open>evict\<close> removes exactly the one that expires first.\<close>

lemma evict_full:
  assumes "btm_wf m" "length m = MAX_TICKETS"
  obtains k t p where "evict rank m = btm_remove k m" "btm_get m k = Some (t, p)"
    "\<And>k' t' p'. btm_get m k' = Some (t', p') \<Longrightarrow> t_expires t \<le> t_expires t'"
proof -
  have "m \<noteq> []" using assms(2) by (auto simp: MAX_TICKETS_def)
  then obtain k where k: "oldest rank m = Some k" using oldest_None [of rank m] by fast
  obtain v where v: "btm_get m k = Some v"
    using oldest_key [OF k] btm.keys_iff [OF assms(1)] by auto
  have "evict rank m = btm_remove k m"
    using btm_remove_shrinks [OF oldest_key [OF k]] assms(2) k by (simp add: evict.simps [of rank m] evict_small)
  with v oldest_least [OF k assms(1)] show thesis by (cases v) (auto intro: that)
qed

lemma mint_stores:
  assumes "tickets_mint rank rand pos now uid user intent gen payload tk = Some (i, pos', tk')"
  shows "i \<noteq> 0 \<and> tk_map tk' = btm_insert i
            (\<lparr>t_uid = uid, t_user = user, t_intent = intent, t_generation = gen, t_expires = now + tk_ttl tk\<rparr>, payload)
            (evict rank (tk_map (tickets_expire now tk)))"
  using assms draw_ticket_result [of rand "evict rank (tk_map (tickets_expire now tk))" pos i pos']
  by (auto simp: tickets_mint_def Let_def split: option.splits prod.splits)

lemma redeem_removes:
  "btm_get (tk_map (snd (tickets_redeem now i gen intents tk))) = (btm_get (tk_map tk))(i := None)"
  by (auto simp: tickets_redeem_def Let_def split: option.splits)

lemma redeem_unknown:
  "btm_get (tk_map tk) i = None \<Longrightarrow> tickets_redeem now i gen intents tk = (Inl Redeem_Unknown, tk)"
  by (simp add: tickets_redeem_def)

lemma redeem_ok_iff:
  "fst (tickets_redeem now i gen intents tk) = Inr (t, p) \<longleftrightarrow>
     btm_get (tk_map tk) i = Some (t, p) \<and> now < t_expires t \<and> t_generation t = gen \<and> t_intent t \<in> set intents"
  by (auto simp: tickets_redeem_def Let_def split: option.splits)

text \<open>
  C15. A ticket is worth one redemption of exactly what it was minted for: the id is not zero,
  redeeming it hands back the account, the intent, the generation and the authenticated process it
  was minted with, and does so only before it expires, for its own generation and an intent the
  caller accepts; after the first attempt, whatever its outcome, every further attempt with that
  id finds nothing.
\<close>

theorem ticket_single_use:
  assumes "tickets_mint rank rand pos now uid user intent gen payload tk = Some (i, pos', tk')"
  shows "i \<noteq> 0
    \<and> (fst (tickets_redeem now1 i gen1 intents1 tk') = Inr (t, p) \<longleftrightarrow>
         now1 < now + tk_ttl tk \<and> gen1 = gen \<and> intent \<in> set intents1 \<and> p = payload \<and>
         t = \<lparr>t_uid = uid, t_user = user, t_intent = intent, t_generation = gen, t_expires = now + tk_ttl tk\<rparr>)
    \<and> fst (tickets_redeem now2 i gen2 intents2 (snd (tickets_redeem now1 i gen1 intents1 tk'))) = Inl Redeem_Unknown"
  using mint_stores [OF assms] redeem_unknown [of "snd (tickets_redeem now1 i gen1 intents1 tk')" i]
  by (auto simp: redeem_ok_iff redeem_removes)

definition demo_tickets :: "nat tickets" where
  "demo_tickets = tickets_new (from_secs 30)"

lemma demo_mint:
  "tickets_mint (\<lambda>_. 0) (\<lambda>n. of_nat (n + 5)) 0 7 1000 ''ann'' Intent_Login 9 42 demo_tickets =
     Some (5, 1, \<lparr>tk_ttl = from_secs 30, tk_map = [(5, \<lparr>t_uid = 1000, t_user = ''ann'', t_intent = Intent_Login,
        t_generation = 9, t_expires = 7 + from_secs 30\<rparr>, 42)]\<rparr>)"
  by (simp add: tickets_mint_def demo_tickets_def tickets_new_def tickets_expire_def evict.simps MAX_TICKETS_def
      draw_ticket.simps btm_contains_def)

theorem ticket_single_use_witness:
  "\<exists>tk'. tickets_mint (\<lambda>_. 0) (\<lambda>n. of_nat (n + 5)) 0 7 1000 ''ann'' Intent_Login 9 42 demo_tickets = Some (5, 1, tk')
     \<and> fst (tickets_redeem 8 5 9 [Intent_Login, Intent_Switch] tk') = Inr (\<lparr>t_uid = 1000, t_user = ''ann'', t_intent = Intent_Login,
        t_generation = 9, t_expires = 7 + from_secs 30\<rparr>, 42)
     \<and> fst (tickets_redeem 8 5 9 [Intent_Login] (snd (tickets_redeem 8 5 9 [Intent_Login, Intent_Switch] tk'))) = Inl Redeem_Unknown"
  using demo_mint
    ticket_single_use [OF demo_mint, where ?now1.0 = 8 and ?gen1.0 = 9 and ?intents1.0 = "[Intent_Login, Intent_Switch]"
      and ?now2.0 = 8 and ?gen2.0 = 9 and ?intents2.0 = "[Intent_Login]" and p = 42
      and t = "\<lparr>t_uid = 1000, t_user = ''ann'', t_intent = Intent_Login, t_generation = 9, t_expires = 7 + from_secs 30\<rparr>"]
  by (auto simp: demo_tickets_def tickets_new_def from_secs_def)

text \<open>
  Minting always answers when the random source eventually gives a non-zero value that is
  not in use, and the store never holds more than 64 tickets. Nobody else loses a valid ticket to
  it, except that with 64 valid tickets outstanding the one that expires first is dropped.
\<close>

theorem mint_bounded:
  assumes "tickets_wf tk" and "pos \<le> n" "rand n \<noteq> 0" "btm_get (tk_map tk) (rand n) = None"
  shows "\<exists>i pos' tk'. tickets_mint rank rand pos now uid user intent gen payload tk = Some (i, pos', tk')
    \<and> tickets_wf tk' \<and> length (tk_map tk') \<le> 64
    \<and> (\<exists>gone. (\<forall>k. k \<noteq> i \<longrightarrow> gone \<noteq> Some k \<longrightarrow> btm_get (tk_map tk') k = btm_get (tk_map (tickets_expire now tk)) k)
         \<and> (length (tk_map (tickets_expire now tk)) < 64 \<longrightarrow> gone = None)
         \<and> (\<forall>k t p k' t' p'. gone = Some k \<longrightarrow> btm_get (tk_map (tickets_expire now tk)) k = Some (t, p) \<longrightarrow>
               btm_get (tk_map (tickets_expire now tk)) k' = Some (t', p') \<longrightarrow> t_expires t \<le> t_expires t'))"
proof -
  define live where "live = tk_map (tickets_expire now tk)"
  define m where "m = evict rank live"
  have live: "btm_wf live" "length live \<le> MAX_TICKETS"
    using tickets_wf_expire [OF assms(1), of now] by (auto simp: tickets_wf_def live_def)
  have "\<not> btm_contains m (rand n)"
  proof -
    have "set m \<subseteq> set (tk_map tk)"
      using evict_sub [of rank live] by (auto simp: m_def live_def tickets_expire_def)
    with assms(4) show ?thesis unfolding btm_contains_def map_of_eq_None_iff by auto
  qed
  then obtain i pos' where d: "draw_ticket rand m pos = Some (i, pos')"
    using draw_ticket_some [of pos n rand m] assms(2,3) by auto
  then obtain tk' where mint: "tickets_mint rank rand pos now uid user intent gen payload tk = Some (i, pos', tk')"
    by (auto simp: tickets_mint_def m_def live_def Let_def)
  have get: "k \<noteq> i \<Longrightarrow> btm_get (tk_map tk') k = btm_get m k" for k
    using mint_stores [OF mint] by (simp add: m_def live_def)
  have wf: "tickets_wf tk'" by (rule tickets_wf_mint [OF assms(1) mint])
  then have len: "length (tk_map tk') \<le> 64" by (simp add: tickets_wf_def MAX_TICKETS_def)
  show ?thesis
  proof (cases "length live < MAX_TICKETS")
    case True
    then have "m = live" by (simp add: m_def evict_small)
    with mint wf len get show ?thesis unfolding live_def
      by (intro exI [of _ i] exI [of _ pos'] exI [of _ tk'] conjI exI [of _ None]) auto
  next
    case False
    with live have "length live = MAX_TICKETS" by simp
    from evict_full [OF live(1) this, of rank] obtain k t p where k: "m = btm_remove k live" "btm_get live k = Some (t, p)"
      "\<And>k' t' p'. btm_get live k' = Some (t', p') \<Longrightarrow> t_expires t \<le> t_expires t'"
      unfolding m_def by metis
    from k(1) get have "\<forall>k'. k' \<noteq> i \<longrightarrow> Some k \<noteq> Some k' \<longrightarrow> btm_get (tk_map tk') k' = btm_get live k'" by simp
    with mint wf len k(2,3) False show ?thesis unfolding live_def [symmetric] MAX_TICKETS_def
      by (intro exI [of _ i] exI [of _ pos'] exI [of _ tk'] conjI exI [of _ "Some k"]) auto
  qed
qed

theorem mint_bounded_witness:
  "\<exists>i pos' tk'. tickets_mint (\<lambda>_. 0) (\<lambda>n. of_nat (n + 5)) 0 7 1000 ''ann'' Intent_Login 9 42 demo_tickets = Some (i, pos', tk')
     \<and> tickets_wf tk' \<and> length (tk_map tk') \<le> 64"
  using mint_bounded [of demo_tickets 0 0 "\<lambda>n. of_nat (n + 5)" "\<lambda>_. 0" 7 1000 "''ann''" Intent_Login 9 42]
  by (auto simp: demo_tickets_def tickets_new_def tickets_wf_def)

end
