(* ===== verification/Helper_Server.thy ===== *)
theory Helper_Server
  imports Helper_Env Helper_Ticket Proto_Messages
begin

text \<open>
  The event loop of the privileged helper (\<^verbatim>\<open>src/bsm/helper/src/server.rs\<close>) with the messages it
  exchanges with the processes it forks (\<^verbatim>\<open>ipc.rs\<close>).

  The operating system is the record \<^verbatim>\<open>world\<close>: what the system calls answer. An answer that can
  change during a handler (the clock, a send, a fork) takes the number of effects so far as its
  argument. The effects themselves are recorded, oldest first, in \<^verbatim>\<open>sv_fx\<close>; closing a descriptor by
  dropping its owner and the lines written to the journal are not. What a handler reads from a
  socket until it would block is the list of the datagrams that are waiting there. A handler that
  draws a ticket number returns an option, since the drawing loop may not end.
\<close>

section \<open>Messages of the forked processes\<close>

datatype auth_child_event =
    ACE_Prompt pam_prompt_kind string
  | ACE_Done bool "error_code option" string

record start_params =
  sp_session :: session_id
  sp_generation :: generation
  sp_host_socket :: string
  sp_output_hints :: "(u32 \<times> u32) list"

datatype auth_parent_cmd = APC_Response string | APC_Abort | APC_StartSession start_params

datatype sup_event =
    SUP_Opened session_id generation u32 u32 u32 string "string option"
  | SUP_Failed error_code string
  | SUP_Exited i32

datatype sup_cmd = SUP_Close u32

text \<open>\<^verbatim>\<open>ipc::Incoming\<close> without \<^verbatim>\<open>WouldBlock\<close>, which is the end of the waiting datagrams; a failed
  \<^verbatim>\<open>recv\<close> is \<^verbatim>\<open>In_Error\<close>.\<close>

datatype 'm incoming = In_Msg 'm | In_Eof | In_Bad | In_Error

datatype conn_in = CI_Request helper_request | CI_Undecodable | CI_Oversized | CI_Eof | CI_Error string

section \<open>The state\<close>

type_synonym pid = nat
type_synonym sock = nat

datatype 'a io = Io_Ok 'a | Io_Err string

record auth_conv =
  ac_req_id :: u64
  ac_pid :: pid
  ac_sock :: sock
  ac_user :: string
  ac_uid :: u32
  ac_intent :: auth_intent
  ac_generation :: generation
  ac_startable :: bool
  ac_deadline :: instant
  ac_awaiting :: bool
  ac_answered_at :: "instant option"

record parked =
  pk_sock :: sock
  pk_pid :: pid

definition FAIL_DELAY :: duration where
  "FAIL_DELAY = from_secs 2"

definition MAX_DYING :: nat where
  "MAX_DYING = 8"

record throttle =
  th_failures :: u32
  th_next_allowed :: instant

record dying =
  dy_pid :: pid
  dy_kill_at :: instant

record session_entry =
  se_session :: session_id
  se_generation :: generation
  se_req_id :: "u64 option"
  se_sup_pid :: "pid option"
  se_sup_status :: "i32 option"
  se_sock :: sock
  se_opened :: bool
  se_logind_session :: "string option"
  se_start_deadline :: "instant option"

record greeter_entry =
  ge_generation :: generation
  ge_pid :: pid
  ge_run :: greeter_run
  ge_kill_at :: "instant option"

record hint_job =
  hj_pid :: pid
  hj_req_id :: u64

datatype signal = SIGTERM | SIGKILL

record auth_params =
  ap_service :: string
  ap_user :: string
  ap_uid :: u32
  ap_exit_on_interrupt :: bool
  ap_confdir :: "string option"
  ap_prompt_timeout :: duration

datatype sys_effect =
    Fx_Send helper_event "bool io"
  | Fx_SendChild sock auth_parent_cmd "bool io"
  | Fx_SendSup sock sup_cmd
  | Fx_Kill pid signal
  | Fx_KillGroup pid signal
  | Fx_KillUser u32
  | Fx_ForkAuth pid auth_params bool
  | Fx_ForkHint pid string bool
  | Fx_SpawnGreeter pid passwd "string list" "(string, string) btmap" string
  | Fx_RemoveDirs string

record server =
  sv_cfg :: helper_config
  sv_allowed_uid :: u32
  sv_conn :: "helper_event list option"
  sv_auths :: "auth_conv list"
  sv_dying :: "dying list"
  sv_throttle :: "(u32, throttle) btmap"
  sv_tickets :: "parked option tickets"
  sv_sessions :: "session_entry list"
  sv_greeter :: "greeter_entry option"
  sv_hints :: "hint_job list"
  sv_missed_exits :: "helper_event list"
  sv_shutdown :: bool
  sv_rng_pos :: nat
  sv_fx :: "sys_effect list"

text \<open>The operating system as one turn of the loop sees it.\<close>

record world =
  w_now :: "nat \<Rightarrow> instant"
  w_send :: "nat \<Rightarrow> bool io"
  w_send_child :: "nat \<Rightarrow> bool io"
  w_getpwnam :: "string \<Rightarrow> passwd option io"
  w_getpwuid :: "u32 \<Rightarrow> passwd option io"
  w_euid :: u32
  w_socketpair :: "nat \<Rightarrow> sock io"
  w_fork :: "nat \<Rightarrow> pid io"
  w_random :: "nat \<Rightarrow> u64 option"
  w_rank :: "u64 \<Rightarrow> nat"
  w_wait_status :: "pid \<Rightarrow> i32 option"
  w_retired :: bool
  w_prepare_dirs :: "string \<Rightarrow> generation \<Rightarrow> passwd \<Rightarrow> greeter_run io"
  w_locale_conf :: "string option"
  w_spawn :: "pid io"

definition clock :: "world \<Rightarrow> server \<Rightarrow> instant" where
  "clock w s = w_now w (length (sv_fx s))"

definition fx :: "sys_effect \<Rightarrow> server \<Rightarrow> server" where
  "fx e s = s\<lparr>sv_fx := sv_fx s @ [e]\<rparr>"

definition remove_nth :: "nat \<Rightarrow> 'a list \<Rightarrow> 'a list" where
  "remove_nth i xs = take i xs @ drop (Suc i) xs"

text \<open>\<^verbatim>\<open>iter().position(..)\<close>\<close>

fun position :: "('a \<Rightarrow> bool) \<Rightarrow> 'a list \<Rightarrow> nat option" where
  "position P [] = None"
| "position P (x # xs) = (if P x then Some 0 else map_option Suc (position P xs))"

section \<open>Output and connection\<close>

definition kill_auth_child :: "world \<Rightarrow> pid \<Rightarrow> server \<Rightarrow> server" where
  "kill_auth_child w p s =
     (let s = fx (Fx_Kill p SIGKILL) s in
      s\<lparr>sv_dying := sv_dying s @ [\<lparr>dy_pid = p, dy_kill_at = clock w s\<rparr>]\<rparr>)"

text \<open>\<^verbatim>\<open>kill_at.get_or_insert(now + 2 s)\<close> after a SIGTERM to the greeter's group.\<close>

definition terminate_greeter :: "world \<Rightarrow> greeter_entry \<Rightarrow> server \<Rightarrow> server" where
  "terminate_greeter w g s =
     (let s = fx (Fx_KillGroup (ge_pid g) SIGTERM) s in
      s\<lparr>sv_greeter := Some (g\<lparr>ge_kill_at := or_else (ge_kill_at g) (Some (clock w s + from_secs 2))\<rparr>)\<rparr>)"

definition drop_connection :: "world \<Rightarrow> server \<Rightarrow> server" where
  "drop_connection w s0 =
     (let auths = sv_auths s0;
          s = s0\<lparr>sv_conn := None, sv_auths := []\<rparr>;
          s = fold (\<lambda>conv. kill_auth_child w (ac_pid conv)) auths s;
          s = s\<lparr>sv_tickets := tickets_clear (sv_tickets s)\<rparr>
      in case sv_greeter s of None \<Rightarrow> s | Some g \<Rightarrow> terminate_greeter w g s)"

fun is_session_exited :: "helper_event \<Rightarrow> bool" where
  "is_session_exited (HEv_SessionExited _ _ _) = True"
| "is_session_exited _ = False"

definition emit_unheard :: "helper_event \<Rightarrow> server \<Rightarrow> server" where
  "emit_unheard ev s =
     (if is_session_exited ev then
        s\<lparr>sv_missed_exits := (if length (sv_missed_exits s) \<ge> 64 then tl (sv_missed_exits s) else sv_missed_exits s) @ [ev]\<rparr>
      else s)"

definition emit_queue_check :: "world \<Rightarrow> server \<Rightarrow> server" where
  "emit_queue_check w s =
     (if is_some_and (sv_conn s) (\<lambda>q. length q > 1024) then drop_connection w s else s)"

definition emit :: "world \<Rightarrow> helper_event \<Rightarrow> server \<Rightarrow> server" where
  "emit w ev s =
     (case sv_conn s of
        None \<Rightarrow> emit_unheard ev s
      | Some queue \<Rightarrow>
          if queue \<noteq> [] then emit_queue_check w (s\<lparr>sv_conn := Some (queue @ [ev])\<rparr>)
          else
            (let r = w_send w (length (sv_fx s)); s = fx (Fx_Send ev r) s in
             case r of
               Io_Ok True \<Rightarrow> emit_queue_check w s
             | Io_Ok False \<Rightarrow> emit_queue_check w (s\<lparr>sv_conn := Some (queue @ [ev])\<rparr>)
             | Io_Err _ \<Rightarrow> drop_connection w s))"

fun flush_queue :: "world \<Rightarrow> helper_event list \<Rightarrow> server \<Rightarrow> server" where
  "flush_queue w [] s = s\<lparr>sv_conn := Some []\<rparr>"
| "flush_queue w (ev # queue) s =
     (let r = w_send w (length (sv_fx s)); s = fx (Fx_Send ev r) s in
      case r of
        Io_Ok True \<Rightarrow> flush_queue w queue s
      | Io_Ok False \<Rightarrow> s\<lparr>sv_conn := Some (ev # queue)\<rparr>
      | Io_Err _ \<Rightarrow> drop_connection w s)"

definition flush :: "world \<Rightarrow> server \<Rightarrow> server" where
  "flush w s = (case sv_conn s of None \<Rightarrow> s | Some queue \<Rightarrow> flush_queue w queue s)"

section \<open>Accounts and throttling\<close>

definition account_allowed :: "world \<Rightarrow> server \<Rightarrow> passwd \<Rightarrow> string + unit" where
  "account_allowed w s pw =
     (if pw_uid pw = 0 then Inl ''the root account cannot sign in through bsm''
      else if pw_uid pw < sc_min_uid (hc_session (sv_cfg s)) then
        Inl (''uid '' @ show_nat (unat (pw_uid pw)) @ '' is below the minimum '' @
             show_nat (unat (sc_min_uid (hc_session (sv_cfg s)))))
      else if (pw_uid pw = sv_allowed_uid s \<or> pw_name pw = gc_user (hc_greeter (sv_cfg s))
               \<or> pw_name pw = sk_allowed_user (hc_socket (sv_cfg s))) \<and> w_euid w = 0 then
        Inl ''service accounts cannot sign in''
      else Inr ())"

definition saturating_succ :: "u32 \<Rightarrow> u32" where
  "saturating_succ x = (if x = - 1 then x else x + 1)"

definition backoff :: "u32 \<Rightarrow> u32 \<Rightarrow> duration" where
  "backoff free failures =
     (if failures > free then from_secs (min (2 ^ min (unat (failures - free)) 5) 30) else 0)"

definition note_failure :: "world \<Rightarrow> u32 \<Rightarrow> instant option \<Rightarrow> server \<Rightarrow> server" where
  "note_failure w uid aborted_at s =
     (let now = clock w s;
          t = unwrap_or (btm_get (sv_throttle s) uid) \<lparr>th_failures = 0, th_next_allowed = now\<rparr>;
          failures = saturating_succ (th_failures t);
          base = (case aborted_at of Some at \<Rightarrow> at + FAIL_DELAY | None \<Rightarrow> now)
      in s\<lparr>sv_throttle := btm_insert uid
             \<lparr>th_failures = failures,
              th_next_allowed = max (th_next_allowed t) (base + backoff (pc_free_failures (hc_pam (sv_cfg s))) failures)\<rparr>
             (sv_throttle s)\<rparr>)"

definition throttled :: "world \<Rightarrow> u32 \<Rightarrow> server \<Rightarrow> duration option" where
  "throttled w uid s =
     (case btm_get (sv_throttle s) uid of
        None \<Rightarrow> None
      | Some t \<Rightarrow> if clock w s < th_next_allowed t then Some (th_next_allowed t - clock w s) else None)"

section \<open>Authentication\<close>

definition auth_done_err :: "world \<Rightarrow> u64 \<Rightarrow> error_code \<Rightarrow> string \<Rightarrow> server \<Rightarrow> server" where
  "auth_done_err w req_id code msg s = emit w (HEv_AuthDone req_id False (Some code) msg None) s"

definition push_dying :: "world \<Rightarrow> pid \<Rightarrow> server \<Rightarrow> server" where
  "push_dying w p s = s\<lparr>sv_dying := sv_dying s @ [\<lparr>dy_pid = p, dy_kill_at = clock w s + from_millis 1000\<rparr>]\<rparr>"

text \<open>\<^verbatim>\<open>abort_auth\<close> up to its report.\<close>

definition retire_auth :: "world \<Rightarrow> nat \<Rightarrow> server \<Rightarrow> server" where
  "retire_auth w i s =
     (let conv = sv_auths s ! i;
          s = s\<lparr>sv_auths := remove_nth i (sv_auths s)\<rparr>;
          s = (case ac_answered_at conv of Some at \<Rightarrow> note_failure w (ac_uid conv) (Some at) s | None \<Rightarrow> s);
          s = fx (Fx_SendChild (ac_sock conv) APC_Abort (w_send_child w (length (sv_fx s)))) s
      in push_dying w (ac_pid conv) s)"

definition abort_auth :: "world \<Rightarrow> nat \<Rightarrow> error_code \<Rightarrow> string \<Rightarrow> server \<Rightarrow> server" where
  "abort_auth w i code msg s =
     emit w (HEv_AuthDone (ac_req_id (sv_auths s ! i)) False (Some code) msg None) (retire_auth w i s)"

text \<open>Giving up a connection leaves no conversation, and sending at most ends them all.\<close>

lemma kill_auth_child_auths [simp]: "sv_auths (kill_auth_child w p s) = sv_auths s"
  by (simp add: kill_auth_child_def fx_def Let_def)

lemma fold_kill_auths [simp]: "sv_auths (fold (\<lambda>c. kill_auth_child w (ac_pid c)) cs s) = sv_auths s"
  by (induction cs arbitrary: s) simp_all

lemma drop_connection_auths [simp]: "sv_auths (drop_connection w s) = []"
  by (simp add: drop_connection_def terminate_greeter_def fx_def Let_def split: option.split)

lemma emit_auths: "sv_auths (emit w ev s) = sv_auths s \<or> sv_auths (emit w ev s) = []"
  by (auto simp: emit_def emit_unheard_def emit_queue_check_def fx_def Let_def split: option.split io.split bool.split)

lemma note_failure_auths [simp]: "sv_auths (note_failure w uid at s) = sv_auths s"
  by (simp add: note_failure_def Let_def)

lemma abort_auth_auths:
  "sv_auths (abort_auth w i code msg s) = remove_nth i (sv_auths s) \<or> sv_auths (abort_auth w i code msg s) = []"
proof -
  have "sv_auths (retire_auth w i s) = remove_nth i (sv_auths s)"
    by (simp add: retire_auth_def Let_def fx_def push_dying_def split: option.split)
  then show ?thesis unfolding abort_auth_def using emit_auths by metis
qed

lemma abort_auth_shrinks: "i < length (sv_auths s) \<Longrightarrow> length (sv_auths (abort_auth w i code msg s)) < length (sv_auths s)"
  using abort_auth_auths [of w i code msg s] by (auto simp: remove_nth_def)

text \<open>\<^verbatim>\<open>while !self.auths.is_empty()\<close>\<close>

function supersede_all :: "world \<Rightarrow> server \<Rightarrow> server" where
  "supersede_all w s =
     (if sv_auths s = [] then s
      else supersede_all w (abort_auth w 0 E_Cancelled ''superseded by a new authentication'' s))"
  by pat_completeness auto
termination
  by (relation "measure (\<lambda>(_, s). length (sv_auths s))") (auto intro: abort_auth_shrinks)

declare supersede_all.simps [simp del]

definition expected_service :: "server \<Rightarrow> auth_intent \<Rightarrow> string" where
  "expected_service s intent =
     (case intent of Intent_Unlock \<Rightarrow> pc_unlock_service (hc_pam (sv_cfg s)) | _ \<Rightarrow> pc_login_service (hc_pam (sv_cfg s)))"

definition startable_intent :: "auth_intent \<Rightarrow> bool" where
  "startable_intent intent \<longleftrightarrow> intent = Intent_Login \<or> intent = Intent_Switch"

text \<open>The part of \<^verbatim>\<open>auth_start\<close> after every check: the socket pair, the fork and the new conversation.\<close>

definition auth_fork ::
  "world \<Rightarrow> u64 \<Rightarrow> passwd \<Rightarrow> auth_intent \<Rightarrow> generation \<Rightarrow> string \<Rightarrow> server \<Rightarrow> server" where
  "auth_fork w req_id pw intent gen service s =
     (case w_socketpair w (length (sv_fx s)) of
        Io_Err e \<Rightarrow> auth_done_err w req_id E_Internal (''socketpair: '' @ e) s
      | Io_Ok sk \<Rightarrow>
          (let params = \<lparr>ap_service = service, ap_user = pw_name pw, ap_uid = pw_uid pw, ap_exit_on_interrupt = True,
                 ap_confdir = pc_confdir (hc_pam (sv_cfg s)),
                 ap_prompt_timeout = from_secs (unat (pc_prompt_timeout_secs (hc_pam (sv_cfg s))))\<rparr>;
               startable = startable_intent intent
           in case w_fork w (length (sv_fx s)) of
                Io_Err e \<Rightarrow> auth_done_err w req_id E_Internal (''fork: '' @ e) s
              | Io_Ok p \<Rightarrow>
                  (let s = fx (Fx_ForkAuth p params startable) s in
                   s\<lparr>sv_auths := sv_auths s @
                     [\<lparr>ac_req_id = req_id, ac_pid = p, ac_sock = sk, ac_user = pw_name pw, ac_uid = pw_uid pw,
                       ac_intent = intent, ac_generation = gen, ac_startable = startable,
                       ac_deadline = clock w s + from_secs (unat (pc_conversation_timeout_secs (hc_pam (sv_cfg s)))),
                       ac_awaiting = False, ac_answered_at = None\<rparr>]\<rparr>)))"

text \<open>The part of \<^verbatim>\<open>auth_start\<close> once the account is accepted.\<close>

definition auth_begin ::
  "world \<Rightarrow> u64 \<Rightarrow> passwd \<Rightarrow> u32 \<Rightarrow> auth_intent \<Rightarrow> generation \<Rightarrow> string \<Rightarrow> server \<Rightarrow> server" where
  "auth_begin w req_id pw uid intent gen service s0 =
     (let s = supersede_all w s0 in
      if length (sv_dying s) \<ge> MAX_DYING then
        auth_done_err w req_id E_Busy ''too many authentication processes are still ending'' s
      else case throttled w uid s of
        Some wait \<Rightarrow> auth_done_err w req_id E_Busy
          (''too many failed attempts, try again in '' @ show_nat (wait div 1000000000 + 1) @ '' s'') s
      | None \<Rightarrow> auth_fork w req_id pw intent gen service s)"

definition auth_start ::
  "world \<Rightarrow> u64 \<Rightarrow> string \<Rightarrow> u32 \<Rightarrow> auth_intent \<Rightarrow> generation \<Rightarrow> string \<Rightarrow> server \<Rightarrow> server" where
  "auth_start w req_id user uid intent gen service s =
     (if service \<noteq> expected_service s intent then
        auth_done_err w req_id E_InvalidArgument ''PAM service not permitted for this intent'' s
      else if list_ex (\<lambda>a. ac_req_id a = req_id) (sv_auths s) then
        auth_done_err w req_id E_InvalidArgument ''duplicate request id'' s
      else case w_getpwnam w user of
        Io_Err _ \<Rightarrow> auth_done_err w req_id E_Internal ''account lookup failed'' s
      | Io_Ok None \<Rightarrow> auth_done_err w req_id E_InvalidAccount ''unknown account'' s
      | Io_Ok (Some pw) \<Rightarrow>
          if pw_uid pw \<noteq> uid then auth_done_err w req_id E_InvalidAccount ''unknown account'' s
          else case account_allowed w s pw of
            Inl msg \<Rightarrow> auth_done_err w req_id E_InvalidAccount msg s
          | Inr _ \<Rightarrow> auth_begin w req_id pw uid intent gen service s)"

definition auth_response :: "world \<Rightarrow> u64 \<Rightarrow> string \<Rightarrow> server \<Rightarrow> server" where
  "auth_response w req_id response s =
     (case position (\<lambda>a. ac_req_id a = req_id) (sv_auths s) of
        None \<Rightarrow> s
      | Some i \<Rightarrow>
          (let conv = sv_auths s ! i in
           if \<not> ac_awaiting conv then s
           else
             (let s = s\<lparr>sv_auths := (sv_auths s)[i := conv\<lparr>ac_awaiting := False, ac_answered_at := Some (clock w s)\<rparr>]\<rparr> in
              fx (Fx_SendChild (ac_sock conv) (APC_Response response) (w_send_child w (length (sv_fx s)))) s)))"

text \<open>\<^verbatim>\<open>Server::mint\<close>: the first draw only tests the random source; a failed draw counts as the value
  one, and then the ticket it led to is taken back.\<close>

definition mint ::
  "world \<Rightarrow> u32 \<Rightarrow> string \<Rightarrow> auth_intent \<Rightarrow> generation \<Rightarrow> parked option \<Rightarrow> server \<Rightarrow> (u64 option \<times> server) option" where
  "mint w uid user intent gen payload s =
     (let pos = sv_rng_pos s; s = s\<lparr>sv_rng_pos := Suc pos\<rparr> in
      if w_random w pos = None then Some (None, s)
      else case tickets_mint (w_rank w) (\<lambda>n. unwrap_or (w_random w n) 1) (Suc pos) (clock w s) uid user intent gen
                  payload (sv_tickets s) of
        None \<Rightarrow> None
      | Some (i, pos', tk) \<Rightarrow>
          (let s = s\<lparr>sv_rng_pos := pos'\<rparr> in
           if list_ex (\<lambda>n. w_random w n = None) [Suc pos..<pos'] then
             Some (None, s\<lparr>sv_tickets := snd (tickets_redeem (clock w s) i gen [intent] tk)\<rparr>)
           else Some (Some i, s\<lparr>sv_tickets := tk\<rparr>)))"

definition auth_passed :: "world \<Rightarrow> auth_conv \<Rightarrow> server \<Rightarrow> server option" where
  "auth_passed w conv s0 =
     (let s = s0\<lparr>sv_throttle := btm_remove (ac_uid conv) (sv_throttle s0)\<rparr>;
          (payload, s) = (if ac_startable conv then (Some \<lparr>pk_sock = ac_sock conv, pk_pid = ac_pid conv\<rparr>, s)
                          else (None, push_dying w (ac_pid conv) s))
      in case mint w (ac_uid conv) (ac_user conv) (ac_intent conv) (ac_generation conv) payload s of
           None \<Rightarrow> None
         | Some (Some t, s) \<Rightarrow> Some (emit w (HEv_AuthDone (ac_req_id conv) True None [] (Some t)) s)
         | Some (None, s) \<Rightarrow> Some (emit w (HEv_AuthDone (ac_req_id conv) False (Some E_Internal)
             ''no random source for the ticket'' None) s))"

definition auth_failed :: "world \<Rightarrow> auth_conv \<Rightarrow> error_code option \<Rightarrow> string \<Rightarrow> server \<Rightarrow> server" where
  "auth_failed w conv code msg s0 =
     (let s = push_dying w (ac_pid conv) s0;
          s = (if ac_answered_at conv \<noteq> None then note_failure w (ac_uid conv) None s else s)
      in emit w (HEv_AuthDone (ac_req_id conv) False (or_else code (Some E_PamFailure)) msg None) s)"

definition is_question :: "pam_prompt_kind \<Rightarrow> bool" where
  "is_question k \<longleftrightarrow> k = Pam_EchoOff \<or> k = Pam_EchoOn"

fun read_auth :: "world \<Rightarrow> u64 \<Rightarrow> auth_child_event incoming list \<Rightarrow> server \<Rightarrow> server option" where
  "read_auth w req_id [] s = Some s"
| "read_auth w req_id (m # ms) s =
     (case position (\<lambda>a. ac_req_id a = req_id) (sv_auths s) of
        None \<Rightarrow> Some s
      | Some i \<Rightarrow>
          (let conv = sv_auths s ! i; gone = s\<lparr>sv_auths := remove_nth i (sv_auths s)\<rparr> in
           case m of
             In_Msg (ACE_Prompt kind txt) \<Rightarrow>
               (let s = (if is_question kind then s\<lparr>sv_auths := (sv_auths s)[i := conv\<lparr>ac_awaiting := True\<rparr>]\<rparr> else s) in
                read_auth w req_id ms (emit w (HEv_AuthPrompt req_id kind txt) s))
           | In_Msg (ACE_Done ok code msg) \<Rightarrow>
               if ok then auth_passed w conv gone else Some (auth_failed w conv code msg gone)
           | _ \<Rightarrow>
               Some (emit w (HEv_AuthDone req_id False (Some E_HelperFailure)
                  ''authentication process ended unexpectedly'' None) (kill_auth_child w (ac_pid conv) gone))))"

section \<open>Sessions\<close>

definition session_failed :: "world \<Rightarrow> u64 \<Rightarrow> session_id \<Rightarrow> generation \<Rightarrow> error_code \<Rightarrow> string \<Rightarrow> server \<Rightarrow> server" where
  "session_failed w req_id session gen code msg s = emit w (HEv_SessionFailed req_id session gen code msg) s"

definition bad_hints :: "(u32 \<times> u32) list \<Rightarrow> bool" where
  "bad_hints hints \<longleftrightarrow>
     length hints > 16 \<or> list_ex (\<lambda>(x, y). x = 0 \<or> y = 0 \<or> x > 16384 \<or> y > 16384) hints"

text \<open>The part of \<^verbatim>\<open>open_session\<close> once the ticket and the request are good: the parked child is told to
  open the session on its authenticated PAM handle.\<close>

definition start_parked ::
  "world \<Rightarrow> u64 \<Rightarrow> session_id \<Rightarrow> generation \<Rightarrow> string \<Rightarrow> (u32 \<times> u32) list \<Rightarrow> parked option \<Rightarrow> server \<Rightarrow> server" where
  "start_parked w req_id session gen socket_path hints pk s =
     (case pk of
        None \<Rightarrow> session_failed w req_id session gen E_Unauthorised ''ticket cannot open a session'' s
      | Some p \<Rightarrow>
          (let r = w_send_child w (length (sv_fx s));
               s = fx (Fx_SendChild (pk_sock p) (APC_StartSession \<lparr>sp_session = session, sp_generation = gen,
                     sp_host_socket = socket_path, sp_output_hints = hints\<rparr>) r) s
           in if r \<noteq> Io_Ok True then
                session_failed w req_id session gen E_HelperFailure ''the authenticated process is gone'' s
              else
                s\<lparr>sv_sessions := sv_sessions s @
                  [\<lparr>se_session = session, se_generation = gen, se_req_id = Some req_id, se_sup_pid = Some (pk_pid p),
                    se_sup_status = None, se_sock = pk_sock p, se_opened = False, se_logind_session = None,
                    se_start_deadline = Some (clock w s +
                      from_secs (unat (sc_start_timeout_secs (hc_session (sv_cfg s)) +
                                       sc_runtime_wait_secs (hc_session (sv_cfg s)))))\<rparr>]\<rparr>))"

definition open_session ::
  "world \<Rightarrow> u64 \<Rightarrow> u64 \<Rightarrow> session_id \<Rightarrow> generation \<Rightarrow> string \<Rightarrow> (u32 \<times> u32) list \<Rightarrow> server \<Rightarrow> server" where
  "open_session w req_id tid session gen socket_path hints s0 =
     (let (r, tk) = tickets_redeem (clock w s0) tid gen [Intent_Login, Intent_Switch] (sv_tickets s0);
          s = s0\<lparr>sv_tickets := tk\<rparr>;
          fail = session_failed w req_id session gen
      in case r of
           Inl Redeem_WrongGeneration \<Rightarrow> fail E_StaleGeneration ''ticket belongs to another generation'' s
         | Inl _ \<Rightarrow> fail E_Unauthorised ''invalid, expired or already used ticket'' s
         | Inr (t, pk) \<Rightarrow>
             if \<not> valid_session_id session then fail E_InvalidArgument ''invalid session id'' s
             else if \<not> path_within (sc_socket_dir (hc_session (sv_cfg s))) socket_path then
               fail E_InvalidArgument ''socket path outside the session socket directory'' s
             else if bad_hints hints then fail E_InvalidArgument ''invalid output hints'' s
             else if list_ex (\<lambda>e. se_session e = session) (sv_sessions s) then
               fail E_Busy ''session id already in use'' s
             else case w_getpwuid w (t_uid t) of
               Io_Ok (Some pw) \<Rightarrow>
                 if pw_name pw \<noteq> t_user t then fail E_InvalidAccount ''account changed since authentication'' s
                 else (case account_allowed w s pw of
                    Inl msg \<Rightarrow> fail E_InvalidAccount msg s
                  | Inr _ \<Rightarrow> start_parked w req_id session gen socket_path hints pk s)
             | _ \<Rightarrow> fail E_InvalidAccount ''account changed since authentication'' s)"

definition session_opened :: "world \<Rightarrow> nat \<Rightarrow> session_id \<Rightarrow> generation \<Rightarrow> u32 \<Rightarrow> u32 \<Rightarrow> u32 \<Rightarrow> string \<Rightarrow> string option \<Rightarrow>
    server \<Rightarrow> server" where
  "session_opened w i session gen supervisor_pid leader_pid host_pid scope logind s =
     (let e = sv_sessions s ! i;
          e' = e\<lparr>se_start_deadline := None, se_opened := True, se_logind_session := logind\<rparr>
      in case se_req_id e of
           None \<Rightarrow>
             s\<lparr>sv_sessions := (sv_sessions s)[i := e'\<lparr>se_session := session, se_generation := gen,
                 se_sup_pid := Some (unat supervisor_pid)\<rparr>]\<rparr>
         | Some req_id \<Rightarrow>
             emit w (HEv_SessionOpened req_id session gen host_pid leader_pid scope logind)
               (s\<lparr>sv_sessions := (sv_sessions s)[i := e'\<lparr>se_req_id := None\<rparr>]\<rparr>))"

definition session_event :: "world \<Rightarrow> nat \<Rightarrow> sup_event \<Rightarrow> server \<Rightarrow> server" where
  "session_event w i ev s =
     (let e = sv_sessions s ! i; gone = s\<lparr>sv_sessions := remove_nth i (sv_sessions s)\<rparr> in
      case ev of
        SUP_Opened session gen supervisor_pid leader_pid host_pid scope logind \<Rightarrow>
          session_opened w i session gen supervisor_pid leader_pid host_pid scope logind s
      | SUP_Failed code msg \<Rightarrow>
          emit w (HEv_SessionFailed (unwrap_or (se_req_id e) 0) (se_session e) (se_generation e) code msg) gone
      | SUP_Exited status \<Rightarrow> emit w (HEv_SessionExited (se_session e) (se_generation e) status) gone)"

definition session_vanished :: "world \<Rightarrow> nat \<Rightarrow> server \<Rightarrow> server" where
  "session_vanished w i s =
     (let e = sv_sessions s ! i; gone = s\<lparr>sv_sessions := remove_nth i (sv_sessions s)\<rparr> in
      if se_session e = [] then gone
      else
        (let status = (case (se_sup_status e, se_sup_pid e) of
                         (Some st, _) \<Rightarrow> st
                       | (None, Some p) \<Rightarrow> unwrap_or (w_wait_status w p) (- 9)
                       | (None, None) \<Rightarrow> - 9)
         in if se_opened e then emit w (HEv_SessionExited (se_session e) (se_generation e) status) gone
            else emit w (HEv_SessionFailed (unwrap_or (se_req_id e) 0) (se_session e) (se_generation e)
                   E_HelperFailure ''session supervisor ended unexpectedly'') gone))"

definition read_session :: "world \<Rightarrow> nat \<Rightarrow> sup_event incoming \<Rightarrow> server \<Rightarrow> server" where
  "read_session w i m s =
     (case m of
        In_Msg ev \<Rightarrow> session_event w i ev s
      | In_Bad \<Rightarrow> s
      | _ \<Rightarrow> session_vanished w i s)"

text \<open>The loop over one ready session socket in \<^verbatim>\<open>run\<close>.\<close>

fun read_sessions :: "world \<Rightarrow> sock \<Rightarrow> sup_event incoming list \<Rightarrow> server \<Rightarrow> server" where
  "read_sessions w fd [] s = s"
| "read_sessions w fd (m # ms) s =
     (case position (\<lambda>e. se_sock e = fd) (sv_sessions s) of
        None \<Rightarrow> s
      | Some i \<Rightarrow>
          (let s' = read_session w i m s in
           if length (sv_sessions s') \<noteq> length (sv_sessions s) then s' else read_sessions w fd ms s'))"

section \<open>Greeter and locked hint\<close>

definition greeter_failed :: "world \<Rightarrow> generation \<Rightarrow> server \<Rightarrow> server" where
  "greeter_failed w gen s = emit w (HEv_GreeterExited gen 127) s"

text \<open>\<^verbatim>\<open>spawn_greeter\<close> once the old greeter is gone.\<close>

definition launch_greeter :: "world \<Rightarrow> u64 \<Rightarrow> generation \<Rightarrow> string \<Rightarrow> string \<Rightarrow> passwd \<Rightarrow> server \<Rightarrow> server" where
  "launch_greeter w req_id gen wayland_socket control_socket pw s =
     (case w_prepare_dirs w (gc_runtime_root (hc_greeter (sv_cfg s))) gen pw of
        Io_Err _ \<Rightarrow> greeter_failed w gen s
      | Io_Ok run \<Rightarrow>
          (let loc = (case w_locale_conf w of Some t \<Rightarrow> parse_locale_conf t | None \<Rightarrow> []);
               env = greeter_env (hc_greeter (sv_cfg s)) pw run gen wayland_socket control_socket loc
           in case w_spawn w of
                Io_Ok p \<Rightarrow>
                  (let s = fx (Fx_SpawnGreeter p pw (gc_command (hc_greeter (sv_cfg s))) env (gr_home run)) s;
                       s = s\<lparr>sv_greeter := Some \<lparr>ge_generation = gen, ge_pid = p, ge_run = run, ge_kill_at = None\<rparr>\<rparr>
                   in emit w (HEv_GreeterSpawned req_id gen (of_nat p)) s)
              | Io_Err _ \<Rightarrow> greeter_failed w gen (fx (Fx_RemoveDirs (gr_dir run)) s)))"

definition spawn_greeter :: "world \<Rightarrow> u64 \<Rightarrow> generation \<Rightarrow> string \<Rightarrow> string \<Rightarrow> server \<Rightarrow> server" where
  "spawn_greeter w req_id gen wayland_socket control_socket s =
     (let root = gc_socket_root (hc_greeter (sv_cfg s)) in
      if \<not> path_within root wayland_socket \<or> \<not> path_within root control_socket then greeter_failed w gen s
      else case w_getpwnam w (gc_user (hc_greeter (sv_cfg s))) of
        Io_Ok (Some pw) \<Rightarrow>
          if pw_uid pw = 0 then greeter_failed w gen s
          else
            (let old = sv_greeter s;
                 s = s\<lparr>sv_greeter := None\<rparr>;
                 s = (case old of Some g \<Rightarrow> fx (Fx_KillGroup (ge_pid g) SIGKILL) s | None \<Rightarrow> s)
             in if \<not> w_retired w then
                  greeter_failed w gen
                    (case old of Some g \<Rightarrow> emit w (HEv_GreeterExited (ge_generation g) (- 9)) s | None \<Rightarrow> s)
                else
                  launch_greeter w req_id gen wayland_socket control_socket pw
                    (case old of
                       Some g \<Rightarrow> emit w (HEv_GreeterExited (ge_generation g) (- 9)) (fx (Fx_RemoveDirs (gr_dir (ge_run g))) s)
                     | None \<Rightarrow> s))
      | _ \<Rightarrow> greeter_failed w gen s)"

definition helper_set_locked_hint :: "world \<Rightarrow> u64 \<Rightarrow> session_id \<Rightarrow> generation \<Rightarrow> bool \<Rightarrow> server \<Rightarrow> server" where
  "helper_set_locked_hint w req_id session gen locked s =
     (let reply = (\<lambda>code msg. emit w (HEv_LockedHintResult req_id False (Some code) msg) s) in
      case List.find (\<lambda>e. se_session e = session \<and> se_generation e = gen \<and> se_opened e) (sv_sessions s) of
        None \<Rightarrow> reply E_NoSession ''no such session''
      | Some e \<Rightarrow>
          (case se_logind_session e of
             None \<Rightarrow> reply E_NotSupported ''the session has no logind session''
           | Some lid \<Rightarrow>
               if \<not> logind_valid_session_id lid then reply E_LogindFailure ''invalid logind session id''
               else case w_fork w (length (sv_fx s)) of
                 Io_Err m \<Rightarrow> reply E_Internal (''fork: '' @ m)
               | Io_Ok p \<Rightarrow>
                   (let s = fx (Fx_ForkHint p lid locked) s in
                    s\<lparr>sv_hints := sv_hints s @ [\<lparr>hj_pid = p, hj_req_id = req_id\<rparr>]\<rparr>)))"

section \<open>Requests\<close>

definition close_session :: "world \<Rightarrow> session_id \<Rightarrow> generation \<Rightarrow> u32 \<Rightarrow> server \<Rightarrow> server" where
  "close_session w session gen grace s =
     (case List.find (\<lambda>e. se_session e = session \<and> se_generation e = gen) (sv_sessions s) of
        Some e \<Rightarrow> fx (Fx_SendSup (se_sock e) (SUP_Close grace)) s
      | None \<Rightarrow> s)"

definition kill_greeter :: "world \<Rightarrow> generation \<Rightarrow> server \<Rightarrow> server" where
  "kill_greeter w gen s =
     (case opt_filter (\<lambda>g. ge_generation g = gen) (sv_greeter s) of
        Some g \<Rightarrow> terminate_greeter w g s
      | None \<Rightarrow> s)"

fun helper_handle :: "world \<Rightarrow> helper_request \<Rightarrow> server \<Rightarrow> server" where
  "helper_handle w (HReq_Ping nonce) s = emit w (HEv_Pong nonce) s"
| "helper_handle w (HReq_AuthStart req_id user uid intent gen service) s =
     auth_start w req_id user uid intent gen service s"
| "helper_handle w (HReq_AuthResponse req_id response) s = auth_response w req_id response s"
| "helper_handle w (HReq_AuthAbort req_id) s =
     (case position (\<lambda>a. ac_req_id a = req_id) (sv_auths s) of
        Some i \<Rightarrow> abort_auth w i E_Cancelled ''authentication cancelled'' s
      | None \<Rightarrow> s)"
| "helper_handle w (HReq_OpenSession req_id tid session gen socket_path hints) s =
     open_session w req_id tid session gen socket_path hints s"
| "helper_handle w (HReq_CloseSession session gen grace) s = close_session w session gen grace s"
| "helper_handle w (HReq_SpawnGreeter req_id gen wayland_socket control_socket) s =
     spawn_greeter w req_id gen wayland_socket control_socket s"
| "helper_handle w (HReq_KillGreeter gen) s = kill_greeter w gen s"
| "helper_handle w (HReq_SetLockedHint req_id session gen locked) s =
     helper_set_locked_hint w req_id session gen locked s"

fun read_requests :: "world \<Rightarrow> conn_in list \<Rightarrow> server \<Rightarrow> server" where
  "read_requests w [] s = s"
| "read_requests w (m # ms) s =
     (if sv_conn s = None then s
      else case m of
        CI_Request req \<Rightarrow> read_requests w ms (helper_handle w req s)
      | CI_Undecodable \<Rightarrow> read_requests w ms s
      | _ \<Rightarrow> drop_connection w s)"

end
