(* ===== verification/Helper_Loop.thy ===== *)
theory Helper_Loop
  imports Helper_Server
begin

text \<open>
  The rest of \<^verbatim>\<open>src/bsm/helper/src/server.rs\<close>: accepting the manager, adopting running sessions,
  children that exit, timers, shutdown, and one turn of the loop \<^verbatim>\<open>run\<close>. What \<^verbatim>\<open>poll\<close> reports, and
  what is waiting on each ready descriptor, is the record \<^verbatim>\<open>polled\<close>.
\<close>

section \<open>Accepting\<close>

definition strip_suffix :: "string \<Rightarrow> string \<Rightarrow> string option" where
  "strip_suffix p s = map_option rev (strip_prefix (rev p) (rev s))"

text \<open>\<^verbatim>\<open>verify_peer_process\<close> on what it reads: the executable link, the cgroup, and whether the process
  behind the descriptor has exited.\<close>

definition verify_peer_process :: "socket_config \<Rightarrow> string io \<Rightarrow> string io \<Rightarrow> bool \<Rightarrow> string + unit" where
  "verify_peer_process cfg exe_link cg_path exited =
     and_check
       (if sk_allowed_exe cfg = [] then Inr ()
        else case exe_link of
          Io_Err e \<Rightarrow> Inl (''cannot read the peer's executable: '' @ e)
        | Io_Ok l \<Rightarrow>
            (let exe = unwrap_or (strip_suffix '' (deleted)'' l) l in
             if exe \<noteq> sk_allowed_exe cfg then Inl (''executable '' @ exe @ '' is not '' @ sk_allowed_exe cfg) else Inr ()))
     (and_check
       (if sk_allowed_cgroup cfg = [] then Inr ()
        else case cg_path of
          Io_Err e \<Rightarrow> Inl (''cannot read the peer's cgroup: '' @ e)
        | Io_Ok cg \<Rightarrow>
            if last (split_on (CHR ''/'') cg) \<noteq> sk_allowed_cgroup cfg
            then Inl (''cgroup '' @ cg @ '' is not unit '' @ sk_allowed_cgroup cfg) else Inr ())
       (if exited then Inl ''the peer exited while it was being checked'' else Inr ()))"

definition resolve_allowed_uid :: "world \<Rightarrow> helper_config \<Rightarrow> string + u32" where
  "resolve_allowed_uid w c =
     (case sk_allowed_uid (hc_socket c) of
        Some uid \<Rightarrow> Inr uid
      | None \<Rightarrow>
          (case w_getpwnam w (sk_allowed_user (hc_socket c)) of
             Io_Ok (Some pw) \<Rightarrow> Inr (pw_uid pw)
           | Io_Ok None \<Rightarrow> Inl (''account '' @ sk_allowed_user (hc_socket c) @ '' does not exist'')
           | Io_Err e \<Rightarrow> Inl (''looking up '' @ sk_allowed_user (hc_socket c) @ '': '' @ e)))"

text \<open>A connection waiting on the listener, with the datagrams of the old one that are read before
  the newcomer is turned away.\<close>

record candidate =
  cd_cred :: "(pid \<times> u32) io"
  cd_exe :: "string io"
  cd_cgroup :: "string io"
  cd_exited :: bool
  cd_pending :: "conn_in list"
  cd_nonblocking :: bool

definition cred_ok :: "server \<Rightarrow> candidate \<Rightarrow> bool" where
  "cred_ok s c \<longleftrightarrow>
     (case cd_cred c of
        Io_Ok (_, uid) \<Rightarrow>
          uid = sv_allowed_uid s
          \<and> verify_peer_process (hc_socket (sv_cfg s)) (cd_exe c) (cd_cgroup c) (cd_exited c) = Inr ()
      | Io_Err _ \<Rightarrow> False)"

definition accept_finish :: "world \<Rightarrow> candidate \<Rightarrow> server \<Rightarrow> server" where
  "accept_finish w c s =
     (if sv_conn s \<noteq> None \<or> \<not> cd_nonblocking c then s
      else fold (emit w) (sv_missed_exits s) (s\<lparr>sv_conn := Some [], sv_missed_exits := []\<rparr>))"

definition accept_one :: "world \<Rightarrow> candidate \<Rightarrow> server \<Rightarrow> server" where
  "accept_one w c s =
     (if \<not> cred_ok s c then s
      else accept_finish w c (if sv_conn s \<noteq> None then read_requests w (cd_pending c) s else s))"

definition accept_connections :: "world \<Rightarrow> candidate list \<Rightarrow> server \<Rightarrow> server" where
  "accept_connections w cs s = fold (accept_one w) cs s"

section \<open>Start and adoption\<close>

text \<open>What is found for one entry of the adoption directory; the last field is the answer of the
  supervisor within two seconds.\<close>

record adoption =
  ad_is_sock :: bool
  ad_trusted :: bool
  ad_connected :: "sock option"
  ad_peer_uid :: "u32 io"
  ad_hello :: "sup_event option"

definition adopt_one :: "world \<Rightarrow> adoption \<Rightarrow> server \<Rightarrow> server" where
  "adopt_one w a s =
     (if \<not> ad_is_sock a \<or> \<not> ad_trusted a then s
      else case ad_connected a of
        None \<Rightarrow> s
      | Some fd \<Rightarrow>
          if ad_peer_uid a \<noteq> Io_Ok (w_euid w) then s
          else (case ad_hello a of
             Some (SUP_Opened session gen _ _ _ _ logind) \<Rightarrow>
               s\<lparr>sv_sessions := sv_sessions s @
                 [\<lparr>se_session = session, se_generation = gen, se_req_id = None, se_sup_pid = None, se_sup_status = None,
                   se_sock = fd, se_opened = True, se_logind_session = logind, se_start_deadline = None\<rparr>]\<rparr>
           | _ \<Rightarrow> s))"

definition server_new :: "world \<Rightarrow> helper_config \<Rightarrow> u32 \<Rightarrow> adoption list \<Rightarrow> server" where
  "server_new w cfg allowed_uid ads =
     fold (adopt_one w) ads
       \<lparr>sv_cfg = cfg, sv_allowed_uid = allowed_uid, sv_conn = None, sv_auths = [], sv_dying = [], sv_throttle = [],
        sv_tickets = tickets_new (ticket_ttl cfg), sv_sessions = [], sv_greeter = None, sv_hints = [],
        sv_missed_exits = [], sv_shutdown = False, sv_rng_pos = 0, sv_fx = []\<rparr>"

section \<open>Children\<close>

definition child_auth_gone :: "world \<Rightarrow> pid \<Rightarrow> server \<Rightarrow> server" where
  "child_auth_gone w p s =
     (case position (\<lambda>a. ac_pid a = p) (sv_auths s) of
        None \<Rightarrow> s
      | Some i \<Rightarrow>
          emit w (HEv_AuthDone (ac_req_id (sv_auths s ! i)) False (Some E_HelperFailure)
            ''authentication process ended unexpectedly'' None) (s\<lparr>sv_auths := remove_nth i (sv_auths s)\<rparr>))"

definition child_forget :: "pid \<Rightarrow> server \<Rightarrow> server" where
  "child_forget p s =
     s\<lparr>sv_dying := filter (\<lambda>d. dy_pid d \<noteq> p) (sv_dying s),
       sv_tickets := map_payloads (opt_filter (\<lambda>q. pk_pid q \<noteq> p)) (sv_tickets s)\<rparr>"

definition child_hint :: "world \<Rightarrow> pid \<Rightarrow> i32 \<Rightarrow> server \<Rightarrow> server" where
  "child_hint w p status s =
     (case position (\<lambda>h. hj_pid h = p) (sv_hints s) of
        None \<Rightarrow> s
      | Some i \<Rightarrow>
          (let job = sv_hints s ! i; s = s\<lparr>sv_hints := remove_nth i (sv_hints s)\<rparr> in
           if status = 0 then emit w (HEv_LockedHintResult (hj_req_id job) True None []) s
           else emit w (HEv_LockedHintResult (hj_req_id job) False (Some E_LogindFailure)
                  ''logind refused or is unreachable (see the helper journal)'') s))"

definition child_supervisor :: "pid \<Rightarrow> i32 \<Rightarrow> server \<Rightarrow> server" where
  "child_supervisor p status s =
     (case position (\<lambda>e. se_sup_pid e = Some p) (sv_sessions s) of
        None \<Rightarrow> s
      | Some i \<Rightarrow> s\<lparr>sv_sessions := (sv_sessions s)[i := (sv_sessions s ! i)\<lparr>se_sup_status := Some status\<rparr>]\<rparr>)"

definition child_greeter :: "world \<Rightarrow> pid \<Rightarrow> i32 \<Rightarrow> server \<Rightarrow> server" where
  "child_greeter w p status s =
     (case opt_filter (\<lambda>g. ge_pid g = p) (sv_greeter s) of
        None \<Rightarrow> s
      | Some g \<Rightarrow>
          (let s = s\<lparr>sv_greeter := None\<rparr>;
               s = (case w_getpwnam w (gc_user (hc_greeter (sv_cfg s))) of
                      Io_Ok (Some pw) \<Rightarrow> fx (Fx_KillUser (pw_uid pw)) s | _ \<Rightarrow> s);
               s = fx (Fx_RemoveDirs (gr_dir (ge_run g))) s
           in emit w (HEv_GreeterExited (ge_generation g) status) s))"

definition child_rest :: "world \<Rightarrow> pid \<Rightarrow> i32 \<Rightarrow> server \<Rightarrow> server" where
  "child_rest w p status s =
     child_greeter w p status (child_supervisor p status (child_hint w p status (child_forget p s)))"

definition child_exited :: "world \<Rightarrow> pid \<Rightarrow> i32 \<Rightarrow> auth_child_event incoming list \<Rightarrow> server \<Rightarrow> server option" where
  "child_exited w p status waiting s =
     (let after_auth =
        (case position (\<lambda>a. ac_pid a = p) (sv_auths s) of
           None \<Rightarrow> Some s
         | Some i \<Rightarrow> map_option (child_auth_gone w p) (read_auth w (ac_req_id (sv_auths s ! i)) waiting s))
      in map_option (child_rest w p status) after_auth)"

section \<open>Timers\<close>

function overdue_auths :: "world \<Rightarrow> instant \<Rightarrow> nat \<Rightarrow> server \<Rightarrow> server" where
  "overdue_auths w now i s =
     (if i < length (sv_auths s) then
        if ac_deadline (sv_auths s ! i) \<le> now then
          overdue_auths w now i
            (fx (Fx_Kill (ac_pid (sv_auths s ! i)) SIGKILL) (abort_auth w i E_Timeout ''authentication timed out'' s))
        else overdue_auths w now (Suc i) s
      else s)"
  by pat_completeness auto
termination
proof (relation "measure (\<lambda>(_, _, i, s). length (sv_auths s) - i)", goal_cases)
  case (2 w now i s)
  then show ?case using abort_auth_shrinks [of i s w E_Timeout "''authentication timed out''"] by (auto simp: fx_def)
qed auto

declare overdue_auths.simps [simp del]

text \<open>The loop over the sessions removes every overdue entry, in order; no handler it calls changes
  the list.\<close>

definition session_overdue :: "world \<Rightarrow> session_entry \<Rightarrow> server \<Rightarrow> server" where
  "session_overdue w e s =
     (let s = (case se_sup_pid e of Some p \<Rightarrow> fx (Fx_Kill p SIGKILL) s | None \<Rightarrow> s) in
      if se_session e = [] then s
      else emit w (HEv_SessionFailed (unwrap_or (se_req_id e) 0) (se_session e) (se_generation e) E_Timeout
             ''the session did not start in time'') s)"

definition is_overdue :: "instant \<Rightarrow> session_entry \<Rightarrow> bool" where
  "is_overdue now e \<longleftrightarrow> is_some_and (se_start_deadline e) (\<lambda>d. d \<le> now)"

fun overdue_sessions :: "world \<Rightarrow> instant \<Rightarrow> session_entry list \<Rightarrow> session_entry list \<Rightarrow> server \<Rightarrow> server" where
  "overdue_sessions w now kept [] s = s"
| "overdue_sessions w now kept (e # rest) s =
     (if is_overdue now e then
        overdue_sessions w now kept rest (session_overdue w e (s\<lparr>sv_sessions := kept @ rest\<rparr>))
      else overdue_sessions w now (kept @ [e]) rest s)"

definition timers_prune :: "instant \<Rightarrow> server \<Rightarrow> server" where
  "timers_prune now s =
     s\<lparr>sv_tickets := tickets_expire now (sv_tickets s),
       sv_throttle := filter (\<lambda>(_, t). now < th_next_allowed t + from_secs 300) (sv_throttle s)\<rparr>"

definition timers_kill :: "instant \<Rightarrow> server \<Rightarrow> server" where
  "timers_kill now s0 =
     (let s = fold (\<lambda>d s. if dy_kill_at d \<le> now then fx (Fx_Kill (dy_pid d) SIGKILL) s else s) (sv_dying s0) s0 in
      case sv_greeter s of
        Some g \<Rightarrow> if is_some_and (ge_kill_at g) (\<lambda>k. k \<le> now) then fx (Fx_KillGroup (ge_pid g) SIGKILL) s else s
      | None \<Rightarrow> s)"

definition timers :: "world \<Rightarrow> instant \<Rightarrow> server \<Rightarrow> server" where
  "timers w now s0 =
     (let s = overdue_auths w now 0 (timers_kill now (timers_prune now s0)) in
      overdue_sessions w now [] (sv_sessions s) s)"

definition next_deadline :: "server \<Rightarrow> instant option" where
  "next_deadline s =
     (case (case next_expiry (sv_tickets s) of Some d \<Rightarrow> [d] | None \<Rightarrow> [])
           @ map dy_kill_at (sv_dying s) @ map ac_deadline (sv_auths s)
           @ List.map_filter se_start_deadline (sv_sessions s)
           @ (case Option.bind (sv_greeter s) ge_kill_at of Some d \<Rightarrow> [d] | None \<Rightarrow> []) of
        [] \<Rightarrow> None
      | d # ds \<Rightarrow> Some (fold min ds d))"

section \<open>One turn of the loop\<close>

record polled =
  po_requests :: "conn_in list option"
  po_writable :: bool
  po_accepts :: "candidate list option"
  po_auths :: "(u64 \<times> auth_child_event incoming list) list"
  po_sessions :: "(sock \<times> sup_event incoming list) list"
  po_term :: bool
  po_children :: "(pid \<times> i32 \<times> auth_child_event incoming list) list"

fun read_auths :: "world \<Rightarrow> (u64 \<times> auth_child_event incoming list) list \<Rightarrow> server \<Rightarrow> server option" where
  "read_auths w [] s = Some s"
| "read_auths w ((req_id, ms) # xs) s = Option.bind (read_auth w req_id ms s) (read_auths w xs)"

fun reap_children :: "world \<Rightarrow> (pid \<times> i32 \<times> auth_child_event incoming list) list \<Rightarrow> server \<Rightarrow> server option" where
  "reap_children w [] s = Some s"
| "reap_children w ((p, status, ms) # xs) s = Option.bind (child_exited w p status ms s) (reap_children w xs)"

definition run_io :: "world \<Rightarrow> polled \<Rightarrow> server \<Rightarrow> server" where
  "run_io w p s0 =
     (let s = (case po_requests p of Some ms \<Rightarrow> read_requests w ms s0 | None \<Rightarrow> s0);
          s = (if po_writable p then flush w s else s)
      in case po_accepts p of Some cs \<Rightarrow> accept_connections w cs s | None \<Rightarrow> s)"

definition run_turn :: "world \<Rightarrow> polled \<Rightarrow> server \<Rightarrow> server option" where
  "run_turn w p s =
     Option.bind (read_auths w (po_auths p) (run_io w p s)) (\<lambda>s.
       (let s = fold (\<lambda>(fd, ms). read_sessions w fd ms) (po_sessions p) s;
            s = s\<lparr>sv_shutdown := sv_shutdown s \<or> po_term p\<rparr>
        in Option.bind (reap_children w (po_children p) s) (\<lambda>s. Some (timers w (clock w s) s))))"

definition stop :: "world \<Rightarrow> server \<Rightarrow> server" where
  "stop w s0 =
     (let s = fold (\<lambda>conv. fx (Fx_Kill (ac_pid conv) SIGKILL)) (sv_auths s0) (s0\<lparr>sv_auths := []\<rparr>) in
      case sv_greeter s of
        None \<Rightarrow> s
      | Some g \<Rightarrow>
          (let s = fx (Fx_KillGroup (ge_pid g) SIGKILL) (s\<lparr>sv_greeter := None\<rparr>);
               s = (case w_getpwnam w (gc_user (hc_greeter (sv_cfg s))) of
                      Io_Ok (Some pw) \<Rightarrow> fx (Fx_KillUser (pw_uid pw)) s | _ \<Rightarrow> s)
           in fx (Fx_RemoveDirs (gr_dir (ge_run g))) s))"

end
