(* ===== verification/Helper_Steps.thy ===== *)
theory Helper_Steps
  imports Helper_Loop Transition_Systems
begin

text \<open>
  The helper as a state machine. A step is one handler call with one message; a turn of the loop
  is a sequence of steps. The relation \<^verbatim>\<open>calm\<close> says what a change of state cannot do: start a
  conversation, issue a ticket, start a session, or forget a failed guess. Every handler is calm
  except at the three places that are stated on their own.
\<close>

section \<open>Calm changes\<close>

definition conv_id :: "auth_conv \<Rightarrow> auth_conv" where
  "conv_id c = c\<lparr>ac_awaiting := False, ac_answered_at := None\<rparr>"

fun harmless :: "sys_effect \<Rightarrow> bool" where
  "harmless (Fx_SendChild _ (APC_StartSession _) _) = False"
| "harmless (Fx_ForkAuth _ _ _) = False"
| "harmless _ = True"

definition bounded_out :: "server \<Rightarrow> bool" where
  "bounded_out s \<longleftrightarrow>
     length (sv_missed_exits s) \<le> 64 \<and> list_all is_session_exited (sv_missed_exits s)
     \<and> (\<forall>q. sv_conn s = Some q \<longrightarrow> length q \<le> 1024)"

definition convs_kept :: "server \<Rightarrow> server \<Rightarrow> bool" where
  "convs_kept s s' \<longleftrightarrow>
     conv_id ` set (sv_auths s') \<subseteq> conv_id ` set (sv_auths s)
     \<and> length (sv_auths s') \<le> length (sv_auths s)
     \<and> length (sv_auths s') + length (sv_dying s') \<le> length (sv_auths s) + length (sv_dying s)"

definition tickets_kept :: "server \<Rightarrow> server \<Rightarrow> bool" where
  "tickets_kept s s' \<longleftrightarrow>
     tk_ttl (sv_tickets s') = tk_ttl (sv_tickets s)
     \<and> (tickets_wf (sv_tickets s) \<longrightarrow> tickets_wf (sv_tickets s')
          \<and> (\<forall>k t p. btm_get (tk_map (sv_tickets s')) k = Some (t, p) \<longrightarrow>
               (\<exists>p0. btm_get (tk_map (sv_tickets s)) k = Some (t, p0) \<and> (p = None \<or> p = p0))))"

definition throttle_kept :: "server \<Rightarrow> server \<Rightarrow> bool" where
  "throttle_kept s s' \<longleftrightarrow>
     (\<forall>uid t. btm_get (sv_throttle s) uid = Some t \<longrightarrow>
        (\<exists>t'. btm_get (sv_throttle s') uid = Some t' \<and> th_next_allowed t \<le> th_next_allowed t'))"

definition fx_harmless :: "server \<Rightarrow> server \<Rightarrow> bool" where
  "fx_harmless s s' \<longleftrightarrow> (\<exists>es. sv_fx s' = sv_fx s @ es \<and> list_all harmless es)"

definition calm :: "server \<Rightarrow> server \<Rightarrow> bool" where
  "calm s s' \<longleftrightarrow>
     sv_cfg s' = sv_cfg s \<and> sv_allowed_uid s' = sv_allowed_uid s
     \<and> convs_kept s s' \<and> tickets_kept s s' \<and> throttle_kept s s' \<and> fx_harmless s s'
     \<and> (bounded_out s \<longrightarrow> bounded_out s')"

lemmas calm_unfold = calm_def convs_kept_def tickets_kept_def throttle_kept_def fx_harmless_def bounded_out_def

lemma calmD:
  assumes "calm s s'"
  shows "sv_cfg s' = sv_cfg s" "sv_allowed_uid s' = sv_allowed_uid s" "convs_kept s s'" "tickets_kept s s'"
    "throttle_kept s s'" "fx_harmless s s'" "bounded_out s \<Longrightarrow> bounded_out s'"
  using assms by (simp_all add: calm_def)

lemma kept_refl [simp]: "convs_kept s s" "tickets_kept s s" "throttle_kept s s" "fx_harmless s s"
  by (auto simp: convs_kept_def tickets_kept_def throttle_kept_def fx_harmless_def)

lemma convs_kept_trans: "convs_kept a b \<Longrightarrow> convs_kept b c \<Longrightarrow> convs_kept a c"
proof -
  assume "convs_kept a b" "convs_kept b c"
  then show ?thesis unfolding convs_kept_def by (intro conjI) (blast, linarith+)
qed

lemma tickets_kept_trans: "tickets_kept a b \<Longrightarrow> tickets_kept b c \<Longrightarrow> tickets_kept a c"
  unfolding tickets_kept_def by (metis (no_types, lifting))

lemma throttle_kept_trans: "throttle_kept a b \<Longrightarrow> throttle_kept b c \<Longrightarrow> throttle_kept a c"
  unfolding throttle_kept_def by (meson order_trans)

lemma fx_harmless_trans: "fx_harmless a b \<Longrightarrow> fx_harmless b c \<Longrightarrow> fx_harmless a c"
  unfolding fx_harmless_def by (metis append.assoc list_all_append)

lemma calm_refl [simp, intro]: "calm s s"
  by (simp add: calm_def)

lemma calm_trans [trans]: "calm a b \<Longrightarrow> calm b c \<Longrightarrow> calm a c"
  unfolding calm_def
  using convs_kept_trans [of a b c] tickets_kept_trans [of a b c] throttle_kept_trans [of a b c] fx_harmless_trans [of a b c]
  by simp

lemma calm_fold: "(\<And>x s. calm s (f x s)) \<Longrightarrow> calm s (fold f xs s)"
  by (induction xs arbitrary: s) (auto intro: calm_trans)

lemma calm_fx: "harmless e \<Longrightarrow> calm s (fx e s)"
  by (auto simp: calm_unfold fx_def)

text \<open>Fields no rule of \<^verbatim>\<open>calm\<close> speaks about.\<close>

lemma calm_other [simp]:
  "calm s (s\<lparr>sv_sessions := x\<rparr>)" "calm s (s\<lparr>sv_greeter := g\<rparr>)" "calm s (s\<lparr>sv_hints := h\<rparr>)"
  "calm s (s\<lparr>sv_shutdown := b\<rparr>)" "calm s (s\<lparr>sv_rng_pos := n\<rparr>)"
  by (auto simp: calm_unfold)

lemma calm_tickets:
  assumes "tk_ttl tk = tk_ttl (sv_tickets s)" "tickets_wf (sv_tickets s) \<Longrightarrow> tickets_wf tk"
    "\<And>k t p. tickets_wf (sv_tickets s) \<Longrightarrow> btm_get (tk_map tk) k = Some (t, p) \<Longrightarrow>
        \<exists>p0. btm_get (tk_map (sv_tickets s)) k = Some (t, p0) \<and> (p = None \<or> p = p0)"
  shows "calm s (s\<lparr>sv_tickets := tk\<rparr>)"
  using assms by (auto simp: calm_unfold)

lemma remove_nth_set: "set (remove_nth i xs) \<subseteq> set xs"
  by (auto simp: remove_nth_def dest: in_set_takeD in_set_dropD)

lemma remove_nth_length: "i < length xs \<Longrightarrow> Suc (length (remove_nth i xs)) = length xs"
  by (simp add: remove_nth_def)

lemma position_Some: "position P xs = Some i \<Longrightarrow> i < length xs \<and> P (xs ! i)"
  by (induction xs arbitrary: i) (auto split: if_splits)

text \<open>A conversation ends, and its child is counted among the ending ones.\<close>

lemma calm_to_dying:
  assumes "i < length (sv_auths s)"
  shows "calm s (s\<lparr>sv_auths := remove_nth i (sv_auths s), sv_dying := sv_dying s @ [d]\<rparr>)"
  using remove_nth_set [of i "sv_auths s"] remove_nth_length [OF assms] by (auto simp: calm_unfold)

lemma calm_remove_auth: "calm s (s\<lparr>sv_auths := remove_nth i (sv_auths s)\<rparr>)"
  using remove_nth_set [of i "sv_auths s"] by (auto simp: calm_unfold remove_nth_def)

section \<open>Output\<close>

lemma fold_kill_fields:
  fixes cs w s
  defines "s' \<equiv> fold (\<lambda>c. kill_auth_child w (ac_pid c)) cs s"
  shows "sv_conn s' = sv_conn s \<and> sv_auths s' = sv_auths s \<and> length (sv_dying s') = length (sv_dying s) + length cs
    \<and> sv_tickets s' = sv_tickets s \<and> sv_throttle s' = sv_throttle s \<and> sv_cfg s' = sv_cfg s
    \<and> sv_allowed_uid s' = sv_allowed_uid s \<and> sv_missed_exits s' = sv_missed_exits s
    \<and> (\<exists>es. sv_fx s' = sv_fx s @ es \<and> list_all harmless es)"
  unfolding s'_def
proof (induction cs arbitrary: s)
  case Nil
  then show ?case by simp
next
  case (Cons c cs)
  from Cons [of "kill_auth_child w (ac_pid c) s"] show ?case
    by (auto simp: kill_auth_child_def fx_def Let_def)
qed

lemma calm_terminate_greeter: "calm s (terminate_greeter w g s)"
  unfolding terminate_greeter_def Let_def by (rule calm_trans [OF calm_fx calm_other(2)]) simp

lemma calm_drop_connection: "calm s (drop_connection w s)"
proof -
  define s1 where "s1 = fold (\<lambda>c. kill_auth_child w (ac_pid c)) (sv_auths s) (s\<lparr>sv_conn := None, sv_auths := []\<rparr>)"
  define s2 where "s2 = s1\<lparr>sv_tickets := tickets_clear (sv_tickets s1)\<rparr>"
  have "calm s s2"
    using fold_kill_fields [of w "sv_auths s" "s\<lparr>sv_conn := None, sv_auths := []\<rparr>"]
    unfolding s2_def s1_def [symmetric] calm_unfold by (auto simp: tickets_clear_def tickets_wf_def)
  moreover have "calm s2 (drop_connection w s)"
    by (auto simp: drop_connection_def Let_def s1_def [symmetric] s2_def [symmetric] calm_terminate_greeter split: option.split)
  ultimately show ?thesis by (rule calm_trans)
qed

lemma calm_kill_auth_child:
  assumes "i < length (sv_auths s)"
  shows "calm s (kill_auth_child w p (s\<lparr>sv_auths := remove_nth i (sv_auths s)\<rparr>))"
  using remove_nth_set [of i "sv_auths s"] remove_nth_length [OF assms]
  by (auto simp: kill_auth_child_def Let_def fx_def calm_unfold)

lemma calm_emit_unheard: "calm s (emit_unheard ev s)"
  by (auto simp: calm_unfold emit_unheard_def list_all_iff dest: list.set_sel(2) [rotated])

lemma drop_connection_conn: "drop_connection w (s\<lparr>sv_conn := x\<rparr>) = drop_connection w s"
  by (simp add: drop_connection_def Let_def)

lemma calm_queue_check: "calm s (emit_queue_check w (s\<lparr>sv_conn := Some q\<rparr>))"
proof (cases "length q > 1024")
  case True
  then show ?thesis by (simp add: emit_queue_check_def drop_connection_conn calm_drop_connection)
next
  case False
  then show ?thesis by (auto simp: emit_queue_check_def calm_unfold)
qed

lemma calm_emit: "calm s (emit w ev s)"
proof (cases "sv_conn s")
  case None
  then show ?thesis by (simp add: emit_def calm_emit_unheard)
next
  case (Some q)
  have fx: "calm s (fx (Fx_Send ev r) s)" for r by (simp add: calm_fx)
  show ?thesis
  proof (cases q)
    case Nil
    then have same: "fx e s = (fx e s)\<lparr>sv_conn := Some []\<rparr>" for e using Some by (simp add: fx_def)
    have "calm s (emit_queue_check w (fx (Fx_Send ev r) s))" for r
      using calm_trans [OF fx calm_queue_check] same by metis
    with Nil Some calm_trans [OF fx calm_queue_check] calm_trans [OF fx calm_drop_connection] show ?thesis
      by (simp add: emit_def Let_def split: io.split bool.split)
  next
    case (Cons x xs)
    with Some calm_queue_check show ?thesis by (simp add: emit_def)
  qed
qed

lemma calm_flush_queue: "(bounded_out s \<longrightarrow> length q \<le> 1024) \<Longrightarrow> calm s (flush_queue w q s)"
proof (induction w q s rule: flush_queue.induct)
  case (1 w s)
  then show ?case by (auto simp: calm_unfold)
next
  case (2 w ev q s)
  have fx: "calm s (fx (Fx_Send ev r) s)" for r by (simp add: calm_fx)
  have bo: "bounded_out (fx e s) = bounded_out s" for e by (simp add: bounded_out_def fx_def)
  show ?case
  proof (cases "w_send w (length (sv_fx s))")
    case (Io_Ok b)
    show ?thesis
    proof (cases b)
      case True
      with 2 Io_Ok bo have "calm (fx (Fx_Send ev (Io_Ok True)) s) (flush_queue w q (fx (Fx_Send ev (Io_Ok True)) s))" by auto
      with Io_Ok True calm_trans [OF fx] show ?thesis by (simp add: Let_def)
    next
      case False
      with 2 Io_Ok show ?thesis by (auto simp: Let_def calm_unfold fx_def)
    qed
  next
    case (Io_Err e)
    with calm_trans [OF fx calm_drop_connection] show ?thesis by (simp add: Let_def)
  qed
qed

lemma calm_flush: "calm s (flush w s)"
  by (auto simp: flush_def bounded_out_def intro: calm_flush_queue split: option.split)

lemma calm_fold_emit: "calm s (fold (emit w) evs s)"
  by (rule calm_fold) (rule calm_emit)

section \<open>Throttle, aborts and verdicts\<close>

lemma calm_note_failure: "calm s (note_failure w uid at s)"
  by (auto simp: calm_unfold note_failure_def Let_def)

lemma calm_retire_auth:
  assumes "i < length (sv_auths s)"
  shows "calm s (retire_auth w i s)"
  using remove_nth_set [of i "sv_auths s"] remove_nth_length [OF assms]
  by (cases "ac_answered_at (sv_auths s ! i)")
    (auto simp: calm_unfold retire_auth_def note_failure_def fx_def push_dying_def Let_def)

lemma calm_abort_auth: "i < length (sv_auths s) \<Longrightarrow> calm s (abort_auth w i code msg s)"
  unfolding abort_auth_def by (rule calm_trans [OF calm_retire_auth calm_emit])

lemma calm_supersede_all: "calm s (supersede_all w s)"
proof (induction w s rule: supersede_all.induct)
  case (1 w s)
  then show ?case
    using calm_trans [OF calm_abort_auth [of 0 s w E_Cancelled "''superseded by a new authentication''"]]
    by (subst supersede_all.simps) auto
qed

lemma supersede_all_auths [simp]: "sv_auths (supersede_all w s) = []"
proof (induction w s rule: supersede_all.induct)
  case (1 w s)
  then show ?case by (subst supersede_all.simps) simp
qed

lemma calm_auth_done_err: "calm s (auth_done_err w req_id code msg s)"
  by (simp add: auth_done_err_def calm_emit)

lemma calm_auth_failed:
  assumes "i < length (sv_auths s)"
  shows "calm s (auth_failed w conv code msg (s\<lparr>sv_auths := remove_nth i (sv_auths s)\<rparr>))"
proof -
  define s1 where "s1 = push_dying w (ac_pid conv) (s\<lparr>sv_auths := remove_nth i (sv_auths s)\<rparr>)"
  have "calm s s1" unfolding s1_def push_dying_def using calm_to_dying [OF assms] by simp
  moreover have "calm s1 (if ac_answered_at conv \<noteq> None then note_failure w (ac_uid conv) None s1 else s1)"
    by (simp add: calm_note_failure)
  ultimately show ?thesis
    unfolding auth_failed_def Let_def s1_def [symmetric] by (blast intro: calm_trans calm_emit)
qed

lemma conv_id_upd [simp]:
  "conv_id (c\<lparr>ac_awaiting := b\<rparr>) = conv_id c" "conv_id (c\<lparr>ac_awaiting := b, ac_answered_at := a\<rparr>) = conv_id c"
  by (simp_all add: conv_id_def)

lemma calm_conv_update:
  assumes "i < length (sv_auths s)" "conv_id c = conv_id (sv_auths s ! i)"
  shows "calm s (s\<lparr>sv_auths := (sv_auths s)[i := c]\<rparr>)"
proof -
  have "conv_id ` set ((sv_auths s)[i := c]) \<subseteq> conv_id ` set (sv_auths s)"
    using assms set_update_subset_insert [of "sv_auths s" i c] by (auto dest!: subsetD intro: imageI)
  then show ?thesis by (auto simp: calm_unfold)
qed

lemma calm_auth_response: "calm s (auth_response w req_id response s)"
proof (cases "position (\<lambda>a. ac_req_id a = req_id) (sv_auths s)")
  case (Some i)
  have "calm s (s\<lparr>sv_auths := (sv_auths s)[i := (sv_auths s ! i)\<lparr>ac_awaiting := False, ac_answered_at := Some (clock w s)\<rparr>]\<rparr>)"
    using position_Some [OF Some] by (intro calm_conv_update) simp_all
  with Some show ?thesis
    by (auto simp: auth_response_def Let_def intro: calm_trans [OF _ calm_fx])
qed (simp add: auth_response_def)

section \<open>Sessions, greeter, hints\<close>

lemma calm_session_failed: "calm s (session_failed w req_id session gen code msg s)"
  by (simp add: session_failed_def calm_emit)

lemma calm_emit_after: "calm s t \<Longrightarrow> calm s (emit w ev t)"
  by (rule calm_trans [OF _ calm_emit])

lemma calm_fx_after: "calm s t \<Longrightarrow> harmless e \<Longrightarrow> calm s (fx e t)"
  by (rule calm_trans [OF _ calm_fx])

lemma calm_sessions_after: "calm s t \<Longrightarrow> calm s (t\<lparr>sv_sessions := x\<rparr>)" "calm s t \<Longrightarrow> calm s (t\<lparr>sv_greeter := g\<rparr>)"
    "calm s t \<Longrightarrow> calm s (t\<lparr>sv_hints := h\<rparr>)"
  by (auto intro: calm_trans calm_other)

lemmas calm_intros = calm_emit_after calm_fx_after calm_sessions_after calm_refl

lemma calm_read_session: "calm s (read_session w i m s)"
  unfolding read_session_def session_event_def session_vanished_def session_opened_def Let_def
  by (auto intro!: calm_intros split: incoming.split sup_event.split option.split)

lemma calm_greeter_failed: "calm s t \<Longrightarrow> calm s (greeter_failed w gen t)"
  by (simp add: greeter_failed_def calm_emit_after)

lemma calm_launch_greeter: "calm s t \<Longrightarrow> calm s (launch_greeter w req_id gen ws cs pw t)"
  unfolding launch_greeter_def Let_def
  by (auto intro!: calm_intros calm_greeter_failed split: io.split)

lemma calm_spawn_greeter: "calm s (spawn_greeter w req_id gen ws cs s)"
  unfolding spawn_greeter_def Let_def
  by (auto intro!: calm_intros calm_greeter_failed calm_launch_greeter split: io.split option.split)

lemma calm_helper_set_locked_hint: "calm s (helper_set_locked_hint w req_id session gen locked s)"
  unfolding helper_set_locked_hint_def Let_def
  by (auto intro!: calm_intros split: io.split option.split)

lemma calm_close_session: "calm s (close_session w session gen grace s)"
  unfolding close_session_def by (auto intro!: calm_intros split: option.split)

lemma calm_kill_greeter: "calm s (kill_greeter w gen s)"
  unfolding kill_greeter_def by (auto simp: calm_terminate_greeter split: option.split)

end
