(* ===== verification/Helper_Machine.thy ===== *)
theory Helper_Machine
  imports Helper_Steps
begin

text \<open>
  The steps of the helper and what each of them can do: a step is calm, or starts one conversation,
  or ends one with PAM's success, or starts one session, or prunes the throttle. From this follow
  the invariant of every reachable state and the origin of every ticket.
\<close>

section \<open>Steps\<close>

datatype helper_input =
    HI_Request conn_in
  | HI_Flush
  | HI_Accept candidate
  | HI_Auth u64 "auth_child_event incoming"
  | HI_Session sock "sup_event incoming"
  | HI_Term bool
  | HI_Child pid i32
  | HI_Timers instant

fun helper_step :: "world \<Rightarrow> helper_input \<Rightarrow> server \<Rightarrow> server option" where
  "helper_step w (HI_Request m) s = Some (read_requests w [m] s)"
| "helper_step w HI_Flush s = Some (flush w s)"
| "helper_step w (HI_Accept c) s = Some (if cred_ok s c then accept_finish w c s else s)"
| "helper_step w (HI_Auth req_id m) s = read_auth w req_id [m] s"
| "helper_step w (HI_Session fd m) s = Some (read_sessions w fd [m] s)"
| "helper_step w (HI_Term b) s = Some (s\<lparr>sv_shutdown := sv_shutdown s \<or> b\<rparr>)"
| "helper_step w (HI_Child p status) s = Some (child_rest w p status (child_auth_gone w p s))"
| "helper_step w (HI_Timers now) s = Some (timers w now s)"

fun helper_steps :: "world \<Rightarrow> helper_input list \<Rightarrow> server \<Rightarrow> server option" where
  "helper_steps w [] s = Some s"
| "helper_steps w (i # is) s = Option.bind (helper_step w i s) (helper_steps w is)"

lemma helper_steps_append: "helper_steps w (a @ b) s = Option.bind (helper_steps w a s) (helper_steps w b)"
proof (induction a arbitrary: s)
  case (Cons i a)
  then show ?case by (cases "helper_step w i s") auto
qed simp

section \<open>The steps that are not calm\<close>

text \<open>A conversation starts.\<close>

definition new_conv :: "world \<Rightarrow> u64 \<Rightarrow> passwd \<Rightarrow> auth_intent \<Rightarrow> generation \<Rightarrow> sock \<Rightarrow> pid \<Rightarrow> server \<Rightarrow> auth_conv" where
  "new_conv w req_id pw intent gen sk p s =
     \<lparr>ac_req_id = req_id, ac_pid = p, ac_sock = sk, ac_user = pw_name pw, ac_uid = pw_uid pw,
      ac_intent = intent, ac_generation = gen, ac_startable = startable_intent intent,
      ac_deadline = clock w s + from_secs (unat (pc_conversation_timeout_secs (hc_pam (sv_cfg s)))),
      ac_awaiting = False, ac_answered_at = None\<rparr>"

definition enter_conv ::
  "world \<Rightarrow> u64 \<Rightarrow> passwd \<Rightarrow> auth_intent \<Rightarrow> generation \<Rightarrow> sock \<Rightarrow> pid \<Rightarrow> auth_params \<Rightarrow> server \<Rightarrow> server" where
  "enter_conv w req_id pw intent gen sk p params s =
     (let s2 = fx (Fx_ForkAuth p params (startable_intent intent)) s in
      s2\<lparr>sv_auths := [new_conv w req_id pw intent gen sk p s2]\<rparr>)"

definition began :: "world \<Rightarrow> u64 \<Rightarrow> string \<Rightarrow> u32 \<Rightarrow> auth_intent \<Rightarrow> generation \<Rightarrow> string \<Rightarrow> server \<Rightarrow> server \<Rightarrow> bool" where
  "began w req_id user uid intent gen service s s' \<longleftrightarrow>
     (\<exists>s1 pw p sk params.
        calm s s1 \<and> sv_auths s1 = [] \<and> length (sv_dying s1) < MAX_DYING \<and> throttled w uid s1 = None
        \<and> w_getpwnam w user = Io_Ok (Some pw) \<and> pw_uid pw = uid \<and> account_allowed w s pw = Inr ()
        \<and> service = expected_service s intent
        \<and> ap_service params = service \<and> ap_user params = pw_name pw \<and> ap_uid params = uid
        \<and> s' = enter_conv w req_id pw intent gen sk p params s1)"

lemma beganE:
  assumes "began w req_id user uid intent gen service s s'"
  obtains s1 pw p sk params where "calm s s1" "sv_auths s1 = []" "length (sv_dying s1) < MAX_DYING"
    "throttled w uid s1 = None" "w_getpwnam w user = Io_Ok (Some pw)" "pw_uid pw = uid" "account_allowed w s pw = Inr ()"
    "service = expected_service s intent" "ap_service params = service" "ap_user params = pw_name pw" "ap_uid params = uid"
    "s' = enter_conv w req_id pw intent gen sk p params s1"
  using assms unfolding began_def by (elim exE conjE) (rule that)

lemma auth_fork_cases:
  assumes "sv_auths s1 = []"
  shows "calm s1 (auth_fork w req_id pw intent gen service s1) \<or>
    (\<exists>p sk params. ap_service params = service \<and> ap_user params = pw_name pw \<and> ap_uid params = pw_uid pw
        \<and> auth_fork w req_id pw intent gen service s1 = enter_conv w req_id pw intent gen sk p params s1)"
proof (cases "w_socketpair w (length (sv_fx s1))")
  case (Io_Err e)
  then show ?thesis by (simp add: auth_fork_def calm_auth_done_err)
next
  case sk: (Io_Ok sk)
  show ?thesis
  proof (cases "w_fork w (length (sv_fx s1))")
    case (Io_Err e)
    with sk show ?thesis by (simp add: auth_fork_def calm_auth_done_err Let_def)
  next
    case (Io_Ok p)
    define params where "params = \<lparr>ap_service = service, ap_user = pw_name pw, ap_uid = pw_uid pw, ap_exit_on_interrupt = True,
                 ap_confdir = pc_confdir (hc_pam (sv_cfg s1)),
                 ap_prompt_timeout = from_secs (unat (pc_prompt_timeout_secs (hc_pam (sv_cfg s1))))\<rparr>"
    have "auth_fork w req_id pw intent gen service s1 = enter_conv w req_id pw intent gen sk p params s1"
      using sk Io_Ok assms by (simp add: auth_fork_def params_def enter_conv_def new_conv_def Let_def fx_def)
    moreover have "ap_service params = service" "ap_user params = pw_name pw" "ap_uid params = pw_uid pw"
      by (simp_all add: params_def)
    ultimately show ?thesis by blast
  qed
qed

lemma auth_start_cases:
  "calm s (auth_start w req_id user uid intent gen service s) \<or>
   began w req_id user uid intent gen service s (auth_start w req_id user uid intent gen service s)"
proof (cases "service = expected_service s intent \<and> \<not> list_ex (\<lambda>a. ac_req_id a = req_id) (sv_auths s)
    \<and> (\<exists>pw. w_getpwnam w user = Io_Ok (Some pw) \<and> pw_uid pw = uid \<and> account_allowed w s pw = Inr ())")
  case False
  then show ?thesis
    by (auto simp: auth_start_def calm_auth_done_err split: io.split option.split sum.split)
next
  case True
  then obtain pw where pw: "w_getpwnam w user = Io_Ok (Some pw)" "pw_uid pw = uid" "account_allowed w s pw = Inr ()" by blast
  have start: "auth_start w req_id user uid intent gen service s = auth_begin w req_id pw uid intent gen service s"
    using True pw by (simp add: auth_start_def)
  define s1 where "s1 = supersede_all w s"
  have s1: "calm s s1" "sv_auths s1 = []" by (simp_all add: s1_def calm_supersede_all)
  show ?thesis
  proof (cases "length (sv_dying s1) < MAX_DYING \<and> throttled w uid s1 = None")
    case False
    then show ?thesis
      using calm_trans [OF s1(1) calm_auth_done_err] by (auto simp: start auth_begin_def s1_def [symmetric] Let_def split: option.split)
  next
    case ok: True
    then have fork: "auth_begin w req_id pw uid intent gen service s = auth_fork w req_id pw intent gen service s1"
      by (simp add: auth_begin_def s1_def [symmetric])
    from auth_fork_cases [OF s1(2), of w req_id pw intent gen service] show ?thesis
    proof
      assume "calm s1 (auth_fork w req_id pw intent gen service s1)"
      with s1 show ?thesis using calm_trans start fork by metis
    next
      assume "\<exists>p sk params. ap_service params = service \<and> ap_user params = pw_name pw \<and> ap_uid params = pw_uid pw
        \<and> auth_fork w req_id pw intent gen service s1 = enter_conv w req_id pw intent gen sk p params s1"
      with s1 ok True pw start fork show ?thesis unfolding began_def by metis
    qed
  qed
qed

text \<open>A conversation ends with PAM's success.\<close>

definition ticket_of :: "auth_conv \<Rightarrow> ticket \<Rightarrow> parked option \<Rightarrow> bool" where
  "ticket_of conv t p \<longleftrightarrow>
     t_uid t = ac_uid conv \<and> t_user t = ac_user conv \<and> t_intent t = ac_intent conv \<and> t_generation t = ac_generation conv
     \<and> (p = None \<or> ac_startable conv \<and> p = Some \<lparr>pk_sock = ac_sock conv, pk_pid = ac_pid conv\<rparr>)"

definition passed :: "auth_conv \<Rightarrow> server \<Rightarrow> server \<Rightarrow> bool" where
  "passed conv s s' \<longleftrightarrow>
     sv_cfg s' = sv_cfg s \<and> sv_allowed_uid s' = sv_allowed_uid s \<and> convs_kept s s' \<and> fx_harmless s s'
     \<and> (bounded_out s \<longrightarrow> bounded_out s')
     \<and> throttle_kept (s\<lparr>sv_throttle := btm_remove (ac_uid conv) (sv_throttle s)\<rparr>) s'
     \<and> (tickets_wf (sv_tickets s) \<longrightarrow> tickets_wf (sv_tickets s')
          \<and> (\<forall>k t p. btm_get (tk_map (sv_tickets s')) k = Some (t, p) \<longrightarrow>
               (\<exists>p0. btm_get (tk_map (sv_tickets s)) k = Some (t, p0) \<and> (p = None \<or> p = p0)) \<or> ticket_of conv t p))"

lemma passed_calm:
  assumes "passed conv s s1" "calm s1 s2"
  shows "passed conv s s2"
proof -
  have "tickets_wf (sv_tickets s2)
      \<and> ((\<exists>p0. btm_get (tk_map (sv_tickets s)) k = Some (t, p0) \<and> (p = None \<or> p = p0)) \<or> ticket_of conv t p)"
    if wf: "tickets_wf (sv_tickets s)" and g: "btm_get (tk_map (sv_tickets s2)) k = Some (t, p)" for k t p
  proof -
    have wf1: "tickets_wf (sv_tickets s1)" using wf assms(1) by (simp add: passed_def)
    then obtain p1 where p1: "btm_get (tk_map (sv_tickets s1)) k = Some (t, p1)" "p = None \<or> p = p1"
      using calmD(4) [OF assms(2)] g unfolding tickets_kept_def by blast
    with assms(1) wf have "(\<exists>p0. btm_get (tk_map (sv_tickets s)) k = Some (t, p0) \<and> (p1 = None \<or> p1 = p0)) \<or> ticket_of conv t p1"
      by (simp add: passed_def)
    with p1(2) wf1 calmD(4) [OF assms(2)] show ?thesis by (auto simp: ticket_of_def tickets_kept_def)
  qed
  moreover have "tickets_wf (sv_tickets s) \<longrightarrow> tickets_wf (sv_tickets s2)"
    using assms calmD(4) [OF assms(2)] by (simp add: passed_def tickets_kept_def)
  moreover have "throttle_kept (s\<lparr>sv_throttle := btm_remove (ac_uid conv) (sv_throttle s)\<rparr>) s2"
    using assms calmD(5) [OF assms(2)] throttle_kept_trans unfolding passed_def by blast
  moreover have "convs_kept s s2" "fx_harmless s s2"
    using assms calmD(3,6) [OF assms(2)] convs_kept_trans fx_harmless_trans unfolding passed_def by blast+
  ultimately show ?thesis
    using assms(1) calmD(1,2,7) [OF assms(2)] unfolding passed_def by auto
qed

lemma evict_get: "btm_wf m \<Longrightarrow> btm_get (evict rank m) k = Some v \<Longrightarrow> btm_get m k = Some v"
  using evict_sub [of rank m] btm.entries_lookup [of m k v] btm.entries_lookup [of "evict rank m" k v] by auto

lemma expire_get:
  "tickets_wf tk \<Longrightarrow> btm_get (tk_map (tickets_expire now tk)) k = Some v \<Longrightarrow> btm_get (tk_map tk) k = Some v"
  by (simp add: tickets_expire_def tickets_wf_def btm_get_filter)

lemma mint_cases:
  assumes "mint w uid user intent gen payload s = Some (r, s')" "tickets_wf (sv_tickets s)"
  shows "tickets_wf (sv_tickets s') \<and> (\<forall>k t p. btm_get (tk_map (sv_tickets s')) k = Some (t, p) \<longrightarrow>
      btm_get (tk_map (sv_tickets s)) k = Some (t, p) \<or>
      t_uid t = uid \<and> t_user t = user \<and> t_intent t = intent \<and> t_generation t = gen \<and> p = payload)"
proof (cases "w_random w (sv_rng_pos s) = None")
  case True
  with assms show ?thesis by (auto simp: mint_def)
next
  case False
  then obtain i pos' tk where m: "tickets_mint (w_rank w) (\<lambda>n. unwrap_or (w_random w n) 1) (Suc (sv_rng_pos s))
      (clock w (s\<lparr>sv_rng_pos := Suc (sv_rng_pos s)\<rparr>)) uid user intent gen payload (sv_tickets s) = Some (i, pos', tk)"
    and s': "sv_tickets s' = tk \<or> sv_tickets s' \<in> range (\<lambda>now. snd (tickets_redeem now i gen [intent] tk))"
    using assms(1) by (auto simp: mint_def Let_def split: option.splits if_splits)
  define live where "live = tk_map (tickets_expire (clock w (s\<lparr>sv_rng_pos := Suc (sv_rng_pos s)\<rparr>)) (sv_tickets s))"
  have wf: "tickets_wf tk" by (rule tickets_wf_mint [OF assms(2) m])
  have live: "btm_get (evict rank live) k = Some v \<Longrightarrow> btm_get (tk_map (sv_tickets s)) k = Some v" for rank k v
    using evict_get expire_get [OF assms(2)] tickets_wf_expire [OF assms(2)] unfolding live_def tickets_wf_def by blast
  have tk: "btm_get (tk_map tk) k = Some (t, p) \<longrightarrow> btm_get (tk_map (sv_tickets s)) k = Some (t, p) \<or>
      t_uid t = uid \<and> t_user t = user \<and> t_intent t = intent \<and> t_generation t = gen \<and> p = payload" for k t p
    using mint_stores [OF m] live unfolding live_def [symmetric] by auto
  from s' show ?thesis
  proof
    assume "sv_tickets s' = tk"
    with wf tk show ?thesis by simp
  next
    assume "sv_tickets s' \<in> range (\<lambda>now. snd (tickets_redeem now i gen [intent] tk))"
    then obtain now where now: "sv_tickets s' = snd (tickets_redeem now i gen [intent] tk)" by blast
    then have "btm_get (tk_map (sv_tickets s')) k = Some v \<Longrightarrow> btm_get (tk_map tk) k = Some v" for k v
      by (auto simp: redeem_removes split: if_splits)
    moreover have "tickets_wf (sv_tickets s')" using now wf by (simp add: tickets_wf_redeem)
    ultimately show ?thesis using tk by blast
  qed
qed

lemma mint_fields:
  assumes "mint w uid user intent gen payload s = Some (r, s')"
  shows "sv_cfg s' = sv_cfg s \<and> sv_allowed_uid s' = sv_allowed_uid s \<and> sv_auths s' = sv_auths s \<and> sv_dying s' = sv_dying s
    \<and> sv_fx s' = sv_fx s \<and> sv_throttle s' = sv_throttle s \<and> sv_conn s' = sv_conn s \<and> sv_missed_exits s' = sv_missed_exits s"
  using assms by (auto simp: mint_def Let_def split: option.splits if_splits)

lemma auth_passed_cases:
  assumes "i < length (sv_auths s)" "conv = sv_auths s ! i"
    and "auth_passed w conv (s\<lparr>sv_auths := remove_nth i (sv_auths s)\<rparr>) = Some s'"
  shows "passed conv s s'"
proof -
  define s0 where "s0 = s\<lparr>sv_auths := remove_nth i (sv_auths s), sv_throttle := btm_remove (ac_uid conv) (sv_throttle s)\<rparr>"
  define pl where "pl = (if ac_startable conv then Some \<lparr>pk_sock = ac_sock conv, pk_pid = ac_pid conv\<rparr> else None)"
  define s1 where "s1 = (if ac_startable conv then s0 else push_dying w (ac_pid conv) s0)"
  obtain r s2 where m: "mint w (ac_uid conv) (ac_user conv) (ac_intent conv) (ac_generation conv) pl s1 = Some (r, s2)"
    and s': "calm s2 s'"
    using assms(3) by (auto simp: auth_passed_def Let_def s0_def s1_def pl_def calm_emit split: option.splits if_splits)
  have "sv_tickets s1 = sv_tickets s" by (simp add: s1_def s0_def push_dying_def)
  then have "(\<exists>p0. btm_get (tk_map (sv_tickets s)) k = Some (t, p0) \<and> (p = None \<or> p = p0)) \<or> ticket_of conv t p"
    if "tickets_wf (sv_tickets s)" "btm_get (tk_map (sv_tickets s2)) k = Some (t, p)" for k t p
    using mint_cases [OF m] that unfolding ticket_of_def pl_def by (cases "ac_startable conv") auto
  moreover have "tickets_wf (sv_tickets s) \<longrightarrow> tickets_wf (sv_tickets s2)"
    using mint_cases [OF m] \<open>sv_tickets s1 = sv_tickets s\<close> by simp
  ultimately have "passed conv s s2"
    unfolding passed_def convs_kept_def fx_harmless_def throttle_kept_def bounded_out_def
    using mint_fields [OF m] remove_nth_set [of i "sv_auths s"] remove_nth_length [OF assms(1)]
    by (auto simp: s1_def s0_def push_dying_def split: if_splits)
  with s' show ?thesis by (rule passed_calm [rotated])
qed

text \<open>A session starts.\<close>

definition send_start ::
  "world \<Rightarrow> u64 \<Rightarrow> parked \<Rightarrow> session_id \<Rightarrow> generation \<Rightarrow> string \<Rightarrow> (u32 \<times> u32) list \<Rightarrow> bool io \<Rightarrow> server \<Rightarrow> server" where
  "send_start w tid pk session gen socket_path hints r s =
     fx (Fx_SendChild (pk_sock pk) (APC_StartSession \<lparr>sp_session = session, sp_generation = gen,
           sp_host_socket = socket_path, sp_output_hints = hints\<rparr>) r)
       (s\<lparr>sv_tickets := snd (tickets_redeem (clock w s) tid gen [Intent_Login, Intent_Switch] (sv_tickets s))\<rparr>)"

definition started :: "world \<Rightarrow> u64 \<Rightarrow> session_id \<Rightarrow> generation \<Rightarrow> string \<Rightarrow> (u32 \<times> u32) list \<Rightarrow> server \<Rightarrow> server \<Rightarrow> bool" where
  "started w tid session gen socket_path hints s s' \<longleftrightarrow>
     (\<exists>t pk pw r.
        btm_get (tk_map (sv_tickets s)) tid = Some (t, Some pk) \<and> clock w s < t_expires t \<and> t_generation t = gen
        \<and> startable_intent (t_intent t)
        \<and> valid_session_id session \<and> path_within (sc_socket_dir (hc_session (sv_cfg s))) socket_path \<and> \<not> bad_hints hints
        \<and> (\<forall>e \<in> set (sv_sessions s). se_session e \<noteq> session)
        \<and> w_getpwuid w (t_uid t) = Io_Ok (Some pw) \<and> pw_name pw = t_user t \<and> account_allowed w s pw = Inr ()
        \<and> calm (send_start w tid pk session gen socket_path hints r s) s')"

lemma startedE:
  assumes "started w tid session gen socket_path hints s s'"
  obtains t pk pw r where "btm_get (tk_map (sv_tickets s)) tid = Some (t, Some pk)" "clock w s < t_expires t"
    "t_generation t = gen" "startable_intent (t_intent t)" "valid_session_id session"
    "path_within (sc_socket_dir (hc_session (sv_cfg s))) socket_path" "\<not> bad_hints hints"
    "\<forall>e \<in> set (sv_sessions s). se_session e \<noteq> session" "w_getpwuid w (t_uid t) = Io_Ok (Some pw)"
    "pw_name pw = t_user t" "account_allowed w s pw = Inr ()" "calm (send_start w tid pk session gen socket_path hints r s) s'"
  using assms unfolding started_def by (elim exE conjE) (rule that)

lemma account_allowed_cong:
  "sv_cfg s' = sv_cfg s \<Longrightarrow> sv_allowed_uid s' = sv_allowed_uid s \<Longrightarrow> account_allowed w s' pw = account_allowed w s pw"
  by (simp add: account_allowed_def)

lemma redeem_ttl: "tk_ttl (snd (tickets_redeem now i gen intents tk)) = tk_ttl tk"
  by (auto simp: tickets_redeem_def Let_def split: option.split)

lemma calm_redeem: "calm s (s\<lparr>sv_tickets := snd (tickets_redeem now i gen intents (sv_tickets s))\<rparr>)"
  by (rule calm_tickets) (auto simp: redeem_ttl tickets_wf_redeem redeem_removes split: if_splits)

lemma start_parked_cases:
  "calm s (start_parked w req_id session gen path hints None s)"
  "\<exists>r. calm (fx (Fx_SendChild (pk_sock pk) (APC_StartSession \<lparr>sp_session = session, sp_generation = gen,
          sp_host_socket = path, sp_output_hints = hints\<rparr>) r) s)
        (start_parked w req_id session gen path hints (Some pk) s)"
  by (auto simp: start_parked_def calm_session_failed Let_def intro!: exI [of _ "w_send_child w (length (sv_fx s))"])

lemma open_session_cases:
  "calm s (open_session w req_id tid session gen path hints s) \<or>
   started w tid session gen path hints s (open_session w req_id tid session gen path hints s)"
proof -
  define rd where "rd = tickets_redeem (clock w s) tid gen [Intent_Login, Intent_Switch] (sv_tickets s)"
  define s1 where "s1 = s\<lparr>sv_tickets := snd rd\<rparr>"
  have s1: "calm s s1" unfolding s1_def rd_def by (rule calm_redeem)
  have same [simp]: "sv_cfg s1 = sv_cfg s" "sv_sessions s1 = sv_sessions s" by (simp_all add: s1_def)
  have fail: "calm s (session_failed w req_id session gen code msg s1)" for code msg
    by (rule calm_trans [OF s1 calm_session_failed])
  show ?thesis
  proof (cases "\<exists>t pk pw. fst rd = Inr (t, pk) \<and> valid_session_id session
      \<and> path_within (sc_socket_dir (hc_session (sv_cfg s))) path \<and> \<not> bad_hints hints
      \<and> \<not> list_ex (\<lambda>e. se_session e = session) (sv_sessions s)
      \<and> w_getpwuid w (t_uid t) = Io_Ok (Some pw) \<and> pw_name pw = t_user t \<and> account_allowed w s1 pw = Inr ()")
    case False
    then show ?thesis
      using fail by (auto simp: open_session_def Let_def rd_def [symmetric] case_prod_beta s1_def [symmetric]
          split: sum.split redeem_error.split io.split option.split)
  next
    case True
    then obtain t pk pw where ok: "fst rd = Inr (t, pk)" "valid_session_id session"
      "path_within (sc_socket_dir (hc_session (sv_cfg s))) path" "\<not> bad_hints hints"
      "\<not> list_ex (\<lambda>e. se_session e = session) (sv_sessions s)"
      "w_getpwuid w (t_uid t) = Io_Ok (Some pw)" "pw_name pw = t_user t" "account_allowed w s1 pw = Inr ()" by blast
    then have run: "open_session w req_id tid session gen path hints s = start_parked w req_id session gen path hints pk s1"
      by (simp add: open_session_def Let_def rd_def [symmetric] case_prod_beta s1_def [symmetric])
    show ?thesis
    proof (cases pk)
      case None
      then show ?thesis using run calm_trans [OF s1 start_parked_cases(1)] by simp
    next
      case (Some p)
      have t: "btm_get (tk_map (sv_tickets s)) tid = Some (t, Some p)" "clock w s < t_expires t" "t_generation t = gen"
        "startable_intent (t_intent t)"
        using ok(1) Some unfolding rd_def redeem_ok_iff startable_intent_def by auto
      obtain r where "calm (send_start w tid p session gen path hints r s) (open_session w req_id tid session gen path hints s)"
        using start_parked_cases(2) run Some unfolding send_start_def rd_def [symmetric] s1_def [symmetric] by metis
      moreover have "account_allowed w s pw = Inr ()" using ok(8) account_allowed_cong [of s1 s] by (simp add: s1_def)
      moreover have "\<forall>e \<in> set (sv_sessions s). se_session e \<noteq> session" using ok(5) by (auto simp: list_ex_iff)
      ultimately show ?thesis using t ok unfolding started_def by blast
    qed
  qed
qed

section \<open>What a step can do\<close>

lemma get_map_payloads:
  "btm_get (tk_map (map_payloads f tk)) k = map_option (\<lambda>(t, p). (t, f p)) (btm_get (tk_map tk) k)"
proof -
  have "map_of (map (\<lambda>(k, t, p). (k, t, f p)) m) k = map_option (\<lambda>(t, p). (t, f p)) (map_of m k)" for m :: "(u64, ticket \<times> 'a) btmap"
    by (induction m) auto
  then show ?thesis by (simp add: map_payloads_def)
qed

lemma calm_map_payloads: "calm s (s\<lparr>sv_tickets := map_payloads (opt_filter P) (sv_tickets s)\<rparr>)"
proof (rule calm_tickets)
  fix k t p'
  assume "btm_get (tk_map (map_payloads (opt_filter P) (sv_tickets s))) k = Some (t, p')"
  then obtain p0 where "btm_get (tk_map (sv_tickets s)) k = Some (t, p0)" "p' = opt_filter P p0"
    by (auto simp: get_map_payloads)
  then show "\<exists>p0. btm_get (tk_map (sv_tickets s)) k = Some (t, p0) \<and> (p' = None \<or> p' = p0)"
    by (cases p0) auto
qed (simp_all add: map_payloads_def [of _ "sv_tickets s"] tickets_wf_payloads [unfolded map_payloads_def])

lemma calm_child_forget: "calm s (child_forget p s)"
proof -
  have dying: "calm s (s\<lparr>sv_dying := filter P (sv_dying s)\<rparr>)" for P
    by (auto simp: calm_unfold)
  from calm_trans [OF dying calm_map_payloads] show ?thesis by (simp add: child_forget_def)
qed

lemma calm_child_auth_gone: "calm s (child_auth_gone w p s)"
  unfolding child_auth_gone_def by (auto intro!: calm_emit_after calm_remove_auth split: option.split)

lemma calm_child_rest: "calm s (child_rest w p status s)"
proof -
  have "calm t (child_hint w p status t)" for t
    unfolding child_hint_def Let_def by (auto intro!: calm_intros split: option.split)
  moreover have "calm t (child_supervisor p status t)" for t
    unfolding child_supervisor_def by (auto split: option.split)
  moreover have "calm t (child_greeter w p status t)" for t
    unfolding child_greeter_def Let_def by (auto intro!: calm_intros split: option.split io.split)
  ultimately show ?thesis unfolding child_rest_def using calm_child_forget by (metis calm_trans)
qed

lemma calm_accept_finish: "calm s (accept_finish w c s)"
proof -
  have "sv_conn s = None \<Longrightarrow> calm s (s\<lparr>sv_conn := Some [], sv_missed_exits := []\<rparr>)"
    by (auto simp: calm_unfold)
  then show ?thesis by (auto simp: accept_finish_def intro: calm_trans calm_fold_emit)
qed

lemma calm_read_sessions: "calm s (read_sessions w fd [m] s)"
  by (auto simp: Let_def calm_read_session split: option.split)

lemma calm_timers_kill: "calm s (timers_kill now s)"
proof -
  have "calm s (fold (\<lambda>d s. if dy_kill_at d \<le> now then fx (Fx_Kill (dy_pid d) SIGKILL) s else s) ds s)" for ds
    by (rule calm_fold) (simp add: calm_fx)
  then show ?thesis
    unfolding timers_kill_def Let_def by (auto intro: calm_fx_after split: option.split)
qed

lemma calm_overdue_auths: "calm s (overdue_auths w now i s)"
proof (induction w now i s rule: overdue_auths.induct)
  case (1 w now i s)
  have "calm s (fx (Fx_Kill p SIGKILL) (abort_auth w i E_Timeout ''authentication timed out'' s))" if "i < length (sv_auths s)" for p
    by (rule calm_fx_after [OF calm_abort_auth [OF that]]) simp
  with 1 show ?case by (subst overdue_auths.simps) (auto intro: calm_trans)
qed

lemma calm_overdue_sessions: "calm s (overdue_sessions w now kept es s)"
proof (induction es arbitrary: kept s)
  case (Cons e es)
  have "calm s (session_overdue w e (s\<lparr>sv_sessions := kept @ es\<rparr>))"
    unfolding session_overdue_def Let_def by (auto intro!: calm_intros split: option.split)
  with Cons show ?case by (auto intro: calm_trans)
qed simp

lemma timers_calm: "calm (timers_prune now s) (timers w now s)"
  unfolding timers_def Let_def using calm_timers_kill calm_overdue_auths calm_overdue_sessions by (metis calm_trans)

lemma read_auth_single:
  assumes "read_auth w req_id [m] s = Some s'"
  shows "calm s s' \<or> (\<exists>conv code msg. conv \<in> set (sv_auths s) \<and> ac_req_id conv = req_id
     \<and> m = In_Msg (ACE_Done True code msg) \<and> passed conv s s')"
proof (cases "position (\<lambda>a. ac_req_id a = req_id) (sv_auths s)")
  case None
  with assms show ?thesis by auto
next
  case (Some i)
  note i = position_Some [OF Some]
  let ?conv = "sv_auths s ! i"
  show ?thesis
  proof (cases m)
    case msg: (In_Msg ev)
    show ?thesis
    proof (cases ev)
      case prompt: (ACE_Prompt kind tx)
      have "calm s (if is_question kind then s\<lparr>sv_auths := (sv_auths s)[i := ?conv\<lparr>ac_awaiting := True\<rparr>]\<rparr> else s)"
        using i by (auto intro: calm_conv_update)
      with assms Some msg prompt show ?thesis by (auto simp: Let_def intro: calm_emit_after)
    next
      case verdict: (ACE_Done ok cd tx)
      show ?thesis
      proof (cases ok)
        case True
        with assms Some msg verdict have "passed ?conv s s'"
          using i by (intro auth_passed_cases [of i]) (auto simp: Let_def)
        with True i msg verdict show ?thesis by (metis nth_mem)
      next
        case False
        with assms Some msg verdict i show ?thesis by (auto simp: Let_def calm_auth_failed)
      qed
    qed
  qed (use assms Some i calm_kill_auth_child in \<open>auto simp: Let_def intro: calm_emit_after\<close>)
qed

lemma request_cases:
  "calm s (helper_handle w req s)
   \<or> (\<exists>req_id user uid intent gen service. req = HReq_AuthStart req_id user uid intent gen service
        \<and> began w req_id user uid intent gen service s (helper_handle w req s))
   \<or> (\<exists>req_id tid session gen path hints. req = HReq_OpenSession req_id tid session gen path hints
        \<and> started w tid session gen path hints s (helper_handle w req s))"
proof (cases req)
  case (HReq_AuthStart req_id user uid intent gen service)
  then show ?thesis using auth_start_cases [of s w req_id user uid intent gen service] by auto
next
  case (HReq_OpenSession req_id tid session gen path hints)
  then show ?thesis using open_session_cases [of s w req_id tid session gen path hints] by auto
next
  case (HReq_AuthAbort req_id)
  then show ?thesis by (auto intro: calm_abort_auth dest: position_Some split: option.split)
qed (simp_all add: calm_emit calm_auth_response calm_close_session calm_spawn_greeter calm_kill_greeter
    calm_helper_set_locked_hint)

lemma step_cases:
  assumes "helper_step w inp s = Some s'"
  obtains (calm) "calm s s'"
  | (began) req_id user uid intent gen service where
      "inp = HI_Request (CI_Request (HReq_AuthStart req_id user uid intent gen service))"
      "began w req_id user uid intent gen service s s'"
  | (passed) req_id code msg conv where
      "inp = HI_Auth req_id (In_Msg (ACE_Done True code msg))" "conv \<in> set (sv_auths s)" "ac_req_id conv = req_id"
      "passed conv s s'"
  | (started) req_id tid session gen path hints where
      "inp = HI_Request (CI_Request (HReq_OpenSession req_id tid session gen path hints))"
      "started w tid session gen path hints s s'"
  | (timers) now where "inp = HI_Timers now" "calm (timers_prune now s) s'"
proof (cases inp)
  case (HI_Request m)
  show thesis
  proof (cases "sv_conn s = None")
    case True
    with assms HI_Request show thesis by (intro calm) simp
  next
    case False
    show thesis
    proof (cases m)
      case (CI_Request req)
      with assms HI_Request False have s': "s' = helper_handle w req s" by simp
      from request_cases [of s w req] HI_Request CI_Request show thesis
        unfolding s' [symmetric] using calm began started by blast
    qed (use assms HI_Request False in \<open>auto intro: calm calm_drop_connection\<close>)
  qed
next
  case (HI_Auth req_id m)
  then show thesis using read_auth_single [of w req_id m s s'] assms calm passed by auto
next
  case (HI_Child p status)
  then show thesis using assms calm_trans [OF calm_child_auth_gone calm_child_rest] by (intro calm) auto
next
  case (HI_Timers now)
  then show thesis using assms timers_calm by (intro timers) auto
qed (use assms in \<open>auto intro!: calm simp: calm_flush calm_accept_finish calm_read_sessions simp del: read_sessions.simps\<close>)

section \<open>The invariant\<close>

definition account_ok :: "u32 \<Rightarrow> server \<Rightarrow> u32 \<Rightarrow> string \<Rightarrow> bool" where
  "account_ok euid s uid user \<longleftrightarrow>
     uid \<noteq> 0 \<and> sc_min_uid (hc_session (sv_cfg s)) \<le> uid
     \<and> (euid = 0 \<longrightarrow> uid \<noteq> sv_allowed_uid s \<and> user \<noteq> gc_user (hc_greeter (sv_cfg s))
          \<and> user \<noteq> sk_allowed_user (hc_socket (sv_cfg s)))"

lemma account_allowed_ok: "account_allowed w s pw = Inr () \<longleftrightarrow> account_ok (w_euid w) s (pw_uid pw) (pw_name pw)"
  by (auto simp: account_allowed_def account_ok_def)

definition helper_inv :: "u32 \<Rightarrow> server \<Rightarrow> bool" where
  "helper_inv euid s \<longleftrightarrow>
     length (sv_auths s) \<le> 1 \<and> length (sv_auths s) + length (sv_dying s) \<le> MAX_DYING
     \<and> tickets_wf (sv_tickets s) \<and> bounded_out s
     \<and> (\<forall>c \<in> set (sv_auths s). account_ok euid s (ac_uid c) (ac_user c) \<and> ac_startable c = startable_intent (ac_intent c))
     \<and> (\<forall>k t p. btm_get (tk_map (sv_tickets s)) k = Some (t, p) \<longrightarrow>
          account_ok euid s (t_uid t) (t_user t) \<and> (p \<noteq> None \<longrightarrow> startable_intent (t_intent t)))"

lemma account_ok_cong:
  "sv_cfg s' = sv_cfg s \<Longrightarrow> sv_allowed_uid s' = sv_allowed_uid s \<Longrightarrow> account_ok e s' uid user = account_ok e s uid user"
  by (simp add: account_ok_def)

lemma conv_id_same:
  "conv_id c = conv_id c' \<Longrightarrow> ac_uid c = ac_uid c' \<and> ac_user c = ac_user c' \<and> ac_intent c = ac_intent c'
     \<and> ac_startable c = ac_startable c' \<and> ac_generation c = ac_generation c' \<and> ac_req_id c = ac_req_id c'
     \<and> ac_sock c = ac_sock c' \<and> ac_pid c = ac_pid c'"
  by (cases c; cases c') (simp add: conv_id_def)

lemma convs_kept_inv:
  assumes "helper_inv e s" "convs_kept s s'" "sv_cfg s' = sv_cfg s" "sv_allowed_uid s' = sv_allowed_uid s"
  shows "length (sv_auths s') \<le> 1 \<and> length (sv_auths s') + length (sv_dying s') \<le> MAX_DYING
    \<and> (\<forall>c \<in> set (sv_auths s'). account_ok e s' (ac_uid c) (ac_user c) \<and> ac_startable c = startable_intent (ac_intent c))"
proof -
  have "account_ok e s' (ac_uid c) (ac_user c) \<and> ac_startable c = startable_intent (ac_intent c)"
    if "c \<in> set (sv_auths s')" for c
  proof -
    from that assms(2) have "conv_id c \<in> conv_id ` set (sv_auths s)" unfolding convs_kept_def by blast
    then obtain c' where "c' \<in> set (sv_auths s)" "conv_id c = conv_id c'" by blast
    with conv_id_same [of c c'] assms(1) account_ok_cong [OF assms(3,4)] show ?thesis by (simp add: helper_inv_def)
  qed
  with assms(1,2) show ?thesis unfolding helper_inv_def convs_kept_def by auto
qed

lemma calm_inv:
  assumes "calm s s'" "helper_inv e s"
  shows "helper_inv e s'"
proof -
  have "account_ok e s' (t_uid t) (t_user t) \<and> (p \<noteq> None \<longrightarrow> startable_intent (t_intent t))"
    if g: "btm_get (tk_map (sv_tickets s')) k = Some (t, p)" for k t p
  proof -
    have "tickets_wf (sv_tickets s)" using assms(2) by (simp add: helper_inv_def)
    then obtain p0 where "btm_get (tk_map (sv_tickets s)) k = Some (t, p0)" "p = None \<or> p = p0"
      using calmD(4) [OF assms(1)] g unfolding tickets_kept_def by blast
    with assms(2) account_ok_cong [OF calmD(1,2) [OF assms(1)]] show ?thesis unfolding helper_inv_def by metis
  qed
  then show ?thesis
    using convs_kept_inv [OF assms(2) calmD(3,1,2) [OF assms(1)]] calmD(4,7) [OF assms(1)] assms(2)
    by (simp add: helper_inv_def tickets_kept_def)
qed

lemma began_inv:
  assumes "began w req_id user uid intent gen service s s'" "helper_inv (w_euid w) s"
  shows "helper_inv (w_euid w) s'"
proof -
  from assms(1) obtain s1 pw p sk params where s1: "calm s s1" "length (sv_dying s1) < MAX_DYING"
    "account_allowed w s pw = Inr ()" and s': "s' = enter_conv w req_id pw intent gen sk p params s1"
    by (rule beganE)
  have i1: "helper_inv (w_euid w) s1" by (rule calm_inv [OF s1(1) assms(2)])
  have "account_ok (w_euid w) s' (pw_uid pw) (pw_name pw)"
    using s1(3) account_ok_cong [of s' s] calmD(1,2) [OF s1(1)] by (simp add: account_allowed_ok s' enter_conv_def Let_def fx_def)
  with i1 s1(2) show ?thesis
    by (simp add: helper_inv_def s' enter_conv_def Let_def new_conv_def fx_def bounded_out_def account_ok_def)
qed

lemma passed_inv:
  assumes "passed conv s s'" "helper_inv e s" "conv \<in> set (sv_auths s)"
  shows "helper_inv e s'"
proof -
  have cfg: "sv_cfg s' = sv_cfg s" "sv_allowed_uid s' = sv_allowed_uid s" "convs_kept s s'" using assms(1) by (simp_all add: passed_def)
  have "account_ok e s' (t_uid t) (t_user t) \<and> (p \<noteq> None \<longrightarrow> startable_intent (t_intent t))"
    if "btm_get (tk_map (sv_tickets s')) k = Some (t, p)" for k t p
  proof -
    have "(\<exists>p0. btm_get (tk_map (sv_tickets s)) k = Some (t, p0) \<and> (p = None \<or> p = p0)) \<or> ticket_of conv t p"
      using assms(1,2) that unfolding passed_def helper_inv_def by blast
    then show ?thesis
    proof
      assume "\<exists>p0. btm_get (tk_map (sv_tickets s)) k = Some (t, p0) \<and> (p = None \<or> p = p0)"
      with assms(2) account_ok_cong [OF cfg(1,2)] show ?thesis unfolding helper_inv_def by metis
    next
      assume "ticket_of conv t p"
      with assms(2,3) account_ok_cong [OF cfg(1,2)] show ?thesis unfolding helper_inv_def ticket_of_def by auto
    qed
  qed
  with convs_kept_inv [OF assms(2) cfg(3,1,2)] assms(1,2) show ?thesis
    by (auto simp: helper_inv_def passed_def)
qed

lemma started_inv:
  assumes "started w tid session gen path hints s s'" "helper_inv e s"
  shows "helper_inv e s'"
proof -
  from assms(1) obtain pk r where c: "calm (send_start w tid pk session gen path hints r s) s'"
    by (rule startedE)
  have "helper_inv e (s\<lparr>sv_tickets := snd (tickets_redeem (clock w s) tid gen [Intent_Login, Intent_Switch] (sv_tickets s))\<rparr>)"
    by (rule calm_inv [OF calm_redeem assms(2)])
  then have "helper_inv e (send_start w tid pk session gen path hints r s)"
    by (simp add: send_start_def helper_inv_def fx_def bounded_out_def account_ok_def)
  then show ?thesis by (rule calm_inv [OF c])
qed

lemma prune_inv: "helper_inv e s \<Longrightarrow> helper_inv e (timers_prune now s)"
proof -
  assume i: "helper_inv e s"
  then have wf: "tickets_wf (sv_tickets s)" by (simp add: helper_inv_def)
  define s1 where "s1 = s\<lparr>sv_tickets := tickets_expire now (sv_tickets s)\<rparr>"
  have "tk_ttl (tickets_expire now (sv_tickets s)) = tk_ttl (sv_tickets s)" by (simp add: tickets_expire_def)
  then have "calm s s1" unfolding s1_def using expire_get [of "sv_tickets s"] by (intro calm_tickets) auto
  then have "helper_inv e s1" by (rule calm_inv [OF _ i])
  moreover have "timers_prune now s = s1\<lparr>sv_throttle := sv_throttle (timers_prune now s)\<rparr>" by (simp add: timers_prune_def s1_def)
  moreover have "helper_inv e (s1\<lparr>sv_throttle := th\<rparr>) = helper_inv e s1" for th
    by (simp add: helper_inv_def bounded_out_def account_ok_def)
  ultimately show ?thesis by metis
qed

lemma step_inv: "helper_step w inp s = Some s' \<Longrightarrow> helper_inv (w_euid w) s \<Longrightarrow> helper_inv (w_euid w) s'"
  by (erule step_cases) (auto intro: calm_inv began_inv passed_inv started_inv prune_inv)

lemma adopt_fields:
  "sv_auths (fold (adopt_one w) ads s) = sv_auths s \<and> sv_dying (fold (adopt_one w) ads s) = sv_dying s
    \<and> sv_tickets (fold (adopt_one w) ads s) = sv_tickets s \<and> sv_conn (fold (adopt_one w) ads s) = sv_conn s
    \<and> sv_missed_exits (fold (adopt_one w) ads s) = sv_missed_exits s \<and> sv_throttle (fold (adopt_one w) ads s) = sv_throttle s
    \<and> sv_fx (fold (adopt_one w) ads s) = sv_fx s"
proof (induction ads arbitrary: s)
  case (Cons a ads)
  from Cons [of "adopt_one w a s"] show ?case
    by (simp add: adopt_one_def split: option.split sup_event.split)
qed simp

lemma server_new_inv: "helper_inv e (server_new w cfg uid ads)"
  unfolding helper_inv_def server_new_def bounded_out_def using adopt_fields by (simp add: MAX_DYING_def tickets_new_def tickets_wf_def)

section \<open>Runs of the helper\<close>

definition helper_init :: "u32 \<Rightarrow> server \<Rightarrow> bool" where
  "helper_init euid s \<longleftrightarrow> (\<exists>w cfg uid ads. w_euid w = euid \<and> s = server_new w cfg uid ads)"

definition helper_rel :: "u32 \<Rightarrow> server \<Rightarrow> world \<times> helper_input \<Rightarrow> server \<Rightarrow> bool" where
  "helper_rel euid s wi s' \<longleftrightarrow> w_euid (fst wi) = euid \<and> helper_step (fst wi) (snd wi) s = Some s'"

text \<open>A ticket that can start a session was issued when the process that holds it reported PAM's
  success.\<close>

definition ticket_origin :: "(server \<times> world \<times> helper_input) list \<Rightarrow> ticket \<Rightarrow> parked \<Rightarrow> bool" where
  "ticket_origin tr t pk \<longleftrightarrow>
     (\<exists>u w req_id code msg conv. (u, w, HI_Auth req_id (In_Msg (ACE_Done True code msg))) \<in> set tr
        \<and> conv \<in> set (sv_auths u) \<and> ac_req_id conv = req_id \<and> ticket_of conv t (Some pk))"

definition helper_hist :: "(server \<times> world \<times> helper_input) list \<Rightarrow> server \<Rightarrow> bool" where
  "helper_hist tr s \<longleftrightarrow>
     (\<forall>k t pk. btm_get (tk_map (sv_tickets s)) k = Some (t, Some pk) \<longrightarrow> ticket_origin tr t pk)"

lemma hist_step:
  assumes "helper_inv (w_euid w) s" "helper_hist tr s" "helper_step w inp s = Some s'"
  shows "helper_hist (tr @ [(s, w, inp)]) s'"
  unfolding helper_hist_def
proof (intro allI impI)
  fix k t pk
  assume g: "btm_get (tk_map (sv_tickets s')) k = Some (t, Some pk)"
  have wf: "tickets_wf (sv_tickets s)" using assms(1) by (simp add: helper_inv_def)
  have old: "ticket_origin (tr @ [(s, w, inp)]) t pk" if "btm_get (tk_map (sv_tickets s)) k = Some (t, Some pk)"
    using assms(2) that unfolding helper_hist_def ticket_origin_def by fastforce
  have kept: "btm_get (tk_map (sv_tickets u)) k = Some (t, Some pk)" if "calm u s'" "tickets_wf (sv_tickets u)" for u
    using calmD(4) [OF that(1)] that(2) g unfolding tickets_kept_def by blast
  from assms(3) show "ticket_origin (tr @ [(s, w, inp)]) t pk"
  proof (cases rule: step_cases)
    case calm
    then show ?thesis by (intro old kept wf)
  next
    case (began req_id user uid intent gen service)
    then obtain s1 where "calm s s1" "sv_tickets s' = sv_tickets s1"
      by (elim beganE) (simp add: enter_conv_def Let_def fx_def)
    with calmD(4) [of s s1] g wf have "btm_get (tk_map (sv_tickets s)) k = Some (t, Some pk)" unfolding tickets_kept_def by fastforce
    then show ?thesis by (rule old)
  next
    case (passed req_id code msg conv)
    then have "(\<exists>p0. btm_get (tk_map (sv_tickets s)) k = Some (t, p0) \<and> Some pk = p0) \<or> ticket_of conv t (Some pk)"
      using g wf unfolding passed_def by blast
    then show ?thesis
    proof
      assume "ticket_of conv t (Some pk)"
      moreover have "(s, w, HI_Auth req_id (In_Msg (ACE_Done True code msg))) \<in> set (tr @ [(s, w, inp)])" using passed(1) by simp
      ultimately show ?thesis using passed(2,3) unfolding ticket_origin_def by blast
    qed (auto intro: old)
  next
    case (started req_id tid session gen path hints)
    then obtain s1 where s1: "calm s1 s'"
      "sv_tickets s1 = snd (tickets_redeem (clock w s) tid gen [Intent_Login, Intent_Switch] (sv_tickets s))"
      by (elim startedE) (simp add: send_start_def fx_def)
    then have "btm_get (tk_map (sv_tickets s1)) k = Some (t, Some pk)" using wf by (intro kept) (auto simp: tickets_wf_redeem)
    with s1(2) show ?thesis by (intro old) (auto simp: redeem_removes split: if_splits)
  next
    case (timers now)
    then have "btm_get (tk_map (sv_tickets (timers_prune now s))) k = Some (t, Some pk)"
      using wf by (intro kept) (auto simp: timers_prune_def)
    then show ?thesis using expire_get [OF wf] by (intro old) (auto simp: timers_prune_def)
  qed
qed

interpretation helper: history_system "helper_init e" "helper_rel e" "helper_inv e" helper_hist for e
proof unfold_locales
  show "helper_init e s \<Longrightarrow> helper_inv e s" for s
    using server_new_inv by (auto simp: helper_init_def)
  show "helper_inv e s \<Longrightarrow> helper_rel e s i s' \<Longrightarrow> helper_inv e s'" for s i s'
    using step_inv by (auto simp: helper_rel_def)
  show "helper_init e s \<Longrightarrow> helper_hist [] s" for s
    using adopt_fields by (auto simp: helper_init_def helper_hist_def server_new_def tickets_new_def)
  show "helper_inv e s \<Longrightarrow> helper_hist tr s \<Longrightarrow> helper_rel e s i s' \<Longrightarrow> helper_hist (tr @ [(s, i)]) s'" for s tr i s'
    using hist_step [of "fst i" s tr "snd i" s'] by (auto simp: helper_rel_def)
qed

section \<open>A turn of the loop is a sequence of steps\<close>

definition reaches :: "world \<Rightarrow> server \<Rightarrow> server \<Rightarrow> bool" where
  "reaches w s s' \<longleftrightarrow> (\<exists>is. helper_steps w is s = Some s')"

lemma reaches_refl [simp, intro]: "reaches w s s"
  unfolding reaches_def by (rule exI [of _ "[]"]) simp

lemma reaches_step: "helper_step w i s = Some s' \<Longrightarrow> reaches w s s'"
  unfolding reaches_def by (rule exI [of _ "[i]"]) simp

lemma reaches_trans [trans]: "reaches w a b \<Longrightarrow> reaches w b c \<Longrightarrow> reaches w a c"
  unfolding reaches_def by (metis bind.bind_lunit helper_steps_append)

lemma step_conf: "helper_step w i s = Some s' \<Longrightarrow> sv_cfg s' = sv_cfg s \<and> sv_allowed_uid s' = sv_allowed_uid s"
proof (erule step_cases)
  fix req_id user uid intent gen service
  assume "began w req_id user uid intent gen service s s'"
  then show ?thesis by (elim beganE) (simp add: enter_conv_def Let_def fx_def calmD)
next
  fix req_id :: u64 and tid session gen path hints
  assume "started w tid session gen path hints s s'"
  then show ?thesis by (elim startedE) (simp add: send_start_def fx_def calmD)
qed (auto simp: passed_def timers_prune_def dest: calmD)

lemma reaches_conf: "reaches w s s' \<Longrightarrow> sv_cfg s' = sv_cfg s \<and> sv_allowed_uid s' = sv_allowed_uid s"
proof -
  have "helper_steps w is s = Some s' \<Longrightarrow> sv_cfg s' = sv_cfg s \<and> sv_allowed_uid s' = sv_allowed_uid s" for "is"
  proof (induction "is" arbitrary: s)
    case (Cons i "is")
    then obtain u where "helper_step w i s = Some u" "helper_steps w is u = Some s'" by (auto simp: Option.bind_eq_Some_conv)
    with Cons.IH step_conf show ?case by metis
  qed simp
  then show "reaches w s s' \<Longrightarrow> ?thesis" by (auto simp: reaches_def)
qed

lemma reaches_requests: "reaches w s (read_requests w ms s)"
proof (induction ms arbitrary: s)
  case (Cons m ms)
  have "read_requests w (m # ms) s = read_requests w [m] s \<or> read_requests w (m # ms) s = read_requests w ms (read_requests w [m] s)"
    by (auto split: conn_in.split)
  moreover have "reaches w s (read_requests w [m] s)" by (rule reaches_step [of w "HI_Request m"]) simp
  ultimately show ?case using Cons reaches_trans by metis
qed simp

lemma reaches_accept: "reaches w s (accept_one w c s)"
proof (cases "cred_ok s c")
  case True
  define s1 where "s1 = (if sv_conn s \<noteq> None then read_requests w (cd_pending c) s else s)"
  have r: "reaches w s s1" by (simp add: s1_def reaches_requests)
  have "cred_ok s1 c" using True unfolding cred_ok_def reaches_conf [OF r, THEN conjunct1] reaches_conf [OF r, THEN conjunct2] by simp
  then have "reaches w s1 (accept_finish w c s1)" by (intro reaches_step [of w "HI_Accept c"]) simp
  with r have "reaches w s (accept_finish w c s1)" by (rule reaches_trans)
  then show ?thesis using True unfolding accept_one_def s1_def by simp
qed (simp add: accept_one_def)

lemma reaches_fold: "(\<And>x s. reaches w s (f x s)) \<Longrightarrow> reaches w s (fold f xs s)"
  by (induction xs arbitrary: s) (auto intro: reaches_trans)

lemma reaches_read_auth: "read_auth w req_id ms s = Some s' \<Longrightarrow> reaches w s s'"
proof (induction ms arbitrary: s)
  case (Cons m ms)
  have "(\<exists>u. read_auth w req_id [m] s = Some u \<and> read_auth w req_id ms u = Some s') \<or> read_auth w req_id [m] s = Some s'"
    using Cons.prems by (auto simp: Let_def split: option.splits incoming.splits auth_child_event.splits)
  then show ?case
    using Cons.IH reaches_trans reaches_step [of w "HI_Auth req_id m" s] by (metis helper_step.simps(4))
qed simp

lemma reaches_read_sessions: "reaches w s (read_sessions w fd ms s)"
proof (induction ms arbitrary: s)
  case (Cons m ms)
  have "read_sessions w fd (m # ms) s = read_sessions w fd [m] s \<or> read_sessions w fd (m # ms) s = read_sessions w fd ms (read_sessions w fd [m] s)"
    by (auto simp: Let_def split: option.split)
  moreover have "reaches w s (read_sessions w fd [m] s)" by (rule reaches_step [of w "HI_Session fd m"]) simp
  ultimately show ?case using Cons reaches_trans by metis
qed simp

lemma reaches_child: "child_exited w p status ms s = Some s' \<Longrightarrow> reaches w s s'"
proof -
  assume c: "child_exited w p status ms s = Some s'"
  have last: "reaches w u (child_rest w p status (child_auth_gone w p u))" for u
    by (rule reaches_step [of w "HI_Child p status"]) simp
  show ?thesis
  proof (cases "position (\<lambda>a. ac_pid a = p) (sv_auths s)")
    case None
    then have "child_auth_gone w p s = s" by (simp add: child_auth_gone_def)
    with c None last [of s] show ?thesis by (simp add: child_exited_def)
  next
    case (Some i)
    with c obtain u where "read_auth w (ac_req_id (sv_auths s ! i)) ms s = Some u" "s' = child_rest w p status (child_auth_gone w p u)"
      by (auto simp: child_exited_def Let_def)
    with last reaches_read_auth reaches_trans show ?thesis by metis
  qed
qed

lemma reaches_read_auths: "read_auths w xs s = Some s' \<Longrightarrow> reaches w s s'"
proof (induction xs arbitrary: s)
  case (Cons x xs)
  then show ?case by (cases x) (auto simp: Option.bind_eq_Some_conv intro: reaches_trans reaches_read_auth)
qed simp

lemma reaches_reap: "reap_children w xs s = Some s' \<Longrightarrow> reaches w s s'"
proof (induction xs arbitrary: s)
  case (Cons x xs)
  then show ?case by (cases x) (auto simp: Option.bind_eq_Some_conv intro: reaches_trans reaches_child)
qed simp

lemma reaches_io: "reaches w s (run_io w p s)"
proof -
  define s1 where "s1 = (case po_requests p of Some ms \<Rightarrow> read_requests w ms s | None \<Rightarrow> s)"
  define s2 where "s2 = (if po_writable p then flush w s1 else s1)"
  have "reaches w s s1" by (auto simp: s1_def reaches_requests split: option.split)
  also have "reaches w s1 s2" unfolding s2_def by (auto intro: reaches_step [of w HI_Flush])
  also have "reaches w s2 (accept_connections w cs s2)" for cs
    unfolding accept_connections_def by (rule reaches_fold) (rule reaches_accept)
  then have "reaches w s2 (run_io w p s)"
    unfolding run_io_def Let_def s1_def [symmetric] s2_def [symmetric] by (simp split: option.split)
  finally show ?thesis .
qed

lemma turn_is_steps:
  assumes "run_turn w p s = Some s'"
  shows "reaches w s s'"
proof -
  obtain s1 where s1: "read_auths w (po_auths p) (run_io w p s) = Some s1"
    using assms by (auto simp: run_turn_def Option.bind_eq_Some_conv)
  define s2 where "s2 = fold (\<lambda>(fd, ms). read_sessions w fd ms) (po_sessions p) s1"
  define s3 where "s3 = s2\<lparr>sv_shutdown := sv_shutdown s2 \<or> po_term p\<rparr>"
  obtain s4 where s4: "reap_children w (po_children p) s3 = Some s4" "s' = timers w (clock w s4) s4"
    using assms s1 by (auto simp: run_turn_def Option.bind_eq_Some_conv Let_def s2_def [symmetric] s3_def [symmetric])
  have "reaches w s (run_io w p s)" by (rule reaches_io)
  also have "reaches w (run_io w p s) s1" by (rule reaches_read_auths [OF s1])
  also have "reaches w s1 s2" unfolding s2_def by (rule reaches_fold) (auto simp: reaches_read_sessions split: prod.split)
  also have "reaches w s2 s3" by (rule reaches_step [of w "HI_Term (po_term p)"]) (simp add: s3_def)
  also have "reaches w s3 s4" by (rule reaches_reap [OF s4(1)])
  also have "reaches w s4 s'" by (rule reaches_step [of w "HI_Timers (clock w s4)"]) (simp add: s4(2))
  finally show ?thesis .
qed

lemma reaches_reachable:
  assumes "reachable_by (helper_init e) (helper_rel e) s" "w_euid w = e" "reaches w s s'"
  shows "reachable_by (helper_init e) (helper_rel e) s'"
proof -
  have "helper_steps w is s = Some s' \<Longrightarrow> reachable_by (helper_init e) (helper_rel e) s \<Longrightarrow> ?thesis" for "is"
  proof (induction "is" arbitrary: s)
    case (Cons i "is")
    then obtain u where u: "helper_step w i s = Some u" "helper_steps w is u = Some s'" by (auto simp: Option.bind_eq_Some_conv)
    then have "helper_rel e s (w, i) u" using assms(2) by (simp add: helper_rel_def)
    with Cons u show ?case by (blast intro: reachable_step)
  qed simp
  with assms show ?thesis by (auto simp: reaches_def)
qed

end
