(* ===== verification/Helper_Verdicts.thy ===== *)
theory Helper_Verdicts
  imports Helper_Machine
begin

text \<open>
  The verdicts the helper sends. The locale \<^verbatim>\<open>server_frame\<close> does for the helper what
  \<^verbatim>\<open>manager_frame\<close> does for the manager: a predicate that looks only at the effects and at the queue
  of the connection, and that sending an event which approves nobody keeps, is kept by every step
  but the one in which a forked process reports PAM's success. It is interpreted by the events
  that approve a request.
\<close>

section \<open>Events that approve\<close>

fun approves :: "helper_event \<Rightarrow> u64 set" where
  "approves (HEv_AuthDone req_id ok _ _ _) = (if ok then {req_id} else {})"
| "approves _ = {}"

fun is_send :: "sys_effect \<Rightarrow> bool" where
  "is_send (Fx_Send _ _) = True"
| "is_send _ = False"

lemma fx_conn: "fx e (s\<lparr>sv_conn := x\<rparr>) = (fx e s)\<lparr>sv_conn := x\<rparr>"
  by (simp add: fx_def)

lemma flush_queue_conn: "flush_queue w q (s\<lparr>sv_conn := x\<rparr>) = flush_queue w q s"
  by (induction q arbitrary: s) (simp_all add: fx_conn drop_connection_conn Let_def split: io.split bool.split)

section \<open>Every handler is made of a few changes\<close>

locale server_frame =
  fixes S :: "server \<Rightarrow> bool" and X :: "u64 set"
  assumes view: "sv_fx s' = sv_fx s \<Longrightarrow> sv_conn s' = sv_conn s \<Longrightarrow> S s' \<longleftrightarrow> S s"
    and effect: "S s \<Longrightarrow> \<not> is_send e \<Longrightarrow> S (fx e s)"
    and hung_up: "S s \<Longrightarrow> S (s\<lparr>sv_conn := None\<rparr>)"
    and opened: "S s \<Longrightarrow> sv_conn s = None \<Longrightarrow> S (s\<lparr>sv_conn := Some []\<rparr>)"
    and sent: "S s \<Longrightarrow> approves ev \<subseteq> X \<Longrightarrow> S (fx (Fx_Send ev r) s)"
    and queued: "S s \<Longrightarrow> approves ev \<subseteq> X \<Longrightarrow> sv_conn s = Some q \<Longrightarrow> S (s\<lparr>sv_conn := Some (q @ [ev])\<rparr>)"
    and flushed: "S s \<Longrightarrow> sv_conn s = Some (ev # q) \<Longrightarrow> S ((fx (Fx_Send ev r) s)\<lparr>sv_conn := Some q\<rparr>)"
    and stuck: "S s \<Longrightarrow> sv_conn s = Some (ev # q) \<Longrightarrow> S (fx (Fx_Send ev r) s)"
begin

lemma fields [simp]:
  "S (s\<lparr>sv_auths := a1\<rparr>) = S s" "S (s\<lparr>sv_dying := a2\<rparr>) = S s" "S (s\<lparr>sv_throttle := a3\<rparr>) = S s"
  "S (s\<lparr>sv_tickets := a4\<rparr>) = S s" "S (s\<lparr>sv_sessions := a5\<rparr>) = S s" "S (s\<lparr>sv_greeter := a6\<rparr>) = S s"
  "S (s\<lparr>sv_hints := a7\<rparr>) = S s" "S (s\<lparr>sv_missed_exits := a8\<rparr>) = S s" "S (s\<lparr>sv_shutdown := a9\<rparr>) = S s"
  "S (s\<lparr>sv_rng_pos := b1\<rparr>) = S s"
  by (rule view; simp)+

declare effect [intro!]

lemma folded: "S s \<Longrightarrow> (\<And>x s. S s \<Longrightarrow> S (f x s)) \<Longrightarrow> S (fold f xs s)"
  by (induction xs arbitrary: s) simp_all

lemma killed [intro!]: "S s \<Longrightarrow> S (kill_auth_child w p s)"
  by (auto simp: kill_auth_child_def Let_def)

lemma greeter_ended [intro!]: "S s \<Longrightarrow> S (terminate_greeter w g s)"
  by (auto simp: terminate_greeter_def Let_def)

lemma connection_dropped [intro!]: "S s \<Longrightarrow> S (drop_connection w s)"
proof -
  assume "S s"
  then have "S (s\<lparr>sv_conn := None, sv_auths := []\<rparr>)" using hung_up by simp
  then show ?thesis by (auto simp: drop_connection_def Let_def intro!: folded split: option.split)
qed

lemma emitted [intro!]:
  assumes "S s" "approves ev \<subseteq> X"
  shows "S (emit w ev s)"
proof -
  have check: "S (emit_queue_check w s)" if "S s" for s using that by (auto simp: emit_queue_check_def)
  show ?thesis
  proof (cases "sv_conn s")
    case None
    then show ?thesis using assms by (simp add: emit_def emit_unheard_def)
  next
    case (Some q)
    have out: "S (fx (Fx_Send ev r) s)" for r using sent [OF assms] .
    have kept: "S ((fx (Fx_Send ev r) s)\<lparr>sv_conn := Some (q @ [ev])\<rparr>)" for r
      using queued [OF out [of r] assms(2), of q] Some by (simp add: fx_def)
    show ?thesis
      using Some check connection_dropped [OF out] out kept queued [OF assms Some]
      by (cases "q = []"; cases "w_send w (length (sv_fx s))") (auto simp: emit_def Let_def split: bool.split)
  qed
qed

lemma queue_flushed: "S s \<Longrightarrow> sv_conn s = Some q \<Longrightarrow> S (flush_queue w q s)"
proof (induction q arbitrary: s)
  case Nil
  then show ?case by (simp add: view [of "s\<lparr>sv_conn := Some []\<rparr>" s])
next
  case (Cons ev q)
  have stay: "S (fx (Fx_Send ev r) s)" for r by (rule stuck [OF Cons.prems])
  have same: "S ((fx (Fx_Send ev r) s)\<lparr>sv_conn := Some (ev # q)\<rparr>)" for r
    using stay [of r] view [of "(fx (Fx_Send ev r) s)\<lparr>sv_conn := Some (ev # q)\<rparr>" "fx (Fx_Send ev r) s"] Cons.prems(2)
    by (simp add: fx_def)
  have rest: "S (flush_queue w q (fx (Fx_Send ev r) s))" for r
    using Cons.IH [OF flushed [OF Cons.prems]] by (simp add: flush_queue_conn)
  show ?case
    using rest same connection_dropped [OF stay]
    by (cases "w_send w (length (sv_fx s))") (simp_all add: Let_def split: bool.split)
qed

lemma flush_done [intro!]: "S s \<Longrightarrow> S (flush w s)"
  by (auto simp: flush_def intro: queue_flushed split: option.split)

subsection \<open>Conversations\<close>

lemma failure_noted [simp]: "S (note_failure w uid at s) = S s"
  by (simp add: note_failure_def Let_def)

lemma dying_pushed [simp]: "S (push_dying w p s) = S s"
  by (simp add: push_dying_def)

lemma retired [intro!]: "S s \<Longrightarrow> S (retire_auth w i s)"
  by (auto simp: retire_auth_def Let_def split: option.split)

lemma aborted [intro!]: "S s \<Longrightarrow> S (abort_auth w i code msg s)"
  by (auto simp: abort_auth_def)

lemma superseded [intro!]: "S s \<Longrightarrow> S (supersede_all w s)"
  by (induction w s rule: supersede_all.induct) (subst supersede_all.simps, auto)

lemma done_err [intro!]: "S s \<Longrightarrow> S (auth_done_err w req_id code msg s)"
  by (auto simp: auth_done_err_def)

lemma conversation_started [intro!]: "S s \<Longrightarrow> S (auth_start w req_id user uid intent gen service s)"
proof -
  have "S (auth_fork w req_id pw intent gen service s)" if "S s" for pw s
    using that by (auto simp: auth_fork_def Let_def split: io.split)
  then show "S s \<Longrightarrow> S (auth_start w req_id user uid intent gen service s)"
    by (auto simp: auth_start_def auth_begin_def Let_def split: io.split option.split sum.split)
qed

lemma answered [intro!]: "S s \<Longrightarrow> S (auth_response w req_id r s)"
  by (auto simp: auth_response_def Let_def split: option.split)

lemma refused [intro!]: "S s \<Longrightarrow> S (auth_failed w conv code msg s)"
  by (auto simp: auth_failed_def Let_def)

lemma minted: "mint w uid user intent gen p s = Some (r, s') \<Longrightarrow> S s' \<longleftrightarrow> S s"
  by (rule view) (auto dest: mint_fields)

lemma verdict_said:
  assumes "S s" "ac_req_id conv \<in> X" "auth_passed w conv s = Some s'"
  shows "S s'"
proof -
  define s0 where "s0 = s\<lparr>sv_throttle := btm_remove (ac_uid conv) (sv_throttle s)\<rparr>"
  define p where "p = (if ac_startable conv then Some \<lparr>pk_sock = ac_sock conv, pk_pid = ac_pid conv\<rparr> else None)"
  define s1 where "s1 = (if ac_startable conv then s0 else push_dying w (ac_pid conv) s0)"
  have "S s1" using assms(1) by (simp add: s1_def s0_def)
  obtain r s2 where m: "mint w (ac_uid conv) (ac_user conv) (ac_intent conv) (ac_generation conv) p s1 = Some (r, s2)"
    and s': "\<exists>ev. s' = emit w ev s2 \<and> approves ev \<subseteq> X"
    using assms(2,3) by (fastforce simp: auth_passed_def Let_def s0_def s1_def p_def split: option.splits if_splits)
  have "S s2" using minted [OF m] \<open>S s1\<close> by simp
  with s' show ?thesis by auto
qed

lemma child_spoke:
  assumes "S s" "read_auth w req_id [m] s = Some s'" "\<And>code msg. m \<noteq> In_Msg (ACE_Done True code msg)"
  shows "S s'"
  using assms by (cases m) (auto simp: Let_def split: option.splits auth_child_event.splits if_splits)

subsection \<open>Sessions, the greeter, children and timers\<close>

lemma session_refused [intro!]: "S s \<Longrightarrow> S (session_failed w req_id session gen code msg s)"
  by (auto simp: session_failed_def)

lemma session_asked [intro!]: "S s \<Longrightarrow> S (open_session w req_id tid session gen path hints s)"
proof -
  have "S (start_parked w req_id session gen path hints pk s)" if "S s" for pk s
    using that by (auto simp: start_parked_def Let_def split: option.split)
  then show "S s \<Longrightarrow> S (open_session w req_id tid session gen path hints s)"
    by (auto simp: open_session_def Let_def split: prod.split sum.split redeem_error.split io.split option.split)
qed

lemma session_spoke [intro!]: "S s \<Longrightarrow> S (read_sessions w fd [m] s)"
proof -
  have "S (read_session w i m s)" if "S s" for i s
    using that by (auto simp: read_session_def session_event_def session_opened_def session_vanished_def Let_def
        split: incoming.split sup_event.split option.split)
  then show "S s \<Longrightarrow> S (read_sessions w fd [m] s)" by (auto simp: Let_def split: option.split)
qed

lemma greeter_spawned [intro!]: "S s \<Longrightarrow> S (spawn_greeter w req_id gen ws cs s)"
proof -
  have f: "S (greeter_failed w gen s)" if "S s" for s using that by (auto simp: greeter_failed_def)
  have l: "S (launch_greeter w req_id gen ws cs pw s)" if "S s" for pw s
    using that by (auto simp: launch_greeter_def Let_def intro!: f split: io.split)
  show "S s \<Longrightarrow> S (spawn_greeter w req_id gen ws cs s)"
    by (auto simp: spawn_greeter_def Let_def intro!: f l split: io.split option.split)
qed

lemma hinted [intro!]: "S s \<Longrightarrow> S (helper_set_locked_hint w req_id session gen b s)"
  by (auto simp: helper_set_locked_hint_def Let_def split: option.split io.split)

lemma handled [intro!]: "S s \<Longrightarrow> S (helper_handle w req s)"
  by (cases req) (auto simp: close_session_def kill_greeter_def split: option.split)

lemma accepted [intro!]:
  assumes "S s" "list_all is_session_exited (sv_missed_exits s)"
  shows "S (accept_finish w c s)"
proof -
  have "S (fold (emit w) es s)" if "S s" "list_all is_session_exited es" for es s
    using that
  proof (induction es arbitrary: s)
    case (Cons e es)
    then have "S (emit w e s)" by (cases e) auto
    with Cons show ?case by simp
  qed simp
  then show ?thesis using assms opened [of s] by (auto simp: accept_finish_def)
qed

lemma child_ended [intro!]: "S s \<Longrightarrow> S (child_rest w p status (child_auth_gone w p s))"
proof -
  have a: "S (child_auth_gone w p s)" if "S s" for s using that by (auto simp: child_auth_gone_def split: option.split)
  have h: "S (child_hint w p status s)" if "S s" for s using that by (auto simp: child_hint_def Let_def split: option.split)
  have v: "S (child_supervisor p status s) = S s" for s by (simp add: child_supervisor_def split: option.split)
  have g: "S (child_greeter w p status s)" if "S s" for s
    using that by (auto simp: child_greeter_def Let_def split: option.split io.split)
  show "S s \<Longrightarrow> S (child_rest w p status (child_auth_gone w p s))"
    unfolding child_rest_def by (intro g h v [THEN iffD2]) (simp add: a child_forget_def)
qed

lemma auths_timed [intro!]: "S s \<Longrightarrow> S (overdue_auths w now i s)"
proof (induction w now i s rule: overdue_auths.induct)
  case (1 w now i s)
  have "S (fx (Fx_Kill (ac_pid (sv_auths s ! i)) SIGKILL) (abort_auth w i E_Timeout ''authentication timed out'' s))"
    using 1(3) by auto
  with 1 show ?case by (subst overdue_auths.simps) simp
qed

lemma sessions_timed [intro!]: "S s \<Longrightarrow> S (overdue_sessions w now kept es s)"
proof (induction w now kept es s rule: overdue_sessions.induct)
  case (2 w now kept e rest s)
  have "S (session_overdue w e (s\<lparr>sv_sessions := kept @ rest\<rparr>))"
    using 2(3) by (auto simp: session_overdue_def Let_def split: option.split)
  with 2 show ?case by simp
qed simp

lemma timed [intro!]: "S s \<Longrightarrow> S (timers w now s)"
  by (auto simp: timers_def timers_kill_def timers_prune_def Let_def intro!: folded split: option.split)

lemma stepped:
  assumes "S s" "helper_step w inp s = Some s'" "bounded_out s"
    "\<And>req_id code msg. inp \<noteq> HI_Auth req_id (In_Msg (ACE_Done True code msg))"
  shows "S s'"
proof (cases inp)
  case (HI_Request m)
  then show ?thesis using assms by (cases m) auto
next
  case (HI_Auth req_id m)
  then show ?thesis using assms child_spoke by auto
next
  case (HI_Accept c)
  then show ?thesis using assms by (auto simp: bounded_out_def)
qed (use assms in \<open>auto simp del: read_sessions.simps\<close>)

end

section \<open>What a step says\<close>

definition said :: "sys_effect list \<Rightarrow> u64 set" where
  "said es = (\<Union>e \<in> set es. case e of Fx_Send ev _ \<Rightarrow> approves ev | _ \<Rightarrow> {})"

definition unsaid :: "server \<Rightarrow> u64 set" where
  "unsaid s = (case sv_conn s of None \<Rightarrow> {} | Some q \<Rightarrow> \<Union> (approves ` set q))"

text \<open>What has been approved since \<^term>\<open>s\<close>, on the wire or in the queue, was in the queue already or is in \<^term>\<open>X\<close>.\<close>

definition says :: "u64 set \<Rightarrow> server \<Rightarrow> server \<Rightarrow> bool" where
  "says X s s' \<longleftrightarrow> (\<exists>es. sv_fx s' = sv_fx s @ es \<and> said es \<union> unsaid s' \<subseteq> unsaid s \<union> X)"

lemma said_simps [simp]:
  "said [] = {}" "said (xs @ ys) = said xs \<union> said ys" "said [Fx_Send ev r] = approves ev"
  by (auto simp: said_def)

lemma said_other: "\<not> is_send e \<Longrightarrow> said [e] = {}"
  by (cases e) (simp_all add: said_def)

interpretation speech: server_frame "says X s" X for X s
proof unfold_locales
  fix t t' :: server and e ev r q
  show "sv_fx t' = sv_fx t \<Longrightarrow> sv_conn t' = sv_conn t \<Longrightarrow> says X s t' \<longleftrightarrow> says X s t"
    by (simp add: says_def unsaid_def)
  show "says X s t \<Longrightarrow> \<not> is_send e \<Longrightarrow> says X s (fx e t)"
    by (auto simp: says_def fx_def unsaid_def said_other)
  show "says X s t \<Longrightarrow> says X s (t\<lparr>sv_conn := None\<rparr>)" "says X s t \<Longrightarrow> sv_conn t = None \<Longrightarrow> says X s (t\<lparr>sv_conn := Some []\<rparr>)"
    by (auto simp: says_def unsaid_def)
  show "says X s t \<Longrightarrow> approves ev \<subseteq> X \<Longrightarrow> says X s (fx (Fx_Send ev r) t)"
    by (auto simp: says_def fx_def unsaid_def)
  show "says X s t \<Longrightarrow> approves ev \<subseteq> X \<Longrightarrow> sv_conn t = Some q \<Longrightarrow> says X s (t\<lparr>sv_conn := Some (q @ [ev])\<rparr>)"
    by (auto simp: says_def unsaid_def)
  show "says X s t \<Longrightarrow> sv_conn t = Some (ev # q) \<Longrightarrow> says X s ((fx (Fx_Send ev r) t)\<lparr>sv_conn := Some q\<rparr>)"
    "says X s t \<Longrightarrow> sv_conn t = Some (ev # q) \<Longrightarrow> says X s (fx (Fx_Send ev r) t)"
    by (auto simp: says_def fx_def unsaid_def)
qed

lemma says_refl [simp]: "says X s s"
  by (auto simp: says_def)

text \<open>The only request a step approves is the one whose process reports PAM's success in it.\<close>

definition verdict_of :: "helper_input \<Rightarrow> server \<Rightarrow> u64 set" where
  "verdict_of inp s =
     (case inp of
        HI_Auth req_id (In_Msg (ACE_Done True _ _)) \<Rightarrow> if \<exists>conv \<in> set (sv_auths s). ac_req_id conv = req_id then {req_id} else {}
      | _ \<Rightarrow> {})"

lemma step_says:
  assumes "helper_step w inp s = Some s'" "bounded_out s"
  shows "says (verdict_of inp s) s s'"
proof (cases "\<exists>req_id code msg. inp = HI_Auth req_id (In_Msg (ACE_Done True code msg))")
  case False
  then show ?thesis using speech.stepped [OF says_refl assms] by blast
next
  case True
  then obtain req_id code msg where inp: "inp = HI_Auth req_id (In_Msg (ACE_Done True code msg))" by blast
  show ?thesis
  proof (cases "position (\<lambda>a. ac_req_id a = req_id) (sv_auths s)")
    case None
    then show ?thesis using assms inp by simp
  next
    case (Some i)
    note i = position_Some [OF Some]
    define X where "X = verdict_of inp s"
    let ?conv = "sv_auths s ! i" and ?s = "s\<lparr>sv_auths := remove_nth i (sv_auths s)\<rparr>"
    have X: "ac_req_id ?conv \<in> X" using i nth_mem unfolding X_def inp by (fastforce simp: verdict_of_def)
    have "auth_passed w ?conv ?s = Some s'" using assms(1) inp Some by (simp add: Let_def)
    from speech.verdict_said [OF _ X this] show ?thesis unfolding X_def [symmetric] by simp
  qed
qed

end
