(* ===== verification/Helper_Theorems.thy ===== *)
theory Helper_Theorems
  imports Helper_Machine
begin

text \<open>
  The guarantees of the privileged helper: its resources are bounded, a session is started only
  for an account PAM has just accepted, failed guesses are slowed down, and the one way in which a
  conversation can outlive the connection that asked for it.
\<close>

section \<open>Turns of the loop\<close>

definition helper_turn :: "u32 \<Rightarrow> server \<Rightarrow> world \<times> polled \<Rightarrow> server \<Rightarrow> bool" where
  "helper_turn euid s wp s' \<longleftrightarrow> w_euid (fst wp) = euid \<and> run_turn (fst wp) (snd wp) s = Some s'"

lemma turns_reachable:
  "reachable_by (helper_init e) (helper_turn e) s \<Longrightarrow> reachable_by (helper_init e) (helper_rel e) s"
proof (induction rule: reachable_by.induct)
  case (reachable_step s wp s')
  then show ?case using reaches_reachable turn_is_steps by (metis helper_turn_def)
qed (rule reachable_by.reachable_init)

section \<open>A concrete run\<close>

definition demo_user :: passwd where
  "demo_user = \<lparr>pw_name = ''ann'', pw_uid = 1000, pw_gid = 1000, pw_home = ''/home/ann'', pw_shell = ''/bin/sh''\<rparr>"

definition demo_world :: "(nat \<Rightarrow> bool io) \<Rightarrow> instant \<Rightarrow> world" where
  "demo_world sends now =
     \<lparr>w_now = \<lambda>_. now, w_send = sends, w_send_child = \<lambda>_. Io_Ok True,
      w_getpwnam = \<lambda>n. Io_Ok (if n = ''ann'' then Some demo_user else None),
      w_getpwuid = \<lambda>u. Io_Ok (if u = 1000 then Some demo_user else None), w_euid = 0,
      w_socketpair = \<lambda>_. Io_Ok 7, w_fork = \<lambda>n. Io_Ok (100 + n), w_random = \<lambda>n. Some (of_nat n + 5), w_rank = \<lambda>_. 0,
      w_wait_status = \<lambda>_. None, w_retired = True,
      w_prepare_dirs = \<lambda>_ _ _. Io_Err ''read-only'', w_locale_conf = None, w_spawn = Io_Err ''no greeter''\<rparr>"

definition demo_peer :: candidate where
  "demo_peer = \<lparr>cd_cred = Io_Ok (50, 999), cd_exe = Io_Ok ''/usr/bin/bsm (deleted)'',
     cd_cgroup = Io_Ok ''/system.slice/bsm.service'', cd_exited = False, cd_pending = [], cd_nonblocking = True\<rparr>"

definition quiet_poll :: polled where
  "quiet_poll = \<lparr>po_requests = None, po_writable = False, po_accepts = None, po_auths = [], po_sessions = [],
     po_term = False, po_children = []\<rparr>"

definition login_request :: "u64 \<Rightarrow> conn_in" where
  "login_request req_id = CI_Request (HReq_AuthStart req_id ''ann'' 1000 Intent_Login 9 ''bsm-login'')"

definition demo_helper :: server where
  "demo_helper = server_new (demo_world (\<lambda>_. Io_Ok True) 0) helper_config_default 999 []"

definition demo_turn1 :: server where
  "demo_turn1 = the (run_turn (demo_world (\<lambda>_. Io_Ok True) 0) (quiet_poll\<lparr>po_accepts := Some [demo_peer]\<rparr>) demo_helper)"

definition demo_turn2 :: server where
  "demo_turn2 = the (run_turn (demo_world (\<lambda>_. Io_Ok True) 0) (quiet_poll\<lparr>po_requests := Some [login_request 1]\<rparr>) demo_turn1)"

lemma demo_turns:
  "helper_turn 0 demo_helper (demo_world (\<lambda>_. Io_Ok True) 0, quiet_poll\<lparr>po_accepts := Some [demo_peer]\<rparr>) demo_turn1"
  "helper_turn 0 demo_turn1 (demo_world (\<lambda>_. Io_Ok True) 0, quiet_poll\<lparr>po_requests := Some [login_request 1]\<rparr>) demo_turn2"
proof -
  have "run_turn (demo_world (\<lambda>_. Io_Ok True) 0) (quiet_poll\<lparr>po_accepts := Some [demo_peer]\<rparr>) demo_helper \<noteq> None"
    by code_simp
  then show "helper_turn 0 demo_helper (demo_world (\<lambda>_. Io_Ok True) 0, quiet_poll\<lparr>po_accepts := Some [demo_peer]\<rparr>) demo_turn1"
    by (auto simp: helper_turn_def demo_turn1_def demo_world_def)
  have "run_turn (demo_world (\<lambda>_. Io_Ok True) 0) (quiet_poll\<lparr>po_requests := Some [login_request 1]\<rparr>) demo_turn1 \<noteq> None"
    by code_simp
  then show "helper_turn 0 demo_turn1 (demo_world (\<lambda>_. Io_Ok True) 0, quiet_poll\<lparr>po_requests := Some [login_request 1]\<rparr>) demo_turn2"
    by (auto simp: helper_turn_def demo_turn2_def demo_world_def)
qed

lemma demo_init: "helper_init 0 demo_helper"
proof -
  have "w_euid (demo_world (\<lambda>_. Io_Ok True) 0) = 0" by (simp add: demo_world_def)
  then show ?thesis unfolding helper_init_def demo_helper_def by blast
qed

lemma demo_reachable: "reachable_by (helper_init 0) (helper_turn 0) demo_turn2"
  using demo_init demo_turns by (blast intro: reachable_by.intros)

section \<open>Bounds\<close>

text \<open>
  C13. In every state the loop can reach, whatever the manager asks and the system answers, the
  helper runs at most one conversation and at most eight authentication processes that live or are
  still ending, holds at most 64 tickets, remembers at most 64 missed exits and queues at most 1024
  messages. Every conversation and every ticket is for an account a person may use: not root, not
  below the minimum uid and, when the helper is root, not the manager's or the greeter's account.
\<close>

theorem helper_is_bounded:
  assumes "reachable_by (helper_init euid) (helper_turn euid) s"
  shows "length (sv_auths s) \<le> 1 \<and> length (sv_auths s) + length (sv_dying s) \<le> 8
    \<and> length (tk_map (sv_tickets s)) \<le> 64 \<and> length (sv_missed_exits s) \<le> 64
    \<and> (\<forall>q. sv_conn s = Some q \<longrightarrow> length q \<le> 1024)
    \<and> (\<forall>c \<in> set (sv_auths s). account_ok euid s (ac_uid c) (ac_user c))
    \<and> (\<forall>k t p. btm_get (tk_map (sv_tickets s)) k = Some (t, p) \<longrightarrow> account_ok euid s (t_uid t) (t_user t))"
proof -
  have "helper_inv euid s"
    using helper.reachable_invariant turns_reachable assms by blast
  then show ?thesis
    unfolding helper_inv_def tickets_wf_def bounded_out_def MAX_DYING_def MAX_TICKETS_def by simp
qed

theorem helper_is_bounded_witness:
  "map ac_uid (sv_auths demo_turn2) = [1000] \<and> length (sv_auths demo_turn2) + length (sv_dying demo_turn2) \<le> 8"
proof -
  have "map ac_uid (sv_auths demo_turn2) = [1000]" by code_simp
  with helper_is_bounded [OF demo_reachable] show ?thesis by simp
qed

section \<open>Only PAM opens sessions\<close>

lemma harmless_start:
  "list_all harmless es \<Longrightarrow> Fx_SendChild sk (APC_StartSession sp) r \<notin> set es"
  by (auto simp: list_all_iff)

lemma harmless_fork: "list_all harmless es \<Longrightarrow> Fx_ForkAuth p params b \<notin> set es"
  by (auto simp: list_all_iff)

lemma step_starts:
  assumes "helper_step w inp s = Some s'" "sv_fx s' = sv_fx s @ es" "Fx_SendChild sk (APC_StartSession sp) r \<in> set es"
  obtains req_id tid where
    "inp = HI_Request (CI_Request (HReq_OpenSession req_id tid (sp_session sp) (sp_generation sp) (sp_host_socket sp) (sp_output_hints sp)))"
    "started w tid (sp_session sp) (sp_generation sp) (sp_host_socket sp) (sp_output_hints sp) s s'"
    "\<exists>pk r'. pk_sock pk = sk \<and> calm (send_start w tid pk (sp_session sp) (sp_generation sp) (sp_host_socket sp) (sp_output_hints sp) r' s) s'
       \<and> (\<exists>t. btm_get (tk_map (sv_tickets s)) tid = Some (t, Some pk))"
proof -
  have no: "fx_harmless s s' \<Longrightarrow> thesis"
    using assms(2,3) harmless_start by (auto simp: fx_harmless_def)
  from assms(1) show thesis
  proof (cases rule: step_cases)
    case (began req_id user uid intent gen service)
    then obtain s1 p params es1 where "calm s s1" "sv_fx s' = sv_fx s1 @ [Fx_ForkAuth p params (startable_intent intent)]"
      by (elim beganE) (auto simp: enter_conv_def Let_def fx_def)
    moreover obtain es1 where "sv_fx s1 = sv_fx s @ es1" "list_all harmless es1"
      using calmD(6) [OF \<open>calm s s1\<close>] by (auto simp: fx_harmless_def)
    ultimately show thesis using assms(2,3) harmless_start by auto
  next
    case (started req_id tid session gen path hints)
    then obtain t pk r' where pk: "btm_get (tk_map (sv_tickets s)) tid = Some (t, Some pk)"
      "calm (send_start w tid pk session gen path hints r' s) s'" by (elim startedE) 
    then obtain es1 where "sv_fx s' = sv_fx s @ Fx_SendChild (pk_sock pk) (APC_StartSession \<lparr>sp_session = session,
        sp_generation = gen, sp_host_socket = path, sp_output_hints = hints\<rparr>) r' # es1" "list_all harmless es1"
      using calmD(6) [OF pk(2)] by (auto simp: fx_harmless_def send_start_def fx_def)
    with assms(2,3) have "pk_sock pk = sk" "sp = \<lparr>sp_session = session, sp_generation = gen, sp_host_socket = path, sp_output_hints = hints\<rparr>"
      using harmless_start by auto
    with started pk show thesis by (intro that [of req_id tid]) auto
  next
    case (timers now)
    have "fx_harmless (timers_prune now s) s'" using timers(2) by (rule calmD(6))
    then show thesis by (intro no) (simp add: fx_harmless_def timers_prune_def)
  qed (auto intro: no simp: passed_def dest: calmD(6))
qed

lemma session_start_origin:
  assumes "run_by (helper_init euid) (helper_rel euid) tr s" "helper_rel euid s (w, inp) s'"
    and "sv_fx s' = sv_fx s @ es" "Fx_SendChild sk (APC_StartSession sp) r \<in> set es"
  shows "\<exists>req_id tid t. inp = HI_Request (CI_Request (HReq_OpenSession req_id tid (sp_session sp) (sp_generation sp)
              (sp_host_socket sp) (sp_output_hints sp)))
      \<and> map_option fst (btm_get (tk_map (sv_tickets s)) tid) = Some t \<and> btm_get (tk_map (sv_tickets s')) tid = None
      \<and> clock w s < t_expires t \<and> t_generation t = sp_generation sp \<and> account_ok euid s (t_uid t) (t_user t)
      \<and> valid_session_id (sp_session sp) \<and> (\<forall>e \<in> set (sv_sessions s). se_session e \<noteq> sp_session sp)
      \<and> path_within (sc_socket_dir (hc_session (sv_cfg s))) (sp_host_socket sp)
      \<and> (\<exists>u v auth_id code msg conv. (u, v, HI_Auth auth_id (In_Msg (ACE_Done True code msg))) \<in> set tr
            \<and> conv \<in> set (sv_auths u) \<and> ac_req_id conv = auth_id \<and> ac_sock conv = sk \<and> ac_uid conv = t_uid t
            \<and> ac_user conv = t_user t \<and> ac_generation conv = sp_generation sp \<and> startable_intent (ac_intent conv))"
proof -
  have step: "helper_step w inp s = Some s'" using assms(2) by (simp add: helper_rel_def)
  obtain req_id tid where inp: "inp = HI_Request (CI_Request (HReq_OpenSession req_id tid (sp_session sp) (sp_generation sp)
      (sp_host_socket sp) (sp_output_hints sp)))"
    and st: "started w tid (sp_session sp) (sp_generation sp) (sp_host_socket sp) (sp_output_hints sp) s s'"
    and ex: "\<exists>pk r'. pk_sock pk = sk \<and> calm (send_start w tid pk (sp_session sp) (sp_generation sp) (sp_host_socket sp) (sp_output_hints sp) r' s) s'
       \<and> (\<exists>t. btm_get (tk_map (sv_tickets s)) tid = Some (t, Some pk))"
    by (rule step_starts [OF step assms(3,4)])
  obtain pk r' t where pk: "pk_sock pk = sk" "btm_get (tk_map (sv_tickets s)) tid = Some (t, Some pk)"
    "calm (send_start w tid pk (sp_session sp) (sp_generation sp) (sp_host_socket sp) (sp_output_hints sp) r' s) s'"
    using ex by blast
  have inv: "helper_inv euid s" using helper.run_states_invariant assms(1) by blast
  then have wf: "tickets_wf (sv_tickets s)" by (simp add: helper_inv_def)
  have gone: "btm_get (tk_map (sv_tickets s')) tid = None"
  proof (rule ccontr)
    assume "btm_get (tk_map (sv_tickets s')) tid \<noteq> None"
    then obtain t' p' where "btm_get (tk_map (sv_tickets s')) tid = Some (t', p')" by auto
    moreover have "tickets_wf (sv_tickets (send_start w tid pk (sp_session sp) (sp_generation sp) (sp_host_socket sp) (sp_output_hints sp) r' s))"
      using wf by (simp add: send_start_def fx_def tickets_wf_redeem)
    ultimately have "btm_get (tk_map (sv_tickets (send_start w tid pk (sp_session sp) (sp_generation sp) (sp_host_socket sp) (sp_output_hints sp) r' s))) tid \<noteq> None"
      using calmD(4) [OF pk(3)] unfolding tickets_kept_def by (metis not_None_eq)
    then show False by (simp add: send_start_def fx_def redeem_removes)
  qed
  have "ticket_origin tr t pk" using helper.run_history [OF assms(1)] pk(2) by (auto simp: helper_hist_def)
  then obtain u v auth_id code msg conv where o: "(u, v, HI_Auth auth_id (In_Msg (ACE_Done True code msg))) \<in> set tr"
    "conv \<in> set (sv_auths u)" "ac_req_id conv = auth_id" "ticket_of conv t (Some pk)"
    unfolding ticket_origin_def by blast
  from st obtain t' where t': "btm_get (tk_map (sv_tickets s)) tid = Some (t', Some pk)" "clock w s < t_expires t'"
    "t_generation t' = sp_generation sp" "startable_intent (t_intent t')" "valid_session_id (sp_session sp)"
    "path_within (sc_socket_dir (hc_session (sv_cfg s))) (sp_host_socket sp)" "\<forall>e \<in> set (sv_sessions s). se_session e \<noteq> sp_session sp"
    by (elim startedE) (use pk(2) in auto)
  then have "t' = t" using pk(2) by simp
  then have "account_ok euid s (t_uid t) (t_user t)" using inv pk(2) by (auto simp: helper_inv_def)
  moreover have "ac_sock conv = sk \<and> ac_uid conv = t_uid t \<and> ac_user conv = t_user t \<and> ac_generation conv = sp_generation sp
      \<and> startable_intent (ac_intent conv)"
    using o(4) t' \<open>t' = t\<close> pk(1) by (auto simp: ticket_of_def)
  with o(1-3) have "\<exists>u v auth_id code msg conv. (u, v, HI_Auth auth_id (In_Msg (ACE_Done True code msg))) \<in> set tr
      \<and> conv \<in> set (sv_auths u) \<and> ac_req_id conv = auth_id \<and> ac_sock conv = sk \<and> ac_uid conv = t_uid t
      \<and> ac_user conv = t_user t \<and> ac_generation conv = sp_generation sp \<and> startable_intent (ac_intent conv)" by blast
  ultimately show ?thesis using inp t' \<open>t' = t\<close> gone pk(2)
    by - (rule exI [of _ req_id], rule exI [of _ tid], rule exI [of _ t], simp)
qed

text \<open>
  The helper tells a process to open a session only in answer to an \<^verbatim>\<open>OpenSession\<close> request
  with a valid ticket: one that has not expired, belongs to the generation and the account of the
  request, and is gone afterwards. The process it tells is the one that, earlier in the run,
  reported PAM's success for that account in a login or switch conversation of that generation; the
  session id is fresh and harmless, and the socket lies in the session directory.
\<close>

theorem session_needs_pam:
  assumes "run_by (helper_init euid) (helper_rel euid) tr s" "helper_rel euid s (w, inp) s'"
    and "sv_fx s' = sv_fx s @ es" "Fx_SendChild sk (APC_StartSession sp) r \<in> set es"
  shows "\<exists>req_id tid t. inp = HI_Request (CI_Request (HReq_OpenSession req_id tid (sp_session sp) (sp_generation sp)
              (sp_host_socket sp) (sp_output_hints sp)))
      \<and> map_option fst (btm_get (tk_map (sv_tickets s)) tid) = Some t \<and> btm_get (tk_map (sv_tickets s')) tid = None
      \<and> clock w s < t_expires t \<and> t_generation t = sp_generation sp \<and> account_ok euid s (t_uid t) (t_user t)
      \<and> valid_session_id (sp_session sp) \<and> (\<forall>e \<in> set (sv_sessions s). se_session e \<noteq> sp_session sp)
      \<and> path_within (sc_socket_dir (hc_session (sv_cfg s))) (sp_host_socket sp)
      \<and> (\<exists>u v auth_id code msg conv. (u, v, HI_Auth auth_id (In_Msg (ACE_Done True code msg))) \<in> set tr
            \<and> conv \<in> set (sv_auths u) \<and> ac_req_id conv = auth_id \<and> ac_sock conv = sk \<and> ac_uid conv = t_uid t
            \<and> ac_user conv = t_user t \<and> ac_generation conv = sp_generation sp \<and> startable_intent (ac_intent conv))"
  by (rule session_start_origin [OF assms])

definition run_world :: world where
  "run_world = demo_world (\<lambda>_. Io_Ok True) 0"

definition demo_inputs :: "helper_input list" where
  "demo_inputs = [HI_Accept demo_peer, HI_Request (login_request 1), HI_Auth 1 (In_Msg (ACE_Done True None []))]"

definition demo_open :: helper_input where
  "demo_open = HI_Request (CI_Request (HReq_OpenSession 2 6 ''s0000abcd'' 9 ''/run/bsm/sessions/s0000abcd-9.sock'' [(1920, 1080)]))"

definition demo_start :: start_params where
  "demo_start = \<lparr>sp_session = ''s0000abcd'', sp_generation = 9, sp_host_socket = ''/run/bsm/sessions/s0000abcd-9.sock'',
     sp_output_hints = [(1920, 1080)]\<rparr>"

definition demo_parked :: server where
  "demo_parked = the (helper_steps run_world demo_inputs demo_helper)"

definition demo_opened :: server where
  "demo_opened = the (helper_step run_world demo_open demo_parked)"

lemma steps_run:
  assumes "run_by (helper_init e) (helper_rel e) tr s" "w_euid w = e" "helper_steps w is s = Some s'"
  shows "\<exists>tr'. run_by (helper_init e) (helper_rel e) tr' s'"
  using assms(1,3)
proof (induction "is" arbitrary: s tr)
  case (Cons i "is")
  then obtain u where u: "helper_step w i s = Some u" "helper_steps w is u = Some s'" by (auto simp: Option.bind_eq_Some_conv)
  then have "helper_rel e s (w, i) u" using assms(2) by (simp add: helper_rel_def)
  from Cons.IH [OF run_step [OF Cons.prems(1) this] u(2)] show ?case .
qed auto

theorem session_needs_pam_witness:
  "\<exists>tr. run_by (helper_init 0) (helper_rel 0) tr demo_parked \<and> helper_rel 0 demo_parked (run_world, demo_open) demo_opened
     \<and> btm_get (tk_map (sv_tickets demo_opened)) 6 = None
     \<and> (\<exists>u v auth_id code msg conv. (u, v, HI_Auth auth_id (In_Msg (ACE_Done True code msg))) \<in> set tr
           \<and> conv \<in> set (sv_auths u) \<and> ac_sock conv = 7 \<and> ac_uid conv = 1000)"
proof -
  have euid: "w_euid run_world = 0" by (simp add: run_world_def demo_world_def)
  have "helper_steps run_world demo_inputs demo_helper \<noteq> None" by code_simp
  then have "helper_steps run_world demo_inputs demo_helper = Some demo_parked" by (auto simp: demo_parked_def)
  then obtain tr where tr: "run_by (helper_init 0) (helper_rel 0) tr demo_parked"
    using steps_run [OF run_init [of "helper_init 0", OF demo_init] euid] by blast
  have "helper_step run_world demo_open demo_parked \<noteq> None" by code_simp
  then have rel: "helper_rel 0 demo_parked (run_world, demo_open) demo_opened"
    using euid by (auto simp: helper_rel_def demo_opened_def)
  have fx: "sv_fx demo_opened = sv_fx demo_parked @ [Fx_SendChild 7 (APC_StartSession demo_start) (Io_Ok True)]" by code_simp
  have uid: "map_option (t_uid \<circ> fst) (btm_get (tk_map (sv_tickets demo_parked)) 6) = Some 1000" by code_simp
  have req: "demo_open = HI_Request (CI_Request (HReq_OpenSession 2 6 (sp_session demo_start) (sp_generation demo_start)
      (sp_host_socket demo_start) (sp_output_hints demo_start)))" by (simp add: demo_open_def demo_start_def)
  from session_needs_pam [OF tr rel fx, of 7 demo_start "Io_Ok True"] tr rel uid show ?thesis
    unfolding req by (auto simp: option.map_comp [symmetric]) blast+
qed

section \<open>Failed guesses wait\<close>

text \<open>Steps at times before \<^term>\<open>T\<close>, none of which reports PAM's success for \<^term>\<open>uid\<close>.\<close>

definition succeeds :: "helper_input \<Rightarrow> u32 \<Rightarrow> server \<Rightarrow> bool" where
  "succeeds i uid s \<longleftrightarrow> (\<exists>req_id code msg conv. i = HI_Auth req_id (In_Msg (ACE_Done True code msg))
     \<and> conv \<in> set (sv_auths s) \<and> ac_req_id conv = req_id \<and> ac_uid conv = uid)"

inductive locked_run :: "instant \<Rightarrow> u32 \<Rightarrow> server \<Rightarrow> server \<Rightarrow> bool" for T uid s where
  locked_start: "locked_run T uid s s"
| locked_step: "locked_run T uid s s1 \<Longrightarrow> helper_step w i s1 = Some s2 \<Longrightarrow> (\<And>n. w_now w n < T) \<Longrightarrow>
    (\<And>now. i = HI_Timers now \<Longrightarrow> now < T) \<Longrightarrow> \<not> succeeds i uid s1 \<Longrightarrow> locked_run T uid s s2"

definition locked :: "instant \<Rightarrow> u32 \<Rightarrow> server \<Rightarrow> bool" where
  "locked T uid s \<longleftrightarrow> (\<exists>t. btm_get (sv_throttle s) uid = Some t \<and> T \<le> th_next_allowed t)"

lemma throttle_kept_locked: "throttle_kept s s' \<Longrightarrow> locked T uid s \<Longrightarrow> locked T uid s'"
  unfolding throttle_kept_def locked_def by (meson order_trans)

lemma locked_throttled:
  assumes "locked T uid s" "\<And>n. w_now w n < T"
  shows "throttled w uid s \<noteq> None"
proof -
  obtain t where "btm_get (sv_throttle s) uid = Some t" "T \<le> th_next_allowed t" using assms(1) by (auto simp: locked_def)
  moreover have "clock w s < T" using assms(2) by (simp add: clock_def)
  ultimately show ?thesis by (simp add: throttled_def)
qed

lemma map_of_filter_kept: "map_of m k = Some v \<Longrightarrow> P (k, v) \<Longrightarrow> map_of (filter P m) k = Some v"
  by (induction m) (auto split: if_splits)

lemma locked_step_quiet:
  assumes "helper_step w i s = Some s'" "\<And>n. w_now w n < T" "\<And>now. i = HI_Timers now \<Longrightarrow> now < T"
    "\<not> succeeds i uid s" "locked T uid s"
  shows "locked T uid s' \<and> (\<exists>es. sv_fx s' = sv_fx s @ es \<and> (\<forall>p params b. Fx_ForkAuth p params b \<in> set es \<longrightarrow> ap_uid params \<noteq> uid))"
proof -
  have quiet: ?thesis if "fx_harmless s s'" "locked T uid s'"
    using that harmless_fork by (fastforce simp: fx_harmless_def)
  from assms(1) show ?thesis
  proof (cases rule: step_cases)
    case calm
    then show ?thesis using quiet calmD throttle_kept_locked assms(5) by blast
  next
    case (began req_id user uid' intent gen service)
    then obtain s1 p params es where s1: "calm s s1" "throttled w uid' s1 = None" "ap_uid params = uid'"
      "sv_throttle s' = sv_throttle s1" "sv_fx s' = sv_fx s1 @ [Fx_ForkAuth p params (startable_intent intent)]"
      by (elim beganE) (auto simp: enter_conv_def Let_def fx_def)
    have l1: "locked T uid s1" using s1(1) throttle_kept_locked assms(5) calmD(5) by blast
    then have "uid' \<noteq> uid" using locked_throttled [OF l1 assms(2)] s1(2) by auto
    moreover obtain es1 where "sv_fx s1 = sv_fx s @ es1" "list_all harmless es1"
      using calmD(6) [OF s1(1)] by (auto simp: fx_harmless_def)
    moreover have "locked T uid s'" using l1 s1(4) by (simp add: locked_def)
    ultimately show ?thesis using s1(3,5) harmless_fork by fastforce
  next
    case (passed req_id code msg conv)
    then have "ac_uid conv \<noteq> uid" using assms(4) by (auto simp: succeeds_def)
    then have "locked T uid (s\<lparr>sv_throttle := btm_remove (ac_uid conv) (sv_throttle s)\<rparr>)"
      using assms(5) by (simp add: locked_def)
    with passed(4) throttle_kept_locked show ?thesis by (intro quiet) (auto simp: passed_def)
  next
    case (started req_id tid session gen path hints)
    then obtain pk r where "calm (send_start w tid pk session gen path hints r s) s'" by (elim startedE)
    then have "throttle_kept (send_start w tid pk session gen path hints r s) s'" "fx_harmless (send_start w tid pk session gen path hints r s) s'"
      by (auto dest: calmD)
    moreover have "locked T uid (send_start w tid pk session gen path hints r s)" using assms(5) by (simp add: locked_def send_start_def fx_def)
    ultimately have "locked T uid s'" using throttle_kept_locked by blast
    moreover obtain es where "sv_fx s' = sv_fx s @ Fx_SendChild (pk_sock pk) (APC_StartSession \<lparr>sp_session = session,
        sp_generation = gen, sp_host_socket = path, sp_output_hints = hints\<rparr>) r # es" "list_all harmless es"
      using \<open>fx_harmless _ s'\<close> by (auto simp: fx_harmless_def send_start_def fx_def)
    ultimately show ?thesis using harmless_fork by fastforce
  next
    case (timers now)
    then have "now < T" using assms(3) by blast
    then have "locked T uid (timers_prune now s)"
      using assms(5) map_of_filter_kept [of "sv_throttle s" uid _ "\<lambda>(_, t). now < th_next_allowed t + from_secs 300"]
      by (fastforce simp: locked_def timers_prune_def)
    then have "locked T uid s'" using throttle_kept_locked calmD(5) [OF timers(2)] by blast
    moreover have "fx_harmless s s'" using calmD(6) [OF timers(2)] by (simp add: fx_harmless_def timers_prune_def)
    ultimately show ?thesis by (intro quiet)
  qed
qed

lemma backoff_schedule:
  assumes "free < n"
  shows "backoff free n = from_secs (min (2 ^ unat (n - free)) 30)"
proof -
  have "min (2 ^ min k 5) 30 = min (2 ^ k) (30 :: nat)" for k :: nat
  proof (cases "k < 5")
    case False
    then have "(2 :: nat) ^ 5 \<le> 2 ^ k" by (intro power_increasing) simp_all
    with False show ?thesis by simp
  qed simp
  with assms show ?thesis by (simp add: backoff_def)
qed


definition demo_guessed :: server where
  "demo_guessed = demo_turn1\<lparr>sv_throttle := [(1000, \<lparr>th_failures = 3, th_next_allowed = 0\<rparr>)]\<rparr>"

definition demo_retry :: server where
  "demo_retry = the (helper_step (demo_world (\<lambda>_. Io_Ok True) 1999999999) (HI_Request (login_request 5))
     (note_failure run_world 1000 None demo_guessed))"


section \<open>A conversation can outlive its connection\<close>

definition failing_world :: world where
  "failing_world = demo_world (\<lambda>_. Io_Err ''broken pipe'') 0"

definition demo_leak :: server where
  "demo_leak = the (run_turn failing_world (quiet_poll\<lparr>po_requests := Some [login_request 2]\<rparr>) demo_turn2)"

text \<open>
  \<^verbatim>\<open>drop_connection\<close> is meant to end everything the peer started except desktop sessions, but a
  conversation can outlive its connection: when a login supersedes another one and the connection
  turns out to be broken while the end of the first is being reported, \<^verbatim>\<open>auth_start\<close> goes on and
  starts the second with nobody connected.
\<close>

theorem superseding_outlives_connection:
  "reachable_by (helper_init 0) (helper_turn 0) demo_leak \<and> sv_conn demo_leak = None
     \<and> map ac_req_id (sv_auths demo_leak) = [2]"
proof -
  have "run_turn failing_world (quiet_poll\<lparr>po_requests := Some [login_request 2]\<rparr>) demo_turn2 \<noteq> None" by code_simp
  then have "helper_turn 0 demo_turn2 (failing_world, quiet_poll\<lparr>po_requests := Some [login_request 2]\<rparr>) demo_leak"
    by (auto simp: helper_turn_def demo_leak_def failing_world_def demo_world_def)
  moreover have "sv_conn demo_leak = None" "map ac_req_id (sv_auths demo_leak) = [2]" by code_simp+
  ultimately show ?thesis using demo_reachable by (blast intro: reachable_by.intros)
qed

end
