(* ===== verification/Helper_Auth.thy ===== *)
theory Helper_Auth
  imports Helper_Server
begin

text \<open>
  The authentication child (\<^verbatim>\<open>src/bsm/helper/src/auth.rs\<close>) and the PAM binding it uses
  (\<^verbatim>\<open>pam.rs\<close>).

  Linux-PAM is a parameter: a record of functions on an abstract handle. A call that may talk to
  the user is a tree of conversations that ends in a return code, so every library whose calls
  return, however they branch on the answers, is one of the instances. The kernel's answers are
  the record \<^verbatim>\<open>child_world\<close>, again indexed by the number of effects so far, and the turns of the
  socket are a list: each is one wait with the receive that follows it. A process whose list has
  run out is still waiting. Strings are byte strings; the lossy conversion of the texts PAM
  supplies is the identity on them, and the null pointers libpam never passes have no counterpart.
\<close>

section \<open>The PAM library\<close>

definition PAM_SUCCESS :: i32 where "PAM_SUCCESS = 0"
definition PAM_PERM_DENIED :: i32 where "PAM_PERM_DENIED = 6"
definition PAM_USER_UNKNOWN :: i32 where "PAM_USER_UNKNOWN = 10"
definition PAM_CONV_ERR :: i32 where "PAM_CONV_ERR = 19"
definition PAM_ABORT :: i32 where "PAM_ABORT = 26"
definition PAM_ESTABLISH_CRED :: i32 where "PAM_ESTABLISH_CRED = 0x0002"
definition PAM_DELETE_CRED :: i32 where "PAM_DELETE_CRED = 0x0004"
definition PAM_SILENT :: i32 where "PAM_SILENT = 0x8000"
definition PAM_MAX_NUM_MSG :: nat where "PAM_MAX_NUM_MSG = 32"

lemmas pam_codes = PAM_SUCCESS_def PAM_PERM_DENIED_def PAM_USER_UNKNOWN_def PAM_CONV_ERR_def PAM_ABORT_def

record pam_message =
  pm_style :: i32
  pm_text :: "string option"

datatype 'h pam_call =
    Pam_Return i32 'h
  | Pam_Converse "pam_message list" "i32 \<Rightarrow> string option list \<Rightarrow> 'h pam_call"

record 'h pam_lib =
  pl_start :: "string \<Rightarrow> string \<Rightarrow> string option \<Rightarrow> i32 \<times> 'h option"
  pl_authenticate :: "'h \<Rightarrow> 'h pam_call"
  pl_acct_mgmt :: "'h \<Rightarrow> 'h pam_call"
  pl_setcred :: "i32 \<Rightarrow> 'h \<Rightarrow> 'h pam_call"
  pl_open_session :: "'h \<Rightarrow> 'h pam_call"
  pl_close_session :: "'h \<Rightarrow> 'h pam_call"
  pl_putenv :: "string \<Rightarrow> 'h \<Rightarrow> i32 \<times> 'h"
  pl_getenv :: "string \<Rightarrow> 'h \<Rightarrow> string option"
  pl_getenvlist :: "'h \<Rightarrow> string list"
  pl_get_user :: "'h \<Rightarrow> i32 \<times> string option"
  pl_strerror :: "'h option \<Rightarrow> i32 \<Rightarrow> string option"

datatype pam_fn =
    PF_Authenticate | PF_AcctMgmt | PF_Setcred i32 | PF_OpenSession | PF_CloseSession | PF_Putenv string

datatype interrupt = Int_Cancelled | Int_TimedOut

record pam_error =
  pe_code :: i32
  pe_message :: string

definition pam_error_code :: "pam_error \<Rightarrow> error_code" where
  "pam_error_code e = (if pe_code e = PAM_USER_UNKNOWN then E_InvalidAccount else E_PamFailure)"

definition pam_error_display :: "pam_error \<Rightarrow> string" where
  "pam_error_display e = pe_message e @ '' (pam '' @ show_int (pe_code e) @ '')''"

record 'h pam =
  pam_handle :: 'h
  pam_last :: i32

section \<open>The process\<close>

text \<open>What the process does that others can see, in its two lives: messages, returned PAM calls,
  the end of the PAM handle, and what the session supervisor starts, signals and removes.\<close>

datatype child_effect =
    CE_Send auth_child_event "bool io"
  | CE_Pam pam_fn i32
  | CE_PamEnd i32
  | CE_SendSup sup_event "bool io"
  | CE_Spawn passwd "string list" "(string, string) btmap" string "pid io"
  | CE_Kill pid signal
  | CE_KillGroup pid signal
  | CE_MoveSelf string
  | CE_CgroupKill string
  | CE_Listen string
  | CE_Unlink string

datatype child_turn =
    CT_Ready "auth_parent_cmd incoming"
  | CT_Spurious
  | CT_Timeout
  | CT_WaitError

record child =
  ch_turns :: "child_turn list"
  ch_slot :: "interrupt option"
  ch_phase :: bool
  ch_fx :: "child_effect list"

record child_world =
  cw_send :: "nat \<Rightarrow> bool io"
  cw_calloc :: "nat \<Rightarrow> bool"
  cw_strdup :: "nat \<Rightarrow> bool"
  cw_getpwnam :: "nat \<Rightarrow> string \<Rightarrow> passwd option io"

text \<open>A piece of the process returns, ends the process, or has not finished yet.\<close>

datatype ('a, 's) ran = Ran 'a 's | Exit i32 's | Waiting 's

fun and_then :: "('a, 's) ran \<Rightarrow> ('a \<Rightarrow> 's \<Rightarrow> ('b, 's) ran) \<Rightarrow> ('b, 's) ran" where
  "and_then (Ran a s) f = f a s"
| "and_then (Exit status s) f = Exit status s"
| "and_then (Waiting s) f = Waiting s"

fun ran_state :: "('a, 's) ran \<Rightarrow> 's" where
  "ran_state (Ran a s) = s"
| "ran_state (Exit status s) = s"
| "ran_state (Waiting s) = s"

definition child_fx :: "child_effect \<Rightarrow> child \<Rightarrow> child" where
  "child_fx e c = c\<lparr>ch_fx := ch_fx c @ [e]\<rparr>"

definition send_event :: "child_world \<Rightarrow> auth_child_event \<Rightarrow> child \<Rightarrow> bool io \<times> child" where
  "send_event w ev c = (let r = cw_send w (length (ch_fx c)) in (r, child_fx (CE_Send ev r) c))"

section \<open>The conversation\<close>

fun interrupt_report :: "interrupt \<Rightarrow> error_code \<times> string" where
  "interrupt_report Int_Cancelled = (E_Cancelled, ''authentication cancelled'')"
| "interrupt_report Int_TimedOut = (E_Timeout, ''authentication timed out'')"

definition relay_interrupt ::
  "child_world \<Rightarrow> bool \<Rightarrow> interrupt \<Rightarrow> child \<Rightarrow> (interrupt + string option, child) ran" where
  "relay_interrupt w exit_on_interrupt why c0 =
     (let c = c0\<lparr>ch_slot := Some why\<rparr> in
      if exit_on_interrupt then
        Exit 1 (snd (send_event w (ACE_Done False (Some (fst (interrupt_report why))) (snd (interrupt_report why))) c))
      else Ran (Inl why) c)"

fun await_answer ::
  "child_world \<Rightarrow> bool \<Rightarrow> child_turn list \<Rightarrow> child \<Rightarrow> (interrupt + string option, child) ran" where
  "await_answer w x [] c = Waiting (c\<lparr>ch_turns := []\<rparr>)"
| "await_answer w x (CT_Timeout # ts) c = relay_interrupt w x Int_TimedOut (c\<lparr>ch_turns := ts\<rparr>)"
| "await_answer w x (CT_WaitError # ts) c = relay_interrupt w x Int_Cancelled (c\<lparr>ch_turns := ts\<rparr>)"
| "await_answer w x (CT_Spurious # ts) c = await_answer w x ts c"
| "await_answer w x (CT_Ready (In_Msg (APC_Response answer)) # ts) c = Ran (Inr (Some answer)) (c\<lparr>ch_turns := ts\<rparr>)"
| "await_answer w x (CT_Ready _ # ts) c = relay_interrupt w x Int_Cancelled (c\<lparr>ch_turns := ts\<rparr>)"

definition relay_converse ::
  "child_world \<Rightarrow> bool \<Rightarrow> pam_prompt_kind \<Rightarrow> string \<Rightarrow> child \<Rightarrow> (interrupt + string option, child) ran" where
  "relay_converse w x kind text c =
     (if ch_phase c then
        (if is_question kind then Ran (Inl Int_Cancelled) c else Ran (Inr None) c)
      else case send_event w (ACE_Prompt kind text) c of
        (Io_Ok True, c) \<Rightarrow>
          if \<not> is_question kind then Ran (Inr None) c else await_answer w x (ch_turns c) c
      | (_, c) \<Rightarrow> relay_interrupt w x Int_Cancelled c)"

definition prompt_kind_of :: "i32 \<Rightarrow> pam_prompt_kind option" where
  "prompt_kind_of style =
     (if style = 1 then Some Pam_EchoOff else if style = 2 then Some Pam_EchoOn
      else if style = 3 then Some Pam_Error else if style = 4 then Some Pam_Info else None)"

text \<open>The loop of \<^verbatim>\<open>converse_all\<close>; on every failure the answers collected so far are wiped.\<close>

fun converse_each ::
  "child_world \<Rightarrow> bool \<Rightarrow> pam_message list \<Rightarrow> string option list \<Rightarrow> child \<Rightarrow> (i32 \<times> string option list, child) ran" where
  "converse_each w x [] out c = Ran (PAM_SUCCESS, out) c"
| "converse_each w x (m # ms) out c =
     (case prompt_kind_of (pm_style m) of
        None \<Rightarrow> Ran (PAM_CONV_ERR, []) c
      | Some kind \<Rightarrow>
          and_then (relay_converse w x kind (unwrap_or (pm_text m) []) c)
            (\<lambda>r c. case r of
                Inl _ \<Rightarrow> Ran (PAM_CONV_ERR, []) c
              | Inr None \<Rightarrow> converse_each w x ms (out @ [None]) c
              | Inr (Some answer) \<Rightarrow>
                  if CHR 0x00 \<in> set answer \<or> \<not> cw_strdup w (length (ch_fx c)) then Ran (PAM_CONV_ERR, []) c
                  else converse_each w x ms (out @ [Some answer]) c))"

definition converse_all ::
  "child_world \<Rightarrow> bool \<Rightarrow> pam_message list \<Rightarrow> child \<Rightarrow> (i32 \<times> string option list, child) ran" where
  "converse_all w x msgs c =
     (if msgs = [] \<or> length msgs > PAM_MAX_NUM_MSG \<or> \<not> cw_calloc w (length (ch_fx c)) then Ran (PAM_CONV_ERR, []) c
      else converse_each w x msgs [] c)"

primrec run_call :: "child_world \<Rightarrow> bool \<Rightarrow> 'h pam_call \<Rightarrow> child \<Rightarrow> (i32 \<times> 'h, child) ran" where
  "run_call w x (Pam_Return rc h) = Ran (rc, h)"
| "run_call w x (Pam_Converse msgs k) =
     (\<lambda>c. and_then (converse_all w x msgs c) (\<lambda>r. run_call w x (k (fst r) (snd r))))"

section \<open>The handle\<close>

definition pam_strerror :: "'h pam_lib \<Rightarrow> 'h option \<Rightarrow> i32 \<Rightarrow> string" where
  "pam_strerror L h rc = unwrap_or (pl_strerror L h rc) (''pam error '' @ show_int rc)"

definition pam_start :: "'h pam_lib \<Rightarrow> string \<Rightarrow> string \<Rightarrow> string option \<Rightarrow> pam_error + 'h pam" where
  "pam_start L service user confdir =
     (if CHR 0x00 \<in> set service \<or> CHR 0x00 \<in> set user then
        Inl \<lparr>pe_code = PAM_ABORT, pe_message = ''string contains NUL''\<rparr>
      else if is_some_and confdir (\<lambda>d. CHR 0x00 \<in> set d) then
        Inl \<lparr>pe_code = PAM_ABORT, pe_message = ''confdir contains NUL''\<rparr>
      else case pl_start L service user confdir of
        (rc, Some h) \<Rightarrow>
          if rc \<noteq> PAM_SUCCESS then Inl \<lparr>pe_code = rc, pe_message = pam_strerror L None rc\<rparr>
          else Inr \<lparr>pam_handle = h, pam_last = PAM_SUCCESS\<rparr>
      | (rc, None) \<Rightarrow> Inl \<lparr>pe_code = rc, pe_message = pam_strerror L None rc\<rparr>)"

definition pam_check :: "'h pam_lib \<Rightarrow> 'h \<Rightarrow> i32 \<Rightarrow> (pam_error + unit) \<times> 'h pam" where
  "pam_check L h rc =
     (if rc = PAM_SUCCESS then Inr () else Inl \<lparr>pe_code = rc, pe_message = pam_strerror L (Some h) rc\<rparr>,
      \<lparr>pam_handle = h, pam_last = rc\<rparr>)"

text \<open>\<^verbatim>\<open>authenticate\<close>, \<^verbatim>\<open>acct_mgmt\<close>, \<^verbatim>\<open>establish_credentials\<close>, \<^verbatim>\<open>delete_credentials\<close>, \<^verbatim>\<open>open_session\<close>
  and \<^verbatim>\<open>close_session\<close> run one call and keep its status.\<close>

definition pam_run ::
  "child_world \<Rightarrow> bool \<Rightarrow> 'h pam_lib \<Rightarrow> pam_fn \<Rightarrow> ('h \<Rightarrow> 'h pam_call) \<Rightarrow> 'h pam \<Rightarrow> child
     \<Rightarrow> ((pam_error + unit) \<times> 'h pam, child) ran" where
  "pam_run w x L f call p c =
     and_then (run_call w x (call (pam_handle p)) c)
       (\<lambda>(rc, h) c. Ran (pam_check L h rc) (child_fx (CE_Pam f rc) c))"

definition pam_authenticate ::
  "child_world \<Rightarrow> bool \<Rightarrow> 'h pam_lib \<Rightarrow> 'h pam \<Rightarrow> child \<Rightarrow> ((pam_error + unit) \<times> 'h pam, child) ran" where
  "pam_authenticate w x L = pam_run w x L PF_Authenticate (pl_authenticate L)"

definition pam_acct_mgmt ::
  "child_world \<Rightarrow> bool \<Rightarrow> 'h pam_lib \<Rightarrow> 'h pam \<Rightarrow> child \<Rightarrow> ((pam_error + unit) \<times> 'h pam, child) ran" where
  "pam_acct_mgmt w x L = pam_run w x L PF_AcctMgmt (pl_acct_mgmt L)"

definition pam_user :: "'h pam_lib \<Rightarrow> 'h pam \<Rightarrow> string option" where
  "pam_user L p = (case pl_get_user L (pam_handle p) of (rc, item) \<Rightarrow> if rc \<noteq> PAM_SUCCESS then None else item)"

definition pam_end :: "'h pam \<Rightarrow> child \<Rightarrow> child" where
  "pam_end p c = child_fx (CE_PamEnd (pam_last p)) c"

section \<open>One conversation\<close>

definition check_user :: "child_world \<Rightarrow> 'h pam_lib \<Rightarrow> 'h pam \<Rightarrow> u32 \<Rightarrow> child \<Rightarrow> string + unit" where
  "check_user w L p expected_uid c =
     (case pam_user L p of
        None \<Rightarrow> Inl ''PAM has no user name''
      | Some name \<Rightarrow>
          (case cw_getpwnam w (length (ch_fx c)) name of
             Io_Ok (Some pw) \<Rightarrow>
               if pw_uid pw = expected_uid then Inr () else Inl ''a PAM module changed the user to another account''
           | Io_Ok None \<Rightarrow> Inl ''a PAM module changed the user to another account''
           | Io_Err _ \<Rightarrow> Inl ''cannot resolve the user PAM ended with''))"

text \<open>The verdict of a conversation that failed, and the end of its handle.\<close>

definition conversation_failed ::
  "pam_error \<Rightarrow> 'h pam \<Rightarrow> child \<Rightarrow> (auth_child_event \<times> 'h pam option, child) ran" where
  "conversation_failed e p c =
     (let (code, message) = (case ch_slot c of
            Some why \<Rightarrow> interrupt_report why
          | None \<Rightarrow> (pam_error_code e, pe_message e))
      in Ran (ACE_Done False (Some code) message, None) (pam_end p c))"

definition run_conversation ::
  "child_world \<Rightarrow> 'h pam_lib \<Rightarrow> auth_params \<Rightarrow> child \<Rightarrow> (auth_child_event \<times> 'h pam option, child) ran" where
  "run_conversation w L params c0 =
     (let c = c0\<lparr>ch_slot := None, ch_phase := False\<rparr>; x = ap_exit_on_interrupt params in
      case pam_start L (ap_service params) (ap_user params) (ap_confdir params) of
        Inl e \<Rightarrow> Ran (ACE_Done False (Some E_PamFailure) (pe_message e), None) c
      | Inr p \<Rightarrow>
          and_then (pam_authenticate w x L p c) (\<lambda>(r, p) c.
            case r of
              Inl e \<Rightarrow> conversation_failed e p c
            | Inr _ \<Rightarrow> and_then (pam_acct_mgmt w x L p c) (\<lambda>(r, p) c.
                case r of
                  Inl e \<Rightarrow> conversation_failed e p c
                | Inr _ \<Rightarrow>
                    (case check_user w L p (ap_uid params) c of
                       Inl m \<Rightarrow> conversation_failed \<lparr>pe_code = PAM_PERM_DENIED, pe_message = m\<rparr> p c
                     | Inr _ \<Rightarrow> Ran (ACE_Done True None [], Some p) c))))"

text \<open>\<^verbatim>\<open>child_main\<close> up to the decision of the helper: the exit status, or the session to start with the
  handle to start it on.\<close>

datatype 'h parked_end = Parked_Exit i32 | Parked_Start start_params "'h pam"

fun wait_parked :: "'h pam \<Rightarrow> child_turn list \<Rightarrow> child \<Rightarrow> ('h parked_end, child) ran" where
  "wait_parked p [] c = Waiting (c\<lparr>ch_turns := []\<rparr>)"
| "wait_parked p (CT_Ready (In_Msg (APC_StartSession start)) # ts) c = Ran (Parked_Start start p) (c\<lparr>ch_turns := ts\<rparr>)"
| "wait_parked p (CT_Ready (In_Msg _) # ts) c = wait_parked p ts c"
| "wait_parked p (CT_Ready In_Bad # ts) c = wait_parked p ts c"
| "wait_parked p (CT_Ready In_Eof # ts) c = Ran (Parked_Exit 0) (pam_end p (c\<lparr>ch_turns := ts\<rparr>))"
| "wait_parked p (CT_Ready In_Error # ts) c = Ran (Parked_Exit 0) (pam_end p (c\<lparr>ch_turns := ts\<rparr>))"
| "wait_parked p (CT_Spurious # ts) c = wait_parked p ts c"
| "wait_parked p (CT_Timeout # ts) c = wait_parked p ts c"
| "wait_parked p (CT_WaitError # ts) c = Ran (Parked_Exit 0) (pam_end p (c\<lparr>ch_turns := ts\<rparr>))"

definition child_decides ::
  "child_world \<Rightarrow> 'h pam_lib \<Rightarrow> auth_params \<Rightarrow> bool \<Rightarrow> child \<Rightarrow> ('h parked_end, child) ran" where
  "child_decides w L params startable c =
     and_then (run_conversation w L params c) (\<lambda>(ev, auth) c.
       let c = snd (send_event w ev c) in
       case auth of
         None \<Rightarrow> Ran (Parked_Exit 1) c
       | Some p \<Rightarrow>
           if \<not> startable then Ran (Parked_Exit 0) (pam_end p c)
           else wait_parked p (ch_turns c) c)"

definition child_start :: "child_turn list \<Rightarrow> child" where
  "child_start turns = \<lparr>ch_turns = turns, ch_slot = None, ch_phase = False, ch_fx = []\<rparr>"

section \<open>What a call can do while it talks\<close>

fun is_prompt :: "child_effect \<Rightarrow> bool" where
  "is_prompt (CE_Send (ACE_Prompt kind text) r) = True"
| "is_prompt _ = False"

definition interrupt_event :: "interrupt \<Rightarrow> auth_child_event" where
  "interrupt_event why = ACE_Done False (Some (fst (interrupt_report why))) (snd (interrupt_report why))"

text \<open>A piece that returns has sent prompts only; it has not interrupted a process that ends on an
  interrupt, and then a waiting timeout is still to come. A piece that ends the process has reported
  the interrupt as its last act.\<close>

fun talks :: "bool \<Rightarrow> child \<Rightarrow> ('a, child) ran \<Rightarrow> bool" where
  "talks x c (Ran a c') \<longleftrightarrow>
     (\<exists>es. ch_fx c' = ch_fx c @ es \<and> list_all is_prompt es) \<and> ch_phase c' = ch_phase c \<and>
     set (ch_turns c') \<subseteq> set (ch_turns c) \<and>
     (x \<longrightarrow> ch_slot c' = ch_slot c \<and> (CT_Timeout \<in> set (ch_turns c) \<longrightarrow> CT_Timeout \<in> set (ch_turns c')))"
| "talks x c (Exit status c') \<longleftrightarrow>
     x \<and> status = 1 \<and> (\<exists>es why r. ch_fx c' = ch_fx c @ es @ [CE_Send (interrupt_event why) r] \<and> list_all is_prompt es)"
| "talks x c (Waiting c') \<longleftrightarrow>
     (\<exists>es. ch_fx c' = ch_fx c @ es \<and> list_all is_prompt es) \<and> (x \<longrightarrow> CT_Timeout \<notin> set (ch_turns c))"

lemma talks_refl [simp]: "talks x c (Ran a c)"
  by simp

lemma talks_trans:
  assumes "talks x c (Ran a c1)" "talks x c1 r"
  shows "talks x c r"
proof (cases r)
  case (Ran b c2)
  with assms show ?thesis by fastforce
next
  case (Exit status c2)
  from assms(1) obtain es where "ch_fx c1 = ch_fx c @ es" "list_all is_prompt es" by auto
  moreover from assms(2) Exit obtain es' why b where
    "ch_fx c2 = ch_fx c1 @ es' @ [CE_Send (interrupt_event why) b]" "list_all is_prompt es'" "x" "status = 1" by auto
  ultimately have "ch_fx c2 = ch_fx c @ (es @ es') @ [CE_Send (interrupt_event why) b]" "list_all is_prompt (es @ es')" by simp_all
  with Exit \<open>x\<close> \<open>status = 1\<close> show ?thesis unfolding Exit talks.simps by blast
next
  case (Waiting c2)
  with assms show ?thesis by fastforce
qed

lemma talks_and_then:
  assumes "talks x c r" "\<And>a c'. r = Ran a c' \<Longrightarrow> talks x c (Ran a c') \<Longrightarrow> talks x c' (f a c')"
  shows "talks x c (and_then r f)"
proof (cases r)
  case (Ran a c')
  with assms have "talks x c (Ran a c')" "talks x c' (f a c')" by auto
  then show ?thesis unfolding Ran and_then.simps by (rule talks_trans)
qed (use assms(1) in auto)

lemma talks_interrupt: "set ts \<subseteq> set (ch_turns c) \<Longrightarrow> talks x c (relay_interrupt w x why (c\<lparr>ch_turns := ts\<rparr>))"
proof (cases x)
  case True
  have "ch_fx c @ [CE_Send (interrupt_event why) r] = ch_fx c @ [] @ [CE_Send (interrupt_event why) r]" for r by simp
  with True show ?thesis
    unfolding relay_interrupt_def send_event_def child_fx_def Let_def interrupt_event_def [symmetric] by fastforce
qed (auto simp: relay_interrupt_def Let_def)

lemma talks_await: "talks x c (await_answer w x (ch_turns c) c)"
proof -
  have "CT_Timeout \<in> set ts \<longrightarrow> x \<longrightarrow> CT_Timeout \<in> set us \<Longrightarrow> ts = ch_turns c \<Longrightarrow> set us \<subseteq> set ts \<Longrightarrow>
      talks x c (await_answer w x us c)" for ts us
    by (induction w x us c rule: await_answer.induct) (auto simp: talks_interrupt)
  then show ?thesis by blast
qed

lemma talks_converse: "talks x c (relay_converse w x kind text c)"
proof (cases "ch_phase c")
  case False
  define r where "r = cw_send w (length (ch_fx c))"
  define c1 where "c1 = child_fx (CE_Send (ACE_Prompt kind text) r) c"
  have sent: "talks x c (Ran a c1)" for a :: "interrupt + string option" by (simp add: c1_def child_fx_def)
  have "talks x c1 (relay_interrupt w x Int_Cancelled c1)" using talks_interrupt [of "ch_turns c1" c1 x w] by simp
  then have failed: "talks x c (relay_interrupt w x Int_Cancelled c1)" by (rule talks_trans [OF sent])
  have waits: "talks x c (await_answer w x (ch_turns c1) c1)" by (rule talks_trans [OF sent talks_await])
  from False have "relay_converse w x kind text c =
      (if r = Io_Ok True then if is_question kind then await_answer w x (ch_turns c1) c1 else Ran (Inr None) c1
       else relay_interrupt w x Int_Cancelled c1)"
    by (auto simp: relay_converse_def send_event_def Let_def r_def c1_def split: io.splits bool.splits)
  with sent failed waits show ?thesis by presburger
qed (simp add: relay_converse_def)

lemma talks_each: "talks x c (converse_each w x ms out c)"
  by (induction w x ms out c rule: converse_each.induct)
    (auto split: option.splits sum.splits intro!: talks_and_then talks_converse)

lemma talks_all: "talks x c (converse_all w x msgs c)"
  by (simp add: converse_all_def talks_each)

lemma talks_call: "talks x c (run_call w x call c)"
proof (induction call arbitrary: c)
  case (Pam_Converse msgs k)
  have "talks x c' (run_call w x (k (fst r) (snd r)) c')" for r c'
    by (rule Pam_Converse.IH [OF rangeI rangeI])
  then show ?case unfolding run_call.simps by (intro talks_and_then talks_all)
qed simp

text \<open>In the session phase a call cannot talk to anybody.\<close>

lemma session_converse: "ch_phase c \<Longrightarrow> \<exists>r. relay_converse w x kind text c = Ran r c"
  by (simp add: relay_converse_def)

lemma session_each: "ch_phase c \<Longrightarrow> \<exists>r. converse_each w x ms out c = Ran r c"
  by (induction w x ms out c rule: converse_each.induct)
    (auto simp: relay_converse_def split: option.splits sum.splits)

lemma session_call: "ch_phase c \<Longrightarrow> \<exists>r. run_call w x call c = Ran r c"
proof (induction call arbitrary: c)
  case (Pam_Converse msgs k)
  obtain r where r: "converse_all w x msgs c = Ran r c"
    using session_each [OF Pam_Converse.prems, of w x msgs "[]"] unfolding converse_all_def by metis
  have "\<exists>q. run_call w x (k (fst r) (snd r)) c = Ran q c" by (rule Pam_Converse.IH [OF rangeI rangeI Pam_Converse.prems])
  with r show ?case by simp
qed simp

section \<open>The outcome of a conversation\<close>

fun quiet :: "child_effect \<Rightarrow> bool" where
  "quiet (CE_Send (ACE_Prompt kind text) r) = True"
| "quiet (CE_Pam f rc) \<longleftrightarrow> rc = PAM_SUCCESS"
| "quiet _ = False"

fun plain :: "child_effect \<Rightarrow> bool" where
  "plain (CE_Send (ACE_Prompt kind text) r) = True"
| "plain (CE_Pam f rc) = True"
| "plain (CE_PamEnd rc) = True"
| "plain _ = False"

fun is_pam_end :: "child_effect \<Rightarrow> bool" where
  "is_pam_end (CE_PamEnd rc) = True"
| "is_pam_end _ = False"

lemma prompt_quiet: "is_prompt e \<Longrightarrow> quiet e"
  by (cases e rule: is_prompt.cases) auto

lemma quiet_plain: "quiet e \<Longrightarrow> plain e"
  by (cases e rule: quiet.cases) auto

text \<open>What PAM has to answer for the child to report success: the stack authenticates the user and
  accepts the account, and the user it ends with is the account the helper resolved.\<close>

definition authenticated :: "child_world \<Rightarrow> 'h pam_lib \<Rightarrow> auth_params \<Rightarrow> child \<Rightarrow> 'h pam \<Rightarrow> child \<Rightarrow> bool" where
  "authenticated w L params c p c' \<longleftrightarrow>
     (\<exists>h0 h1 h2 c1 c2 name pw.
        CHR 0x00 \<notin> set (ap_service params) \<and> CHR 0x00 \<notin> set (ap_user params)
        \<and> \<not> is_some_and (ap_confdir params) (\<lambda>d. CHR 0x00 \<in> set d)
        \<and> pl_start L (ap_service params) (ap_user params) (ap_confdir params) = (PAM_SUCCESS, Some h0)
        \<and> run_call w (ap_exit_on_interrupt params) (pl_authenticate L h0) c = Ran (PAM_SUCCESS, h1) c1
        \<and> run_call w (ap_exit_on_interrupt params) (pl_acct_mgmt L h1) (child_fx (CE_Pam PF_Authenticate PAM_SUCCESS) c1)
            = Ran (PAM_SUCCESS, h2) c2
        \<and> pl_get_user L h2 = (PAM_SUCCESS, Some name)
        \<and> cw_getpwnam w (length (ch_fx c')) name = Io_Ok (Some pw) \<and> pw_uid pw = ap_uid params
        \<and> p = \<lparr>pam_handle = h2, pam_last = PAM_SUCCESS\<rparr> \<and> c' = child_fx (CE_Pam PF_AcctMgmt PAM_SUCCESS) c2)"

fun concluded :: "child_world \<Rightarrow> 'h pam_lib \<Rightarrow> auth_params \<Rightarrow> child \<Rightarrow> (auth_child_event \<times> 'h pam option, child) ran \<Rightarrow> bool" where
  "concluded w L params c (Ran (ev, auth) c') \<longleftrightarrow>
     (\<exists>es. ch_fx c' = ch_fx c @ es \<and> list_all plain es) \<and>
     (case auth of
        Some p \<Rightarrow> authenticated w L params c p c' \<and> ev = ACE_Done True None []
      | None \<Rightarrow> \<exists>code msg. ev = ACE_Done False (Some code) msg
          \<and> (ap_exit_on_interrupt params \<longrightarrow> code = E_PamFailure \<or> code = E_InvalidAccount))"
| "concluded w L params c (Exit status c') \<longleftrightarrow> ap_exit_on_interrupt params \<and> status = 1 \<and>
     (\<exists>es why r. ch_fx c' = ch_fx c @ es @ [CE_Send (interrupt_event why) r] \<and> list_all quiet es)"
| "concluded w L params c (Waiting c') \<longleftrightarrow> (\<exists>es. ch_fx c' = ch_fx c @ es \<and> list_all quiet es) \<and>
     (ap_exit_on_interrupt params \<longrightarrow> CT_Timeout \<notin> set (ch_turns c))"

lemma failed_concluded:
  assumes "ch_fx c1 = ch_fx c @ es" "list_all quiet es" "ap_exit_on_interrupt params \<Longrightarrow> ch_slot c1 = None"
  shows "concluded w L params c (conversation_failed e p (child_fx (CE_Pam f rc) c1))"
  using assms quiet_plain
  by (auto simp: conversation_failed_def pam_end_def child_fx_def pam_error_code_def list_all_iff split: option.splits prod.splits)

text \<open>A call of a conversation that has been quiet so far: it ends the conversation or the
  conversation goes on, still quiet.\<close>

lemma call_concluded:
  assumes fx: "ch_fx c1 = ch_fx c @ es" "list_all quiet es"
    and slot: "ap_exit_on_interrupt params \<Longrightarrow> ch_slot c1 = None"
    and turns: "ap_exit_on_interrupt params \<Longrightarrow> CT_Timeout \<in> set (ch_turns c) \<Longrightarrow> CT_Timeout \<in> set (ch_turns c1)"
    and cont: "\<And>rc h c2 es'. run_call w (ap_exit_on_interrupt params) call c1 = Ran (rc, h) c2 \<Longrightarrow>
        ch_fx c2 = ch_fx c @ es' \<Longrightarrow> list_all quiet es' \<Longrightarrow> (ap_exit_on_interrupt params \<Longrightarrow> ch_slot c2 = None) \<Longrightarrow>
        (ap_exit_on_interrupt params \<Longrightarrow> CT_Timeout \<in> set (ch_turns c) \<Longrightarrow> CT_Timeout \<in> set (ch_turns c2)) \<Longrightarrow>
        concluded w L params c (f (rc, h) c2)"
  shows "concluded w L params c (and_then (run_call w (ap_exit_on_interrupt params) call c1) f)"
proof -
  have q: "list_all is_prompt es' \<Longrightarrow> list_all quiet (es @ es')" for es'
    using fx(2) prompt_quiet by (auto simp: list_all_iff)
  show ?thesis
  proof (cases "run_call w (ap_exit_on_interrupt params) call c1")
    case (Ran a c2)
    with talks_call [of "ap_exit_on_interrupt params" c1 w call] obtain es' where "ch_fx c2 = ch_fx c1 @ es'" "list_all is_prompt es'"
      and rest: "ap_exit_on_interrupt params \<Longrightarrow> ch_slot c2 = ch_slot c1 \<and> (CT_Timeout \<in> set (ch_turns c1) \<longrightarrow> CT_Timeout \<in> set (ch_turns c2))"
      by auto
    then have "ch_fx c2 = ch_fx c @ (es @ es')" "list_all quiet (es @ es')" using fx q by simp_all
    moreover obtain rc h where "a = (rc, h)" by fastforce
    ultimately show ?thesis using Ran cont [of rc h c2 "es @ es'"] slot turns rest by simp
  next
    case (Exit status c2)
    with talks_call [of "ap_exit_on_interrupt params" c1 w call] obtain es' why r where e: "ap_exit_on_interrupt params" "status = 1"
      "ch_fx c2 = ch_fx c1 @ es' @ [CE_Send (interrupt_event why) r]" "list_all is_prompt es'" by auto
    then have "ch_fx c2 = ch_fx c @ (es @ es') @ [CE_Send (interrupt_event why) r]" "list_all quiet (es @ es')" using fx q by simp_all
    with e(1,2) show ?thesis unfolding Exit and_then.simps concluded.simps by blast
  next
    case (Waiting c2)
    with talks_call [of "ap_exit_on_interrupt params" c1 w call] obtain es' where e: "ch_fx c2 = ch_fx c1 @ es'" "list_all is_prompt es'"
      "ap_exit_on_interrupt params \<longrightarrow> CT_Timeout \<notin> set (ch_turns c1)" by auto
    then have "ch_fx c2 = ch_fx c @ (es @ es')" "list_all quiet (es @ es')" using fx q by simp_all
    with e(3) turns show ?thesis unfolding Waiting and_then.simps concluded.simps by blast
  qed
qed

lemma and_then_assoc: "and_then (and_then r f) g = and_then r (\<lambda>a s. and_then (f a s) g)"
  by (cases r) auto

lemma check_user_ok:
  "check_user w L p uid c = Inr u \<longleftrightarrow>
     (\<exists>name pw. pl_get_user L (pam_handle p) = (PAM_SUCCESS, Some name)
        \<and> cw_getpwnam w (length (ch_fx c)) name = Io_Ok (Some pw) \<and> pw_uid pw = uid)"
  by (cases "pl_get_user L (pam_handle p)")
    (auto simp: check_user_def pam_user_def split: option.splits io.splits)

lemma conversation_concluded:
  assumes "ch_slot c = None" "\<not> ch_phase c"
  shows "concluded w L params c (run_conversation w L params c)"
proof -
  have c: "c\<lparr>ch_slot := None, ch_phase := False\<rparr> = c" using assms by (cases c) simp
  show ?thesis
  proof (cases "pam_start L (ap_service params) (ap_user params) (ap_confdir params)")
    case (Inl e)
    then show ?thesis by (simp add: run_conversation_def c)
  next
    case (Inr p)
    then obtain h0 where h0: "p = \<lparr>pam_handle = h0, pam_last = PAM_SUCCESS\<rparr>"
      "CHR 0x00 \<notin> set (ap_service params)" "CHR 0x00 \<notin> set (ap_user params)" "\<not> is_some_and (ap_confdir params) (\<lambda>d. CHR 0x00 \<in> set d)"
      "pl_start L (ap_service params) (ap_user params) (ap_confdir params) = (PAM_SUCCESS, Some h0)"
      by (auto simp: pam_start_def split: if_splits prod.splits option.splits)
    show ?thesis
      unfolding run_conversation_def Let_def c Inr sum.case pam_authenticate_def pam_acct_mgmt_def pam_run_def and_then_assoc
    proof (rule call_concluded [where es = "[]"], goal_cases)
      case (5 rc h1 c1 es)
      show ?case
      proof (cases "rc = PAM_SUCCESS")
        case False
        with 5 show ?thesis by (auto simp: pam_check_def intro!: failed_concluded)
      next
        case auth: True
        show ?thesis
          unfolding auth prod.case and_then.simps pam_check_def
        proof (simp, rule call_concluded [where es = "es @ [CE_Pam PF_Authenticate PAM_SUCCESS]"], goal_cases)
          case (5 rc' h2 c2 es')
          show ?case
          proof (cases "rc' = PAM_SUCCESS")
            case False
            with 5 show ?thesis by (auto simp: pam_check_def intro!: failed_concluded)
          next
            case acct: True
            define c3 where "c3 = child_fx (CE_Pam PF_AcctMgmt PAM_SUCCESS) c2"
            define q where "q = \<lparr>pam_handle = h2, pam_last = PAM_SUCCESS\<rparr>"
            have "authenticated w L params c q c3" if "check_user w L q (ap_uid params) c3 = Inr ()"
              using that h0 auth acct \<open>run_call w _ (pl_authenticate L _) c = _\<close> 5(1)
              unfolding authenticated_def check_user_ok q_def c3_def by simp
            moreover have "concluded w L params c (conversation_failed e q c3)" for e
              unfolding c3_def using 5 by (intro failed_concluded)
            moreover have "\<exists>es. ch_fx c3 = ch_fx c @ es \<and> list_all plain es"
              using 5(2,3) quiet_plain by (auto simp: c3_def child_fx_def list_all_iff)
            ultimately show ?thesis
              using acct by (cases "check_user w L q (ap_uid params) c3") (auto simp: pam_check_def q_def c3_def)
          qed
        qed (use 5 auth in \<open>auto simp: child_fx_def\<close>)
      qed
    qed (use assms in auto)
  qed
qed

lemma accepted_conversation:
  assumes "authenticated w L params c p c'" "ch_slot c = None" "\<not> ch_phase c"
  shows "run_conversation w L params c = Ran (ACE_Done True None [], Some p) c'"
proof -
  have c: "c\<lparr>ch_slot := None, ch_phase := False\<rparr> = c" using assms(2,3) by (cases c) simp
  from assms(1) have "check_user w L p (ap_uid params) c' = Inr ()" by (auto simp: authenticated_def check_user_ok)
  with assms(1) show ?thesis
    by (auto simp: authenticated_def run_conversation_def c Let_def pam_start_def pam_authenticate_def pam_acct_mgmt_def
        pam_run_def pam_check_def)
qed

lemma parked_fx: "\<exists>es. ch_fx (ran_state (wait_parked p ts c)) = ch_fx c @ es \<and> list_all is_pam_end es"
  by (induction p ts c rule: wait_parked.induct) (auto simp: pam_end_def child_fx_def)

text \<open>The effects of a child: quiet ones, its verdict, and the end of its handle.\<close>

lemma child_start_fields [simp]:
  "ch_fx (child_start turns) = []" "ch_slot (child_start turns) = None" "\<not> ch_phase (child_start turns)"
  "ch_turns (child_start turns) = turns"
  by (simp_all add: child_start_def)

lemma child_cases:
  obtains (waiting) c' where "child_decides w L params startable (child_start turns) = Waiting c'"
      "list_all quiet (ch_fx c')" "ap_exit_on_interrupt params \<Longrightarrow> CT_Timeout \<notin> set turns"
  | (interrupted) c' es why r where "child_decides w L params startable (child_start turns) = Exit 1 c'"
      "ch_fx c' = es @ [CE_Send (interrupt_event why) r]" "list_all quiet es"
  | (failed) c' es code msg r where "child_decides w L params startable (child_start turns) = Ran (Parked_Exit 1) c'"
      "ch_fx c' = es @ [CE_Send (ACE_Done False (Some code) msg) r]" "list_all plain es"
      "ap_exit_on_interrupt params \<Longrightarrow> code = E_PamFailure \<or> code = E_InvalidAccount"
  | (passed) p c' es r es' where "authenticated w L params (child_start turns) p c'"
      "ch_fx (ran_state (child_decides w L params startable (child_start turns))) = es @ CE_Send (ACE_Done True None []) r # es'"
      "list_all plain es" "list_all is_pam_end es'"
      "startable \<or> (\<exists>c''. child_decides w L params startable (child_start turns) = Ran (Parked_Exit 0) c'')"
proof -
  let ?r = "run_conversation w L params (child_start turns)"
  have conc: "concluded w L params (child_start turns) ?r" by (rule conversation_concluded) simp_all
  show thesis
  proof (cases ?r)
    case (Waiting c')
    with conc show thesis by (intro waiting [of c']) (auto simp: child_decides_def)
  next
    case (Exit status c')
    with conc obtain es why r where "status = 1" "ch_fx c' = es @ [CE_Send (interrupt_event why) r]" "list_all quiet es" by auto
    with Exit show thesis by (intro interrupted [of c' es why r]) (auto simp: child_decides_def)
  next
    case (Ran a c')
    obtain ev auth where a: "a = (ev, auth)" by fastforce
    from conc Ran a have plain: "list_all plain (ch_fx c')" by auto
    define r where "r = cw_send w (length (ch_fx c'))"
    define c1 where "c1 = child_fx (CE_Send ev r) c'"
    have fx1: "ch_fx c1 = ch_fx c' @ [CE_Send ev r]" by (simp add: c1_def child_fx_def)
    have run: "child_decides w L params startable (child_start turns) = (case auth of None \<Rightarrow> Ran (Parked_Exit 1) c1
        | Some p \<Rightarrow> if \<not> startable then Ran (Parked_Exit 0) (pam_end p c1) else wait_parked p (ch_turns c1) c1)"
      by (simp add: child_decides_def Ran a send_event_def Let_def c1_def r_def split: option.splits)
    show thesis
    proof (cases auth)
      case None
      with conc Ran a obtain code msg where "ev = ACE_Done False (Some code) msg"
        "ap_exit_on_interrupt params \<Longrightarrow> code = E_PamFailure \<or> code = E_InvalidAccount" by auto
      with run None plain fx1 show thesis by (intro failed [of c1 "ch_fx c'" code msg r]) simp_all
    next
      case (Some p)
      with conc Ran a have ok: "authenticated w L params (child_start turns) p c'" "ev = ACE_Done True None []" by auto
      obtain es' where "ch_fx (ran_state (child_decides w L params startable (child_start turns))) = ch_fx c1 @ es'"
        "list_all is_pam_end es'"
        using parked_fx [of p "ch_turns c1" c1] run Some by (cases startable) (auto simp: pam_end_def child_fx_def)
      with ok plain fx1 run Some show thesis by (intro passed [of p c' "ch_fx c'" r es']) auto
    qed
  qed
qed

definition sent_events :: "child_effect list \<Rightarrow> auth_child_event list" where
  "sent_events es = List.map_filter (\<lambda>e. case e of CE_Send ev r \<Rightarrow> Some ev | _ \<Rightarrow> None) es"

lemma sent_events_simps [simp]:
  "sent_events [] = []" "sent_events (a @ b) = sent_events a @ sent_events b"
  "sent_events (CE_Send ev r # es) = ev # sent_events es"
  by (simp_all add: sent_events_def List.map_filter_def)

lemma sent_prompts:
  "list_all plain es \<Longrightarrow> list_all (\<lambda>ev. \<exists>kind text. ev = ACE_Prompt kind text) (sent_events es)"
proof (induction es)
  case (Cons e es)
  then show ?case by (cases e rule: plain.cases) (auto simp: sent_events_def List.map_filter_def)
qed simp

lemma sent_none: "list_all is_pam_end es \<Longrightarrow> sent_events es = []"
proof (induction es)
  case (Cons e es)
  then show ?case by (cases e) (auto simp: sent_events_def List.map_filter_def)
qed simp

section \<open>A concrete child\<close>

text \<open>A PAM stack that asks for one password, as an instance of the library.\<close>

definition demo_pam :: "string pam_lib" where
  "demo_pam =
     \<lparr>pl_start = \<lambda>service user confdir. (PAM_SUCCESS, Some user),
      pl_authenticate = \<lambda>h. Pam_Converse [\<lparr>pm_style = 1, pm_text = Some ''Password: ''\<rparr>]
        (\<lambda>rc answers. if rc = PAM_SUCCESS \<and> answers = [Some ''secret''] then Pam_Return PAM_SUCCESS h else Pam_Return 7 h),
      pl_acct_mgmt = \<lambda>h. Pam_Return PAM_SUCCESS h,
      pl_setcred = \<lambda>flags h. Pam_Return PAM_SUCCESS h,
      pl_open_session = \<lambda>h. Pam_Return PAM_SUCCESS h,
      pl_close_session = \<lambda>h. Pam_Return PAM_SUCCESS h,
      pl_putenv = \<lambda>v h. (PAM_SUCCESS, h), pl_getenv = \<lambda>v h. None, pl_getenvlist = \<lambda>h. [],
      pl_get_user = \<lambda>h. (PAM_SUCCESS, Some h), pl_strerror = \<lambda>h rc. None\<rparr>"

definition demo_account :: passwd where
  "demo_account = \<lparr>pw_name = ''ann'', pw_uid = 1000, pw_gid = 1000, pw_home = ''/home/ann'', pw_shell = ''/bin/sh''\<rparr>"

definition demo_child_world :: child_world where
  "demo_child_world =
     \<lparr>cw_send = \<lambda>n. Io_Ok True, cw_calloc = \<lambda>n. True, cw_strdup = \<lambda>n. True,
      cw_getpwnam = \<lambda>n name. Io_Ok (if name = ''ann'' then Some demo_account else None)\<rparr>"

definition demo_params :: auth_params where
  "demo_params = \<lparr>ap_service = ''bsm-login'', ap_user = ''ann'', ap_uid = 1000, ap_exit_on_interrupt = True,
     ap_confdir = None, ap_prompt_timeout = from_secs 60\<rparr>"

section \<open>The verdict of the child\<close>

lemma verdict_iff:
  "(\<exists>code msg r. CE_Send (ACE_Done True code msg) r
        \<in> set (ch_fx (ran_state (child_decides w L params startable (child_start turns)))))
     \<longleftrightarrow> (\<exists>p c'. authenticated w L params (child_start turns) p c')" (is "?sent \<longleftrightarrow> ?auth")
proof
  assume ?auth
  then obtain p c' where run: "run_conversation w L params (child_start turns) = Ran (ACE_Done True None [], Some p) c'"
    using accepted_conversation by (metis child_start_fields(2,3))
  define c1 where "c1 = snd (send_event w (ACE_Done True None []) c')"
  have sent: "\<exists>r. CE_Send (ACE_Done True None []) r \<in> set (ch_fx c1)"
    by (auto simp: c1_def send_event_def Let_def child_fx_def)
  have "child_decides w L params startable (child_start turns) =
      (if startable then wait_parked p (ch_turns c1) c1 else Ran (Parked_Exit 0) (pam_end p c1))"
    by (simp add: child_decides_def run c1_def Let_def)
  moreover have "set (ch_fx c1) \<subseteq> set (ch_fx (ran_state (wait_parked p (ch_turns c1) c1)))" "set (ch_fx c1) \<subseteq> set (ch_fx (pam_end p c1))"
    using parked_fx [of p "ch_turns c1" c1] by (auto simp: pam_end_def child_fx_def)
  ultimately show ?sent using sent by (cases startable) (simp, blast)+
next
  assume ?sent
  then show ?auth
    by (cases rule: child_cases [of w L params startable turns]) (auto simp: list_all_iff interrupt_event_def)
qed

text \<open>
  C12. The authentication child reports success to the helper in exactly the runs in which PAM
  authenticated the user, accepted the account, and ended with a user name that still resolves to
  the uid the helper asked about.
\<close>

theorem child_verdict_is_pams:
  "(\<exists>code msg r. CE_Send (ACE_Done True code msg) r
        \<in> set (ch_fx (ran_state (child_decides w L params startable (child_start turns)))))
     \<longleftrightarrow> (\<exists>p c'. authenticated w L params (child_start turns) p c')"
  by (rule verdict_iff)

text \<open>
  C16. A child that is cancelled or times out ends inside the PAM call, before PAM has seen a
  failure: every PAM call that has returned was a success, the handle is not ended, and the report
  is the last thing the process does. So nothing records a failed login that nobody attempted.
\<close>

theorem interrupt_leaves_no_record:
  assumes "ap_exit_on_interrupt params" "code = E_Cancelled \<or> code = E_Timeout"
    and "CE_Send (ACE_Done ok (Some code) msg) r
        \<in> set (ch_fx (ran_state (child_decides w L params startable (child_start turns))))"
  shows "\<exists>c'. child_decides w L params startable (child_start turns) = Exit 1 c' \<and> \<not> ok
      \<and> last (ch_fx c') = CE_Send (ACE_Done ok (Some code) msg) r
      \<and> (\<forall>f rc. CE_Pam f rc \<in> set (ch_fx c') \<longrightarrow> rc = PAM_SUCCESS) \<and> (\<forall>rc. CE_PamEnd rc \<notin> set (ch_fx c'))"
proof (cases rule: child_cases [of w L params startable turns])
  case (interrupted c' es why r')
  then have "CE_Send (ACE_Done ok (Some code) msg) r = CE_Send (interrupt_event why) r'"
    using assms(3) by (auto simp: list_all_iff dest: quiet_plain)
  with interrupted show ?thesis
    by (intro exI [of _ c']) (auto simp: list_all_iff interrupt_event_def)
qed (use assms in \<open>auto simp: list_all_iff\<close>)

theorem interrupt_leaves_no_record_witness:
  "\<exists>c'. child_decides demo_child_world demo_pam demo_params True (child_start [CT_Spurious, CT_Timeout]) = Exit 1 c'
      \<and> last (ch_fx c') = CE_Send (ACE_Done False (Some E_Timeout) ''authentication timed out'') (Io_Ok True)"
proof -
  have "CE_Send (ACE_Done False (Some E_Timeout) ''authentication timed out'') (Io_Ok True)
      \<in> set (ch_fx (ran_state (child_decides demo_child_world demo_pam demo_params True (child_start [CT_Spurious, CT_Timeout]))))"
    by code_simp
  from interrupt_leaves_no_record [OF _ _ this] show ?thesis by (auto simp: demo_params_def)
qed

text \<open>
  C17. No conversation is left without an answer: once a prompt may time out, the child sends
  prompts and then exactly one verdict, and it ends, unless the verdict was a success that a
  session may still be opened on.
\<close>

theorem child_always_answers:
  assumes "ap_exit_on_interrupt params" "CT_Timeout \<in> set turns"
  shows "\<exists>prompts ok code msg. sent_events (ch_fx (ran_state (child_decides w L params startable (child_start turns))))
        = prompts @ [ACE_Done ok code msg]
      \<and> list_all (\<lambda>ev. \<exists>kind text. ev = ACE_Prompt kind text) prompts
      \<and> (ok \<and> startable \<or> (\<exists>status c'. child_decides w L params startable (child_start turns)
            \<in> {Exit status c', Ran (Parked_Exit status) c'} \<and> (ok \<longleftrightarrow> status = 0)))"
proof (cases rule: child_cases [of w L params startable turns])
  case (interrupted c' es why r)
  moreover have "list_all plain es" using interrupted(3) quiet_plain by (auto simp: list_all_iff)
  ultimately show ?thesis
    by (intro exI [of _ "sent_events es"] exI [of _ False]) (auto simp: sent_prompts interrupt_event_def)
next
  case (failed c' es code msg r)
  then show ?thesis
    by (intro exI [of _ "sent_events es"] exI [of _ False]) (auto simp: sent_prompts)
next
  case (passed p c' es r es')
  then show ?thesis
    by (intro exI [of _ "sent_events es"] exI [of _ True]) (auto simp: sent_prompts sent_none)
qed (use assms in auto)

theorem child_always_answers_witness:
  "\<exists>prompts ok code msg. sent_events (ch_fx (ran_state (child_decides demo_child_world demo_pam demo_params False
        (child_start [CT_Ready (In_Msg (APC_Response ''guess'')), CT_Timeout])))) = prompts @ [ACE_Done ok code msg]"
proof -
  have "ap_exit_on_interrupt demo_params" by (simp add: demo_params_def)
  from child_always_answers [OF this, of "[CT_Ready (In_Msg (APC_Response ''guess'')), CT_Timeout]" demo_child_world demo_pam False]
  show ?thesis by auto
qed

end
