(* ===== verification/Helper_Supervisor.thy ===== *)
theory Helper_Supervisor
  imports Helper_Auth
begin

text \<open>
  The session supervisor (\<^verbatim>\<open>src/bsm/helper/src/session.rs\<close>): the second life of an authentication
  child whose ticket was redeemed. It opens the PAM session, starts the desktop and the bridge as
  the user, waits until one of them ends or it is told to close, stops whatever is left in the
  session's scope and closes the PAM session.

  Its effects continue the list of the child. What each turn of a loop observes (the time, the
  children that ended, the members of the scope, the messages) is one element of a list; a
  supervisor that has used up its list is still in that loop.
\<close>

section \<open>Parameters\<close>

record session_params =
  sn_session :: session_id
  sn_generation :: generation
  sn_pw :: passwd
  sn_cfg :: session_config
  sn_state_dir :: string
  sn_host_socket :: string
  sn_output_hints :: "(u32 \<times> u32) list"
  sn_helper_cgroup :: "string option"

record session_base =
  sb_pw :: passwd
  sb_cfg :: session_config
  sb_state_dir :: string
  sb_helper_cgroup :: "string option"

definition base_with :: "session_base \<Rightarrow> start_params \<Rightarrow> session_params" where
  "base_with b s =
     \<lparr>sn_session = sp_session s, sn_generation = sp_generation s, sn_pw = sb_pw b, sn_cfg = sb_cfg b,
      sn_state_dir = sb_state_dir b, sn_host_socket = sp_host_socket s, sn_output_hints = sp_output_hints s,
      sn_helper_cgroup = sb_helper_cgroup b\<rparr>"

text \<open>\<^verbatim>\<open>Path::join\<close> with a relative path.\<close>

definition path_join :: "string \<Rightarrow> string \<Rightarrow> string" where
  "path_join a b = (if starts_with (CHR ''/'') b \<or> a = [] then b
     else if last a = CHR ''/'' then a @ b else a @ ''/'' @ b)"

definition adopt_socket_path :: "string \<Rightarrow> session_id \<Rightarrow> generation \<Rightarrow> string" where
  "adopt_socket_path state_dir session gen =
     path_join (path_join state_dir ''sessions'') (session @ ''-'' @ show_nat (unat gen) @ ''.sock'')"

datatype file_type = FT_Dir | FT_Socket | FT_Other

record file_meta =
  fm_type :: file_type
  fm_uid :: u32
  fm_mode :: u32

text \<open>The masks are octal 077, 777 and 600.\<close>

definition adoption_files_trusted :: "(string \<Rightarrow> file_meta io) \<Rightarrow> string \<Rightarrow> string \<Rightarrow> u32 \<Rightarrow> string + unit" where
  "adoption_files_trusted meta dir sk euid =
     (case meta dir of
        Io_Err e \<Rightarrow> Inl (dir @ '': '' @ e)
      | Io_Ok d \<Rightarrow>
          if fm_type d \<noteq> FT_Dir \<or> fm_uid d \<noteq> euid \<or> and (fm_mode d) 0x3F \<noteq> 0 then
            Inl (dir @ '' must be a directory owned by uid '' @ show_nat (unat euid) @ '' with mode 0700'')
          else (case meta sk of
             Io_Err e \<Rightarrow> Inl (sk @ '': '' @ e)
           | Io_Ok m \<Rightarrow>
               if fm_type m \<noteq> FT_Socket \<or> fm_uid m \<noteq> euid \<or> and (fm_mode m) 0x1FF \<noteq> 0x180 then
                 Inl (sk @ '' is not a socket owned by uid '' @ show_nat (unat euid) @ '' with mode 0600'')
               else Inr ()))"

section \<open>Children and state\<close>

record spawned =
  sd_pid :: pid
  sd_status :: "i32 option"

record children =
  cd_leader :: spawned
  cd_bridge :: spawned

definition children_of :: "pid \<Rightarrow> pid \<Rightarrow> children" where
  "children_of l b = \<lparr>cd_leader = \<lparr>sd_pid = l, sd_status = None\<rparr>, cd_bridge = \<lparr>sd_pid = b, sd_status = None\<rparr>\<rparr>"

definition mark_child :: "pid \<Rightarrow> i32 \<Rightarrow> children \<Rightarrow> children" where
  "mark_child p status ch =
     (if p = sd_pid (cd_leader ch) then ch\<lparr>cd_leader := (cd_leader ch)\<lparr>sd_status := Some status\<rparr>\<rparr>
      else if p = sd_pid (cd_bridge ch) then ch\<lparr>cd_bridge := (cd_bridge ch)\<lparr>sd_status := Some status\<rparr>\<rparr>
      else ch)"

definition reap_into :: "(pid \<times> i32) list \<Rightarrow> children \<Rightarrow> children" where
  "reap_into reaped ch = fold (\<lambda>(p, status). mark_child p status) reaped ch"

definition children_ended :: "children \<Rightarrow> i32 option" where
  "children_ended ch = or_else (sd_status (cd_leader ch)) (sd_status (cd_bridge ch))"

datatype sup_signal = Sig_Chld | Sig_Term | Sig_Int

text \<open>One pass through the main loop: the children found ended, and, if it goes on, what \<^verbatim>\<open>poll\<close> led
  to. The datagrams of the parent are those that can be read; none means that its socket is not
  readable.\<close>

record sup_turn =
  tn_reaped :: "(pid \<times> i32) list"
  tn_poll_ok :: bool
  tn_signals :: "sup_signal list"
  tn_parent :: "sup_cmd incoming list"
  tn_adopter :: "(sock \<times> u32 io) option"

text \<open>One look at the members of the session, and one at its runtime directory.\<close>

record member_poll =
  mp_now :: instant
  mp_reaped :: "(pid \<times> i32) list"
  mp_procs :: "pid list"
  mp_populated :: "bool option"

record runtime_poll =
  rp_now :: instant
  rp_meta :: "file_meta option"
  rp_bus :: bool

record sup_world =
  sw_child :: child_world
  sw_signal_fd :: "unit io"
  sw_locale_conf :: "string option"
  sw_pid :: pid
  sw_euid :: u32
  sw_now :: "nat \<Rightarrow> instant"
  sw_proc_cgroup :: "nat \<Rightarrow> pid \<Rightarrow> string io"
  sw_runtime_polls :: "runtime_poll list"
  sw_spawn :: "nat \<Rightarrow> pid io"
  sw_listen :: "unit io"
  sw_turns :: "sup_turn list"
  sw_member_polls :: "member_poll list"
  sw_move_self :: bool
  sw_cgroup_kill :: bool

record supervisor =
  su_parent :: "sock option"
  su_p :: session_params
  su_listener :: bool
  su_adopt_path :: "string option"
  su_child :: child

definition su_fx :: "child_effect \<Rightarrow> supervisor \<Rightarrow> supervisor" where
  "su_fx e s = s\<lparr>su_child := child_fx e (su_child s)\<rparr>"

definition su_time :: "supervisor \<Rightarrow> nat" where
  "su_time s = length (ch_fx (su_child s))"

definition send_parent :: "sup_world \<Rightarrow> sup_event \<Rightarrow> supervisor \<Rightarrow> supervisor" where
  "send_parent w ev s =
     (if su_parent s = None then s
      else let r = cw_send (sw_child w) (su_time s); s = su_fx (CE_SendSup ev r) s
           in if r = Io_Ok True then s else s\<lparr>su_parent := None\<rparr>)"

definition sup_fail :: "sup_world \<Rightarrow> error_code \<Rightarrow> string \<Rightarrow> supervisor \<Rightarrow> supervisor" where
  "sup_fail w code message s = send_parent w (SUP_Failed code message) s"

section \<open>Stopping the session\<close>

definition unreaped :: "children \<Rightarrow> pid list" where
  "unreaped ch = map sd_pid (filter (\<lambda>c. sd_pid c > 0 \<and> sd_status c = None) [cd_leader ch, cd_bridge ch])"

definition session_members :: "sup_world \<Rightarrow> string option \<Rightarrow> member_poll \<Rightarrow> children \<Rightarrow> pid list \<times> children" where
  "session_members w scope m ch0 =
     (let ch = reap_into (mp_reaped m) ch0 in
      (case scope of Some cg \<Rightarrow> filter (\<lambda>p. p \<noteq> sw_pid w) (mp_procs m) | None \<Rightarrow> unreaped ch, ch))"

definition sys_kill :: "signal \<Rightarrow> pid \<Rightarrow> supervisor \<Rightarrow> supervisor" where
  "sys_kill sig p s = (if p > 0 then su_fx (CE_Kill p sig) s else s)"

definition sys_kill_group :: "signal \<Rightarrow> pid \<Rightarrow> supervisor \<Rightarrow> supervisor" where
  "sys_kill_group sig p s = (if p > 1 then su_fx (CE_KillGroup p sig) s else s)"

definition signal_members :: "string option \<Rightarrow> children \<Rightarrow> pid list \<Rightarrow> signal \<Rightarrow> supervisor \<Rightarrow> supervisor" where
  "signal_members scope ch pids sig s =
     (let s = fold (sys_kill sig) pids s in
      if scope = None then fold (sys_kill_group sig) (unreaped ch) s else s)"

text \<open>Wait until the members are gone or the grace period is over.\<close>

fun grace_loop ::
  "sup_world \<Rightarrow> string option \<Rightarrow> instant \<Rightarrow> member_poll list \<Rightarrow> children \<Rightarrow> supervisor
     \<Rightarrow> (member_poll list \<times> children, supervisor) ran" where
  "grace_loop w scope deadline [] ch s = Waiting s"
| "grace_loop w scope deadline (m # ms) ch s =
     (if mp_now m \<ge> deadline then Ran (ms, ch) s
      else let (pids, ch) = session_members w scope m ch in
        if pids = [] then Ran (ms, ch) s else grace_loop w scope deadline ms ch s)"

text \<open>Wait until the kernel has emptied the scope.\<close>

fun empty_loop :: "instant \<Rightarrow> member_poll list \<Rightarrow> children \<Rightarrow> supervisor \<Rightarrow> (children, supervisor) ran" where
  "empty_loop end_at [] ch s = Waiting s"
| "empty_loop end_at (m # ms) ch s =
     (let ch = reap_into (mp_reaped m) ch in
      if mp_populated m \<noteq> Some True \<or> mp_now m \<ge> end_at then Ran ch s else empty_loop end_at ms ch s)"

fun sweep_loop ::
  "sup_world \<Rightarrow> string option \<Rightarrow> instant \<Rightarrow> member_poll list \<Rightarrow> children \<Rightarrow> supervisor \<Rightarrow> (children, supervisor) ran" where
  "sweep_loop w scope end_at [] ch s = Waiting s"
| "sweep_loop w scope end_at (m # ms) ch s =
     (let (pids, ch) = session_members w scope m ch in
      if pids = [] then Ran ch s
      else let s = signal_members scope ch pids SIGKILL s in
        if mp_now m \<ge> end_at then Ran ch s else sweep_loop w scope end_at ms ch s)"

definition terminate_forced ::
  "sup_world \<Rightarrow> string option \<Rightarrow> member_poll list \<Rightarrow> children \<Rightarrow> supervisor \<Rightarrow> (children, supervisor) ran" where
  "terminate_forced w scope ms ch s =
     (let sweep = (\<lambda>s. sweep_loop w scope (sw_now w (su_time s) + from_secs 5) ms ch s) in
      case scope of
        None \<Rightarrow> sweep s
      | Some cg \<Rightarrow>
          (case sn_helper_cgroup (su_p s) of
             None \<Rightarrow> sweep s
           | Some dest \<Rightarrow>
               (let s = su_fx (CE_MoveSelf dest) s in
                if \<not> sw_move_self w then sweep s
                else let s = su_fx (CE_CgroupKill cg) s in
                  if sw_cgroup_kill w then empty_loop (sw_now w (su_time s) + from_secs 5) ms ch s else sweep s)))"

definition sup_terminate ::
  "sup_world \<Rightarrow> string option \<Rightarrow> nat \<Rightarrow> children \<Rightarrow> supervisor \<Rightarrow> (children, supervisor) ran" where
  "sup_terminate w scope grace_ms ch s =
     (case sw_member_polls w of
        [] \<Rightarrow> Waiting s
      | m # ms \<Rightarrow>
          (let (pids, ch) = session_members w scope m ch in
           if pids = [] \<and> scope = None then Ran ch s
           else let s = signal_members scope ch pids SIGTERM s in
             and_then (grace_loop w scope (sw_now w (su_time s) + from_millis grace_ms) ms ch s)
               (\<lambda>(ms, ch) s. terminate_forced w scope ms ch s)))"

section \<open>Starting the session\<close>

definition cgroup_path_of :: "sup_world \<Rightarrow> pid \<Rightarrow> supervisor \<Rightarrow> string io" where
  "cgroup_path_of w p s =
     (case sw_proc_cgroup w (su_time s) p of
        Io_Err e \<Rightarrow> Io_Err e
      | Io_Ok text \<Rightarrow> (case parse_unified_path text of None \<Rightarrow> Io_Err ''no unified cgroup entry'' | Some path \<Rightarrow> Io_Ok path))"

fun verify_in_cgroup :: "sup_world \<Rightarrow> (string \<times> pid) list \<Rightarrow> string \<Rightarrow> supervisor \<Rightarrow> string + unit" where
  "verify_in_cgroup w [] expected s = Inr ()"
| "verify_in_cgroup w ((name, p) # procs) expected s =
     (case cgroup_path_of w p s of
        Io_Ok path \<Rightarrow>
          if path = expected then verify_in_cgroup w procs expected s
          else Inl (''the '' @ name @ '' (pid '' @ show_nat p @ '') is in cgroup '' @ path @ '', not in the session'' @ [CHR 0x27] @ ''s '' @ expected)
      | Io_Err e \<Rightarrow> Inl (''cannot read the cgroup of the '' @ name @ '' (pid '' @ show_nat p @ ''): '' @ e))"

definition spawn_as_user ::
  "sup_world \<Rightarrow> passwd \<Rightarrow> string list \<Rightarrow> (string, string) btmap \<Rightarrow> supervisor \<Rightarrow> pid io \<times> supervisor" where
  "spawn_as_user w pw argv env s =
     (if list_ex (\<lambda>a. CHR 0x00 \<in> set a) argv \<or> list_ex (\<lambda>(k, v). CHR 0x00 \<in> set k \<or> CHR 0x00 \<in> set v) env then
        (Io_Err ''string contains NUL'', s)
      else if CHR 0x00 \<in> set (pw_home pw) then (Io_Err ''path contains NUL'', s)
      else let r = sw_spawn w (su_time s) in (r, su_fx (CE_Spawn pw argv env (pw_home pw) r) s))"

definition runtime_ready :: "runtime_poll \<Rightarrow> u32 \<Rightarrow> bool" where
  "runtime_ready m uid = (case rp_meta m of
     None \<Rightarrow> False
   | Some meta \<Rightarrow> fm_type meta = FT_Dir \<and> fm_uid meta = uid \<and> rp_bus m)"

fun runtime_loop :: "u32 \<Rightarrow> instant \<Rightarrow> runtime_poll list \<Rightarrow> supervisor \<Rightarrow> (bool, supervisor) ran" where
  "runtime_loop uid deadline [] s = Waiting s"
| "runtime_loop uid deadline (m # ms) s =
     (if runtime_ready m uid then Ran True s
      else if rp_now m \<ge> deadline then Ran False s
      else runtime_loop uid deadline ms s)"

fun hints_str :: "(u32 \<times> u32) list \<Rightarrow> string" where
  "hints_str [] = []"
| "hints_str [(w, h)] = show_nat (unat w) @ ''x'' @ show_nat (unat h)"
| "hints_str ((w, h) # hs) = show_nat (unat w) @ ''x'' @ show_nat (unat h) @ '','' @ hints_str hs"

definition bridge_env :: "session_params \<Rightarrow> (string, string) btmap \<Rightarrow> (string, string) btmap" where
  "bridge_env p env =
     (let env = btm_insert ENV_HOST_SOCKET (sn_host_socket p) env in
      if sn_output_hints p = [] then env else btm_insert ''BSM_OUTPUT_HINTS'' (hints_str (sn_output_hints p)) env)"

definition own_scope :: "session_params \<Rightarrow> string \<Rightarrow> string option" where
  "own_scope p my_cgroup = opt_filter (\<lambda>_. Some my_cgroup \<noteq> sn_helper_cgroup p) (scope_unit my_cgroup)"

definition sup_inputs :: "sup_world \<Rightarrow> session_params \<Rightarrow> session_env_inputs" where
  "sup_inputs w p =
     \<lparr>ei_pw = sn_pw p, ei_session_id = sn_session p, ei_generation = sn_generation p, ei_path = sc_path (sn_cfg p),
      ei_session_desktop = sc_session_desktop (sn_cfg p), ei_current_desktop = sc_current_desktop (sn_cfg p),
      ei_locale = (case sw_locale_conf w of None \<Rightarrow> [] | Some t \<Rightarrow> parse_locale_conf t),
      ei_extra = sc_extra_env (sn_cfg p)\<rparr>"

section \<open>The main loop\<close>

definition accept_adopter :: "sup_world \<Rightarrow> sup_event \<Rightarrow> (sock \<times> u32 io) option \<Rightarrow> supervisor \<Rightarrow> supervisor" where
  "accept_adopter w opened conn s =
     (if \<not> su_listener s then s
      else case conn of
        None \<Rightarrow> s
      | Some (fd, cred) \<Rightarrow>
          if cred \<noteq> Io_Ok (sw_euid w) then s
          else send_parent w opened (s\<lparr>su_parent := Some fd\<rparr>))"

text \<open>The socket of the supervisor is blocking: after an undecodable datagram it waits in \<^verbatim>\<open>recv\<close> for
  the next one, and the result is \<^verbatim>\<open>None\<close> while there is none.\<close>

fun read_parent :: "sup_cmd incoming list \<Rightarrow> u32 option \<Rightarrow> supervisor \<Rightarrow> (u32 option \<times> supervisor) option" where
  "read_parent [] close s = None"
| "read_parent (In_Msg (SUP_Close grace) # ms) close s = Some (Some grace, s)"
| "read_parent (In_Bad # ms) close s = read_parent ms close s"
| "read_parent (In_Eof # ms) close s = Some (close, s\<lparr>su_parent := None\<rparr>)"
| "read_parent (In_Error # ms) close s = Some (close, s\<lparr>su_parent := None\<rparr>)"

fun sup_loop ::
  "sup_world \<Rightarrow> sup_event \<Rightarrow> sup_turn list \<Rightarrow> children \<Rightarrow> u32 option \<Rightarrow> supervisor
     \<Rightarrow> (children \<times> u32 option, supervisor) ran" where
  "sup_loop w opened [] ch close s = Waiting s"
| "sup_loop w opened (t # ts) ch close s =
     (let ch = reap_into (tn_reaped t) ch in
      if children_ended ch \<noteq> None \<or> close \<noteq> None then Ran (ch, close) s
      else if \<not> tn_poll_ok t then sup_loop w opened ts ch close s
      else
        (let close = (if list_ex (\<lambda>g. g = Sig_Term \<or> g = Sig_Int) (tn_signals t)
                      then Some (sc_default_grace_ms (sn_cfg (su_p s))) else close)
         in case (if su_parent s = None \<or> tn_parent t = [] then Some (close, s) else read_parent (tn_parent t) close s) of
              None \<Rightarrow> Waiting s
            | Some (close, s) \<Rightarrow> sup_loop w opened ts ch close (accept_adopter w opened (tn_adopter t) s)))"

section \<open>The run\<close>

type_synonym sup_result = "(error_code \<times> string) + i32"

text \<open>\<^verbatim>\<open>after_open\<close> from the moment both processes are in the scope: the adoption socket, the report, the
  loop and the end of the session.\<close>

definition sup_serve ::
  "sup_world \<Rightarrow> string \<Rightarrow> string option \<Rightarrow> string option \<Rightarrow> pid \<Rightarrow> pid \<Rightarrow> supervisor \<Rightarrow> (sup_result, supervisor) ran" where
  "sup_serve w my_cgroup scope logind leader bridge s0 =
     (let p = su_p s0;
          path = adopt_socket_path (sn_state_dir p) (sn_session p) (sn_generation p);
          s = (if sw_listen w = Io_Ok () then (su_fx (CE_Listen path) s0)\<lparr>su_listener := True, su_adopt_path := Some path\<rparr> else s0);
          opened = SUP_Opened (sn_session p) (sn_generation p) (word_of_nat (sw_pid w)) (word_of_nat leader)
                     (word_of_nat bridge) my_cgroup logind;
          s = send_parent w opened s
      in and_then (sup_loop w opened (sw_turns w) (children_of leader bridge) None s) (\<lambda>(ch, close) s.
           let status = children_ended ch in
           and_then (sup_terminate w scope (unat (unwrap_or close (sc_default_grace_ms (sn_cfg p)))) ch s) (\<lambda>ch s.
             Ran (Inr (unwrap_or (or_else status (or_else (sd_status (cd_leader ch)) (sd_status (cd_bridge ch)))) 0)) s)))"

text \<open>\<^verbatim>\<open>after_open\<close> from the two spawns on.\<close>

definition sup_spawn ::
  "sup_world \<Rightarrow> (string, string) btmap \<Rightarrow> string \<Rightarrow> string option \<Rightarrow> string option \<Rightarrow> supervisor \<Rightarrow> (sup_result, supervisor) ran" where
  "sup_spawn w env my_cgroup scope logind s =
     (let p = su_p s;
          tpl = \<lparr>tp_wayland_display = ''bsm-'' @ sn_session p, tp_session_id = sn_session p, tp_generation = sn_generation p,
                 tp_runtime_dir = unwrap_or (btm_get env ''XDG_RUNTIME_DIR'') [], tp_uid = pw_uid (sn_pw p),
                 tp_user = pw_name (sn_pw p)\<rparr>
      in case spawn_as_user w (sn_pw p) (expand_argv tpl (sc_gnoblin (sn_cfg p))) env s of
           (Io_Err e, s) \<Rightarrow> Ran (Inl (E_HelperFailure, ''leader: '' @ e)) s
         | (Io_Ok leader, s) \<Rightarrow>
             (case spawn_as_user w (sn_pw p) (expand_argv tpl (sc_bridge (sn_cfg p))) (bridge_env p env) s of
                (Io_Err e, s) \<Rightarrow>
                  and_then (sup_terminate w scope 1000 (children_of leader 0) s)
                    (\<lambda>_ s. Ran (Inl (E_HelperFailure, ''bridge: '' @ e)) s)
              | (Io_Ok bridge, s) \<Rightarrow>
                  (case verify_in_cgroup w [(''leader'', leader), (''bridge'', bridge)] my_cgroup s of
                     Inl m \<Rightarrow>
                       and_then (sup_terminate w scope 1000 (children_of leader bridge) s)
                         (\<lambda>_ s. Ran (Inl (E_LogindFailure, m)) s)
                   | Inr _ \<Rightarrow> sup_serve w my_cgroup scope logind leader bridge s)))"

definition after_open :: "sup_world \<Rightarrow> 'h pam_lib \<Rightarrow> 'h pam \<Rightarrow> supervisor \<Rightarrow> (sup_result, supervisor) ran" where
  "after_open w L pam s =
     (let p = su_p s;
          logind = pl_getenv L ''XDG_SESSION_ID'' (pam_handle pam);
          env = session_env (sup_inputs w p) (pl_getenvlist L (pam_handle pam));
          runtime = unwrap_or (btm_get env ''XDG_RUNTIME_DIR'') []
      in case cgroup_path_of w (sw_pid w) s of
           Io_Err e \<Rightarrow> Ran (Inl (E_LogindFailure, ''cannot read own cgroup: '' @ e)) s
         | Io_Ok my_cgroup \<Rightarrow>
             if own_scope p my_cgroup = None \<and> sc_require_scope (sn_cfg p) then
               Ran (Inl (E_LogindFailure, ''pam_open_session did not move the session into a systemd scope (cgroup ''
                 @ my_cgroup @ ''); is pam_systemd in the stack?'')) s
             else
               (let scope = map_option (\<lambda>_. my_cgroup) (own_scope p my_cgroup) in
                if \<not> sc_require_user_runtime (sn_cfg p) then sup_spawn w env my_cgroup scope logind s
                else
                  and_then (runtime_loop (pw_uid (sn_pw p))
                      (sw_now w (su_time s) + from_secs (unat (sc_runtime_wait_secs (sn_cfg p)))) (sw_runtime_polls w) s)
                    (\<lambda>ready s. if ready then sup_spawn w env my_cgroup scope logind s
                       else Ran (Inl (E_LogindFailure, runtime @ '' did not appear (user manager or D-Bus socket missing)'')) s)))"

text \<open>A PAM call of the supervisor.\<close>

definition sup_pam ::
  "sup_world \<Rightarrow> bool \<Rightarrow> 'h pam_lib \<Rightarrow> pam_fn \<Rightarrow> ('h \<Rightarrow> 'h pam_call) \<Rightarrow> 'h pam \<Rightarrow> supervisor
     \<Rightarrow> ((pam_error + unit) \<times> 'h pam, supervisor) ran" where
  "sup_pam w x L f call p s =
     (case pam_run (sw_child w) x L f call p (su_child s) of
        Ran a c \<Rightarrow> Ran a (s\<lparr>su_child := c\<rparr>)
      | Exit status c \<Rightarrow> Exit status (s\<lparr>su_child := c\<rparr>)
      | Waiting c \<Rightarrow> Waiting (s\<lparr>su_child := c\<rparr>))"

definition establish_credentials ::
  "sup_world \<Rightarrow> bool \<Rightarrow> 'h pam_lib \<Rightarrow> 'h pam \<Rightarrow> supervisor \<Rightarrow> ((pam_error + unit) \<times> 'h pam, supervisor) ran" where
  "establish_credentials w x L =
     sup_pam w x L (PF_Setcred PAM_ESTABLISH_CRED) (pl_setcred L (PAM_ESTABLISH_CRED + PAM_SILENT))"

definition delete_credentials ::
  "sup_world \<Rightarrow> bool \<Rightarrow> 'h pam_lib \<Rightarrow> 'h pam \<Rightarrow> supervisor \<Rightarrow> ((pam_error + unit) \<times> 'h pam, supervisor) ran" where
  "delete_credentials w x L =
     sup_pam w x L (PF_Setcred PAM_DELETE_CRED) (pl_setcred L (PAM_DELETE_CRED + PAM_SILENT))"

definition open_pam_session ::
  "sup_world \<Rightarrow> bool \<Rightarrow> 'h pam_lib \<Rightarrow> 'h pam \<Rightarrow> supervisor \<Rightarrow> ((pam_error + unit) \<times> 'h pam, supervisor) ran" where
  "open_pam_session w x L = sup_pam w x L PF_OpenSession (pl_open_session L)"

definition close_pam_session ::
  "sup_world \<Rightarrow> bool \<Rightarrow> 'h pam_lib \<Rightarrow> 'h pam \<Rightarrow> supervisor \<Rightarrow> ((pam_error + unit) \<times> 'h pam, supervisor) ran" where
  "close_pam_session w x L = sup_pam w x L PF_CloseSession (pl_close_session L)"

fun put_envs :: "'h pam_lib \<Rightarrow> string list \<Rightarrow> 'h pam \<Rightarrow> supervisor \<Rightarrow> ((pam_error + unit) \<times> 'h pam) \<times> supervisor" where
  "put_envs L [] p s = ((Inr (), p), s)"
| "put_envs L (v # vs) p s =
     (if CHR 0x00 \<in> set v then ((Inl \<lparr>pe_code = PAM_ABORT, pe_message = ''string contains NUL''\<rparr>, p), s)
      else let (rc, h) = pl_putenv L v (pam_handle p); s = su_fx (CE_Pam (PF_Putenv v) rc) s in
        case pam_check L h rc of
          (Inl e, p) \<Rightarrow> ((Inl e, p), s)
        | (Inr _, p) \<Rightarrow> put_envs L vs p s)"

definition sup_pam_end :: "'h pam \<Rightarrow> supervisor \<Rightarrow> supervisor" where
  "sup_pam_end p s = s\<lparr>su_child := pam_end p (su_child s)\<rparr>"

text \<open>Close the PAM session and delete the credentials, whatever PAM answers.\<close>

definition close_handle ::
  "sup_world \<Rightarrow> bool \<Rightarrow> 'h pam_lib \<Rightarrow> 'h pam \<Rightarrow> supervisor \<Rightarrow> ('h pam, supervisor) ran" where
  "close_handle w x L p s =
     and_then (close_pam_session w x L p s) (\<lambda>(_, p) s.
     and_then (delete_credentials w x L p s) (\<lambda>(_, p) s. Ran p s))"

definition sup_failed :: "sup_world \<Rightarrow> error_code \<Rightarrow> string \<Rightarrow> 'h pam \<Rightarrow> supervisor \<Rightarrow> (i32, supervisor) ran" where
  "sup_failed w code message p s = Ran 1 (sup_pam_end p (sup_fail w code message s))"

definition sup_finish :: "sup_world \<Rightarrow> sup_result \<Rightarrow> 'h pam \<Rightarrow> supervisor \<Rightarrow> (i32, supervisor) ran" where
  "sup_finish w outcome p s =
     (let s = sup_pam_end p s;
          s = (case su_adopt_path s of None \<Rightarrow> s | Some path \<Rightarrow> su_fx (CE_Unlink path) s)
      in case outcome of
           Inr status \<Rightarrow> Ran 0 (send_parent w (SUP_Exited status) s)
         | Inl (code, message) \<Rightarrow> Ran 1 (sup_fail w code message s))"

definition sup_run :: "sup_world \<Rightarrow> bool \<Rightarrow> 'h pam_lib \<Rightarrow> 'h pam \<Rightarrow> supervisor \<Rightarrow> (i32, supervisor) ran" where
  "sup_run w x L pam s =
     (case put_envs L (pam_session_vars (sup_inputs w (su_p s))) pam s of
        ((Inl e, pam), s) \<Rightarrow> sup_failed w E_PamFailure (''pam_putenv: '' @ pam_error_display e) pam s
      | ((Inr _, pam), s) \<Rightarrow>
          and_then (establish_credentials w x L pam s) (\<lambda>(r, pam) s. case r of
            Inl e \<Rightarrow> sup_failed w E_PamFailure (''pam_setcred: '' @ pam_error_display e) pam s
          | Inr _ \<Rightarrow>
              and_then (open_pam_session w x L pam s) (\<lambda>(r, pam) s. case r of
                Inl e \<Rightarrow> and_then (delete_credentials w x L pam s) (\<lambda>(_, pam) s.
                  sup_failed w E_PamFailure (''pam_open_session: '' @ pam_error_display e) pam s)
              | Inr _ \<Rightarrow>
                  (case check_user (sw_child w) L pam (pw_uid (sn_pw (su_p s))) (su_child s) of
                     Inl m \<Rightarrow> and_then (close_handle w x L pam s) (\<lambda>pam s. sup_failed w E_PamFailure m pam s)
                   | Inr _ \<Rightarrow>
                       and_then (after_open w L pam s) (\<lambda>outcome s.
                         and_then (close_handle w x L pam s) (\<lambda>pam s. sup_finish w outcome pam s))))))"

definition supervisor_main ::
  "sup_world \<Rightarrow> bool \<Rightarrow> 'h pam_lib \<Rightarrow> sock \<Rightarrow> 'h pam \<Rightarrow> session_params \<Rightarrow> child \<Rightarrow> (i32, supervisor) ran" where
  "supervisor_main w x L sk pam p c =
     (let s = \<lparr>su_parent = Some sk, su_p = p, su_listener = False, su_adopt_path = None, su_child = c\<lparr>ch_phase := True\<rparr>\<rparr>
      in case sw_signal_fd w of
           Io_Err e \<Rightarrow>
             Ran 1 (sup_pam_end pam (su_fx (CE_SendSup (SUP_Failed E_Internal e) (cw_send (sw_child w) (su_time s))) s))
         | Io_Ok _ \<Rightarrow> sup_run w x L pam s)"

text \<open>The whole forked process.\<close>

definition child_main ::
  "sup_world \<Rightarrow> 'h pam_lib \<Rightarrow> sock \<Rightarrow> auth_params \<Rightarrow> session_base option \<Rightarrow> child \<Rightarrow> (i32, child) ran" where
  "child_main w L sk params base c =
     and_then (child_decides (sw_child w) L params (base \<noteq> None) c) (\<lambda>e c.
       case e of
         Parked_Exit status \<Rightarrow> Ran status c
       | Parked_Start start pam \<Rightarrow>
           (case base of
              None \<Rightarrow> Ran 0 c
            | Some b \<Rightarrow>
                (case supervisor_main w (ap_exit_on_interrupt params) L sk pam (base_with b start) c of
                   Ran status s \<Rightarrow> Ran status (su_child s)
                 | Exit status s \<Rightarrow> Exit status (su_child s)
                 | Waiting s \<Rightarrow> Waiting (su_child s))))"

end
