(* ===== verification/Helper_Desktop.thy ===== *)
theory Helper_Desktop
  imports Helper_Supervisor
begin

text \<open>
  What a session supervisor can do: it starts processes only between a successful
  \<^verbatim>\<open>pam_open_session\<close> and \<^verbatim>\<open>pam_close_session\<close>, reports a session only when its processes are in the
  scope it names, signals nothing outside it, and always comes to an end when it is told to.
\<close>

section \<open>Kinds of effects\<close>

text \<open>The effects before the session is open, while it is, and after it is closed.\<close>

fun setup_effect :: "child_effect \<Rightarrow> bool" where
  "setup_effect (CE_Pam (PF_Putenv v) rc) \<longleftrightarrow> True"
| "setup_effect (CE_Pam (PF_Setcred f) rc) \<longleftrightarrow> f = PAM_ESTABLISH_CRED"
| "setup_effect _ \<longleftrightarrow> False"

text \<open>A process is in the cgroup at the time of an effect.\<close>

definition in_cgroup :: "sup_world \<Rightarrow> nat \<Rightarrow> pid \<Rightarrow> string \<Rightarrow> bool" where
  "in_cgroup w n p cg \<longleftrightarrow> (\<exists>text. sw_proc_cgroup w n p = Io_Ok text \<and> parse_unified_path text = Some cg)"

definition spawned_pid :: "sup_world \<Rightarrow> pid \<Rightarrow> bool" where
  "spawned_pid w p \<longleftrightarrow> (\<exists>n. sw_spawn w n = Io_Ok p)"

definition reported_in :: "sup_world \<Rightarrow> session_params \<Rightarrow> sup_event \<Rightarrow> bool" where
  "reported_in w p ev \<longleftrightarrow>
     (\<exists>leader bridge cg logind n. ev = SUP_Opened (sn_session p) (sn_generation p) (word_of_nat (sw_pid w)) (word_of_nat leader)
          (word_of_nat bridge) cg logind
        \<and> spawned_pid w leader \<and> spawned_pid w bridge \<and> in_cgroup w n leader cg \<and> in_cgroup w n bridge cg
        \<and> (sc_require_scope (sn_cfg p) \<longrightarrow> own_scope p cg \<noteq> None))"

fun work_effect :: "sup_world \<Rightarrow> session_params \<Rightarrow> child_effect \<Rightarrow> bool" where
  "work_effect w p (CE_SendSup ev r) \<longleftrightarrow> reported_in w p ev"
| "work_effect w p (CE_Spawn pw argv env home r) \<longleftrightarrow> pw = sn_pw p \<and> home = pw_home (sn_pw p)"
| "work_effect w p (CE_Kill q sig) \<longleftrightarrow> q > 0 \<and>
     (q \<noteq> sw_pid w \<and> q \<in> (\<Union>m \<in> set (sw_member_polls w). set (mp_procs m)) \<or> spawned_pid w q)"
| "work_effect w p (CE_KillGroup q sig) \<longleftrightarrow> q > 1 \<and> spawned_pid w q"
| "work_effect w p (CE_MoveSelf cg) \<longleftrightarrow> True"
| "work_effect w p (CE_CgroupKill cg) \<longleftrightarrow> own_scope p cg \<noteq> None"
| "work_effect w p (CE_Listen path) \<longleftrightarrow> path = adopt_socket_path (sn_state_dir p) (sn_session p) (sn_generation p)"
| "work_effect w p _ \<longleftrightarrow> False"

fun after_effect :: "child_effect \<Rightarrow> bool" where
  "after_effect (CE_SendSup ev r) \<longleftrightarrow> (case ev of SUP_Opened _ _ _ _ _ _ _ \<Rightarrow> False | _ \<Rightarrow> True)"
| "after_effect (CE_Unlink path) \<longleftrightarrow> True"
| "after_effect (CE_PamEnd rc) \<longleftrightarrow> True"
| "after_effect _ \<longleftrightarrow> False"

abbreviation su_effects :: "supervisor \<Rightarrow> child_effect list" where
  "su_effects s \<equiv> ch_fx (su_child s)"

text \<open>A piece of the supervisor adds effects of one kind and leaves the session alone.\<close>

definition adds :: "(child_effect \<Rightarrow> bool) \<Rightarrow> supervisor \<Rightarrow> supervisor \<Rightarrow> bool" where
  "adds Q s s' \<longleftrightarrow> (\<exists>es. su_effects s' = su_effects s @ es \<and> list_all Q es) \<and> su_p s' = su_p s \<and> ch_phase (su_child s') = ch_phase (su_child s)"

lemma adds_refl [simp]: "adds Q s s"
  by (simp add: adds_def)

lemma adds_trans: "adds Q s t \<Longrightarrow> adds Q t u \<Longrightarrow> adds Q s u"
  by (fastforce simp: adds_def)

lemma adds_mono: "adds Q s t \<Longrightarrow> (\<And>e. Q e \<Longrightarrow> R e) \<Longrightarrow> adds R s t"
  by (auto simp: adds_def list_all_iff)

lemma adds_fxI [intro!]: "adds Q s t \<Longrightarrow> Q e \<Longrightarrow> adds Q s (su_fx e t)"
  by (auto simp: adds_def su_fx_def child_fx_def)

lemma adds_parts [simp]:
  "adds Q s (t\<lparr>su_parent := a\<rparr>) = adds Q s t" "adds Q s (t\<lparr>su_listener := b\<rparr>) = adds Q s t" "adds Q s (t\<lparr>su_adopt_path := c\<rparr>) = adds Q s t"
  by (simp_all add: adds_def)

text \<open>The same for a piece with an outcome; none of these ends the process on the spot.\<close>

fun does :: "(child_effect \<Rightarrow> bool) \<Rightarrow> supervisor \<Rightarrow> ('a, supervisor) ran \<Rightarrow> bool" where
  "does Q s (Ran a s') \<longleftrightarrow> adds Q s s'"
| "does Q s (Waiting s') \<longleftrightarrow> adds Q s s'"
| "does Q s (Exit status s') \<longleftrightarrow> False"

lemma does_trans: "adds Q s t \<Longrightarrow> does Q t r \<Longrightarrow> does Q s r"
  by (cases r) (auto intro: adds_trans)

lemma does_and_then:
  assumes "does Q s r" "\<And>a t. r = Ran a t \<Longrightarrow> adds Q s t \<Longrightarrow> does Q t (f a t)"
  shows "does Q s (and_then r f)"
  using assms by (cases r) (auto intro: does_trans)

lemma adds_fold:
  assumes "\<And>x s. x \<in> set xs \<Longrightarrow> adds Q s (f x s)"
  shows "adds Q s (fold f xs s)"
  using assms by (induction xs arbitrary: s) (auto intro: adds_trans)

lemma adds_send_parent: "(\<And>r. Q (CE_SendSup ev r)) \<Longrightarrow> adds Q s (send_parent w ev s)"
  by (auto simp: send_parent_def Let_def)

section \<open>Stopping a session\<close>

lemma mark_child_pids [simp]:
  "sd_pid (cd_leader (mark_child p st ch)) = sd_pid (cd_leader ch)" "sd_pid (cd_bridge (mark_child p st ch)) = sd_pid (cd_bridge ch)"
  by (simp_all add: mark_child_def)

lemma reap_pids [simp]:
  "sd_pid (cd_leader (reap_into rs ch)) = sd_pid (cd_leader ch)" "sd_pid (cd_bridge (reap_into rs ch)) = sd_pid (cd_bridge ch)"
  unfolding reap_into_def by (induction rs arbitrary: ch) (auto split: prod.splits)

definition child_pids :: "children \<Rightarrow> pid set" where
  "child_pids ch = {sd_pid (cd_leader ch), sd_pid (cd_bridge ch)}"

lemma child_pids_reap [simp]: "child_pids (reap_into rs ch) = child_pids ch"
  by (simp add: child_pids_def)

lemma unreaped_pids: "set (unreaped ch) \<subseteq> child_pids ch"
  by (auto simp: unreaped_def child_pids_def)

text \<open>What stopping may touch: with a scope its members, except the supervisor, and the scope;
  without one the two children and their groups.\<close>

fun stop_effect :: "sup_world \<Rightarrow> string option \<Rightarrow> pid set \<Rightarrow> child_effect \<Rightarrow> bool" where
  "stop_effect w scope P (CE_Kill p sig) \<longleftrightarrow> p > 0 \<and>
     (if scope = None then p \<in> P else p \<noteq> sw_pid w \<and> p \<in> (\<Union>m \<in> set (sw_member_polls w). set (mp_procs m)))"
| "stop_effect w scope P (CE_KillGroup p sig) \<longleftrightarrow> p > 1 \<and> scope = None \<and> p \<in> P"
| "stop_effect w scope P (CE_MoveSelf cg) \<longleftrightarrow> scope \<noteq> None"
| "stop_effect w scope P (CE_CgroupKill cg) \<longleftrightarrow> scope = Some cg"
| "stop_effect w scope P _ \<longleftrightarrow> False"

lemma stop_is_work:
  assumes "\<And>cg. scope = Some cg \<Longrightarrow> own_scope p cg \<noteq> None" "\<And>q. q \<in> P \<Longrightarrow> q > 0 \<Longrightarrow> spawned_pid w q"
    and "stop_effect w scope P e"
  shows "work_effect w p e"
  using assms by (cases e) (auto split: if_splits)

lemma members_props:
  assumes "session_members w scope m ch = (pids, ch')" "m \<in> set (sw_member_polls w)"
  shows "child_pids ch' = child_pids ch" "\<And>p sig. p \<in> set pids \<Longrightarrow> p > 0 \<Longrightarrow> stop_effect w scope (child_pids ch) (CE_Kill p sig)"
  using assms unreaped_pids [of ch'] by (auto simp: session_members_def Let_def split: option.splits)

lemma adds_signal:
  assumes "\<And>p. p \<in> set pids \<Longrightarrow> p > 0 \<Longrightarrow> stop_effect w scope (child_pids ch) (CE_Kill p sig)"
  shows "adds (stop_effect w scope (child_pids ch)) s (signal_members scope ch pids sig s)"
proof -
  have "adds (stop_effect w scope (child_pids ch)) s (fold (sys_kill sig) pids s)" for s
    using assms by (intro adds_fold) (auto simp: sys_kill_def simp del: stop_effect.simps)
  moreover have "scope = None \<Longrightarrow> adds (stop_effect w scope (child_pids ch)) s (fold (sys_kill_group sig) (unreaped ch) s)" for s
    using unreaped_pids [of ch] by (intro adds_fold) (auto simp: sys_kill_group_def)
  ultimately show ?thesis by (simp add: signal_members_def Let_def) (meson adds_trans)
qed

lemma signal_looked:
  assumes "session_members w scope m ch = (pids, ch')" "m \<in> set (sw_member_polls w)"
  shows "adds (stop_effect w scope (child_pids ch)) s (signal_members scope ch' pids sig s)"
  using adds_signal [of pids w scope ch' sig s] members_props [OF assms] by metis

lemma does_grace:
  assumes "set ms \<subseteq> set (sw_member_polls w)"
  shows "does Q s (grace_loop w scope d ms ch s)"
    and "grace_loop w scope d ms ch s = Ran (ms', ch') s' \<Longrightarrow> set ms' \<subseteq> set (sw_member_polls w) \<and> child_pids ch' = child_pids ch"
  using assms by (induction ms arbitrary: ch) (auto simp: Let_def session_members_def split: prod.splits if_splits)

lemma does_empty: "does Q s (empty_loop e ms ch s)"
  by (induction ms arbitrary: ch) (auto simp: Let_def)

lemma does_sweep:
  assumes "set ms \<subseteq> set (sw_member_polls w)"
  shows "does (stop_effect w scope (child_pids ch)) s (sweep_loop w scope e ms ch s)"
  using assms
proof (induction ms arbitrary: ch s)
  case (Cons m ms)
  obtain pids ch' where m: "session_members w scope m ch = (pids, ch')" by fastforce
  with Cons.prems have sig: "adds (stop_effect w scope (child_pids ch)) s (signal_members scope ch' pids SIGKILL s)"
    by (intro signal_looked [of w scope m]) auto
  have "does (stop_effect w scope (child_pids ch)) t (sweep_loop w scope e ms ch' t)" for t
    using Cons members_props(1) [OF m] by (metis list.set_intros(1,2) subset_iff)
  with m sig does_trans [OF sig] show ?case by (auto simp: Let_def)
qed simp

lemma sweep_after:
  "set ms \<subseteq> set (sw_member_polls w) \<Longrightarrow> adds (stop_effect w scope (child_pids ch)) s t \<Longrightarrow>
   does (stop_effect w scope (child_pids ch)) s (sweep_loop w scope e ms ch t)"
  by (rule does_trans [OF _ does_sweep])

lemma empty_after: "adds Q s t \<Longrightarrow> does Q s (empty_loop e ms ch t)"
  by (rule does_trans [OF _ does_empty])

lemma does_forced:
  assumes "set ms \<subseteq> set (sw_member_polls w)"
  shows "does (stop_effect w scope (child_pids ch)) s (terminate_forced w scope ms ch s)"
  by (auto simp: terminate_forced_def Let_def split: option.splits intro!: sweep_after empty_after assms)

lemma does_terminate: "does (stop_effect w scope (child_pids ch)) s (sup_terminate w scope g ch s)"
proof (cases "sw_member_polls w")
  case (Cons m ms)
  obtain pids ch' where m: "session_members w scope m ch = (pids, ch')" by fastforce
  have ms: "set ms \<subseteq> set (sw_member_polls w)" "m \<in> set (sw_member_polls w)" using Cons by auto
  have sig: "adds (stop_effect w scope (child_pids ch)) s (signal_members scope ch' pids SIGTERM s)" (is "adds ?Q s ?t")
    by (rule signal_looked [OF m ms(2)])
  have "does ?Q ?t (and_then (grace_loop w scope d ms ch' ?t) (\<lambda>(ms, ch) s. terminate_forced w scope ms ch s))" for d
    using does_grace [OF ms(1)] does_forced members_props(1) [OF m ms(2)] by (intro does_and_then) (auto split: prod.splits, metis)
  with Cons m does_trans [OF sig] show ?thesis by (auto simp: sup_terminate_def Let_def)
qed (simp add: sup_terminate_def)

section \<open>Running a session\<close>

lemma read_parent_adds: "read_parent ms close s = Some (c, t) \<Longrightarrow> adds Q s t"
  by (induction ms close s rule: read_parent.induct) auto

lemma adopter_adds: "(\<And>r. Q (CE_SendSup opened r)) \<Longrightarrow> adds Q s (accept_adopter w opened conn s)"
  using adds_send_parent [of Q opened "s\<lparr>su_parent := Some fd\<rparr>" w for fd]
  by (auto simp: accept_adopter_def adds_def split: option.splits prod.splits)

lemma turn_adds:
  assumes "\<And>r. Q (CE_SendSup opened r)"
    and "(if su_parent s = None \<or> ms = [] then Some (c, s) else read_parent ms c s) = Some (c', t)"
  shows "adds Q s (accept_adopter w opened conn t)"
proof -
  have "adds Q s t" using assms(2) read_parent_adds [of ms c s c' t Q] by (auto split: if_splits)
  then show ?thesis using adopter_adds [where Q = Q, OF assms(1)] by (blast intro: adds_trans)
qed

lemma does_loop:
  assumes Q: "\<And>r. Q (CE_SendSup opened r)"
  shows "does Q s (sup_loop w opened ts ch close s)"
proof (induction ts arbitrary: ch close s)
  case (Cons t ts)
  let ?ch = "reap_into (tn_reaped t) ch"
  let ?c = "if list_ex (\<lambda>g. g = Sig_Term \<or> g = Sig_Int) (tn_signals t) then Some (sc_default_grace_ms (sn_cfg (su_p s))) else close"
  let ?read = "if su_parent s = None \<or> tn_parent t = [] then Some (?c, s) else read_parent (tn_parent t) ?c s"
  show ?case
  proof (cases ?read)
    case None
    with Cons.IH show ?thesis unfolding sup_loop.simps Let_def None by simp
  next
    case (Some cu)
    then obtain c' u where u: "?read = Some (c', u)" by (cases cu) auto
    have "does Q s (sup_loop w opened ts ?ch c' (accept_adopter w opened (tn_adopter t) u))"
      by (rule does_trans [OF turn_adds [where Q = Q, OF Q u] Cons.IH])
    with Cons.IH show ?thesis unfolding sup_loop.simps Let_def u by simp
  qed
qed simp

lemma loop_pids: "sup_loop w opened ts ch close s = Ran (ch', close') s' \<Longrightarrow> child_pids ch' = child_pids ch"
  by (induction ts arbitrary: ch close s) (fastforce simp: Let_def split: if_splits prod.splits option.splits)+

lemma does_mono: "does Q s r \<Longrightarrow> (\<And>e. Q e \<Longrightarrow> R e) \<Longrightarrow> does R s r"
  by (cases r) (auto intro: adds_mono)

lemma terminate_works:
  assumes "\<And>cg. scope = Some cg \<Longrightarrow> own_scope p cg \<noteq> None" "\<And>q. q \<in> child_pids ch \<Longrightarrow> q > 0 \<Longrightarrow> spawned_pid w q"
  shows "does (work_effect w p) s (sup_terminate w scope g ch s)"
  by (rule does_mono [OF does_terminate stop_is_work [OF assms]])

lemma child_pids_of [simp]: "child_pids (children_of l b) = {l, b}"
  by (simp add: child_pids_def children_of_def)

lemma serve_works:
  assumes "\<And>cg. scope = Some cg \<Longrightarrow> own_scope (su_p s) cg \<noteq> None" "spawned_pid w leader" "spawned_pid w bridge"
    and "in_cgroup w n leader my_cgroup" "in_cgroup w n bridge my_cgroup"
    and "sc_require_scope (sn_cfg (su_p s)) \<Longrightarrow> own_scope (su_p s) my_cgroup \<noteq> None"
  shows "does (work_effect w (su_p s)) s (sup_serve w my_cgroup scope logind leader bridge s)"
proof -
  let ?opened = "SUP_Opened (sn_session (su_p s)) (sn_generation (su_p s)) (word_of_nat (sw_pid w)) (word_of_nat leader)
    (word_of_nat bridge) my_cgroup logind"
  have opened: "work_effect w (su_p s) (CE_SendSup ?opened r)" for r
    using assms by (auto simp: reported_in_def)
  have loop: "does (work_effect w (su_p s)) t (and_then (sup_loop w ?opened (sw_turns w) (children_of leader bridge) None t) (\<lambda>(ch, close) s'.
           let status = children_ended ch in
           and_then (sup_terminate w scope (unat (unwrap_or close (sc_default_grace_ms (sn_cfg (su_p s))))) ch s') (\<lambda>ch s'.
             Ran (Inr (unwrap_or (or_else status (or_else (sd_status (cd_leader ch)) (sd_status (cd_bridge ch)))) 0)) s')))" for t
    using does_loop [where Q = "work_effect w (su_p s)", OF opened] assms(1)
    by (intro does_and_then) (auto simp: Let_def assms(2,3) split: prod.splits dest!: loop_pids intro!: does_and_then terminate_works)
  have send: "adds (work_effect w (su_p s)) s (send_parent w ?opened t)" if "adds (work_effect w (su_p s)) s t" for t
    using that adds_send_parent [where Q = "work_effect w (su_p s)", OF opened] by (blast intro: adds_trans)
  show ?thesis
    unfolding sup_serve_def Let_def by (intro does_trans [OF _ loop [unfolded Let_def]] send) auto
qed

lemma spawn_works:
  assumes "spawn_as_user w pw argv env s = (r, t)"
  shows "pw = sn_pw p \<Longrightarrow> adds (work_effect w p) s t" "r = Io_Ok q \<Longrightarrow> spawned_pid w q"
  using assms by (auto simp: spawn_as_user_def spawned_pid_def Let_def split: if_splits)

lemma verify_ok:
  assumes "verify_in_cgroup w procs cg s = Inr u" "(name, q) \<in> set procs"
  shows "in_cgroup w (su_time s) q cg"
  using assms
  by (induction w procs cg s rule: verify_in_cgroup.induct)
    (auto simp: cgroup_path_of_def in_cgroup_def split: io.splits option.splits if_splits)

lemma spawned_session_works:
  assumes scope: "\<And>cg. scope = Some cg \<Longrightarrow> own_scope (su_p s) cg \<noteq> None"
    and require: "sc_require_scope (sn_cfg (su_p s)) \<Longrightarrow> own_scope (su_p s) my_cgroup \<noteq> None"
  shows "does (work_effect w (su_p s)) s (sup_spawn w env my_cgroup scope logind s)"
proof -
  let ?p = "su_p s"
  define tpl where "tpl = \<lparr>tp_wayland_display = ''bsm-'' @ sn_session ?p, tp_session_id = sn_session ?p, tp_generation = sn_generation ?p,
    tp_runtime_dir = unwrap_or (btm_get env ''XDG_RUNTIME_DIR'') [], tp_uid = pw_uid (sn_pw ?p), tp_user = pw_name (sn_pw ?p)\<rparr>"
  obtain r1 s1 where 1: "spawn_as_user w (sn_pw ?p) (expand_argv tpl (sc_gnoblin (sn_cfg ?p))) env s = (r1, s1)" by fastforce
  obtain r2 s2 where 2: "spawn_as_user w (sn_pw ?p) (expand_argv tpl (sc_bridge (sn_cfg ?p))) (bridge_env ?p env) s1 = (r2, s2)" by fastforce
  have adds1: "adds (work_effect w ?p) s s1" using spawn_works(1) [OF 1] by blast
  have adds2: "adds (work_effect w ?p) s s2" using adds1 spawn_works(1) [OF 2, of ?p] by (blast intro: adds_trans)
  then have p: "su_p s2 = ?p" by (simp add: adds_def)
  have stop: "does (work_effect w ?p) s (and_then (sup_terminate w scope g (children_of l b) s2) (\<lambda>_ s. Ran a s))"
    if "spawned_pid w l" "b = 0 \<or> spawned_pid w b" for g l b and a :: sup_result
    using that by (intro does_trans [OF adds2] does_and_then terminate_works scope) auto
  have serve: "does (work_effect w ?p) s (sup_serve w my_cgroup scope logind l b s2)"
    if "spawned_pid w l" "spawned_pid w b" "verify_in_cgroup w [(''leader'', l), (''bridge'', b)] my_cgroup s2 = Inr u" for l b u
    using that verify_ok [OF that(3)] scope require p
    by (intro does_trans [OF adds2] serve_works [of scope s2 w l b "su_time s2" my_cgroup logind, unfolded p]) auto
  show ?thesis
    unfolding sup_spawn_def Let_def tpl_def [symmetric] 1
    using adds1 2 spawn_works(2) [OF 1] spawn_works(2) [OF 2]
    by (auto split: io.splits sum.splits prod.splits intro!: stop simp del: verify_in_cgroup.simps intro: serve)
qed

lemma runtime_adds: "does Q s (runtime_loop uid d ms s)"
  by (induction ms) auto

lemma after_open_works: "does (work_effect w (su_p s)) s (after_open w L pam s)"
proof -
  have spawn: "does (work_effect w (su_p s)) t (sup_spawn w env cg scope logind t)"
    if "adds (work_effect w (su_p s)) s t" "\<not> (own_scope (su_p s) cg = None \<and> sc_require_scope (sn_cfg (su_p s)))"
      "scope = map_option (\<lambda>_. cg) (own_scope (su_p s) cg)" for t env cg scope logind
  proof -
    have "su_p t = su_p s" using that(1) by (simp add: adds_def)
    with that(2,3) spawned_session_works [of scope t cg w env logind] show ?thesis by auto
  qed
  show ?thesis
    unfolding after_open_def Let_def by (auto split: io.splits intro!: does_and_then runtime_adds spawn)
qed

section \<open>The life of a supervisor\<close>

fun returned :: "('a, 's) ran \<Rightarrow> bool" where
  "returned (Ran a s) = True"
| "returned _ = False"

text \<open>The effects of a supervisor: the set-up; then either it never opens a session and ends, or
  it opens one and works in it, and when it ends it has closed the session and deleted the credentials
  before it said so.\<close>

definition bracketed :: "sup_world \<Rightarrow> session_params \<Rightarrow> bool \<Rightarrow> child_effect list \<Rightarrow> bool" where
  "bracketed w p over es \<longleftrightarrow>
     (\<exists>pre mid post. list_all setup_effect pre \<and> list_all (work_effect w p) mid \<and> list_all after_effect post \<and>
       (over \<and> es = pre @ post
        \<or> over \<and> (\<exists>rc rc'. rc \<noteq> PAM_SUCCESS \<and> es = pre @ [CE_Pam PF_OpenSession rc, CE_Pam (PF_Setcred PAM_DELETE_CRED) rc'] @ post)
        \<or> \<not> over \<and> es = pre @ [CE_Pam PF_OpenSession PAM_SUCCESS] @ mid
        \<or> over \<and> (\<exists>rc rc'. es = pre @ [CE_Pam PF_OpenSession PAM_SUCCESS] @ mid
             @ [CE_Pam PF_CloseSession rc, CE_Pam (PF_Setcred PAM_DELETE_CRED) rc'] @ post)))"

lemma sup_pam_returns:
  assumes "ch_phase (su_child s)"
  obtains rc h where "sup_pam w x L f call p s = Ran (pam_check L h rc) (su_fx (CE_Pam f rc) s)"
proof -
  obtain rc h where "run_call (sw_child w) x (call (pam_handle p)) (su_child s) = Ran (rc, h) (su_child s)"
    using session_call [OF assms, of "sw_child w" x "call (pam_handle p)"] by auto
  then have "sup_pam w x L f call p s = Ran (pam_check L h rc) (su_fx (CE_Pam f rc) s)"
    by (simp add: sup_pam_def pam_run_def su_fx_def)
  then show thesis by (rule that)
qed

lemma fx_parts [simp]:
  "ch_phase (su_child (su_fx e s)) = ch_phase (su_child s)" "su_p (su_fx e s) = su_p s"
  "su_effects (su_fx e s) = su_effects s @ [e]" "su_adopt_path (su_fx e s) = su_adopt_path s"
  by (simp_all add: su_fx_def child_fx_def)

lemma put_envs_adds: "put_envs L vs p s = (r, t) \<Longrightarrow> adds setup_effect s t"
proof (induction vs arbitrary: p s)
  case (Cons v vs)
  have "adds setup_effect s (su_fx (CE_Pam (PF_Putenv v) rc) s)" for rc by auto
  with Cons show ?case
    by (auto simp: Let_def split: if_splits prod.splits sum.splits intro: adds_trans)
qed simp

lemma failed_adds: "\<exists>t. sup_failed w code msg p s = Ran 1 t \<and> adds after_effect s t"
proof -
  have "adds after_effect s (sup_fail w code msg s)" unfolding sup_fail_def by (rule adds_send_parent) simp
  then show ?thesis by (auto simp: sup_failed_def sup_pam_end_def pam_end_def adds_def child_fx_def)
qed

lemma finish_adds: "\<exists>status t. sup_finish w r p s = Ran status t \<and> adds after_effect s t"
proof -
  define s1 where "s1 = (case su_adopt_path (sup_pam_end p s) of None \<Rightarrow> sup_pam_end p s | Some path \<Rightarrow> su_fx (CE_Unlink path) (sup_pam_end p s))"
  have "adds after_effect s (sup_pam_end p s)" by (auto simp: adds_def sup_pam_end_def pam_end_def child_fx_def)
  then have s1: "adds after_effect s s1" by (auto simp: s1_def split: option.splits)
  have "adds after_effect s (send_parent w ev s1)" if "\<And>r. after_effect (CE_SendSup ev r)" for ev
    using that by (intro adds_trans [OF s1] adds_send_parent)
  then have "\<exists>status t. (case r of Inr status \<Rightarrow> Ran 0 (send_parent w (SUP_Exited status) s1)
      | Inl (code, message) \<Rightarrow> Ran 1 (sup_fail w code message s1)) = Ran status t \<and> adds after_effect s t"
    by (auto simp: sup_fail_def split: sum.splits)
  then show ?thesis unfolding sup_finish_def Let_def s1_def .
qed

lemma close_handle_returns:
  assumes "ch_phase (su_child s)"
  obtains rc rc' q where "close_handle w x L p s = Ran q (su_fx (CE_Pam (PF_Setcred PAM_DELETE_CRED) rc') (su_fx (CE_Pam PF_CloseSession rc) s))"
proof -
  obtain rc h where 1: "close_pam_session w x L p s = Ran (pam_check L h rc) (su_fx (CE_Pam PF_CloseSession rc) s)"
    unfolding close_pam_session_def by (rule sup_pam_returns [OF assms])
  obtain r q where q: "pam_check L h rc = (r, q)" by fastforce
  obtain rc' h' where "delete_credentials w x L q (su_fx (CE_Pam PF_CloseSession rc) s)
      = Ran (pam_check L h' rc') (su_fx (CE_Pam (PF_Setcred PAM_DELETE_CRED) rc') (su_fx (CE_Pam PF_CloseSession rc) s))"
    unfolding delete_credentials_def using sup_pam_returns assms by (metis fx_parts(1))
  moreover obtain r' q' where "pam_check L h' rc' = (r', q')" by fastforce
  ultimately show thesis using 1 q that [of q' rc' rc] by (simp add: close_handle_def)
qed

definition lived :: "sup_world \<Rightarrow> supervisor \<Rightarrow> ('a, supervisor) ran \<Rightarrow> bool" where
  "lived w s r \<longleftrightarrow> (\<exists>es. su_effects (ran_state r) = su_effects s @ es \<and> bracketed w (su_p s) (returned r) es)"

lemma lived_early:
  assumes "adds setup_effect s t" "adds after_effect t u"
  shows "lived w s (Ran a u)"
proof -
  from assms obtain pre post where "su_effects u = su_effects s @ pre @ post" "list_all setup_effect pre" "list_all after_effect post"
    by (fastforce simp: adds_def)
  then show ?thesis unfolding lived_def bracketed_def
    by (intro exI [of _ "pre @ post"]) (simp, metis list.pred_inject(1))
qed

lemma lived_refused:
  assumes "adds setup_effect s t" "rc \<noteq> PAM_SUCCESS"
    and "adds after_effect (su_fx (CE_Pam (PF_Setcred PAM_DELETE_CRED) rc') (su_fx (CE_Pam PF_OpenSession rc) t)) u"
  shows "lived w s (Ran a u)"
proof -
  from assms obtain pre post where "su_effects u = su_effects s @ pre @ [CE_Pam PF_OpenSession rc, CE_Pam (PF_Setcred PAM_DELETE_CRED) rc'] @ post"
    "list_all setup_effect pre" "list_all after_effect post"
    by (fastforce simp: adds_def)
  with assms(2) show ?thesis unfolding lived_def bracketed_def
    by (intro exI [of _ "pre @ [CE_Pam PF_OpenSession rc, CE_Pam (PF_Setcred PAM_DELETE_CRED) rc'] @ post"]) (simp, metis list.pred_inject(1))
qed

lemma lived_open:
  assumes "adds setup_effect s t" "adds (work_effect w (su_p s)) (su_fx (CE_Pam PF_OpenSession PAM_SUCCESS) t) u"
  shows "lived w s (Waiting u)"
proof -
  from assms obtain pre mid where "su_effects u = su_effects s @ pre @ [CE_Pam PF_OpenSession PAM_SUCCESS] @ mid"
    "list_all setup_effect pre" "list_all (work_effect w (su_p s)) mid"
    by (fastforce simp: adds_def)
  then show ?thesis unfolding lived_def bracketed_def
    by (intro exI [of _ "pre @ [CE_Pam PF_OpenSession PAM_SUCCESS] @ mid"]) (simp, metis list.pred_inject(1))
qed

lemma lived_closed:
  assumes "adds setup_effect s t" "adds (work_effect w (su_p s)) (su_fx (CE_Pam PF_OpenSession PAM_SUCCESS) t) u"
    and "adds after_effect (su_fx (CE_Pam (PF_Setcred PAM_DELETE_CRED) rc') (su_fx (CE_Pam PF_CloseSession rc) u)) v"
  shows "lived w s (Ran a v)"
proof -
  from assms obtain pre mid post where "su_effects v = su_effects s @ pre @ [CE_Pam PF_OpenSession PAM_SUCCESS] @ mid
      @ [CE_Pam PF_CloseSession rc, CE_Pam (PF_Setcred PAM_DELETE_CRED) rc'] @ post"
    "list_all setup_effect pre" "list_all (work_effect w (su_p s)) mid" "list_all after_effect post"
    by (fastforce simp: adds_def)
  then show ?thesis unfolding lived_def bracketed_def
    by (intro exI [of _ "pre @ [CE_Pam PF_OpenSession PAM_SUCCESS] @ mid
      @ [CE_Pam PF_CloseSession rc, CE_Pam (PF_Setcred PAM_DELETE_CRED) rc'] @ post"]) (simp, metis)
qed

text \<open>The session once it is open.\<close>

lemma lived_session:
  assumes "adds setup_effect s t" "ch_phase (su_child t)" "s1 = su_fx (CE_Pam PF_OpenSession PAM_SUCCESS) t"
  shows "lived w s (and_then (after_open w L pam s1) (\<lambda>outcome s. and_then (close_handle w x L pam s) (\<lambda>pam s. sup_finish w outcome pam s)))"
proof -
  have p: "su_p s1 = su_p s" using assms(1,3) by (simp add: adds_def)
  have work: "does (work_effect w (su_p s)) s1 (after_open w L pam s1)" using after_open_works [of w s1 L pam] p by simp
  show ?thesis
  proof (cases "after_open w L pam s1")
    case (Ran outcome u)
    with work have u: "adds (work_effect w (su_p s)) s1 u" by simp
    then have "ch_phase (su_child u)" using assms(2,3) by (simp add: adds_def)
    then obtain rc rc' q where c: "close_handle w x L pam u
        = Ran q (su_fx (CE_Pam (PF_Setcred PAM_DELETE_CRED) rc') (su_fx (CE_Pam PF_CloseSession rc) u))" (is "_ = Ran q ?v")
      by (rule close_handle_returns)
    obtain status v where "sup_finish w outcome q ?v = Ran status v" "adds after_effect ?v v" using finish_adds by blast
    with Ran c lived_closed [OF assms(1) u [unfolded assms(3)]] show ?thesis by simp
  next
    case (Waiting u)
    with work lived_open [OF assms(1)] assms(3) show ?thesis by simp
  qed (use work in simp)
qed

lemma lived_failed:
  assumes "\<And>u. adds after_effect t u \<Longrightarrow> lived w s (Ran (1 :: i32) u)"
  shows "lived w s (sup_failed w code msg p t)"
  using failed_adds [of w code msg p t] assms by auto

lemma run_lived:
  assumes "ch_phase (su_child s)"
  shows "lived w s (sup_run w x L pam s)"
proof -
  obtain r p1 s1 where 1: "put_envs L (pam_session_vars (sup_inputs w (su_p s))) pam s = ((r, p1), s1)" by (metis prod.exhaust)
  then have s1: "adds setup_effect s s1" by (rule put_envs_adds)
  then have ph1: "ch_phase (su_child s1)" using assms by (simp add: adds_def)
  obtain rc2 h2 where 2: "establish_credentials w x L p1 s1 = Ran (pam_check L h2 rc2) (su_fx (CE_Pam (PF_Setcred PAM_ESTABLISH_CRED) rc2) s1)"
    unfolding establish_credentials_def by (rule sup_pam_returns [OF ph1])
  define s2 where "s2 = su_fx (CE_Pam (PF_Setcred PAM_ESTABLISH_CRED) rc2) s1"
  have s2: "adds setup_effect s s2" "ch_phase (su_child s2)" using s1 ph1 by (auto simp: s2_def)
  obtain r2 p2 where p2: "pam_check L h2 rc2 = (r2, p2)" by fastforce
  obtain rc3 h3 where 3: "open_pam_session w x L p2 s2 = Ran (pam_check L h3 rc3) (su_fx (CE_Pam PF_OpenSession rc3) s2)"
    unfolding open_pam_session_def by (rule sup_pam_returns [OF s2(2)])
  define s3 where "s3 = su_fx (CE_Pam PF_OpenSession rc3) s2"
  have ph3: "ch_phase (su_child s3)" using s2 by (simp add: s3_def)
  obtain r3 p3 where p3: "pam_check L h3 rc3 = (r3, p3)" by fastforce
  obtain rc4 h4 where 4: "delete_credentials w x L p3 s3 = Ran (pam_check L h4 rc4) (su_fx (CE_Pam (PF_Setcred PAM_DELETE_CRED) rc4) s3)"
    unfolding delete_credentials_def by (rule sup_pam_returns [OF ph3])
  obtain r4 p4 where p4: "pam_check L h4 rc4 = (r4, p4)" by fastforce
  obtain rc5 rc6 q where 5: "close_handle w x L p3 s3
      = Ran q (su_fx (CE_Pam (PF_Setcred PAM_DELETE_CRED) rc6) (su_fx (CE_Pam PF_CloseSession rc5) s3))"
    by (rule close_handle_returns [OF ph3])
  have rc3: "(\<exists>e. r3 = Inl e) \<longleftrightarrow> rc3 \<noteq> PAM_SUCCESS" using p3 by (auto simp: pam_check_def split: if_splits)
  have opened: "lived w s (case check_user (sw_child w) L p3 (pw_uid (sn_pw (su_p s3))) (su_child s3) of
       Inl m \<Rightarrow> and_then (close_handle w x L p3 s3) (\<lambda>pam s. sup_failed w E_PamFailure m pam s)
     | Inr _ \<Rightarrow> and_then (after_open w L p3 s3) (\<lambda>outcome s. and_then (close_handle w x L p3 s) (\<lambda>pam s. sup_finish w outcome pam s)))"
    if "rc3 = PAM_SUCCESS"
  proof -
    have s3: "s3 = su_fx (CE_Pam PF_OpenSession PAM_SUCCESS) s2" using that by (simp add: s3_def)
    show ?thesis
      using lived_session [OF s2 s3] lived_closed [OF s2(1) adds_refl, folded s3]
      by (auto simp: 5 split: sum.splits intro!: lived_failed)
  qed
  show ?thesis
    unfolding sup_run_def 1
    using rc3 opened lived_early [OF s1] lived_early [OF s2(1)] lived_refused [OF s2(1), of rc3, folded s3_def]
    by (auto simp: 2 p2 3 p3 4 p4 s2_def [symmetric] s3_def [symmetric] split: sum.splits intro!: lived_failed)
qed

lemma main_bracketed:
  "\<exists>es. su_effects (ran_state (supervisor_main w x L sk pam p c)) = ch_fx c @ es
      \<and> bracketed w p (returned (supervisor_main w x L sk pam p c)) es"
proof (cases "sw_signal_fd w")
  case (Io_Ok u)
  with run_lived [of "\<lparr>su_parent = Some sk, su_p = p, su_listener = False, su_adopt_path = None, su_child = c\<lparr>ch_phase := True\<rparr>\<rparr>" w x L pam]
  show ?thesis by (simp add: supervisor_main_def lived_def)
next
  case (Io_Err e)
  have "bracketed w p True [CE_SendSup (SUP_Failed E_Internal e) r, CE_PamEnd rc]" for r rc
    unfolding bracketed_def
    by (rule exI [of _ "[]"], rule exI [of _ "[]"], rule exI [of _ "[CE_SendSup (SUP_Failed E_Internal e) r, CE_PamEnd rc]"]) simp
  with Io_Err show ?thesis by (simp add: supervisor_main_def Let_def sup_pam_end_def pam_end_def child_fx_def su_fx_def)
qed


section \<open>A concrete session\<close>

definition demo_base :: session_base where
  "demo_base = \<lparr>sb_pw = demo_account, sb_cfg = session_config_default\<lparr>sc_require_user_runtime := False\<rparr>, sb_state_dir = ''/run/bsm-helper'',
     sb_helper_cgroup = Some ''/system.slice/bsm-helper.service''\<rparr>"

definition demo_start_params :: start_params where
  "demo_start_params = \<lparr>sp_session = ''s0000abcd'', sp_generation = 9, sp_host_socket = ''/run/bsm/sessions/s0000abcd-9.sock'',
     sp_output_hints = [(1920, 1080)]\<rparr>"

definition demo_look :: "instant \<Rightarrow> member_poll" where
  "demo_look t = \<lparr>mp_now = t, mp_reaped = [], mp_procs = [20, 30, 31], mp_populated = Some True\<rparr>"

definition demo_sup_world :: "instant \<Rightarrow> sup_world" where
  "demo_sup_world T =
     \<lparr>sw_child = demo_child_world, sw_signal_fd = Io_Ok (), sw_locale_conf = None, sw_pid = 20, sw_euid = 0, sw_now = \<lambda>n. 0,
      sw_proc_cgroup = \<lambda>n p. Io_Ok ''0::/user.slice/user-1000.slice/session-5.scope'',
      sw_runtime_polls = [\<lparr>rp_now = T, rp_meta = Some \<lparr>fm_type = FT_Dir, fm_uid = 1000, fm_mode = 0x1C0\<rparr>, rp_bus = True\<rparr>],
      sw_spawn = \<lambda>n. Io_Ok (30 + n), sw_listen = Io_Ok (),
      sw_turns = [\<lparr>tn_reaped = [], tn_poll_ok = True, tn_signals = [Sig_Term], tn_parent = [], tn_adopter = None\<rparr>,
        \<lparr>tn_reaped = [], tn_poll_ok = True, tn_signals = [], tn_parent = [], tn_adopter = None\<rparr>],
      sw_member_polls = [demo_look 0, demo_look T, demo_look T], sw_move_self = True, sw_cgroup_kill = True\<rparr>"

definition demo_login_turns :: "child_turn list" where
  "demo_login_turns = [CT_Ready (In_Msg (APC_Response ''secret'')), CT_Ready (In_Msg (APC_StartSession demo_start_params))]"

definition demo_running_world :: sup_world where
  "demo_running_world = (demo_sup_world 9)\<lparr>sw_turns := []\<rparr>"

definition demo_handle :: "string pam" where
  "demo_handle = \<lparr>pam_handle = ''ann'', pam_last = PAM_SUCCESS\<rparr>"

definition demo_passed :: child where
  "demo_passed = ran_state (child_decides demo_child_world demo_pam demo_params True (child_start demo_login_turns))"

definition demo_sup0 :: supervisor where
  "demo_sup0 = \<lparr>su_parent = Some 3, su_p = base_with demo_base demo_start_params, su_listener = False, su_adopt_path = None,
     su_child = demo_passed\<lparr>ch_phase := True\<rparr>\<rparr>"

definition demo_sup1 :: supervisor where
  "demo_sup1 = snd (put_envs demo_pam (pam_session_vars (sup_inputs demo_running_world (su_p demo_sup0))) demo_handle demo_sup0)"

definition demo_sup2 :: supervisor where
  "demo_sup2 = su_fx (CE_Pam PF_OpenSession PAM_SUCCESS) (su_fx (CE_Pam (PF_Setcred PAM_ESTABLISH_CRED) PAM_SUCCESS) demo_sup1)"

definition demo_cgroup :: string where
  "demo_cgroup = ''/user.slice/user-1000.slice/session-5.scope''"

fun is_spawn :: "child_effect \<Rightarrow> bool" where
  "is_spawn (CE_Spawn pw argv env home r) = True"
| "is_spawn _ = False"

definition demo_served :: "(sup_result, supervisor) ran" where
  "demo_served = sup_spawn demo_running_world (session_env (sup_inputs demo_running_world (su_p demo_sup2)) []) demo_cgroup
     (Some demo_cgroup) None demo_sup2"

lemma demo_steps:
  "child_decides demo_child_world demo_pam demo_params True (child_start demo_login_turns)
     = Ran (Parked_Start demo_start_params demo_handle) demo_passed"
  "put_envs demo_pam (pam_session_vars (sup_inputs demo_running_world (su_p demo_sup0))) demo_handle demo_sup0 = ((Inr (), demo_handle), demo_sup1)"
  "establish_credentials demo_running_world True demo_pam demo_handle demo_sup1
     = Ran (Inr (), demo_handle) (su_fx (CE_Pam (PF_Setcred PAM_ESTABLISH_CRED) PAM_SUCCESS) demo_sup1)"
  "open_pam_session demo_running_world True demo_pam demo_handle (su_fx (CE_Pam (PF_Setcred PAM_ESTABLISH_CRED) PAM_SUCCESS) demo_sup1)
     = Ran (Inr (), demo_handle) demo_sup2"
  "check_user demo_child_world demo_pam demo_handle (pw_uid (sn_pw (su_p demo_sup2))) (su_child demo_sup2) = Inr ()"
  by code_simp+

lemma demo_steps2:
  "cgroup_path_of demo_running_world (sw_pid demo_running_world) demo_sup2 = Io_Ok demo_cgroup"
  "own_scope (su_p demo_sup2) demo_cgroup = Some ''session-5.scope''"
  "sc_require_user_runtime (sn_cfg (su_p demo_sup2)) = False"
  "case demo_served of Waiting s \<Rightarrow> list_ex is_spawn (ch_fx (su_child s)) | _ \<Rightarrow> False"
  by code_simp+

lemma demo_log:
  "list_ex is_spawn (ch_fx (ran_state (child_main demo_running_world demo_pam 3 demo_params (Some demo_base) (child_start demo_login_turns))))"
proof -
  obtain s where s: "demo_served = Waiting s" "list_ex is_spawn (ch_fx (su_child s))"
    using demo_steps2(4) by (auto split: ran.splits)
  have w: "sw_child demo_running_world = demo_child_world" "sw_signal_fd demo_running_world = Io_Ok ()"
    by (simp_all add: demo_running_world_def demo_sup_world_def)
  have pam: "pl_getenvlist demo_pam h = []" "pl_getenv demo_pam v h = None" for v h by (simp_all add: demo_pam_def)
  have x: "ap_exit_on_interrupt demo_params" by (simp add: demo_params_def)
  have "after_open demo_running_world demo_pam demo_handle demo_sup2 = Waiting s"
    using demo_steps2(1-3) s(1) by (simp add: after_open_def Let_def pam demo_served_def)
  then have "sup_run demo_running_world True demo_pam demo_handle demo_sup0 = Waiting s"
    by (simp add: sup_run_def demo_steps w)
  with s(2) show ?thesis
    by (simp add: child_main_def w demo_steps x supervisor_main_def demo_sup0_def [symmetric])
qed

section \<open>From the first prompt to the desktop\<close>

lemma parked_start:
  "wait_parked p ts c = Ran (Parked_Start sp q) c' \<Longrightarrow> q = p \<and> CT_Ready (In_Msg (APC_StartSession sp)) \<in> set ts \<and> ch_fx c' = ch_fx c"
  by (induction p ts c rule: wait_parked.induct) auto

lemma authenticated_turns:
  assumes "authenticated w L params c p c'"
  shows "set (ch_turns c') \<subseteq> set (ch_turns c)"
proof -
  have call: "run_call w x call u = Ran a v \<Longrightarrow> set (ch_turns v) \<subseteq> set (ch_turns u)" for x u v a and call :: "'a pam_call"
    using talks_call [of x u w call] by simp
  from assms obtain h0 h1 h2 c1 c2 where "run_call w (ap_exit_on_interrupt params) (pl_authenticate L h0) c = Ran (PAM_SUCCESS, h1) c1"
    "run_call w (ap_exit_on_interrupt params) (pl_acct_mgmt L h1) (child_fx (CE_Pam PF_Authenticate PAM_SUCCESS) c1) = Ran (PAM_SUCCESS, h2) c2"
    "c' = child_fx (CE_Pam PF_AcctMgmt PAM_SUCCESS) c2"
    unfolding authenticated_def by blast
  then have "set (ch_turns c1) \<subseteq> set (ch_turns c)" "set (ch_turns c') \<subseteq> set (ch_turns c1)"
    using call [of _ "pl_authenticate L h0" c] call [of _ "pl_acct_mgmt L h1" "child_fx (CE_Pam PF_Authenticate PAM_SUCCESS) c1"]
    by (auto simp: child_fx_def)
  then show ?thesis by blast
qed

lemma bracketed_spawn:
  assumes "bracketed w p over es" "CE_Spawn pw argv env home r \<in> set es"
  shows "\<exists>pre mid. es = pre @ CE_Pam PF_OpenSession PAM_SUCCESS # mid \<and> CE_Spawn pw argv env home r \<in> set mid \<and> pw = sn_pw p"
proof -
  let ?e = "CE_Spawn pw argv env home r"
  have mem: "list_all Q xs \<Longrightarrow> ?e \<in> set xs \<Longrightarrow> Q ?e" for Q xs by (simp add: list_all_iff)
  obtain pre mid post where kinds: "list_all setup_effect pre" "list_all (work_effect w p) mid" "list_all after_effect post"
    and es: "es = pre @ post \<or> (\<exists>rc rc'. es = pre @ [CE_Pam PF_OpenSession rc, CE_Pam (PF_Setcred PAM_DELETE_CRED) rc'] @ post)
      \<or> es = pre @ [CE_Pam PF_OpenSession PAM_SUCCESS] @ mid
      \<or> (\<exists>rc rc'. es = pre @ [CE_Pam PF_OpenSession PAM_SUCCESS] @ mid @ [CE_Pam PF_CloseSession rc, CE_Pam (PF_Setcred PAM_DELETE_CRED) rc'] @ post)"
    using assms(1) unfolding bracketed_def by blast
  have no: "?e \<notin> set pre" "?e \<notin> set post" using kinds(1,3) by (auto dest!: mem)
  with es assms(2) have mid: "?e \<in> set mid" and "\<exists>rest. es = pre @ CE_Pam PF_OpenSession PAM_SUCCESS # mid @ rest" by auto
  then obtain rest where "es = pre @ CE_Pam PF_OpenSession PAM_SUCCESS # mid @ rest" by blast
  with mid mem [OF kinds(2) mid] show ?thesis by (intro exI [of _ pre] exI [of _ "mid @ rest"]) simp
qed

text \<open>A child that is told to start a session has passed, and its effects so far are those of an
  authentication.\<close>

fun auth_effect :: "child_effect \<Rightarrow> bool" where
  "auth_effect (CE_Send ev r) = True"
| "auth_effect (CE_Pam f rc) = True"
| "auth_effect (CE_PamEnd rc) = True"
| "auth_effect _ = False"

lemma plain_auth: "plain e \<Longrightarrow> auth_effect e"
  by (cases e) auto

lemma decides_auth_effects: "list_all auth_effect (ch_fx (ran_state (child_decides w L params startable (child_start turns))))"
proof -
  have "is_pam_end e \<Longrightarrow> auth_effect e" "quiet e \<Longrightarrow> auth_effect e" for e by (cases e; simp)+
  then show ?thesis
    by (cases rule: child_cases [of w L params startable turns]) (auto simp: list_all_iff plain_auth)
qed

lemma decides_start:
  assumes "child_decides w L params startable (child_start turns) = Ran (Parked_Start sp p) c"
  shows "\<exists>c'. authenticated w L params (child_start turns) p c'" "CT_Ready (In_Msg (APC_StartSession sp)) \<in> set turns"
proof -
  have conc: "concluded w L params (child_start turns) (run_conversation w L params (child_start turns))"
    by (rule conversation_concluded) simp_all
  from assms obtain ev auth c1 where run: "run_conversation w L params (child_start turns) = Ran (ev, auth) c1"
    by (cases "run_conversation w L params (child_start turns)") (auto simp: child_decides_def)
  define c2 where "c2 = snd (send_event w ev c1)"
  have turns2: "ch_turns c2 = ch_turns c1" by (simp add: c2_def send_event_def Let_def child_fx_def)
  from assms run obtain q where q: "auth = Some q" "wait_parked q (ch_turns c2) c2 = Ran (Parked_Start sp p) c"
    by (auto simp: child_decides_def Let_def c2_def split: option.splits if_splits)
  with conc run have "authenticated w L params (child_start turns) q c1" by simp
  with parked_start [OF q(2)] turns2 authenticated_turns
  show "\<exists>c'. authenticated w L params (child_start turns) p c'" "CT_Ready (In_Msg (APC_StartSession sp)) \<in> set turns" by force+
qed

text \<open>
  C10. A process that the helper forks for a login starts a program only after PAM authenticated the
  user and accepted the account, the helper told it to start a session, and PAM opened the
  session; and it starts it as the account the helper resolved.
\<close>

theorem desktop_needs_login:
  assumes "CE_Spawn pw argv env home r \<in> set (ch_fx (ran_state (child_main w L sk params base (child_start turns))))"
  shows "\<exists>p c' b sp pre mid. authenticated (sw_child w) L params (child_start turns) p c' \<and> base = Some b \<and> pw = sb_pw b
      \<and> CT_Ready (In_Msg (APC_StartSession sp)) \<in> set turns
      \<and> ch_fx (ran_state (child_main w L sk params base (child_start turns))) = pre @ CE_Pam PF_OpenSession PAM_SUCCESS # mid
      \<and> CE_Spawn pw argv env home r \<in> set mid"
proof -
  let ?d = "child_decides (sw_child w) L params (base \<noteq> None) (child_start turns)"
  have auth: "list_all auth_effect (ch_fx (ran_state ?d))" by (rule decides_auth_effects)
  obtain sp p c where d: "?d = Ran (Parked_Start sp p) c"
  proof (cases ?d)
    case (Ran e c)
    with assms auth that show thesis
      by (cases e) (auto simp: child_main_def list_all_iff)
  qed (use assms auth in \<open>auto simp: child_main_def list_all_iff\<close>)
  have nospawn: "CE_Spawn pw argv env home r \<notin> set (ch_fx c)" using auth d by (auto simp: list_all_iff)
  with assms d obtain b where b: "base = Some b" by (auto simp: child_main_def split: option.splits)
  define m where "m = supervisor_main w (ap_exit_on_interrupt params) L sk p (base_with b sp) c"
  have main: "ch_fx (ran_state (child_main w L sk params base (child_start turns))) = su_effects (ran_state m)"
    using d b by (cases m) (auto simp: child_main_def m_def)
  obtain es where es: "su_effects (ran_state m) = ch_fx c @ es" "bracketed w (base_with b sp) (returned m) es"
    using main_bracketed unfolding m_def by blast
  with assms main nospawn have "CE_Spawn pw argv env home r \<in> set es" by auto
  from bracketed_spawn [OF es(2) this] obtain pre mid where "es = pre @ CE_Pam PF_OpenSession PAM_SUCCESS # mid"
    "CE_Spawn pw argv env home r \<in> set mid" "pw = sb_pw b" by (auto simp: base_with_def)
  with decides_start [OF d] main es(1) b show ?thesis by (metis append.assoc)
qed

theorem desktop_needs_login_witness:
  "\<exists>pre mid. ch_fx (ran_state (child_main demo_running_world demo_pam 3 demo_params (Some demo_base) (child_start demo_login_turns)))
      = pre @ CE_Pam PF_OpenSession PAM_SUCCESS # mid
      \<and> (\<exists>argv env home r. CE_Spawn demo_account argv env home r \<in> set mid)"
proof -
  obtain e where e: "is_spawn e" "e \<in> set (ch_fx (ran_state (child_main demo_running_world demo_pam 3 demo_params (Some demo_base)
      (child_start demo_login_turns))))"
    using demo_log unfolding list_ex_iff by blast
  then obtain pw argv env home r where "e = CE_Spawn pw argv env home r" by (cases e) auto
  with e(2) desktop_needs_login [of pw argv env home r demo_running_world demo_pam 3 demo_params "Some demo_base" demo_login_turns]
  show ?thesis by (auto simp: demo_base_def) blast
qed

section \<open>A session ends when it is told to\<close>

text \<open>How many looks at the members come at or after a time.\<close>

definition late :: "instant \<Rightarrow> member_poll list \<Rightarrow> nat" where
  "late T ms = length (filter (\<lambda>m. mp_now m \<ge> T) ms)"

lemma grace_returns:
  assumes "d \<le> T" "late T ms \<ge> Suc n"
  shows "\<exists>ms' ch' s'. grace_loop w scope d ms ch s = Ran (ms', ch') s' \<and> late T ms' \<ge> n"
  using assms(2)
proof (induction ms arbitrary: ch)
  case (Cons m ms)
  show ?case
  proof (cases "mp_now m \<ge> d")
    case True
    with Cons.prems show ?thesis by (auto simp: late_def split: if_splits)
  next
    case False
    then have "late T ms \<ge> Suc n" using Cons.prems assms(1) by (auto simp: late_def split: if_splits)
    with Cons.IH False show ?thesis by (auto split: prod.splits)
  qed
qed (simp add: late_def)

lemma empty_returns: "e \<le> T \<Longrightarrow> late T ms \<ge> 1 \<Longrightarrow> \<exists>ch' s'. empty_loop e ms ch s = Ran ch' s'"
  by (induction ms arbitrary: ch) (auto simp: late_def Let_def split: if_splits)

lemma sweep_returns: "e \<le> T \<Longrightarrow> late T ms \<ge> 1 \<Longrightarrow> \<exists>ch' s'. sweep_loop w scope e ms ch s = Ran ch' s'"
  by (induction ms arbitrary: ch s) (fastforce simp: late_def Let_def split: if_splits prod.splits)+

lemma forced_returns:
  assumes "\<And>n. sw_now w n + from_secs 5 \<le> T" "late T ms \<ge> 1"
  shows "\<exists>ch' s'. terminate_forced w scope ms ch s = Ran ch' s'"
  using sweep_returns [OF assms(1,2)] empty_returns [OF assms(1,2)]
  by (auto simp: terminate_forced_def Let_def split: option.splits)

lemma terminate_returns:
  assumes now: "\<And>n. sw_now w n + from_millis g + from_secs 5 \<le> T" and polls: "late T (tl (sw_member_polls w)) \<ge> 2"
  shows "\<exists>ch' s'. sup_terminate w scope g ch s = Ran ch' s'"
proof (cases "sw_member_polls w")
  case (Cons m ms)
  have "sw_now w n + from_millis g \<le> T" "sw_now w n + from_secs 5 \<le> T" for n using now [of n] by simp_all
  moreover have "late T ms \<ge> Suc 1" using polls Cons by simp
  ultimately have "\<exists>ch' s'. and_then (grace_loop w scope (sw_now w n + from_millis g) ms ch s)
      (\<lambda>(ms, ch) s. terminate_forced w scope ms ch s) = Ran ch' s'" for n ch s
    using grace_returns [of _ T 1 ms w scope ch s] forced_returns [of w T] by (metis (no_types, lifting) and_then.simps(1) prod.case)
  with Cons show ?thesis by (auto simp: sup_terminate_def Let_def split: prod.splits)
qed (use polls in \<open>simp add: late_def\<close>)

definition readable_turn :: "sup_turn \<Rightarrow> bool" where
  "readable_turn t \<longleftrightarrow> In_Bad \<notin> set (tn_parent t)"

lemma read_parent_answers:
  "ms \<noteq> [] \<Longrightarrow> In_Bad \<notin> set ms \<Longrightarrow> \<exists>c t. read_parent ms close s = Some (c, t) \<and> (close \<noteq> None \<longrightarrow> c \<noteq> None)"
  by (cases "(ms, close, s)" rule: read_parent.cases) auto

lemma turn_goes_on:
  assumes "readable_turn t"
  shows "\<exists>c' u. (if su_parent s = None \<or> tn_parent t = [] then Some (c, s) else read_parent (tn_parent t) c s) = Some (c', u)
    \<and> (c \<noteq> None \<longrightarrow> c' \<noteq> None)"
  using assms read_parent_answers [of "tn_parent t" c s] unfolding readable_turn_def
  by (cases "su_parent s = None \<or> tn_parent t = []") auto

lemma loop_returns:
  assumes "Sig_Term \<in> set (tn_signals t)" "tn_poll_ok t" "list_all readable_turn (a @ [t])"
  shows "\<exists>r s'. sup_loop w opened (a @ t # b # c) ch close s = Ran r s'"
  using assms(3)
proof (induction a arbitrary: ch close s)
  case Nil
  let ?c = "Some (sc_default_grace_ms (sn_cfg (su_p s)))"
  obtain c' u where "(if su_parent s = None \<or> tn_parent t = [] then Some (?c, s) else read_parent (tn_parent t) ?c s) = Some (c', u)" "c' \<noteq> None"
    using turn_goes_on [of t s ?c] Nil by (metis append_Nil list.pred_inject(2) option.distinct(1))
  moreover have "list_ex (\<lambda>g. g = Sig_Term \<or> g = Sig_Int) (tn_signals t)" using assms(1) by (auto simp: list_ex_iff)
  ultimately show ?case using assms(2) by (simp add: Let_def)
next
  case (Cons t' a)
  let ?c = "if list_ex (\<lambda>g. g = Sig_Term \<or> g = Sig_Int) (tn_signals t') then Some (sc_default_grace_ms (sn_cfg (su_p s))) else close"
  obtain c' u where u: "(if su_parent s = None \<or> tn_parent t' = [] then Some (?c, s) else read_parent (tn_parent t') ?c s) = Some (c', u)"
    using turn_goes_on [of t' s ?c] Cons.prems by (metis append_Cons list.pred_inject(2))
  from Cons show ?case unfolding append_Cons sup_loop.simps Let_def u by simp
qed

text \<open>An undecodable datagram of the helper leaves the supervisor in \<^verbatim>\<open>recv\<close>: it no longer sees a
  signal or the end of the desktop, whatever happens afterwards, until the helper sends again.\<close>

lemma bad_datagram_blocks:
  assumes "tn_parent t = [In_Bad]" "su_parent s \<noteq> None" "tn_poll_ok t" "children_ended (reap_into (tn_reaped t) ch) = None"
  shows "sup_loop w opened (t # ts) ch None s = Waiting s"
  using assms by (auto simp: Let_def)

text \<open>What has to happen for a session to be told to end, and the time to pass that its loops wait for:
  a turn with SIGTERM and one after it, no undecodable datagram of the helper before, a look at the runtime directory and two at the members after
  every deadline. A grace period is a 32-bit number of milliseconds.\<close>

definition told_to_stop :: "sup_world \<Rightarrow> session_params \<Rightarrow> instant \<Rightarrow> bool" where
  "told_to_stop w p T \<longleftrightarrow>
     (\<forall>n. sw_now w n + from_millis (2 ^ 32) + from_secs 5 \<le> T \<and> sw_now w n + from_secs (unat (sc_runtime_wait_secs (sn_cfg p))) \<le> T)
     \<and> late T (tl (sw_member_polls w)) \<ge> 2 \<and> list_ex (\<lambda>m. rp_now m \<ge> T) (sw_runtime_polls w)
     \<and> (\<exists>a t b c. sw_turns w = a @ t # b # c \<and> Sig_Term \<in> set (tn_signals t) \<and> tn_poll_ok t \<and> list_all readable_turn (a @ [t]))"

lemma runtime_returns: "d \<le> T \<Longrightarrow> list_ex (\<lambda>m. rp_now m \<ge> T) ms \<Longrightarrow> \<exists>r. runtime_loop uid d ms s = Ran r s"
  by (induction ms) auto

lemma from_millis_mono: "a \<le> b \<Longrightarrow> from_millis a \<le> from_millis b"
  by (simp add: from_millis_def)

lemma stops_within:
  assumes "told_to_stop w p T" "g \<le> 2 ^ 32"
  shows "\<exists>ch' s'. sup_terminate w scope g ch s = Ran ch' s'"
proof (rule terminate_returns)
  show "sw_now w n + from_millis g + from_secs 5 \<le> T" for n
    using assms(1) from_millis_mono [OF assms(2)] unfolding told_to_stop_def by (meson add_le_mono le_refl order_trans)
  show "late T (tl (sw_member_polls w)) \<ge> 2" using assms(1) by (simp add: told_to_stop_def)
qed

lemma grace_bound: "unat (g :: u32) \<le> 2 ^ 32"
  using unsigned_less [of g, where 'a = nat] by simp

lemma and_then_returns:
  assumes "\<exists>a t. r = Ran a t" "\<And>a t. r = Ran a t \<Longrightarrow> \<exists>b u. f a t = Ran b u"
  shows "\<exists>b u. and_then r f = Ran b u"
  using assms by auto

lemma serve_returns:
  assumes "told_to_stop w p T"
  shows "\<exists>r s'. sup_serve w cg scope logind l b s = Ran r s'"
proof -
  have "\<exists>r s'. sup_loop w opened (sw_turns w) ch close t = Ran r s'" for opened ch close t
    using assms loop_returns unfolding told_to_stop_def by metis
  then show ?thesis
    unfolding sup_serve_def Let_def
    by (intro and_then_returns) (auto split: prod.splits intro!: and_then_returns stops_within [OF assms grace_bound])
qed

lemma spawn_returns:
  assumes "told_to_stop w p T"
  shows "\<exists>r s'. sup_spawn w env cg scope logind s = Ran r s'"
proof -
  have "\<exists>r s'. and_then (sup_terminate w scope 1000 ch t) (\<lambda>_ s. Ran a s) = Ran r s'" for ch t and a :: sup_result
    by (intro and_then_returns stops_within [OF assms]) auto
  with serve_returns [OF assms] show ?thesis
    by (auto simp: sup_spawn_def Let_def simp del: verify_in_cgroup.simps split: io.splits prod.splits sum.splits)
qed

lemma after_open_returns:
  assumes "told_to_stop w (su_p s) T"
  shows "\<exists>r s'. after_open w L pam s = Ran r s'"
proof -
  have "\<exists>r u. runtime_loop uid (sw_now w n + from_secs (unat (sc_runtime_wait_secs (sn_cfg (su_p s))))) (sw_runtime_polls w) t = Ran r u" for uid n t
    using assms runtime_returns unfolding told_to_stop_def by blast
  then show ?thesis
    unfolding after_open_def Let_def
    by (auto split: io.splits intro!: and_then_returns spawn_returns [OF assms])
qed

lemma finish_returns: "\<exists>status t. sup_finish w r p s = Ran status t" and failed_returns: "\<exists>status t. sup_failed w code msg p s = Ran status t"
  using finish_adds failed_adds by blast+

lemma pam_returns:
  "ch_phase (su_child s) \<Longrightarrow> \<exists>r q t. sup_pam w x L f call p s = Ran (r, q) t \<and> ch_phase (su_child t) \<and> su_p t = su_p s"
  by (metis sup_pam_returns fx_parts(1,2) prod.exhaust)

lemma close_handle_ends: "ch_phase (su_child s) \<Longrightarrow> \<exists>q t. close_handle w x L p s = Ran q t"
  by (metis close_handle_returns)

lemma session_returns:
  assumes "told_to_stop w (su_p s) T" "ch_phase (su_child s)"
  shows "\<exists>status t. and_then (after_open w L pam s) (\<lambda>outcome s. and_then (close_handle w x L pam s) (\<lambda>pam s. sup_finish w outcome pam s)) = Ran status t"
proof (intro and_then_returns after_open_returns [OF assms(1)] finish_returns close_handle_ends)
  fix r t assume "after_open w L pam s = Ran r t"
  with after_open_works [of w s L pam] assms(2) show "ch_phase (su_child t)" by (simp add: adds_def)
qed

lemma run_returns:
  assumes "told_to_stop w (su_p s) T" "ch_phase (su_child s)"
  shows "\<exists>status t. sup_run w x L pam s = Ran status t"
proof -
  obtain r p1 s1 where 1: "put_envs L (pam_session_vars (sup_inputs w (su_p s))) pam s = ((r, p1), s1)" by (metis prod.exhaust)
  then have s1: "ch_phase (su_child s1)" "su_p s1 = su_p s" using put_envs_adds [OF 1] assms(2) by (auto simp: adds_def)
  obtain r2 p2 s2 where 2: "establish_credentials w x L p1 s1 = Ran (r2, p2) s2" and s2: "ch_phase (su_child s2)" "su_p s2 = su_p s"
    using pam_returns [OF s1(1)] s1(2) unfolding establish_credentials_def by metis
  obtain r3 p3 s3 where 3: "open_pam_session w x L p2 s2 = Ran (r3, p3) s3" and s3: "ch_phase (su_child s3)" "su_p s3 = su_p s"
    using pam_returns [OF s2(1)] s2(2) unfolding open_pam_session_def by metis
  obtain r4 p4 s4 where 4: "delete_credentials w x L p3 s3 = Ran (r4, p4) s4"
    using pam_returns [OF s3(1)] unfolding delete_credentials_def by metis
  have closed: "\<exists>status t. and_then (close_handle w x L p3 s3) (\<lambda>pam s. sup_failed w E_PamFailure m pam s) = Ran status t" for m
    by (intro and_then_returns close_handle_ends s3 failed_returns)
  show ?thesis
    unfolding sup_run_def 1 using session_returns [of w s3 T L p3 x] assms(1) s3 closed failed_returns
    by (auto simp: 2 3 4 split: sum.splits)
qed

text \<open>
  C18. A session supervisor that gets a SIGTERM always ends, however PAM answers and however the
  processes of the session behave, as long as time passes and every datagram the helper sent it
  can be decoded: every other loop it runs has a deadline. By the bracket it has then closed the PAM
  session.
\<close>

theorem supervisor_stops:
  assumes "told_to_stop w p T"
  shows "\<exists>status s. supervisor_main w x L sk pam p c = Ran status s"
proof (cases "sw_signal_fd w")
  case (Io_Ok u)
  show ?thesis unfolding supervisor_main_def Io_Ok Let_def io.case by (rule run_returns [where T = T]) (simp_all add: assms)
qed (simp add: supervisor_main_def Let_def)

theorem supervisor_stops_witness:
  "\<exists>status s. supervisor_main (demo_sup_world (10 ^ 19)) True demo_pam 3 \<lparr>pam_handle = ''ann'', pam_last = PAM_SUCCESS\<rparr>
      (base_with demo_base demo_start_params) (child_start []) = Ran status s"
proof (rule supervisor_stops [where T = "10 ^ 19"])
  show "told_to_stop (demo_sup_world (10 ^ 19)) (base_with demo_base demo_start_params) (10 ^ 19)"
    by (auto simp: told_to_stop_def demo_sup_world_def demo_look_def late_def base_with_def demo_base_def session_config_default_def
        readable_turn_def from_millis_def from_secs_def intro: exI [of _ "[]"])
qed

end
