(* ===== verification/Helper_Whole.thy ===== *)
theory Helper_Whole
  imports Helper_Theorems Helper_Desktop
begin

text \<open>
  The helper together with the processes it forks: the sockets carry what was sent, so a session
  that the helper starts belongs to an account whose login PAM accepted in the process it forked for
  that account.
\<close>

section \<open>The current conversation and its process\<close>

definition forks :: "sys_effect list \<Rightarrow> (pid \<times> auth_params \<times> bool) list" where
  "forks es = List.map_filter (\<lambda>e. case e of Fx_ForkAuth p params b \<Rightarrow> Some (p, params, b) | _ \<Rightarrow> None) es"

lemma forks_simps [simp]:
  "forks [] = []" "forks (xs @ ys) = forks xs @ forks ys" "forks [Fx_ForkAuth p params b] = [(p, params, b)]"
  by (simp_all add: forks_def List.map_filter_def)

lemma forks_harmless: "list_all harmless es \<Longrightarrow> forks es = []"
proof (induction es)
  case (Cons e es)
  then show ?case by (cases e) (simp_all add: forks_def List.map_filter_def)
qed simp

text \<open>A conversation belongs to the process forked last, with the parameters it was forked with.\<close>

definition forked_for :: "server \<Rightarrow> auth_conv \<Rightarrow> bool" where
  "forked_for s conv \<longleftrightarrow>
     (\<exists>params. forks (sv_fx s) \<noteq> [] \<and> last (forks (sv_fx s)) = (ac_pid conv, params, ac_startable conv)
        \<and> ap_uid params = ac_uid conv \<and> ap_user params = ac_user conv)"

definition convs_forked :: "server \<Rightarrow> bool" where
  "convs_forked s \<longleftrightarrow> (\<forall>conv \<in> set (sv_auths s). forked_for s conv)"

lemma fx_forks: "fx_harmless s s' \<Longrightarrow> forks (sv_fx s') = forks (sv_fx s)"
  by (auto simp: fx_harmless_def forks_harmless)

lemma forked_conv_id: "conv_id c = conv_id d \<Longrightarrow> forked_for s c = forked_for s d"
  unfolding conv_id_def forked_for_def by (cases c; cases d) simp

lemma convs_forked_kept:
  assumes "convs_forked s" "convs_kept s s'" "fx_harmless s s'"
  shows "convs_forked s'"
proof -
  have "forked_for s' c = forked_for s c" for c using fx_forks [OF assms(3)] by (simp add: forked_for_def)
  moreover have "\<exists>d \<in> set (sv_auths s). conv_id c = conv_id d" if "c \<in> set (sv_auths s')" for c
    using assms(2) that unfolding convs_kept_def by blast
  ultimately show ?thesis using assms(1) forked_conv_id unfolding convs_forked_def by metis
qed

lemma step_forks:
  assumes "convs_forked s" "helper_step w inp s = Some s'"
  shows "convs_forked s'"
  using assms(2)
proof (cases rule: step_cases)
  case calm
  then show ?thesis using convs_forked_kept [OF assms(1)] calmD by blast
next
  case (began req_id user uid intent gen service)
  then show ?thesis
    by (elim beganE) (auto simp: convs_forked_def forked_for_def enter_conv_def new_conv_def Let_def fx_def)
next
  case (passed req_id code msg conv)
  then show ?thesis using convs_forked_kept [OF assms(1)] by (simp add: passed_def)
next
  case (started req_id tid session gen path hints)
  then obtain pk r where c: "calm (send_start w tid pk session gen path hints r s) s'" by (elim startedE)
  have "convs_forked (send_start w tid pk session gen path hints r s)"
    using assms(1) by (simp add: convs_forked_def forked_for_def send_start_def fx_def forks_def List.map_filter_def)
  then show ?thesis using convs_forked_kept calmD [OF c] by blast
next
  case (timers now)
  have "convs_forked (timers_prune now s)"
    using assms(1) by (simp add: convs_forked_def forked_for_def timers_prune_def)
  then show ?thesis using convs_forked_kept calmD [OF timers(2)] by blast
qed

interpretation forks: invariant_system "helper_init e" "helper_rel e" convs_forked for e
proof unfold_locales
  show "helper_init e s \<Longrightarrow> convs_forked s" for s
    using adopt_fields by (auto simp: helper_init_def convs_forked_def server_new_def)
  show "convs_forked s \<Longrightarrow> helper_rel e s i s' \<Longrightarrow> convs_forked s'" for s i s'
    using step_forks by (auto simp: helper_rel_def)
qed

text \<open>Effects are only added.\<close>

lemma step_fx:
  assumes "helper_step w inp s = Some s'"
  shows "\<exists>es. sv_fx s' = sv_fx s @ es"
  using assms
proof (cases rule: step_cases)
  case calm
  then show ?thesis using calmD(6) by (auto simp: fx_harmless_def)
next
  case (began req_id user uid intent gen service)
  then obtain s1 p params where "calm s s1" "sv_fx s' = sv_fx s1 @ [Fx_ForkAuth p params (startable_intent intent)]"
    by (elim beganE) (auto simp: enter_conv_def Let_def fx_def)
  then show ?thesis using calmD(6) by (fastforce simp: fx_harmless_def)
next
  case (passed req_id code msg conv)
  then show ?thesis by (auto simp: passed_def fx_harmless_def)
next
  case (started req_id tid session gen path hints)
  then obtain pk r where "calm (send_start w tid pk session gen path hints r s) s'" by (elim startedE)
  then show ?thesis using calmD(6) by (fastforce simp: fx_harmless_def send_start_def fx_def)
next
  case (timers now)
  then show ?thesis using calmD(6) [OF timers(2)] by (auto simp: fx_harmless_def timers_prune_def)
qed

lemma run_fx: "run_by init (helper_rel e) tr s \<Longrightarrow> \<forall>(u, i) \<in> set tr. \<exists>es. sv_fx s = sv_fx u @ es"
proof (induction rule: run_by.induct)
  case (run_step tr s i s')
  then obtain es where "sv_fx s' = sv_fx s @ es" using step_fx [of "fst i" "snd i" s s'] by (auto simp: helper_rel_def)
  with run_step.IH show ?case by fastforce
qed simp

section \<open>The whole login\<close>

text \<open>The \<^term>\<open>n\<close>-th process the helper forks sees the kernel \<^term>\<open>W n\<close> and the turns \<^term>\<open>T n\<close>; what the
  helper reads from the socket of the current conversation is something this process has sent.\<close>

definition sent_by_child ::
  "'h pam_lib \<Rightarrow> (nat \<Rightarrow> child_world) \<Rightarrow> (nat \<Rightarrow> child_turn list) \<Rightarrow> server \<Rightarrow> auth_child_event \<Rightarrow> bool" where
  "sent_by_child L W T u ev \<longleftrightarrow>
     (let n = length (forks (sv_fx u)); (p, params, b) = last (forks (sv_fx u)) in
      \<exists>r. CE_Send ev r \<in> set (ch_fx (ran_state (child_decides (W n) L params b (child_start (T n))))))"

definition faithful_sockets ::
  "'h pam_lib \<Rightarrow> (nat \<Rightarrow> child_world) \<Rightarrow> (nat \<Rightarrow> child_turn list) \<Rightarrow> (server \<times> world \<times> helper_input) list \<Rightarrow> bool" where
  "faithful_sockets L W T tr \<longleftrightarrow>
     (\<forall>(u, v, inp) \<in> set tr. case inp of
        HI_Auth auth_id (In_Msg ev) \<Rightarrow> sv_auths u = [] \<or> sent_by_child L W T u ev
      | _ \<Rightarrow> True)"

text \<open>The verdict of a process is PAM's: it was forked for the account of the conversation.\<close>

lemma verdict_authenticated:
  assumes "run_by (helper_init euid) (helper_rel euid) tr s" "faithful_sockets L W T tr"
    and "(u, v, HI_Auth auth_id (In_Msg (ACE_Done True code msg))) \<in> set tr" "conv \<in> set (sv_auths u)"
  shows "\<exists>n pid params p c'. (pid, params, ac_startable conv) \<in> set (forks (sv_fx s))
      \<and> ap_uid params = ac_uid conv \<and> ap_user params = ac_user conv
      \<and> authenticated (W n) L params (child_start (T n)) p c'"
proof -
  have "convs_forked u" using forks.run_states_invariant [OF assms(1)] assms(3) by auto
  with assms(4) have "forked_for u conv" by (simp add: convs_forked_def)
  then obtain params where f: "forks (sv_fx u) \<noteq> []" "last (forks (sv_fx u)) = (ac_pid conv, params, ac_startable conv)"
    "ap_uid params = ac_uid conv" "ap_user params = ac_user conv" by (auto simp: forked_for_def)
  define n where "n = length (forks (sv_fx u))"
  have "sv_auths u \<noteq> []" using assms(4) by auto
  with assms(2,3) have "sent_by_child L W T u (ACE_Done True code msg)" unfolding faithful_sockets_def by fastforce
  then have "\<exists>r. CE_Send (ACE_Done True code msg) r
      \<in> set (ch_fx (ran_state (child_decides (W n) L params (ac_startable conv) (child_start (T n)))))"
    using f(2) by (simp add: sent_by_child_def n_def Let_def)
  then obtain p c' where "authenticated (W n) L params (child_start (T n)) p c'" using verdict_iff by blast
  moreover obtain es' where "sv_fx s = sv_fx u @ es'" using run_fx [OF assms(1)] assms(3) by blast
  then have "(ac_pid conv, params, ac_startable conv) \<in> set (forks (sv_fx s))" using f(1,2) last_in_set by fastforce
  ultimately show ?thesis using f(3,4) by blast
qed

text \<open>
  C9. From the password to the order to start a desktop, across the helper and the processes it
  forks: when the helper tells a process to open a session for an account, PAM has authenticated that
  account, accepted it and still named it at the end, in the process the helper forked for exactly
  this account and user name; and the account is one that may sign in.
\<close>

theorem session_is_authenticated:
  assumes "run_by (helper_init euid) (helper_rel euid) tr s" "helper_rel euid s (w, inp) s'"
    and "sv_fx s' = sv_fx s @ es" "Fx_SendChild sk (APC_StartSession sp) r \<in> set es"
    and "faithful_sockets L W T tr"
  shows "\<exists>req_id tid t n pid params p c'.
      inp = HI_Request (CI_Request (HReq_OpenSession req_id tid (sp_session sp) (sp_generation sp)
              (sp_host_socket sp) (sp_output_hints sp)))
      \<and> map_option fst (btm_get (tk_map (sv_tickets s)) tid) = Some t
      \<and> (pid, params, True) \<in> set (forks (sv_fx s)) \<and> ap_uid params = t_uid t \<and> ap_user params = t_user t
      \<and> authenticated (W n) L params (child_start (T n)) p c'
      \<and> account_ok euid s (t_uid t) (t_user t)"
proof -
  obtain req_id tid t u v auth_id code msg conv where inp: "inp = HI_Request (CI_Request (HReq_OpenSession req_id tid
        (sp_session sp) (sp_generation sp) (sp_host_socket sp) (sp_output_hints sp)))"
    and t: "map_option fst (btm_get (tk_map (sv_tickets s)) tid) = Some t" "account_ok euid s (t_uid t) (t_user t)"
    and u: "(u, v, HI_Auth auth_id (In_Msg (ACE_Done True code msg))) \<in> set tr"
    and conv: "conv \<in> set (sv_auths u)" "ac_uid conv = t_uid t" "ac_user conv = t_user t" "startable_intent (ac_intent conv)"
    using session_start_origin [OF assms(1-4)] by blast
  have "helper_inv euid u" using helper.run_states_invariant [OF assms(1)] u by auto
  with conv have "ac_startable conv" by (auto simp: helper_inv_def)
  then obtain n pid params p c' where "(pid, params, True) \<in> set (forks (sv_fx s))" "ap_uid params = t_uid t"
    "ap_user params = t_user t" "authenticated (W n) L params (child_start (T n)) p c'"
    using verdict_authenticated [OF assms(1,5) u conv(1)] conv(2,3) by auto
  with inp t show ?thesis by blast
qed

text \<open>The trace of a list of inputs.\<close>

fun trace_of :: "world \<Rightarrow> helper_input list \<Rightarrow> server \<Rightarrow> (server \<times> world \<times> helper_input) list" where
  "trace_of w [] s = []"
| "trace_of w (i # is) s = (s, w, i) # trace_of w is (the (helper_step w i s))"

lemma trace_run:
  assumes "run_by (helper_init e) (helper_rel e) tr s" "w_euid w = e" "helper_steps w is s = Some s'"
  shows "run_by (helper_init e) (helper_rel e) (tr @ trace_of w is s) s'"
  using assms(1,3)
proof (induction "is" arbitrary: s tr)
  case (Cons i "is")
  then obtain u where u: "helper_step w i s = Some u" "helper_steps w is u = Some s'" by (auto simp: Option.bind_eq_Some_conv)
  then have "helper_rel e s (w, i) u" using assms(2) by (simp add: helper_rel_def)
  from Cons.IH [OF run_step [OF Cons.prems(1) this] u(2)] u(1) show ?case by simp
qed simp

definition demo_asked :: server where
  "demo_asked = the (helper_steps run_world (take 2 demo_inputs) demo_helper)"

definition demo_answer :: "child_turn list" where
  "demo_answer = [CT_Ready (In_Msg (APC_Response ''secret''))]"

lemma demo_child_sent: "sent_by_child demo_pam (\<lambda>_. demo_child_world) (\<lambda>_. demo_answer) demo_asked (ACE_Done True None [])"
proof -
  have "let (p, params, b) = last (forks (sv_fx demo_asked)) in
      CE_Send (ACE_Done True None []) (Io_Ok True) \<in> set (ch_fx (ran_state (child_decides demo_child_world demo_pam params b (child_start demo_answer))))"
    by code_simp
  then show ?thesis by (auto simp: sent_by_child_def Let_def split: prod.splits)
qed

theorem session_is_authenticated_witness:
  "\<exists>n pid params p c'. (pid, params, True) \<in> set (forks (sv_fx demo_parked)) \<and> ap_uid params = 1000
     \<and> authenticated demo_child_world demo_pam params (child_start demo_answer) p c'"
proof -
  have euid: "w_euid run_world = 0" by (simp add: run_world_def demo_world_def)
  have "helper_steps run_world demo_inputs demo_helper \<noteq> None" by code_simp
  then have "helper_steps run_world demo_inputs demo_helper = Some demo_parked" by (auto simp: demo_parked_def)
  then have tr: "run_by (helper_init 0) (helper_rel 0) (trace_of run_world demo_inputs demo_helper) demo_parked"
    using trace_run [OF run_init [of "helper_init 0", OF demo_init] euid] by simp
  have "helper_step run_world demo_open demo_parked \<noteq> None" by code_simp
  then have rel: "helper_rel 0 demo_parked (run_world, demo_open) demo_opened"
    using euid by (auto simp: helper_rel_def demo_opened_def)
  have fx: "sv_fx demo_opened = sv_fx demo_parked @ [Fx_SendChild 7 (APC_StartSession demo_start) (Io_Ok True)]" by code_simp
  have uid: "map_option (t_uid \<circ> fst) (btm_get (tk_map (sv_tickets demo_parked)) 6) = Some 1000" by code_simp
  have asked: "the (helper_step run_world (HI_Request (login_request 1)) (the (helper_step run_world (HI_Accept demo_peer) demo_helper))) = demo_asked"
    by code_simp
  have "faithful_sockets demo_pam (\<lambda>_. demo_child_world) (\<lambda>_. demo_answer) (trace_of run_world demo_inputs demo_helper)"
    using demo_child_sent asked by (simp add: faithful_sockets_def demo_inputs_def)
  from session_is_authenticated [OF tr rel fx _ this, of 7 demo_start "Io_Ok True"] uid
  show ?thesis by (auto simp: option.map_comp [symmetric] demo_open_def) metis
qed

end
