(* ===== verification/Login_System.thy ===== *)
theory Login_System
  imports Login_Requests Security Helper_Verdicts Helper_Whole "HOL-Library.Sublist"
begin

text \<open>
  The session manager and the privileged helper together, connected by the socket of
  \<^verbatim>\<open>src/bsm/manager/src/runtime/helper_client.rs\<close>. The manager's requests and the helper's events
  travel in order; each side may lose some (a send that fails, a connection that ends) but nothing
  is made up on the way. From this follows that a desktop is only shown to an account whose login
  PAM has accepted.
\<close>

section \<open>The composed system\<close>

text \<open>\<^verbatim>\<open>y_up\<close> and \<^verbatim>\<open>y_down\<close> are the requests and the events on their way, the latter with those in the
  queue of the manager's driver. The last two fields only record: the conversations this manager
  has asked for, and an upper bound of the request numbers it has drawn.\<close>

record login_system =
  y_manager :: manager
  y_helper :: server
  y_up :: "helper_request list"
  y_down :: "helper_event list"
  y_asked :: "(u64 \<times> u32) list"
  y_drawn :: nat

datatype login_input =
    YI_Manager instant input
  | YI_Hear instant
  | YI_Helper world helper_input
  | YI_Read world
  | YI_Connect world candidate

text \<open>What reaches the other side of the socket: events whose send succeeded.\<close>

definition delivered :: "sys_effect list \<Rightarrow> helper_event list" where
  "delivered es = List.map_filter (\<lambda>e. case e of Fx_Send ev (Io_Ok True) \<Rightarrow> Some ev | _ \<Rightarrow> None) es"

text \<open>Inputs of the helper that come through the manager's connection.\<close>

fun through_socket :: "helper_input \<Rightarrow> bool" where
  "through_socket (HI_Request (CI_Request _)) = True"
| "through_socket (HI_Accept _) = True"
| "through_socket _ = False"

definition manager_done :: "manager \<Rightarrow> helper_request list \<Rightarrow> login_system \<Rightarrow> login_system" where
  "manager_done m rs y =
     y\<lparr>y_manager := m, y_up := y_up y @ rs, y_asked := y_asked y @ asks (requests (m_fx m)),
       y_drawn := y_drawn y + Suc (length (requests (m_fx m)))\<rparr>"

inductive login_step :: "u32 \<Rightarrow> login_system \<Rightarrow> login_input \<Rightarrow> login_system \<Rightarrow> bool" for euid where
  manager_acts: "bsm_step (y_manager y) (now, inp) m \<Longrightarrow> (\<And>ev. inp \<noteq> In_Helper ev) \<Longrightarrow> subseq rs (requests (m_fx m)) \<Longrightarrow>
      login_step euid y (YI_Manager now inp) (manager_done m rs y)"
| manager_hears: "y_down y = ev # ds \<Longrightarrow> bsm_step (y_manager y) (now, In_Helper ev) m \<Longrightarrow> subseq rs (requests (m_fx m)) \<Longrightarrow>
      login_step euid y (YI_Hear now) ((manager_done m rs y)\<lparr>y_down := ds\<rparr>)"
| helper_acts: "helper_rel euid (y_helper y) (w, inp) s \<Longrightarrow> \<not> through_socket inp \<Longrightarrow> sv_fx s = sv_fx (y_helper y) @ es \<Longrightarrow>
      subseq ds (delivered es) \<Longrightarrow>
      login_step euid y (YI_Helper w inp) (y\<lparr>y_helper := s, y_down := y_down y @ ds\<rparr>)"
| helper_reads: "y_up y = r # rs \<Longrightarrow> helper_rel euid (y_helper y) (w, HI_Request (CI_Request r)) s \<Longrightarrow>
      sv_fx s = sv_fx (y_helper y) @ es \<Longrightarrow> subseq ds (delivered es) \<Longrightarrow>
      login_step euid y (YI_Read w) (y\<lparr>y_helper := s, y_up := rs, y_down := y_down y @ ds\<rparr>)"
| connects: "helper_rel euid (y_helper y) (w, HI_Accept c) s \<Longrightarrow> sv_fx s = sv_fx (y_helper y) @ es \<Longrightarrow>
      subseq ds (y_down y @ delivered es) \<Longrightarrow> subseq rs (y_up y) \<Longrightarrow>
      login_step euid y (YI_Connect w c) (y\<lparr>y_helper := s, y_up := rs, y_down := ds\<rparr>)"

definition login_init :: "u32 \<Rightarrow> login_system \<Rightarrow> bool" where
  "login_init euid y \<longleftrightarrow>
     bsm_init (y_manager y) \<and> helper_init euid (y_helper y) \<and> y_up y = [] \<and> y_down y = [] \<and> y_asked y = [] \<and> y_drawn y = 0"

section \<open>Its two parts\<close>

fun manager_part :: "(login_system \<times> login_input) list \<Rightarrow> (manager \<times> instant \<times> input) list" where
  "manager_part [] = []"
| "manager_part ((y, YI_Manager now inp) # tr) = (y_manager y, now, inp) # manager_part tr"
| "manager_part ((y, YI_Hear now) # tr) = (y_manager y, now, In_Helper (hd (y_down y))) # manager_part tr"
| "manager_part (_ # tr) = manager_part tr"

fun helper_part :: "(login_system \<times> login_input) list \<Rightarrow> (server \<times> world \<times> helper_input) list" where
  "helper_part [] = []"
| "helper_part ((y, YI_Helper w inp) # tr) = (y_helper y, w, inp) # helper_part tr"
| "helper_part ((y, YI_Read w) # tr) = (y_helper y, w, HI_Request (CI_Request (hd (y_up y)))) # helper_part tr"
| "helper_part ((y, YI_Connect w c) # tr) = (y_helper y, w, HI_Accept c) # helper_part tr"
| "helper_part (_ # tr) = helper_part tr"

lemma manager_part_append [simp]: "manager_part (xs @ ys) = manager_part xs @ manager_part ys"
  by (induction xs rule: manager_part.induct) simp_all

lemma helper_part_append [simp]: "helper_part (xs @ ys) = helper_part xs @ helper_part ys"
  by (induction xs rule: helper_part.induct) simp_all

lemma manager_done_fields [simp]:
  "y_manager (manager_done m rs y) = m" "y_helper (manager_done m rs y) = y_helper y" "y_down (manager_done m rs y) = y_down y"
  "y_up (manager_done m rs y) = y_up y @ rs" "y_asked (manager_done m rs y) = y_asked y @ asks (requests (m_fx m))"
  "y_drawn (manager_done m rs y) = y_drawn y + Suc (length (requests (m_fx m)))"
  by (simp_all add: manager_done_def)

lemma parts_run:
  assumes "run_by (login_init e) (login_step e) tr y"
  shows "run_by bsm_init bsm_step (manager_part tr) (y_manager y)"
    and "run_by (helper_init e) (helper_rel e) (helper_part tr) (y_helper y)"
  using assms
proof (induction rule: run_by.induct)
  case (run_init s)
  {
    case 1
    then show ?case using run_init by (auto simp: login_init_def intro: run_by.run_init)
  next
    case 2
    then show ?case using run_init by (auto simp: login_init_def intro: run_by.run_init)
  }
next
  case (run_step tr s i s')
  {
    case 1
    show ?case using run_step(2) run_step(3)
      by (cases rule: login_step.cases) (auto intro: run_by.run_step)
  next
    case 2
    show ?case using run_step(2) run_step(4)
      by (cases rule: login_step.cases) (auto intro: run_by.run_step)
  }
qed

section \<open>The invariant\<close>

text \<open>Request numbers do not repeat, and everything on the way, every conversation of the helper and the
  manager's challenge belong to a conversation this manager has asked for.\<close>

definition numbers_ok :: "u64 \<Rightarrow> (u64 \<times> u32) list \<Rightarrow> nat \<Rightarrow> bool" where
  "numbers_ok n asked drawn \<longleftrightarrow>
     (\<exists>k js. k \<le> drawn \<and> n = 1 + of_nat k \<and> map fst asked = map (\<lambda>j. 1 + of_nat j) js \<and> sorted_wrt (<) js \<and> (\<forall>j \<in> set js. j < k))"

definition login_inv :: "u32 \<Rightarrow> login_system \<Rightarrow> bool" where
  "login_inv euid y \<longleftrightarrow>
     helper_inv euid (y_helper y) \<and> numbers_ok (m_next_helper_req (y_manager y)) (y_asked y) (y_drawn y)
     \<and> (\<forall>c. m_challenge (y_manager y) = Some c \<longrightarrow> (c_helper_req c, c_uid c) \<in> set (y_asked y))
     \<and> set (asks (y_up y)) \<subseteq> set (y_asked y)
     \<and> (\<forall>conv \<in> set (sv_auths (y_helper y)). (ac_req_id conv, ac_uid conv) \<in> set (y_asked y))"

lemma numbers_unique:
  assumes "numbers_ok n asked drawn" "drawn < 2 ^ 64" "(req, a) \<in> set asked" "(req, b) \<in> set asked"
  shows "a = b"
proof -
  obtain k js where k: "k \<le> drawn" "map fst asked = map (\<lambda>j. 1 + of_nat j) js" "sorted_wrt (<) js" "\<forall>j \<in> set js. j < k"
    using assms(1) by (auto simp: numbers_ok_def)
  have "inj_on (\<lambda>j. 1 + of_nat j :: u64) (set js)"
  proof (rule inj_onI)
    fix i j assume "i \<in> set js" "j \<in> set js" "(1 :: u64) + of_nat i = 1 + of_nat j"
    with k assms(2) have "i < 2 ^ LENGTH(64)" "j < 2 ^ LENGTH(64)" "(of_nat i :: u64) = of_nat j" by fastforce+
    then show "i = j" by (metis of_nat_inverse)
  qed
  moreover have "distinct js" using k(3) by (simp add: strict_sorted_iff)
  ultimately have "distinct (map fst asked)" unfolding k(2) by (simp add: distinct_map)
  then show ?thesis using assms(3,4) by (rule eq_key_imp_eq_value)
qed

lemma sorted_shift:
  fixes k :: nat
  assumes "sorted_wrt (<) js" "\<forall>j \<in> set js. j < k" "sorted_wrt (<) ls"
  shows "sorted_wrt (<) (js @ map ((+) k) ls)"
  using assms by (auto simp: sorted_wrt_append sorted_wrt_map trans_less_add1)

lemma manager_numbers:
  assumes "handle now inp m = Some m'" "numbers_ok (m_next_helper_req m) asked drawn"
    "\<And>c. m_challenge m = Some c \<Longrightarrow> (c_helper_req c, c_uid c) \<in> set asked"
  shows "numbers_ok (m_next_helper_req m') (asked @ asks (requests (m_fx m'))) (drawn + Suc (length (requests (m_fx m'))))"
    and "\<And>c. m_challenge m' = Some c \<Longrightarrow> (c_helper_req c, c_uid c) \<in> set asked \<union> set (asks (requests (m_fx m')))"
proof -
  obtain k js where k: "k \<le> drawn" "m_next_helper_req m = 1 + of_nat k" "map fst asked = map (\<lambda>j. 1 + of_nat j) js"
    "sorted_wrt (<) js" "\<forall>j \<in> set js. j < k" using assms(2) by (auto simp: numbers_ok_def)
  obtain i ls where i: "numbered 1 (m_next_helper_req m) (set asked) i ls m'"
    using handle_tidy [OF assms(1), of "set asked"] assms(3) by (auto simp: tidy_def)
  let ?rs = "requests (m_fx m')"
  have "sorted_wrt (<) (js @ map ((+) k) ls)" using i by (intro sorted_shift [OF k(4,5)]) (simp add: numbered_def)
  moreover have "map fst (asked @ asks ?rs) = map (\<lambda>j. 1 + of_nat j) (js @ map ((+) k) ls)"
    using k i by (simp add: numbered_def ac_simps)
  moreover have "k + i \<le> drawn + Suc (length ?rs)" "m_next_helper_req m' = 1 + of_nat (k + i)"
    "\<forall>j \<in> set (js @ map ((+) k) ls). j < k + i"
    using k i by (auto simp: numbered_def trans_less_add1)
  ultimately show "numbers_ok (m_next_helper_req m') (asked @ asks ?rs) (drawn + Suc (length ?rs))"
    unfolding numbers_ok_def by blast
  show "(c_helper_req c, c_uid c) \<in> set asked \<union> set (asks ?rs)" if "m_challenge m' = Some c" for c
    using i that by (simp add: numbered_def)
qed

text \<open>Each step of the manager extends the record of what it has asked for.\<close>

lemma manager_done_inv:
  assumes "login_inv euid y" "bsm_step (y_manager y) (now, inp) m" "subseq rs (requests (m_fx m))"
  shows "login_inv euid (manager_done m rs y)"
proof -
  have h: "handle now inp (y_manager y) = Some m" using assms(2) by (simp add: bsm_step_def)
  note n = manager_numbers [OF h, of "y_asked y" "y_drawn y"]
  have "set (asks rs) \<subseteq> set (asks (requests (m_fx m)))"
    using assms(3) by (auto simp: asks_def List.map_filter_def dest: subseq_order.order_trans list_emb_set)
  then show ?thesis using assms(1) n by (auto simp: login_inv_def)
qed

text \<open>A step of the helper starts a conversation only for a request it reads.\<close>

lemma helper_convs:
  assumes "helper_step w inp s = Some s'" "conv \<in> set (sv_auths s')"
  shows "(\<exists>c \<in> set (sv_auths s). (ac_req_id c, ac_uid c) = (ac_req_id conv, ac_uid conv))
     \<or> (\<exists>user intent gen service. inp = HI_Request (CI_Request (HReq_AuthStart (ac_req_id conv) user (ac_uid conv) intent gen service)))"
proof -
  have kept: "\<exists>c \<in> set (sv_auths u). (ac_req_id c, ac_uid c) = (ac_req_id conv, ac_uid conv)" if k: "convs_kept u s'" for u
  proof -
    obtain c where c: "c \<in> set (sv_auths u)" "conv_id conv = conv_id c" using k assms(2) unfolding convs_kept_def by blast
    have "ac_req_id (conv_id x) = ac_req_id x" "ac_uid (conv_id x) = ac_uid x" for x by (simp_all add: conv_id_def)
    with c show ?thesis by (metis)
  qed
  from assms(1) show ?thesis
  proof (cases rule: step_cases)
    case calm
    then show ?thesis using kept calmD(3) by blast
  next
    case (began req_id user uid intent gen service)
    from began(2) have "ac_req_id conv = req_id \<and> ac_uid conv = uid"
      by (elim beganE) (use assms(2) in \<open>auto simp: enter_conv_def new_conv_def Let_def fx_def\<close>)
    with began(1) show ?thesis by blast
  next
    case (passed req_id code msg conv)
    then show ?thesis using kept by (simp add: passed_def)
  next
    case (started req_id tid session gen path hints)
    from started(2) obtain pk r where "calm (send_start w tid pk session gen path hints r s) s'" by (elim startedE)
    from kept [OF calmD(3) [OF this]] show ?thesis by (simp add: send_start_def fx_def)
  next
    case (timers now)
    from kept [OF calmD(3) [OF timers(2)]] show ?thesis by (simp add: timers_prune_def)
  qed
qed

lemma helper_side_inv:
  assumes "login_inv euid y" "helper_rel euid (y_helper y) (w, inp) s" "set (asks rs) \<subseteq> set (asks (y_up y))"
    "\<And>r. inp = HI_Request (CI_Request r) \<Longrightarrow> set (asks [r]) \<subseteq> set (asks (y_up y))"
  shows "login_inv euid (y\<lparr>y_helper := s, y_up := rs, y_down := ds\<rparr>)"
proof -
  have step: "helper_step w inp (y_helper y) = Some s" "w_euid w = euid" using assms(2) by (simp_all add: helper_rel_def)
  have "helper_inv euid s" using step_inv [OF step(1)] assms(1) step(2) by (simp add: login_inv_def)
  moreover have "(ac_req_id conv, ac_uid conv) \<in> set (y_asked y)" if "conv \<in> set (sv_auths s)" for conv
    using helper_convs [OF step(1) that] assms(1,4) by (fastforce simp: login_inv_def)
  ultimately show ?thesis using assms(1,3) by (auto simp: login_inv_def)
qed

lemma login_step_inv: "login_inv euid y \<Longrightarrow> login_step euid y i y' \<Longrightarrow> login_inv euid y'"
proof (erule login_step.cases, goal_cases)
  case (1 y now inp m rs)
  then show ?case using manager_done_inv by blast
next
  case (2 y ev ds now m rs)
  then have "login_inv euid (manager_done m rs y)" using manager_done_inv by blast
  with 2 show ?case by (simp add: login_inv_def)
next
  case (3 y w inp s es ds)
  then have "login_inv euid (y\<lparr>y_helper := s, y_up := y_up y, y_down := y_down y @ ds\<rparr>)"
    by (intro helper_side_inv [of _ _ w inp]) auto
  with 3 show ?case by simp
next
  case (4 y r rs w s es ds)
  have "asks (r # rs) = asks [r] @ asks rs" using asks_simps(2) [of "[r]" rs] by simp
  with 4 show ?case unfolding 4(4) by (intro helper_side_inv [of _ _ w "HI_Request (CI_Request r)"]) auto
next
  case (5 y w c s es ds rs)
  then have "set (asks rs) \<subseteq> set (asks (y_up y))" by (auto simp: asks_def List.map_filter_def dest: list_emb_set)
  with 5 show ?case unfolding 5(4) by (intro helper_side_inv [of _ _ w "HI_Accept c"]) auto
qed

section \<open>Where an approval comes from\<close>

text \<open>The helper read PAM's success for this request, from the process of a conversation that the manager
  asked for under this number.\<close>

definition pam_said :: "(server \<times> world \<times> helper_input) list \<Rightarrow> (u64 \<times> u32) list \<Rightarrow> u64 \<Rightarrow> bool" where
  "pam_said htr asked req \<longleftrightarrow>
     (\<exists>u v code msg conv. (u, v, HI_Auth req (In_Msg (ACE_Done True code msg))) \<in> set htr
        \<and> conv \<in> set (sv_auths u) \<and> (req, ac_uid conv) \<in> set asked)"

definition approvals :: "helper_event list \<Rightarrow> u64 set" where
  "approvals evs = \<Union> (approves ` set evs)"

definition login_hist :: "(login_system \<times> login_input) list \<Rightarrow> login_system \<Rightarrow> bool" where
  "login_hist tr y \<longleftrightarrow>
     (\<forall>req \<in> unsaid (y_helper y) \<union> approvals (y_down y). pam_said (helper_part tr) (y_asked y) req)
     \<and> (\<forall>(u, i) \<in> set tr. (\<forall>c. m_challenge (y_manager u) = Some c \<longrightarrow> (c_helper_req c, c_uid c) \<in> set (y_asked y))
          \<and> (\<forall>now ev ds. i = YI_Hear now \<longrightarrow> y_down u = ev # ds \<longrightarrow>
               (\<forall>req \<in> approves ev. pam_said (helper_part tr) (y_asked y) req)))"

lemma pam_said_mono: "pam_said htr asked req \<Longrightarrow> set htr \<subseteq> set htr' \<Longrightarrow> set asked \<subseteq> set asked' \<Longrightarrow> pam_said htr' asked' req"
  unfolding pam_said_def by blast

lemma approvals_append [simp]: "approvals (xs @ ys) = approvals xs \<union> approvals ys"
  by (auto simp: approvals_def)

lemma approvals_subseq: "subseq xs ys \<Longrightarrow> approvals xs \<subseteq> approvals ys"
  by (auto simp: approvals_def dest: list_emb_set)

lemma approvals_delivered: "approvals (delivered es) \<subseteq> said es"
proof (induction es)
  case (Cons e es)
  then show ?case
    by (cases e) (auto simp: approvals_def delivered_def said_def List.map_filter_simps split: io.split bool.split)
qed (simp add: approvals_def delivered_def List.map_filter_simps)

text \<open>The old part of the history carries over to a longer run.\<close>

lemma hist_grows:
  assumes "login_hist tr y" "login_inv euid y" "set (y_asked y) \<subseteq> set (y_asked y')"
    "\<And>req. req \<in> unsaid (y_helper y') \<union> approvals (y_down y') \<Longrightarrow>
        req \<in> unsaid (y_helper y) \<union> approvals (y_down y) \<or> pam_said (helper_part (tr @ [(y, i)])) (y_asked y') req"
  shows "login_hist (tr @ [(y, i)]) y'"
proof -
  have old: "pam_said (helper_part (tr @ [(y, i)])) (y_asked y') req" if "pam_said (helper_part tr) (y_asked y) req" for req
    by (rule pam_said_mono [OF that]) (use assms(3) in auto)
  have now: "approves ev \<subseteq> approvals (y_down y)" if "y_down y = ev # ds" for ev ds using that by (auto simp: approvals_def)
  have chal: "(c_helper_req c, c_uid c) \<in> set (y_asked y')" if "m_challenge (y_manager y) = Some c" for c
    using that assms(2,3) by (auto simp: login_inv_def)
  show ?thesis
    unfolding login_hist_def
  proof (intro conjI ballI, goal_cases)
    case (1 req)
    with assms(1) old assms(4) show ?case by (auto simp: login_hist_def)
  next
    case (2 x)
    then show ?case
      using assms(1,3) old now chal by (cases "x = (y, i)") (fastforce simp: login_hist_def)+
  qed
qed

lemma helper_hist_grows:
  assumes "login_hist tr y" "login_inv euid y" "helper_rel euid (y_helper y) (w, inp) s" "sv_fx s = sv_fx (y_helper y) @ es"
    and "approvals ds \<subseteq> approvals (y_down y) \<union> said es" "helper_part [(y, i)] = [(y_helper y, w, inp)]"
  shows "login_hist (tr @ [(y, i)]) (y\<lparr>y_helper := s, y_up := rs, y_down := ds\<rparr>)"
proof -
  have "says (verdict_of inp (y_helper y)) (y_helper y) s"
    using assms(2,3) by (intro step_says) (auto simp: helper_rel_def login_inv_def helper_inv_def)
  with assms(4) have sub: "said es \<union> unsaid s \<subseteq> unsaid (y_helper y) \<union> verdict_of inp (y_helper y)" by (auto simp: says_def)
  have new: "pam_said (helper_part (tr @ [(y, i)])) (y_asked y) req" if v: "req \<in> verdict_of inp (y_helper y)" for req
  proof -
    obtain code msg conv where "inp = HI_Auth req (In_Msg (ACE_Done True code msg))" "conv \<in> set (sv_auths (y_helper y))" "ac_req_id conv = req"
      using v by (auto simp: verdict_of_def split: helper_input.splits incoming.splits auth_child_event.splits bool.splits if_splits)
    moreover from this have "(req, ac_uid conv) \<in> set (y_asked y)" using assms(2) by (auto simp: login_inv_def)
    ultimately show ?thesis using assms(6) by (auto simp: pam_said_def)
  qed
  show ?thesis by (rule hist_grows [OF assms(1,2)]) (use sub new assms(5) in auto)
qed

lemma manager_hist_grows:
  assumes "login_hist tr y" "login_inv euid y" "approvals ds \<subseteq> approvals (y_down y)"
  shows "login_hist (tr @ [(y, i)]) ((manager_done m rs y)\<lparr>y_down := ds\<rparr>)"
  by (rule hist_grows [OF assms(1,2)]) (use assms(3) in auto)

lemma login_step_hist:
  "login_inv euid y \<Longrightarrow> login_hist tr y \<Longrightarrow> login_step euid y i y' \<Longrightarrow> login_hist (tr @ [(y, i)]) y'"
proof (erule login_step.cases, goal_cases)
  case (1 y now inp m rs)
  then show ?case using manager_hist_grows [of tr y euid "y_down y" i m rs] by (simp add: manager_done_def)
next
  case (2 y ev ds now m rs)
  then show ?case using manager_hist_grows [of tr y euid ds i m rs] by (simp add: approvals_def)
next
  case (3 y w inp s es ds)
  then have "approvals (y_down y @ ds) \<subseteq> approvals (y_down y) \<union> said es"
    using approvals_subseq approvals_delivered by fastforce
  with 3 show ?case using helper_hist_grows [of tr y euid w inp s es "y_down y @ ds" i "y_up y"] by simp
next
  case (4 y r rs w s es ds)
  then have "approvals (y_down y @ ds) \<subseteq> approvals (y_down y) \<union> said es"
    using approvals_subseq approvals_delivered by fastforce
  with 4 show ?case using helper_hist_grows [of tr y euid w "HI_Request (CI_Request r)" s es "y_down y @ ds" i rs] by simp
next
  case (5 y w c s es ds rs)
  then have "approvals ds \<subseteq> approvals (y_down y) \<union> said es"
    using approvals_subseq [of ds "y_down y @ delivered es"] approvals_delivered [of es] by auto
  with 5 show ?case using helper_hist_grows [of tr y euid w "HI_Accept c" s es ds i rs] by simp
qed

interpretation login: history_system "login_init e" "login_step e" "login_inv e" login_hist for e
proof unfold_locales
  fix y
  assume init: "login_init e y"
  then obtain pol rng where m: "y_manager y = manager_new pol rng" by (auto simp: login_init_def bsm_init_def)
  obtain w cfg uid ads where s: "w_euid w = e" "y_helper y = server_new w cfg uid ads"
    using init by (auto simp: login_init_def helper_init_def)
  have new: "sv_auths (server_new w cfg uid ads) = []" "sv_conn (server_new w cfg uid ads) = None"
    using adopt_fields by (simp_all add: server_new_def)
  have "numbers_ok 1 [] 0" by (simp add: numbers_ok_def)
  then show "login_inv e y" using init m s new server_new_inv [of e]
    by (auto simp: login_init_def login_inv_def manager_new_def)
  show "login_hist [] y" using init s new by (simp add: login_hist_def login_init_def unsaid_def approvals_def)
qed (auto intro: login_step_inv login_step_hist)

section \<open>From the password to the desktop\<close>

lemma run_steps: "run_by init step tr s \<Longrightarrow> (u, i) \<in> set tr \<Longrightarrow> \<exists>u'. step u i u'"
  by (induction rule: run_by.induct) auto

lemma login_manager_step:
  "login_step e y i y' \<Longrightarrow> y_manager y' = y_manager y \<or> (\<exists>now inp. bsm_step (y_manager y) (now, inp) (y_manager y'))"
  by (erule login_step.cases) auto

lemma heard_event:
  assumes "(m, now, In_Helper ev) \<in> set (manager_part tr)" "\<And>u i. (u, i) \<in> set tr \<Longrightarrow> \<exists>u'. login_step e u i u'"
  shows "\<exists>u ds. (u, YI_Hear now) \<in> set tr \<and> y_manager u = m \<and> y_down u = ev # ds"
  using assms
proof (induction tr rule: manager_part.induct)
  case (2 y now' inp tr)
  have "\<nexists>ev. inp = In_Helper ev" using 2(3) [of y "YI_Manager now' inp"] by (auto elim: login_step.cases)
  with 2 show ?case by fastforce
next
  case (3 y now' tr)
  have "y_down y \<noteq> []" using 3(3) [of y "YI_Hear now'"] by (auto elim: login_step.cases)
  with 3 show ?case by (fastforce simp: neq_Nil_conv)
qed fastforce+

lemma authenticatesE:
  assumes "authenticates a oid u"
  obtains m now req code msg tk c where "a = (m, now, In_Helper (HEv_AuthDone req True code msg tk))"
    "m_challenge m = Some c" "c_helper_req c = req" "c_uid c = u"
proof -
  obtain m now ev where a: "a = (m, now, In_Helper ev)"
    using assms by (cases a; cases "snd (snd a)") (auto simp: authenticates_def)
  with assms that show thesis by (cases ev; cases "m_challenge m") (auto simp: authenticates_def is_some_and_iff)
qed

lemma desktop_origin:
  assumes "run_by (login_init e) (login_step e) tr y" "login_step e y i y'"
    and "session_of (y_manager y') sid = Some s'" "s_state s' = St_Foreground"
    and "\<not> is_some_and (session_of (y_manager y) sid) (\<lambda>s. s_state s = St_Foreground)"
    and "y_drawn y < 2 ^ 64"
  obtains u v req code msg conv where "(u, v, HI_Auth req (In_Msg (ACE_Done True code msg))) \<in> set (helper_part tr)"
    "conv \<in> set (sv_auths u)" "ac_uid conv = s_uid s'"
proof -
  obtain now inp where step: "bsm_step (y_manager y) (now, inp) (y_manager y')"
    using login_manager_step [OF assms(2)] assms(3-5) by auto
  obtain oid e0 where e0: "e0 \<in> set (manager_part tr)" "authenticates e0 oid (s_uid s')"
    using reveal_authenticated [OF parts_run(1) [OF assms(1)] step assms(3-5)] by metis
  obtain m0 now0 req code msg tk c where ev: "(m0, now0, In_Helper (HEv_AuthDone req True code msg tk)) \<in> set (manager_part tr)"
    and c: "m_challenge m0 = Some c" "c_helper_req c = req" "c_uid c = s_uid s'"
    by (rule authenticatesE [OF e0(2)]) (use e0(1) in metis)
  obtain u ds where u: "(u, YI_Hear now0) \<in> set tr" "y_manager u = m0" "y_down u = HEv_AuthDone req True code msg tk # ds"
    using heard_event [OF ev run_steps [OF assms(1)]] by blast
  note h = login.run_history [OF assms(1), unfolded login_hist_def]
  have asked: "(req, s_uid s') \<in> set (y_asked y)" using h u(1,2) c by fastforce
  have "pam_said (helper_part tr) (y_asked y) req" using h u(1,3) by fastforce
  then obtain u' v code' msg' conv where conv: "(u', v, HI_Auth req (In_Msg (ACE_Done True code' msg'))) \<in> set (helper_part tr)"
    "conv \<in> set (sv_auths u')" "(req, ac_uid conv) \<in> set (y_asked y)" by (auto simp: pam_said_def)
  have "numbers_ok (m_next_helper_req (y_manager y)) (y_asked y) (y_drawn y)"
    using login.run_states_invariant [OF assms(1)] by (simp add: login_inv_def)
  from numbers_unique [OF this assms(6) conv(3) asked] conv that show thesis by blast
qed

end
