(* ===== verification/Login_Theorems.thy ===== *)
theory Login_Theorems
  imports Login_System
begin

text \<open>
  The claim about the manager and the helper together, and a run of the composed system from its
  start to a desktop on the screen.
\<close>

section \<open>From the password to the desktop\<close>

text \<open>
  C1. A desktop needs its owner's login. Across the manager, the helper, the socket between them and
  the processes the helper forks: when a session comes to the foreground, the helper has forked a
  process for the account that owns the session, and in that process PAM has authenticated the
  account, accepted it and still named it at the end. (The hypotheses: fewer than \<^verbatim>\<open>2^64\<close> requests
  since the manager started, and what the helper reads from a process is what the process sent.)
\<close>

theorem desktop_needs_pam:
  assumes "run_by (login_init e) (login_step e) tr y" "login_step e y i y'"
    and "session_of (y_manager y') sid = Some s'" "s_state s' = St_Foreground"
    and "\<not> is_some_and (session_of (y_manager y) sid) (\<lambda>s. s_state s = St_Foreground)"
    and "y_drawn y < 2 ^ 64" "faithful_sockets L W T (helper_part tr)"
  shows "\<exists>n pid params b p c'. (pid, params, b) \<in> set (forks (sv_fx (y_helper y))) \<and> ap_uid params = s_uid s'
      \<and> authenticated (W n) L params (child_start (T n)) p c'"
proof -
  obtain u v req code msg conv where conv: "(u, v, HI_Auth req (In_Msg (ACE_Done True code msg))) \<in> set (helper_part tr)"
    "conv \<in> set (sv_auths u)" "ac_uid conv = s_uid s'"
    by (rule desktop_origin [OF assms(1-6)])
  from verdict_authenticated [OF parts_run(2) [OF assms(1)] assms(7) conv(1,2)] conv(3) show ?thesis by metis
qed

section \<open>Running the system\<close>

text \<open>One step in which nothing is lost: every request and every event whose send succeeded arrives.\<close>

definition sent_between :: "server \<Rightarrow> server \<Rightarrow> helper_event list" where
  "sent_between s s' = delivered (drop (length (sv_fx s)) (sv_fx s'))"

definition manager_runs :: "instant \<Rightarrow> input \<Rightarrow> login_system \<Rightarrow> login_system option" where
  "manager_runs now inp y =
     (if env_ok inp (y_manager y)
      then map_option (\<lambda>m. manager_done m (requests (m_fx m)) y) (handle now inp (y_manager y)) else None)"

definition helper_runs :: "u32 \<Rightarrow> world \<Rightarrow> helper_input \<Rightarrow> login_system \<Rightarrow> login_system option" where
  "helper_runs e w inp y =
     (if w_euid w = e
      then map_option (\<lambda>s. y\<lparr>y_helper := s, y_down := y_down y @ sent_between (y_helper y) s\<rparr>) (helper_step w inp (y_helper y))
      else None)"

fun login_exec :: "u32 \<Rightarrow> login_input \<Rightarrow> login_system \<Rightarrow> login_system option" where
  "login_exec e (YI_Manager now inp) y = (case inp of In_Helper _ \<Rightarrow> None | _ \<Rightarrow> manager_runs now inp y)"
| "login_exec e (YI_Hear now) y =
     (case y_down y of [] \<Rightarrow> None | ev # ds \<Rightarrow> map_option (y_down_update (\<lambda>_. ds)) (manager_runs now (In_Helper ev) y))"
| "login_exec e (YI_Helper w inp) y = (if through_socket inp then None else helper_runs e w inp y)"
| "login_exec e (YI_Read w) y =
     (case y_up y of [] \<Rightarrow> None | r # rs \<Rightarrow> map_option (y_up_update (\<lambda>_. rs)) (helper_runs e w (HI_Request (CI_Request r)) y))"
| "login_exec e (YI_Connect w c) y = helper_runs e w (HI_Accept c) y"

fun login_run :: "u32 \<Rightarrow> login_input list \<Rightarrow> login_system \<Rightarrow> login_system option" where
  "login_run e [] y = Some y"
| "login_run e (i # is) y = Option.bind (login_exec e i y) (login_run e is)"

fun login_trace :: "u32 \<Rightarrow> login_input list \<Rightarrow> login_system \<Rightarrow> (login_system \<times> login_input) list" where
  "login_trace e [] y = []"
| "login_trace e (i # is) y = (y, i) # login_trace e is (the (login_exec e i y))"

lemma fx_delivered:
  assumes "login_inv e y" "helper_step w inp (y_helper y) = Some s"
  obtains es where "sv_fx s = sv_fx (y_helper y) @ es" "sent_between (y_helper y) s = delivered es"
proof -
  have "bounded_out (y_helper y)" using assms(1) by (simp add: login_inv_def helper_inv_def)
  with assms(2) that show thesis using step_says by (fastforce simp: says_def sent_between_def)
qed

lemma manager_runs_Some:
  "manager_runs now inp y = Some y' \<longleftrightarrow> (\<exists>m. bsm_step (y_manager y) (now, inp) m \<and> y' = manager_done m (requests (m_fx m)) y)"
  by (auto simp: manager_runs_def bsm_step_def)

lemma helper_runs_Some:
  assumes "login_inv e y" "helper_runs e w inp y = Some y'"
  obtains s es where "helper_rel e (y_helper y) (w, inp) s" "sv_fx s = sv_fx (y_helper y) @ es"
    "y' = y\<lparr>y_helper := s, y_down := y_down y @ delivered es\<rparr>"
proof -
  obtain s where s: "w_euid w = e" "helper_step w inp (y_helper y) = Some s"
    "y' = y\<lparr>y_helper := s, y_down := y_down y @ sent_between (y_helper y) s\<rparr>"
    using assms(2) by (auto simp: helper_runs_def split: if_splits)
  obtain es where "sv_fx s = sv_fx (y_helper y) @ es" "sent_between (y_helper y) s = delivered es"
    by (rule fx_delivered [OF assms(1) s(2)])
  with s that show thesis by (auto simp: helper_rel_def)
qed

lemma login_exec_step:
  assumes "login_inv e y" "login_exec e i y = Some y'"
  shows "login_step e y i y'"
proof (cases i)
  case (YI_Manager now inp)
  then have "\<And>ev. inp \<noteq> In_Helper ev" "manager_runs now inp y = Some y'" using assms(2) by (auto split: input.splits)
  then show ?thesis using YI_Manager by (auto simp: manager_runs_Some intro: login_step.manager_acts)
next
  case (YI_Hear now)
  then obtain ev ds z where "y_down y = ev # ds" "manager_runs now (In_Helper ev) y = Some z" "y' = z\<lparr>y_down := ds\<rparr>"
    using assms(2) by (auto split: list.splits)
  then show ?thesis using YI_Hear by (auto simp: manager_runs_Some intro: login_step.manager_hears)
next
  case (YI_Helper w inp)
  then have inp: "\<not> through_socket inp" "helper_runs e w inp y = Some y'" using assms(2) by (auto split: if_splits)
  obtain s es where "helper_rel e (y_helper y) (w, inp) s" "sv_fx s = sv_fx (y_helper y) @ es"
    "y' = y\<lparr>y_helper := s, y_down := y_down y @ delivered es\<rparr>" by (rule helper_runs_Some [OF assms(1) inp(2)])
  then show ?thesis using YI_Helper inp(1) by (auto intro: login_step.helper_acts)
next
  case (YI_Read w)
  then obtain r rs z where r: "y_up y = r # rs" "helper_runs e w (HI_Request (CI_Request r)) y = Some z" "y' = z\<lparr>y_up := rs\<rparr>"
    using assms(2) by (auto split: list.splits)
  obtain s es where "helper_rel e (y_helper y) (w, HI_Request (CI_Request r)) s" "sv_fx s = sv_fx (y_helper y) @ es"
    "z = y\<lparr>y_helper := s, y_down := y_down y @ delivered es\<rparr>" by (rule helper_runs_Some [OF assms(1) r(2)])
  moreover from this have "y' = y\<lparr>y_helper := s, y_up := rs, y_down := y_down y @ delivered es\<rparr>" using r(3) by (cases y) simp
  ultimately show ?thesis using YI_Read r(1) by (auto intro: login_step.helper_reads)
next
  case (YI_Connect w c)
  then have "helper_runs e w (HI_Accept c) y = Some y'" using assms(2) by simp
  then obtain s es where "helper_rel e (y_helper y) (w, HI_Accept c) s" "sv_fx s = sv_fx (y_helper y) @ es"
    "y' = y\<lparr>y_helper := s, y_down := y_down y @ delivered es\<rparr>" by (rule helper_runs_Some [OF assms(1)])
  then show ?thesis using YI_Connect login_step.connects [of e y w c s es "y_down y @ delivered es" "y_up y"] by simp
qed

lemma login_run_trace:
  assumes "run_by (login_init e) (login_step e) tr y" "login_run e is y = Some y'"
  shows "run_by (login_init e) (login_step e) (tr @ login_trace e is y) y'"
  using assms
proof (induction "is" arbitrary: y tr)
  case (Cons i "is")
  then obtain z where z: "login_exec e i y = Some z" "login_run e is z = Some y'" by (auto simp: Option.bind_eq_Some_conv)
  have "login_inv e y" using login.run_states_invariant [OF Cons.prems(1)] by simp
  then have "login_step e y i z" using z(1) by (rule login_exec_step)
  from Cons.IH [OF run_step [OF Cons.prems(1) this] z(2)] z(1) show ?case by simp
qed simp

section \<open>A login\<close>

definition login_world :: world where
  "login_world = run_world
     \<lparr>w_getpwnam := \<lambda>n. Io_Ok (if n = ''ann'' then Some demo_user
        else if n = ''bingux-greeter'' then Some (demo_user\<lparr>pw_name := n, pw_uid := 900\<rparr>) else None),
      w_prepare_dirs := \<lambda>root gen pw. Io_Ok \<lparr>gr_dir = ''/d'', gr_runtime = ''/d/r'', gr_home = ''/d/h''\<rparr>,
      w_spawn := Io_Ok 777\<rparr>"

definition login_start :: login_system where
  "login_start = \<lparr>y_manager = Scenario.demo_start, y_helper = demo_helper, y_up = [], y_down = [], y_asked = [], y_drawn = 0\<rparr>"

definition to_greeter :: "login_input list" where
  "to_greeter =
     map (YI_Manager 0) [In_Start demo_persisted, In_Recovered [demo_recovered],
       In_Accounts [(Scenario.demo_account 1000)\<lparr>acc_user_name := ''ann''\<rparr>]] @
     [YI_Connect login_world demo_peer] @
     map (YI_Manager 0) [In_HelperConnected, In_Scene (Scn_Ready [demo_output])] @
     [YI_Read login_world, YI_Hear 0] @
     map (YI_Manager 0) [In_Scene (Scn_GreeterConnected 1 777), In_GreeterPeer 5 900 777, In_Greeter 5 (CMsg_Hello 1)]"

definition to_verdict :: "login_input list" where
  "to_verdict = [YI_Manager 0 (In_Greeter 5 (CMsg_BeginAuth 1 1000 Intent_Switch)), YI_Read login_world]"

definition verdict_input :: login_input where
  "verdict_input = YI_Helper login_world (HI_Auth 2 (In_Msg (ACE_Done True None [])))"

definition to_commit :: "login_input list" where
  "to_commit = [YI_Hear 0, YI_Manager 0 (In_Scene (Scn_SessionConnected ''s1'' 7 4000)),
     YI_Manager 0 (In_Scene (Scn_SessionSurfaces ''s1'' 7 (demo_evidence 3)))]"

lemma login_start_init: "login_init 0 login_start"
  using demo_init by (auto simp: login_init_def login_start_def bsm_init_def Scenario.demo_start_def)

text \<open>The greeter comes up, PAM accepts the password, the session is shown.\<close>

lemma login_demo:
  "case login_run 0 (to_greeter @ to_verdict) login_start of
     None \<Rightarrow> False
   | Some a \<Rightarrow>
       (case last (forks (sv_fx (y_helper a))) of (p, params, b) \<Rightarrow>
          CE_Send (ACE_Done True None []) (Io_Ok True)
            \<in> set (ch_fx (ran_state (child_decides demo_child_world demo_pam params b (child_start demo_answer))))) \<and>
       (case login_run 0 (verdict_input # to_commit) a of
          None \<Rightarrow> False
        | Some y \<Rightarrow>
            y_drawn y = 15 \<and> is_some_and (session_of (y_manager y) ''s1'') (\<lambda>s. s_state s = St_LockedBackground) \<and>
            (case login_exec 0 (YI_Manager 0 commit_input) y of
               None \<Rightarrow> False
             | Some y' \<Rightarrow> is_some_and (session_of (y_manager y') ''s1'') (\<lambda>s. s_state s = St_Foreground \<and> s_uid s = 1000)))"
  by code_simp

text \<open>The moments of that run: the process has been forked, the desktop is about to be shown, it is shown.\<close>

lemma login_moments:
  obtains a y y' s s' where "login_run 0 (to_greeter @ to_verdict) login_start = Some a"
    "login_run 0 (verdict_input # to_commit) a = Some y" "login_exec 0 (YI_Manager 0 commit_input) y = Some y'"
    "sent_by_child demo_pam (\<lambda>_. demo_child_world) (\<lambda>_. demo_answer) (y_helper a) (ACE_Done True None [])"
    "y_drawn y = 15" "session_of (y_manager y) ''s1'' = Some s" "s_state s = St_LockedBackground"
    "session_of (y_manager y') ''s1'' = Some s'" "s_state s' = St_Foreground" "s_uid s' = 1000"
proof -
  obtain a where a: "login_run 0 (to_greeter @ to_verdict) login_start = Some a" using login_demo by (auto split: option.splits)
  obtain y where y: "login_run 0 (verdict_input # to_commit) a = Some y" using login_demo a by (auto split: option.splits)
  obtain y' where y': "login_exec 0 (YI_Manager 0 commit_input) y = Some y'" using login_demo a y by (auto split: option.splits)
  note seen = login_demo [unfolded a y y' option.case]
  have "sent_by_child demo_pam (\<lambda>_. demo_child_world) (\<lambda>_. demo_answer) (y_helper a) (ACE_Done True None [])"
    using seen by (auto simp: sent_by_child_def Let_def split: prod.splits)
  with a y y' seen that show thesis by (auto simp: is_some_and_iff)
qed

text \<open>In that run the only message a process sends to the helper is the verdict.\<close>

lemma only_verdict:
  "(u, v, HI_Auth k m) \<in> set (helper_part (login_trace e is y)) \<Longrightarrow> YI_Helper v (HI_Auth k m) \<in> set is"
proof (induction "is" arbitrary: y)
  case (Cons i "is")
  then show ?case by (cases i) auto
qed simp

lemma verdict_faithful:
  assumes "sent_by_child L W T (y_helper a) (ACE_Done True None [])"
  shows "faithful_sockets L W T
    (helper_part (login_trace 0 (to_greeter @ to_verdict) login_start @ login_trace 0 (verdict_input # to_commit) a))"
proof -
  have before: "(u, v, HI_Auth k m) \<notin> set (helper_part (login_trace 0 (to_greeter @ to_verdict) login_start))" for u v k m
    using only_verdict [of u v k m 0 "to_greeter @ to_verdict" login_start] by (auto simp: to_greeter_def to_verdict_def)
  have after: "(u, v, HI_Auth k m) \<notin> set (helper_part (login_trace 0 to_commit z))" for u v k m z
    using only_verdict [of u v k m 0 to_commit z] by (auto simp: to_commit_def)
  show ?thesis unfolding faithful_sockets_def using assms before after
    by (fastforce simp: verdict_input_def split: helper_input.splits incoming.splits)
qed

theorem desktop_needs_pam_witness:
  "\<exists>tr y pid params b p c'. run_by (login_init 0) (login_step 0) tr y \<and> (pid, params, b) \<in> set (forks (sv_fx (y_helper y)))
    \<and> ap_uid params = 1000 \<and> authenticated demo_child_world demo_pam params (child_start demo_answer) p c'"
proof -
  obtain a y y' s s' where r: "login_run 0 (to_greeter @ to_verdict) login_start = Some a"
    "login_run 0 (verdict_input # to_commit) a = Some y" "login_exec 0 (YI_Manager 0 commit_input) y = Some y'"
    and sent: "sent_by_child demo_pam (\<lambda>_. demo_child_world) (\<lambda>_. demo_answer) (y_helper a) (ACE_Done True None [])"
    and drawn: "y_drawn y = 15" and s: "session_of (y_manager y) ''s1'' = Some s" "s_state s = St_LockedBackground"
    and s': "session_of (y_manager y') ''s1'' = Some s'" "s_state s' = St_Foreground" "s_uid s' = 1000"
    by (rule login_moments)
  let ?tr = "login_trace 0 (to_greeter @ to_verdict) login_start @ login_trace 0 (verdict_input # to_commit) a"
  have run: "run_by (login_init 0) (login_step 0) ?tr y"
    using login_run_trace [OF login_run_trace [OF run_init [of "login_init 0", OF login_start_init] r(1)] r(2)] by simp
  have step: "login_step 0 y (YI_Manager 0 commit_input) y'"
    using login.run_states_invariant [OF run] r(3) login_exec_step by blast
  have hidden: "\<not> is_some_and (session_of (y_manager y) ''s1'') (\<lambda>s. s_state s = St_Foreground)" using s by simp
  have few: "y_drawn y < 2 ^ 64" using drawn by simp
  from desktop_needs_pam [OF run step s'(1,2) hidden few verdict_faithful [OF sent]] run s'(3) show ?thesis by metis
qed

end
