(* ===== verification/Runtime_Inputs.thy ===== *)
theory Runtime_Inputs
  imports Login_Requests Security
begin

text \<open>
  What the manager's first inputs and its request for the accounts mean for the driver: until the
  accounts arrive there is no account and no conversation, and the accounts are asked for once.
\<close>

section \<open>Before and after the accounts\<close>

text \<open>The accounts have been asked for at most \<^term>\<open>k\<close> times.\<close>

definition loads :: "nat \<Rightarrow> manager \<Rightarrow> bool" where
  "loads k m \<longleftrightarrow> count_list (m_fx m) Fx_LoadAccounts \<le> k"

definition unready :: "nat \<Rightarrow> manager \<Rightarrow> bool" where
  "unready k m \<longleftrightarrow> m_users m = [] \<and> m_challenge m = None \<and> loads k m"

interpretation later: manager_frame "loads k" for k
proof unfold_locales
  fix m :: manager and e :: effect
  show "loads k m \<Longrightarrow> \<not> is_ask e \<Longrightarrow> loads k (push e m)" by (cases e) (auto simp: loads_def)
  then show "loads k m \<Longrightarrow> \<not> is_ask e \<Longrightarrow> requests [e] \<noteq> [] \<Longrightarrow> loads k (push e (snd (helper_req m)))"
    by (simp add: helper_req_def loads_def)
qed (auto simp: loads_def modify_challenge_def)

interpretation before: manager_frame "unready k" for k
proof unfold_locales
  fix m :: manager and e :: effect
  show "unready k m \<Longrightarrow> \<not> is_ask e \<Longrightarrow> unready k (push e m)" using later.pushed by (simp add: unready_def)
  show "unready k m \<Longrightarrow> \<not> is_ask e \<Longrightarrow> requests [e] \<noteq> [] \<Longrightarrow> unready k (push e (snd (helper_req m)))"
    using later.drawn by (simp add: unready_def helper_req_def)
qed (auto simp: unready_def loads_def modify_challenge_def btm_modify_def)

lemma fresh_quiet: "loads k (m\<lparr>m_now := now, m_fx := []\<rparr>)"
  by (simp add: loads_def)

lemma quiet_challenge: "loads k m \<Longrightarrow> loads k (start_challenge rid uid intent service pl gn m)"
  by (simp add: start_challenge_def new_operation_def helper_req_def emit_op_def op_authorising_def op_set_def
      fresh_operation_def log_msg_def loads_def Let_def)

lemma apart_cases:
  assumes "stands_apart inp"
  obtains sid gn path where "inp = In_Scene (Scn_SessionSocketReady sid gn path)"
  | conn rid uid intent where "inp = In_Greeter conn (CMsg_BeginAuth rid uid intent)"
  | p where "inp = In_Start p"
  | accs where "inp = In_Accounts accs"
  using assms by (cases inp rule: stands_apart.cases) auto

text \<open>The accounts are asked for at the start only.\<close>

lemma accounts_asked_once:
  assumes "handle now inp m = Some m'" "\<And>p. inp \<noteq> In_Start p"
  shows "loads 0 m'"
proof (cases "stands_apart inp")
  case False
  then show ?thesis using later.handled [OF fresh_quiet assms(1)] by blast
next
  case True
  let ?m0 = "m\<lparr>m_now := Some now, m_fx := []\<rparr>"
  show ?thesis
  proof (cases rule: apart_cases [OF True])
    case (1 sid gn path)
    then have "m' = settle (on_socket_ready sid gn path ?m0)" using assms(1) by (simp add: handle_def dispatch_def on_scene_def)
    moreover have "loads 0 (on_socket_ready sid gn path ?m0)"
      by (rule later.socket_ready) (simp add: loads_def helper_req_def)
    ultimately show ?thesis by auto
  next
    case (2 conn rid uid intent)
    then obtain m1 where "on_greeter_message conn (CMsg_BeginAuth rid uid intent) ?m0 = Some m1" "m' = settle m1"
      using assms(1) by (auto simp: handle_def dispatch_def)
    then show ?thesis using fresh_quiet [where m = m and now = "Some now"]
      by (auto simp: on_greeter_message_def intro: later.auth_begun [OF fresh_quiet _ quiet_challenge] split: if_splits)
  next
    case (4 accs)
    then have "m' = settle (on_accounts accs ?m0)" using assms(1) by (simp add: handle_def dispatch_def)
    moreover have "loads 0 (on_accounts accs ?m0)" by (simp add: on_accounts_def loads_def Let_def)
    ultimately show ?thesis by auto
  qed (use assms(2) in blast)
qed

text \<open>Until they arrive, nothing can start a conversation.\<close>

lemma unready_kept:
  assumes "handle now inp m = Some m'" "\<And>p. inp \<noteq> In_Start p" "\<And>accs. inp \<noteq> In_Accounts accs" "m_users m = []" "m_challenge m = None"
  shows "m_users m' = [] \<and> m_challenge m' = None"
proof -
  let ?m0 = "m\<lparr>m_now := Some now, m_fx := []\<rparr>"
  have 0: "unready 0 ?m0" using assms(4,5) by (simp add: unready_def loads_def)
  have "unready 0 m'"
  proof (cases "stands_apart inp")
    case False
    then show ?thesis using before.handled [OF 0 assms(1)] by blast
  next
    case True
    show ?thesis
    proof (cases rule: apart_cases [OF True])
      case (1 sid gn path)
      then have "m' = settle (on_socket_ready sid gn path ?m0)" using assms(1) by (simp add: handle_def dispatch_def on_scene_def)
      moreover have "unready 0 (on_socket_ready sid gn path ?m0)"
        by (rule before.socket_ready) (use 0 in \<open>simp add: unready_def loads_def helper_req_def\<close>)
      ultimately show ?thesis by auto
    next
      case (2 conn rid uid intent)
      then obtain m1 where m1: "on_greeter_message conn (CMsg_BeginAuth rid uid intent) ?m0 = Some m1" "m' = settle m1"
        using assms(1) by (auto simp: handle_def dispatch_def)
      have "unready 0 m1" using m1(1) 0 assms(4)
        by (auto simp: on_greeter_message_def greeter_begin_auth_def user_known_def btm_contains_def Let_def split: if_splits)
      with m1(2) show ?thesis by auto
    qed (use assms(2,3) in blast)+
  qed
  then show ?thesis by (simp add: unready_def)
qed

lemma fold_op: "(\<And>x m. m_op (g x m) = m_op m) \<Longrightarrow> m_op (fold g xs m) = m_op m"
  by (induction xs arbitrary: m) simp_all

lemma settle_op: "m_op (settle m) = m_op m"
proof -
  have "m_op (settle_input n) = m_op n" "m_op (settle_persist n) = m_op n" "m_op (settle_sessions n) = m_op n"
    "m_op (settle_selected n) = m_op n" "m_op (settle_foreground n) = m_op n" "m_op (settle_progress n) = m_op n"
    "m_op (settle_snapshot n) = m_op n" for n
    by (simp_all add: settle_input_def settle_persist_def settle_sessions_def settle_selected_def settle_foreground_def
        settle_progress_def settle_snapshot_def set_input_owner_def modify_published_def Let_def split: option.split)
  moreover have "m_op (settle_locks n) = m_op n" "m_op (settle_ready n) = m_op n" for n
    by (simp_all add: settle_locks_def settle_ready_def modify_published_def Let_def fold_op split_beta)
  ultimately show ?thesis by (simp add: settle_def Let_def)
qed

text \<open>The first input.\<close>

lemma started:
  assumes "handle now (In_Start p) (manager_new pol rng) = Some m'"
  shows "m_users m' = [] \<and> m_challenge m' = None \<and> m_op m' = None \<and> count_list (m_fx m') Fx_LoadAccounts \<le> 1"
proof -
  let ?m0 = "(manager_new pol rng)\<lparr>m_now := Some now, m_fx := []\<rparr>"
  have m': "m' = settle (on_start p ?m0)" using assms by (simp add: handle_def dispatch_def)
  have 1: "unready 1 (on_start p ?m0)" by (simp add: on_start_def manager_new_def unready_def loads_def)
  then have "unready 1 (settle (on_start p ?m0))" by (rule before.settled)
  moreover have "m_op (on_start p ?m0) = None" by (simp add: on_start_def manager_new_def)
  ultimately show ?thesis unfolding m' settle_op by (simp add: unready_def loads_def)
qed

end
