(* ===== verification/Runtime_Store.thy ===== *)
theory Runtime_Store
  imports Core_State Helper_Env
begin

text \<open>
  What the manager remembers between two runs: \<^verbatim>\<open>src/bsm/manager/src/runtime/persist.rs\<close>, the state
  file and how it is replaced, over a file system that may lose what has not been flushed, and
  \<^verbatim>\<open>runtime/recovery.rs\<close>, the probe of the sessions a file names. The JSON encoding is a parameter.
\<close>

section \<open>The file system\<close>

text \<open>One directory. \<^verbatim>\<open>fs_dir\<close> is what processes see; \<^verbatim>\<open>fs_older\<close> are the earlier directories that a power
  failure can bring back, until the directory is flushed; a file whose contents are not flushed can
  come back with any contents.\<close>

type_synonym directory = "string \<Rightarrow> nat option"

record fs =
  fs_dir :: directory
  fs_older :: "directory list"
  fs_data :: "nat \<Rightarrow> string"
  fs_synced :: "nat \<Rightarrow> bool"
  fs_mode :: "nat \<Rightarrow> nat"
  fs_fresh :: nat

definition fs_empty :: fs where
  "fs_empty = \<lparr>fs_dir = \<lambda>_. None, fs_older = [], fs_data = \<lambda>_. [], fs_synced = \<lambda>_. False, fs_mode = \<lambda>_. 0, fs_fresh = 0\<rparr>"

definition fs_relink :: "directory \<Rightarrow> fs \<Rightarrow> fs" where
  "fs_relink d f = f\<lparr>fs_dir := d, fs_older := fs_dir f # fs_older f\<rparr>"

text \<open>\<^verbatim>\<open>open\<close> with \<^verbatim>\<open>O_CREAT | O_TRUNC\<close>: an existing file keeps its mode.\<close>

definition fs_open :: "string \<Rightarrow> nat \<Rightarrow> fs \<Rightarrow> nat \<times> fs" where
  "fs_open name mode f =
     (case fs_dir f name of
        Some i \<Rightarrow> (i, f\<lparr>fs_data := (fs_data f)(i := []), fs_synced := (fs_synced f)(i := False)\<rparr>)
      | None \<Rightarrow>
          (let i = fs_fresh f in
           (i, fs_relink ((fs_dir f)(name \<mapsto> i))
                 (f\<lparr>fs_data := (fs_data f)(i := []), fs_synced := (fs_synced f)(i := False),
                    fs_mode := (fs_mode f)(i := mode), fs_fresh := Suc i\<rparr>))))"

definition fs_write :: "nat \<Rightarrow> string \<Rightarrow> fs \<Rightarrow> fs" where
  "fs_write i bytes f = f\<lparr>fs_data := (fs_data f)(i := fs_data f i @ bytes), fs_synced := (fs_synced f)(i := False)\<rparr>"

definition fs_sync :: "nat \<Rightarrow> fs \<Rightarrow> fs" where
  "fs_sync i f = f\<lparr>fs_synced := (fs_synced f)(i := True)\<rparr>"

definition fs_chmod :: "nat \<Rightarrow> nat \<Rightarrow> fs \<Rightarrow> fs" where
  "fs_chmod i mode f = f\<lparr>fs_mode := (fs_mode f)(i := mode)\<rparr>"

definition fs_rename :: "string \<Rightarrow> string \<Rightarrow> fs \<Rightarrow> fs" where
  "fs_rename a b f = fs_relink ((fs_dir f)(b := fs_dir f a, a := None)) f"

definition fs_sync_dir :: "fs \<Rightarrow> fs" where
  "fs_sync_dir f = f\<lparr>fs_older := []\<rparr>"

text \<open>A power failure.\<close>

definition after_crash :: "fs \<Rightarrow> fs \<Rightarrow> bool" where
  "after_crash f f' \<longleftrightarrow>
     fs_dir f' \<in> insert (fs_dir f) (set (fs_older f)) \<and> fs_older f' = [] \<and> fs_mode f' = fs_mode f \<and> fs_fresh f' = fs_fresh f
     \<and> fs_synced f' = fs_synced f \<and> (\<forall>i. fs_synced f i \<longrightarrow> fs_data f' i = fs_data f i)"

section \<open>The state file\<close>

definition FILE_NAME :: string where
  "FILE_NAME = ''state.json''"

definition persisted_default :: persisted where
  "persisted_default = \<lparr>per_version = 0, per_last_used_uid = None, per_sessions = []\<rparr>"

definition parsed :: "(string \<Rightarrow> persisted option) \<Rightarrow> string \<Rightarrow> persisted" where
  "parsed dec bytes =
     (case dec bytes of Some p \<Rightarrow> if per_version p \<le> 1 then p else persisted_default | None \<Rightarrow> persisted_default)"

text \<open>\<^verbatim>\<open>readable\<close> is false when reading fails for another reason than a missing file.\<close>

definition load :: "(string \<Rightarrow> persisted option) \<Rightarrow> bool \<Rightarrow> fs \<Rightarrow> persisted" where
  "load dec readable f =
     (case fs_dir f FILE_NAME of
        Some i \<Rightarrow> if readable then parsed dec (fs_data f i) else persisted_default
      | None \<Rightarrow> persisted_default)"

definition tmp_name :: "nat \<Rightarrow> string" where
  "tmp_name pid = ''.'' @ FILE_NAME @ ''.'' @ show_nat pid @ ''.tmp''"

text \<open>The answers of the system calls; a write that fails has written some bytes.\<close>

record save_world =
  sw_mkdir :: bool
  sw_open :: bool
  sw_write :: "nat option"
  sw_newline :: "nat option"
  sw_sync :: bool
  sw_chmod :: bool
  sw_rename :: bool
  sw_open_dir :: bool
  sw_sync_dir :: bool

definition write_all :: "nat option \<Rightarrow> nat \<Rightarrow> string \<Rightarrow> fs \<Rightarrow> fs" where
  "write_all fails i bytes f = fs_write i (case fails of None \<Rightarrow> bytes | Some n \<Rightarrow> take n bytes) f"

text \<open>The file system after each call of \<^verbatim>\<open>save\<close>, the oldest first, and whether it succeeded.\<close>

definition finish_save :: "save_world \<Rightarrow> string \<Rightarrow> nat \<Rightarrow> fs \<Rightarrow> fs list \<times> bool" where
  "finish_save w tmp i f =
     (if \<not> sw_sync w then ([f], False)
      else let f1 = fs_sync i f in
      if \<not> sw_chmod w then ([f, f1], False)
      else let f2 = fs_chmod i 384 f1 in
      if \<not> sw_rename w then ([f, f1, f2], False)
      else let f3 = fs_rename tmp FILE_NAME f2 in
      if sw_open_dir w \<and> sw_sync_dir w then ([f, f1, f2, f3, fs_sync_dir f3], True) else ([f, f1, f2, f3], True))"

definition save :: "save_world \<Rightarrow> (persisted \<Rightarrow> string option) \<Rightarrow> nat \<Rightarrow> persisted \<Rightarrow> fs \<Rightarrow> fs list \<times> bool" where
  "save w enc pid state f =
     (let tmp = tmp_name pid in
      if \<not> sw_mkdir w \<or> \<not> sw_open w then ([f], False)
      else case fs_open tmp 384 f of (i, f1) \<Rightarrow>
        (case enc state of
           None \<Rightarrow> ([f, f1], False)
         | Some body \<Rightarrow>
             (let f2 = write_all (sw_write w) i body f1 in
              if sw_write w \<noteq> None then ([f, f1, f2], False)
              else let f3 = write_all (sw_newline w) i ''\<newline>'' f2 in
              if sw_newline w \<noteq> None then ([f, f1, f2, f3], False)
              else case finish_save w tmp i f3 of (trace, ok) \<Rightarrow> ([f, f1, f2] @ trace, ok))))"

section \<open>The old state or the new one\<close>

text \<open>Whatever a power failure brings back, the state file holds one of the states \<^term>\<open>V\<close>, and no other
  name leads to it.\<close>

definition snapshots :: "fs \<Rightarrow> directory set" where
  "snapshots f = insert (fs_dir f) (set (fs_older f))"

definition good_entry :: "(string \<Rightarrow> persisted option) \<Rightarrow> persisted set \<Rightarrow> fs \<Rightarrow> nat option \<Rightarrow> bool" where
  "good_entry dec V f e \<longleftrightarrow>
     (case e of None \<Rightarrow> persisted_default \<in> V
      | Some i \<Rightarrow> fs_synced f i \<and> parsed dec (fs_data f i) \<in> V \<and> fs_mode f i = 384 \<and> i < fs_fresh f)"

definition store_ok :: "(string \<Rightarrow> persisted option) \<Rightarrow> persisted set \<Rightarrow> fs \<Rightarrow> bool" where
  "store_ok dec V f \<longleftrightarrow>
     (\<forall>d \<in> snapshots f. good_entry dec V f (d FILE_NAME)
        \<and> (\<forall>n i. d n = Some i \<longrightarrow> i < fs_fresh f \<and> (\<forall>m. d m = Some i \<longrightarrow> m = n))
        \<and> (\<forall>n i. n \<noteq> FILE_NAME \<longrightarrow> fs_dir f n = Some i \<longrightarrow> d FILE_NAME \<noteq> Some i))"

lemma store_okD:
  assumes "store_ok dec V f" "d \<in> snapshots f"
  shows "good_entry dec V f (d FILE_NAME)"
    and "d n = Some i \<Longrightarrow> i < fs_fresh f" "d n = Some i \<Longrightarrow> d m = Some i \<Longrightarrow> m = n"
    and "n \<noteq> FILE_NAME \<Longrightarrow> fs_dir f n = Some i \<Longrightarrow> d FILE_NAME \<noteq> Some i"
  using assms by (auto simp: store_ok_def)

lemma store_okI:
  assumes "\<And>d. d \<in> snapshots f \<Longrightarrow> good_entry dec V f (d FILE_NAME)"
    and "\<And>d n i. d \<in> snapshots f \<Longrightarrow> d n = Some i \<Longrightarrow> i < fs_fresh f"
    and "\<And>d n m i. d \<in> snapshots f \<Longrightarrow> d n = Some i \<Longrightarrow> d m = Some i \<Longrightarrow> m = n"
    and "\<And>d n i. d \<in> snapshots f \<Longrightarrow> n \<noteq> FILE_NAME \<Longrightarrow> fs_dir f n = Some i \<Longrightarrow> d FILE_NAME \<noteq> Some i"
  shows "store_ok dec V f"
  using assms unfolding store_ok_def by blast

lemma dir_snapshot [simp]: "fs_dir f \<in> snapshots f"
  by (simp add: snapshots_def)

lemma store_empty: "store_ok dec {persisted_default} fs_empty"
  by (simp add: store_ok_def snapshots_def fs_empty_def good_entry_def)

lemma tmp_not_file: "tmp_name pid \<noteq> FILE_NAME"
  by (simp add: tmp_name_def FILE_NAME_def)

lemma store_crash:
  assumes "store_ok dec V f" "after_crash f f'"
  shows "store_ok dec V f'"
proof -
  have d: "fs_dir f' \<in> snapshots f" "snapshots f' = {fs_dir f'}" "fs_fresh f' = fs_fresh f"
    using assms(2) by (auto simp: after_crash_def snapshots_def)
  have good: "good_entry dec V f' e" if "good_entry dec V f e" for e
    using that assms(2) by (auto simp: good_entry_def after_crash_def split: option.splits)
  note D = store_okD [OF assms(1) d(1)]
  show ?thesis by (rule store_okI) (use d(2,3) D(1) [THEN good] D(2,3) in auto)
qed

lemma store_mono:
  assumes "store_ok dec V f" "V \<subseteq> W"
  shows "store_ok dec W f"
proof -
  have "good_entry dec V f e \<Longrightarrow> good_entry dec W f e" for e using assms(2) by (auto simp: good_entry_def split: option.splits)
  then show ?thesis using assms(1) by (simp add: store_ok_def)
qed

lemmas store_grow = store_mono [OF _ subset_insertI]

lemma store_load: "store_ok dec V f \<Longrightarrow> load dec True f \<in> V"
  using store_okD(1) [of dec V f "fs_dir f"] by (auto simp: good_entry_def load_def split: option.splits)

text \<open>Working on a file that is not the state file keeps the store.\<close>

definition aside :: "nat \<Rightarrow> fs \<Rightarrow> bool" where
  "aside i f \<longleftrightarrow> (\<forall>d \<in> snapshots f. d FILE_NAME \<noteq> Some i)"

lemma good_elsewhere:
  assumes "good_entry dec V f e" "e \<noteq> Some i" "fs_fresh f \<le> fs_fresh f'"
    and "\<And>j. j \<noteq> i \<Longrightarrow> fs_data f' j = fs_data f j \<and> fs_synced f' j = fs_synced f j \<and> fs_mode f' j = fs_mode f j"
  shows "good_entry dec V f' e"
proof (cases e)
  case (Some j)
  with assms(2) have "j \<noteq> i" by simp
  then show ?thesis using assms(1,3) assms(4) [of j] Some by (simp add: good_entry_def)
qed (use assms(1) in \<open>simp add: good_entry_def\<close>)

lemma store_aside:
  assumes "store_ok dec V f" "aside i f"
    and "fs_dir f' = fs_dir f" "fs_older f' = fs_older f" "fs_fresh f' = fs_fresh f"
    and "\<And>j. j \<noteq> i \<Longrightarrow> fs_data f' j = fs_data f j \<and> fs_synced f' j = fs_synced f j \<and> fs_mode f' j = fs_mode f j"
  shows "store_ok dec V f'" "aside i f'"
proof -
  have s: "snapshots f' = snapshots f" using assms(3,4) by (simp add: snapshots_def)
  then show "aside i f'" using assms(2) by (simp add: aside_def)
  note D = store_okD [OF assms(1)]
  have "good_entry dec V f' (d FILE_NAME)" if "d \<in> snapshots f" for d
    by (rule good_elsewhere [OF D(1) [OF that]]) (use assms(2,5,6) that in \<open>auto simp: aside_def\<close>)
  then show "store_ok dec V f'" by (intro store_okI) (use D(2-4) s assms(3,5) in auto)
qed

lemma named_aside: "store_ok dec V f \<Longrightarrow> n \<noteq> FILE_NAME \<Longrightarrow> fs_dir f n = Some i \<Longrightarrow> aside i f"
  using store_okD(4) by (auto simp: aside_def)

lemma store_create:
  assumes "store_ok dec V f" "n \<noteq> FILE_NAME" "fs_dir f n = None" "fs_open n mode f = (i, f')"
  shows "store_ok dec V f'" "aside i f'"
proof -
  have f': "i = fs_fresh f" "snapshots f' = insert (fs_dir f') (snapshots f)" "fs_fresh f' = Suc i" "fs_dir f' = (fs_dir f)(n \<mapsto> i)"
    "\<And>j. j \<noteq> i \<Longrightarrow> fs_data f' j = fs_data f j \<and> fs_synced f' j = fs_synced f j \<and> fs_mode f' j = fs_mode f j"
    using assms(3,4) by (auto simp: fs_open_def fs_relink_def snapshots_def Let_def)
  note D = store_okD [OF assms(1)]
  have below: "j < i" if "d \<in> snapshots f" "d m = Some j" for d m j using D(2) [OF that] f'(1) by simp
  have entry: "fs_dir f' FILE_NAME = fs_dir f FILE_NAME" using f'(4) assms(2) by simp
  have far: "d FILE_NAME \<noteq> Some i" if "d \<in> snapshots f" for d using below [OF that] by blast
  then show "aside i f'" using f'(2) entry by (simp add: aside_def)
  have good: "good_entry dec V f' (d FILE_NAME)" if "d \<in> snapshots f" for d
    by (rule good_elsewhere [OF D(1) [OF that] far [OF that] _ f'(5)]) (use f'(1,3) in simp)
  have new: "fs_dir f' m = Some j \<longleftrightarrow> (if m = n then j = i else fs_dir f m = Some j)" for m j using f'(4) by auto
  have below': "j < Suc i" if "fs_dir f' m = Some j" for m j
    using that below [OF dir_snapshot, of m j] by (auto simp: new split: if_splits)
  have once: "m' = m" if "fs_dir f' m = Some j" "fs_dir f' m' = Some j" for m m' j
    using that below [OF dir_snapshot, of m j] below [OF dir_snapshot, of m' j] D(3) [OF dir_snapshot, of m j m']
    by (auto simp: new split: if_splits)
  have apart: "d FILE_NAME \<noteq> Some j" if "d \<in> snapshots f" "m \<noteq> FILE_NAME" "fs_dir f' m = Some j" for d m j
    using that far D(4) [OF that(1,2)] by (auto simp: new split: if_splits)
  show "store_ok dec V f'"
  proof (rule store_okI)
    fix d assume "d \<in> snapshots f'"
    then show "good_entry dec V f' (d FILE_NAME)" using good f'(2) entry by (metis dir_snapshot insertE)
    { fix m j assume "d m = Some j"
      with \<open>d \<in> snapshots f'\<close> show "j < fs_fresh f'" using below' below f'(2,3) less_SucI by (metis insertE) }
    { fix m m' j assume "d m = Some j" "d m' = Some j"
      with \<open>d \<in> snapshots f'\<close> show "m' = m" using once D(3) f'(2) by (metis insertE) }
    { fix m j assume "m \<noteq> FILE_NAME" "fs_dir f' m = Some j"
      with \<open>d \<in> snapshots f'\<close> show "d FILE_NAME \<noteq> Some j" using apart entry f'(2) by (metis dir_snapshot insertE) }
  qed
qed

lemma store_open:
  assumes "store_ok dec V f" "n \<noteq> FILE_NAME" "fs_open n mode f = (i, f')"
  shows "store_ok dec V f'" "aside i f'" "fs_dir f' n = Some i"
proof -
  show "fs_dir f' n = Some i"
    using assms(3) by (auto simp: fs_open_def fs_relink_def Let_def split: option.splits)
  have "store_ok dec V f' \<and> aside i f'"
  proof (cases "fs_dir f n")
    case None
    then show ?thesis using store_create [OF assms(1,2) _ assms(3)] by blast
  next
    case (Some j)
    with assms(3) have "j = i" "f' = f\<lparr>fs_data := (fs_data f)(i := []), fs_synced := (fs_synced f)(i := False)\<rparr>"
      by (auto simp: fs_open_def)
    then show ?thesis using store_aside [OF assms(1) named_aside [OF assms(1,2) Some], of f'] by simp
  qed
  then show "store_ok dec V f'" "aside i f'" by simp_all
qed

lemma store_write:
  assumes "store_ok dec V f" "aside i f"
  shows "store_ok dec V (fs_write i bytes f)" "aside i (fs_write i bytes f)"
    "store_ok dec V (fs_sync i f)" "aside i (fs_sync i f)" "store_ok dec V (fs_chmod i mode f)" "aside i (fs_chmod i mode f)"
  by (rule store_aside [OF assms]; simp add: fs_write_def fs_sync_def fs_chmod_def)+

text \<open>The rename puts the finished entry in place.\<close>

lemma store_rename:
  assumes "store_ok dec V f" "n \<noteq> FILE_NAME" "fs_dir f n = Some i"
    and "fs_synced f i" "parsed dec (fs_data f i) = p" "fs_mode f i = 384"
  shows "store_ok dec (insert p V) (fs_rename n FILE_NAME f)" (is "store_ok _ _ ?f")
    and "store_ok dec {p} (fs_sync_dir (fs_rename n FILE_NAME f))" (is "store_ok _ _ ?g")
proof -
  note D = store_okD [OF assms(1)]
  have f: "fs_dir ?f = (fs_dir f)(FILE_NAME := Some i, n := None)" "snapshots ?f = insert (fs_dir ?f) (snapshots f)"
    "fs_fresh ?f = fs_fresh f" "fs_dir ?g = fs_dir ?f" "snapshots ?g = {fs_dir ?f}" "fs_fresh ?g = fs_fresh f"
    "\<And>e W. good_entry dec W ?f e = good_entry dec W f e" "\<And>e W. good_entry dec W ?g e = good_entry dec W f e"
    using assms(2,3) by (auto simp: fs_rename_def fs_relink_def fs_sync_dir_def snapshots_def good_entry_def split: option.splits)
  have i: "i < fs_fresh f" by (rule D(2) [OF dir_snapshot assms(3)])
  have mono: "good_entry dec V f e \<Longrightarrow> good_entry dec (insert p V) f e" for e by (auto simp: good_entry_def split: option.splits)
  have new: "fs_dir ?f m = Some j \<longleftrightarrow> (if m = FILE_NAME then j = i else m \<noteq> n \<and> fs_dir f m = Some j)" for m j
    using f(1) assms(2) by auto
  have entry: "fs_dir ?f FILE_NAME = Some i" by (simp add: new)
  have put: "good_entry dec (insert p W) f (Some i)" for W using assms(4-6) i by (simp add: good_entry_def)
  have below: "j < fs_fresh f" if "fs_dir ?f m = Some j" for m j
    using that i D(2) [OF dir_snapshot, of m j] by (auto simp: new split: if_splits)
  have once: "m' = m" if "fs_dir ?f m = Some j" "fs_dir ?f m' = Some j" for m m' j
    using that D(3) [OF dir_snapshot, of m j m'] D(3) [OF dir_snapshot assms(3)] by (auto simp: new split: if_splits)
  have apart: "d FILE_NAME \<noteq> Some j" if "d \<in> snapshots f" "m \<noteq> FILE_NAME" "fs_dir ?f m = Some j" for d m j
    using D(4) [OF that(1,2)] that(2,3) by (simp add: new)
  show "store_ok dec {p} ?g" by (rule store_okI) (use f(4-6,8) entry put below once in auto)
  show "store_ok dec (insert p V) ?f"
  proof (rule store_okI)
    fix d assume "d \<in> snapshots ?f"
    then show "good_entry dec (insert p V) ?f (d FILE_NAME)" using D(1) [THEN mono] f(2,7) entry put by (metis insertE)
    { fix m j assume "d m = Some j"
      with \<open>d \<in> snapshots ?f\<close> show "j < fs_fresh ?f" using below D(2) f(2,3) by (metis insertE) }
    { fix m m' j assume "d m = Some j" "d m' = Some j"
      with \<open>d \<in> snapshots ?f\<close> show "m' = m" using once D(3) f(2) by (metis insertE) }
    { fix m j assume "m \<noteq> FILE_NAME" "fs_dir ?f m = Some j"
      with \<open>d \<in> snapshots ?f\<close> show "d FILE_NAME \<noteq> Some j" using apart once entry f(2) by (metis insertE) }
  qed
qed

text \<open>What holds after each call of \<^verbatim>\<open>save\<close>.\<close>

lemma finish_save_ok:
  assumes "store_ok dec V f" "n \<noteq> FILE_NAME" "fs_dir f n = Some i" "parsed dec (fs_data f i) = p"
    and "finish_save w n i f = (trace, ok)"
  shows "g \<in> set trace \<Longrightarrow> store_ok dec (insert p V) g"
    and "ok \<Longrightarrow> fs_dir (last trace) FILE_NAME = Some i \<and> fs_data (last trace) i = fs_data f i"
    and "ok \<Longrightarrow> sw_open_dir w \<Longrightarrow> sw_sync_dir w \<Longrightarrow> store_ok dec {p} (last trace)"
proof -
  let ?f1 = "fs_sync i f" and ?f2 = "fs_chmod i 384 (fs_sync i f)"
  have aside: "aside i f" by (rule named_aside [OF assms(1-3)])
  have 1: "store_ok dec V ?f1" "aside i ?f1" by (rule store_write [OF assms(1) aside])+
  have 2: "store_ok dec V ?f2" by (rule store_write [OF 1])
  have f2: "fs_dir ?f2 n = Some i" "fs_synced ?f2 i" "parsed dec (fs_data ?f2 i) = p" "fs_mode ?f2 i = 384"
    using assms(3,4) by (simp_all add: fs_sync_def fs_chmod_def)
  note 3 = store_rename [OF 2 assms(2) f2]
  have 4: "store_ok dec (insert p V) (fs_sync_dir (fs_rename n FILE_NAME ?f2))" using store_mono [OF 3(2)] by simp
  show "g \<in> set trace \<Longrightarrow> store_ok dec (insert p V) g"
    using assms(5) store_grow [OF assms(1)] store_grow [OF 1(1)] store_grow [OF 2] 3(1) 4
    by (auto simp: finish_save_def Let_def split: if_splits)
  show "ok \<Longrightarrow> fs_dir (last trace) FILE_NAME = Some i \<and> fs_data (last trace) i = fs_data f i"
    using assms(2,3,5) by (auto simp: finish_save_def Let_def fs_rename_def fs_relink_def fs_sync_dir_def fs_chmod_def fs_sync_def split: if_splits)
  show "ok \<Longrightarrow> sw_open_dir w \<Longrightarrow> sw_sync_dir w \<Longrightarrow> store_ok dec {p} (last trace)"
    using assms(5) 3(2) by (auto simp: finish_save_def Let_def split: if_splits)
qed

lemma save_store:
  assumes "store_ok dec V f" "save w enc pid p f = (trace, ok)" "\<forall>body. enc p = Some body \<longrightarrow> parsed dec (body @ ''\<newline>'') = p"
  shows "g \<in> set trace \<Longrightarrow> store_ok dec (insert p V) g"
    and "ok \<Longrightarrow> load dec True (last trace) = p"
    and "ok \<Longrightarrow> sw_open_dir w \<Longrightarrow> sw_sync_dir w \<Longrightarrow> store_ok dec {p} (last trace)"
proof -
  let ?t = "tmp_name pid"
  obtain i f1 where o: "fs_open ?t 384 f = (i, f1)" by fastforce
  note 1 = store_open [OF assms(1) tmp_not_file o]
  have empty: "fs_data f1 i = []" using o by (auto simp: fs_open_def fs_relink_def Let_def split: option.splits)
  have w: "store_ok dec V (write_all e i b h)" "aside i (write_all e i b h)" if "store_ok dec V h" "aside i h" for e b h
    using store_write(1,2) [OF that] by (simp_all add: write_all_def)
  have "(g \<in> set trace \<longrightarrow> store_ok dec (insert p V) g) \<and> (ok \<longrightarrow> load dec True (last trace) = p)
      \<and> (ok \<longrightarrow> sw_open_dir w \<longrightarrow> sw_sync_dir w \<longrightarrow> store_ok dec {p} (last trace))"
  proof (cases "\<exists>body. sw_mkdir w \<and> sw_open w \<and> enc p = Some body \<and> sw_write w = None \<and> sw_newline w = None")
    case False
    then have "\<not> ok \<and> (\<forall>h \<in> set trace. store_ok dec V h)"
      using assms(1,2) o 1 w by (auto simp: save_def Let_def split: option.splits if_splits)
    then show ?thesis using store_grow by blast
  next
    case True
    then obtain body where b: "sw_mkdir w" "sw_open w" "enc p = Some body" "sw_write w = None" "sw_newline w = None" by blast
    define f2 where "f2 = write_all None i body f1"
    define f3 where "f3 = write_all None i ''\<newline>'' f2"
    have 2: "store_ok dec V f2" "aside i f2" using w 1 by (simp_all add: f2_def)
    have 3: "store_ok dec V f3" using w(1) [OF 2] by (simp add: f3_def)
    have f3: "fs_dir f3 ?t = Some i" "parsed dec (fs_data f3 i) = p"
      using 1(3) empty assms(3) b(3) by (simp_all add: f3_def f2_def write_all_def fs_write_def)
    obtain rest where r: "finish_save w ?t i f3 = (rest, ok)" "trace = [f, f1, f2] @ rest" "rest \<noteq> []"
      using assms(2) o b by (auto simp: save_def Let_def f3_def f2_def finish_save_def split: prod.splits if_splits)
    note F = finish_save_ok [OF 3 tmp_not_file f3 r(1)]
    show ?thesis using F store_grow [OF assms(1)] store_grow [OF 1(1)] store_grow [OF 2(1)] r(2,3) f3(2) by (auto simp: load_def)
  qed
  then show "g \<in> set trace \<Longrightarrow> store_ok dec (insert p V) g" "ok \<Longrightarrow> load dec True (last trace) = p"
    "ok \<Longrightarrow> sw_open_dir w \<Longrightarrow> sw_sync_dir w \<Longrightarrow> store_ok dec {p} (last trace)" by blast+
qed

text \<open>
  C21. Readers see the old state or the new one, never half of one. Suppose a power failure can only
  bring back a state file that holds one of the states \<^verbatim>\<open>V\<close>. Whatever calls of \<^verbatim>\<open>save\<close> fail, and
  wherever it is cut off, the file that is found afterwards, also after a power failure, holds one
  of \<^verbatim>\<open>V\<close> or the state being saved, with mode 0600; after a save that succeeded it holds that state;
  and when the directory could be flushed, no power failure brings an older one back.
\<close>

theorem save_is_atomic:
  assumes "store_ok dec V f" "save w enc pid p f = (trace, ok)"
    and "\<And>body. enc p = Some body \<Longrightarrow> dec (body @ ''\<newline>'') = Some p" "per_version p \<le> 1"
  shows "(\<forall>g \<in> set trace. load dec True g \<in> insert p V
            \<and> (\<forall>h. after_crash g h \<longrightarrow> load dec True h \<in> insert p V \<and> store_ok dec (insert p V) h))
    \<and> (ok \<longrightarrow> load dec True (last trace) = p)
    \<and> (ok \<and> sw_open_dir w \<and> sw_sync_dir w \<longrightarrow> (\<forall>h. after_crash (last trace) h \<longrightarrow> load dec True h = p))"
proof -
  have reads: "\<forall>body. enc p = Some body \<longrightarrow> parsed dec (body @ ''\<newline>'') = p" using assms(3,4) by (simp add: parsed_def)
  note S = save_store [OF assms(1,2) reads]
  have "load dec True g \<in> insert p V \<and> (\<forall>h. after_crash g h \<longrightarrow> load dec True h \<in> insert p V \<and> store_ok dec (insert p V) h)"
    if "g \<in> set trace" for g using S(1) [OF that] store_load store_crash by blast
  moreover have "load dec True h = p" if "ok" "sw_open_dir w" "sw_sync_dir w" "after_crash (last trace) h" for h
    using store_load [OF store_crash [OF S(3) [OF that(1-3)] that(4)]] by simp
  ultimately show ?thesis using S(2) by blast
qed

text \<open>A state, an encoding of it that reads it back, and a save that is cut off before the rename.\<close>

definition demo_state :: persisted where
  "demo_state = \<lparr>per_version = 1, per_last_used_uid = Some 1000, per_sessions = []\<rparr>"

definition demo_encode :: "persisted \<Rightarrow> string option" where
  "demo_encode p = (if p = demo_state then Some ''{1000}'' else None)"

definition demo_decode :: "string \<Rightarrow> persisted option" where
  "demo_decode s = (if s = ''{1000}\<newline>'' then Some demo_state else None)"

definition demo_disk :: save_world where
  "demo_disk = \<lparr>sw_mkdir = True, sw_open = True, sw_write = None, sw_newline = None, sw_sync = True, sw_chmod = True,
     sw_rename = True, sw_open_dir = True, sw_sync_dir = True\<rparr>"

theorem save_is_atomic_witness:
  "snd (save demo_disk demo_encode 7 demo_state fs_empty)
   \<and> list_all (\<lambda>g. load demo_decode True g \<in> {demo_state, persisted_default}) (fst (save demo_disk demo_encode 7 demo_state fs_empty))
   \<and> load demo_decode True (last (fst (save demo_disk demo_encode 7 demo_state fs_empty))) = demo_state"
proof -
  let ?r = "save demo_disk demo_encode 7 demo_state fs_empty"
  have s: "?r = (fst ?r, snd ?r)" by simp
  have "snd ?r" by code_simp
  moreover have "per_version demo_state \<le> 1" by (simp add: demo_state_def)
  moreover have "demo_decode (body @ ''\<newline>'') = Some demo_state" if "demo_encode demo_state = Some body" for body
    using that by (auto simp: demo_encode_def demo_decode_def)
  ultimately show ?thesis
    using save_is_atomic [OF store_empty s, of demo_decode] by (auto simp: list_all_iff)
qed

section \<open>Recovery\<close>

text \<open>\<^verbatim>\<open>/proc\<close>: the owner of a process and its \<^verbatim>\<open>cgroup\<close> file, if they can be read.\<close>

record proc_root =
  pr_owner :: "u32 \<Rightarrow> u32 option"
  pr_cgroup :: "u32 \<Rightarrow> string option"

definition cgroup_of :: "proc_root \<Rightarrow> u32 \<Rightarrow> string option" where
  "cgroup_of proc pid =
     (case pr_cgroup proc pid of None \<Rightarrow> None | Some text \<Rightarrow> find_map (strip_prefix ''0::'') (str_lines text))"

definition proc_owner :: "proc_root \<Rightarrow> u32 \<Rightarrow> u32 option" where
  "proc_owner proc pid = pr_owner proc pid"

definition is_valid :: "persisted_session \<Rightarrow> bool" where
  "is_valid s \<longleftrightarrow>
     (let id_ok = ps_id s \<noteq> [] \<and> length (ps_id s) \<le> 64
            \<and> list_all (\<lambda>b. is_ascii_alphanumeric b \<or> b = CHR ''_'' \<or> b = CHR ''-'') (ps_id s);
          scope_ok = ps_scope s \<noteq> [] \<and> length (ps_scope s) \<le> 256
            \<and> \<not> list_ex (\<lambda>b. (of_char b :: nat) < 32 \<or> (of_char b :: nat) = 127) (ps_scope s)
      in id_ok \<and> scope_ok \<and> ps_generation s \<noteq> 0 \<and> ps_uid s \<noteq> 0 \<and> ps_uid s \<noteq> - 1)"

definition is_alive :: "proc_root \<Rightarrow> persisted_session \<Rightarrow> bool" where
  "is_alive proc s \<longleftrightarrow>
     is_valid s \<and> ps_host_pid s \<noteq> 0 \<and> proc_owner proc (ps_host_pid s) = Some (ps_uid s)
     \<and> is_some_and (cgroup_of proc (ps_host_pid s)) (\<lambda>cg. cgroup_in_scope cg (ps_scope s))"

definition probe :: "proc_root \<Rightarrow> persisted_session list \<Rightarrow> recovered_session list" where
  "probe proc sessions = map (\<lambda>s. \<lparr>rec_session = s, rec_alive = is_alive proc s\<rparr>) (filter is_valid sessions)"

lemma probe_alive:
  assumes "r \<in> set (probe proc sessions)" "rec_alive r"
  shows "rec_session r \<in> set sessions \<and> is_valid (rec_session r)
    \<and> pr_owner proc (ps_host_pid (rec_session r)) = Some (ps_uid (rec_session r))
    \<and> (\<exists>text cg. pr_cgroup proc (ps_host_pid (rec_session r)) = Some text \<and> ''0::'' @ cg \<in> set (str_lines text)
          \<and> cgroup_in_scope cg (ps_scope (rec_session r)))"
proof -
  have line: "\<exists>l \<in> set ls. f l = Some y" if "find_map f ls = Some y" for f :: "string \<Rightarrow> string option" and ls y
    using that by (induction ls) (auto split: option.splits)
  have "is_alive proc (rec_session r)" "rec_session r \<in> set sessions" using assms by (auto simp: probe_def)
  then show ?thesis
    by (fastforce simp: is_alive_def proc_owner_def cgroup_of_def is_some_and_iff strip_prefix_iff split: option.splits dest: line)
qed

text \<open>The ids the manager makes pass its own check after a restart, and the helper's.\<close>

lemma hex_char: "n < 16 \<Longrightarrow> is_ascii_alphanumeric (digit_char n)"
  by (simp add: is_ascii_alphanumeric_def of_char_digit_char)

lemma made_id_valid: "valid_session_id (fmt_session_id x)"
  using hex_char by (simp add: valid_session_id_def fmt_session_id_def hex8_def is_ascii_alphanumeric_def)


end
