(* ===== verification/Runtime_Greeter.thy ===== *)
theory Runtime_Greeter
  imports Core_Types Helper_Config Transition_Systems Ordered_Map "HOL-Library.Multiset"
begin

text \<open>
  The control socket of the greeter, \<^verbatim>\<open>src/bsm/manager/src/runtime/greeter_server.rs\<close>: connections that
  wait for the manager's verdict, the one that is attached, its reader and its bounded queue of
  answers. The JSON encoding is a parameter; what the threads do is a step each.
\<close>

section \<open>Limits\<close>

definition MAX_LINE :: nat where "MAX_LINE = 64 * 1024"
definition VERDICT_TIMEOUT :: duration where "VERDICT_TIMEOUT = from_secs 5"
definition WRITE_QUEUE :: nat where "WRITE_QUEUE = 256"
definition MAX_MALFORMED :: nat where "MAX_MALFORMED = 10"
definition MAX_PENDING :: nat where "MAX_PENDING = 4"

section \<open>Reading lines\<close>

text \<open>What the reader does about a line: hand the message to the driver, or answer that it is malformed.\<close>

datatype read_out = Ro_Message client_message | Ro_Malformed

record reader =
  rd_buf :: string
  rd_bad :: nat
  rd_out :: "read_out list"

definition reader_new :: reader where
  "reader_new = \<lparr>rd_buf = [], rd_bad = 0, rd_out = []\<rparr>"

text \<open>The loop over the complete lines of the buffer; \<^verbatim>\<open>tx n\<close> is whether the driver takes the message that
  is the \<^verbatim>\<open>n\<close>th thing the reader does. False: the reader ends.\<close>

function read_lines :: "(nat \<Rightarrow> bool) \<Rightarrow> (string \<Rightarrow> client_message option) \<Rightarrow> reader \<Rightarrow> bool \<times> reader" where
  "read_lines tx dec r =
     (case split_once (CHR ''\<newline>'') (rd_buf r) of
        None \<Rightarrow> (True, r)
      | Some (line, rest) \<Rightarrow>
          (let r = r\<lparr>rd_buf := rest\<rparr> in
           if line = [] then read_lines tx dec r
           else case dec line of
             Some m \<Rightarrow>
               if tx (length (rd_out r)) then read_lines tx dec (r\<lparr>rd_out := rd_out r @ [Ro_Message m]\<rparr>) else (False, r)
           | None \<Rightarrow>
               (let r = r\<lparr>rd_bad := Suc (rd_bad r), rd_out := rd_out r @ [Ro_Malformed]\<rparr> in
                if MAX_MALFORMED \<le> rd_bad r then (False, r) else read_lines tx dec r)))"
  by pat_completeness auto
termination
  by (relation "measure (\<lambda>(tx, dec, r). length (rd_buf r))") (auto simp: split_once_Some)

declare read_lines.simps [simp del]

datatype read_event = Rd_Bytes string | Rd_Interrupted | Rd_Eof | Rd_Error

definition read_chunk :: "(nat \<Rightarrow> bool) \<Rightarrow> (string \<Rightarrow> client_message option) \<Rightarrow> string \<Rightarrow> reader \<Rightarrow> bool \<times> reader" where
  "read_chunk tx dec chunk r =
     (case read_lines tx dec (r\<lparr>rd_buf := rd_buf r @ chunk\<rparr>) of
        (False, r) \<Rightarrow> (False, r)
      | (True, r) \<Rightarrow> (length (rd_buf r) \<le> MAX_LINE, r))"

text \<open>The reader over what its reads return; true at the end of the list: it waits for more.\<close>

fun read_loop :: "(nat \<Rightarrow> bool) \<Rightarrow> (string \<Rightarrow> client_message option) \<Rightarrow> read_event list \<Rightarrow> reader \<Rightarrow> bool \<times> reader" where
  "read_loop tx dec [] r = (True, r)"
| "read_loop tx dec (Rd_Bytes chunk # es) r =
     (case read_chunk tx dec chunk r of (True, r) \<Rightarrow> read_loop tx dec es r | (False, r) \<Rightarrow> (False, r))"
| "read_loop tx dec (Rd_Interrupted # es) r = read_loop tx dec es r"
| "read_loop tx dec (Rd_Eof # es) r = (False, r)"
| "read_loop tx dec (Rd_Error # es) r = (False, r)"

section \<open>The reader and the lines of the stream\<close>

text \<open>The specification, on lines: what is done about them, and the count of malformed ones unless there
  were too many.\<close>

fun serve_lines :: "(string \<Rightarrow> client_message option) \<Rightarrow> nat \<Rightarrow> string list \<Rightarrow> read_out list \<times> nat option" where
  "serve_lines dec bad [] = ([], Some bad)"
| "serve_lines dec bad (l # ls) =
     (if l = [] then serve_lines dec bad ls
      else case dec l of
        Some m \<Rightarrow> (case serve_lines dec bad ls of (out, b) \<Rightarrow> (Ro_Message m # out, b))
      | None \<Rightarrow>
          if MAX_MALFORMED \<le> Suc bad then ([Ro_Malformed], None)
          else (case serve_lines dec (Suc bad) ls of (out, b) \<Rightarrow> (Ro_Malformed # out, b)))"

abbreviation lines_of :: "string \<Rightarrow> string list" where
  "lines_of s \<equiv> split_on (CHR ''\<newline>'') s"

lemma serve_append:
  "serve_lines dec bad (xs @ ys) =
     (case serve_lines dec bad xs of
        (out, None) \<Rightarrow> (out, None)
      | (out, Some b) \<Rightarrow> (case serve_lines dec b ys of (out', b') \<Rightarrow> (out @ out', b')))"
  by (induction xs arbitrary: bad) (auto split: option.splits prod.splits)

lemma split_on_once:
  "split_once c s = None \<Longrightarrow> split_on c s = [s]"
  "split_once c s = Some (a, b) \<Longrightarrow> split_on c s = a # split_on c b"
  by (induction s arbitrary: a) (auto split: if_splits list.splits)

lemma split_on_resume: "split_on c (s @ t) = butlast (split_on c s) @ split_on c (last (split_on c s) @ t)"
proof (induction s)
  case (Cons x s)
  obtain p ps where s: "split_on c s = p # ps" by (cases "split_on c s") auto
  show ?case using Cons s by (cases ps) auto
qed simp

lemma split_on_longest:
  assumes "c \<notin> set a"
  shows "\<exists>l ls. split_on c (a @ t) = l # ls \<and> length a \<le> length l"
  using assms by (induction a) (auto split: list.splits, (cases "split_on c t"; auto))

lemma split_on_last: "c \<notin> set (last (split_on c s))"
  by (induction s) (auto split: list.splits)

text \<open>The loop over the buffer serves its complete lines and keeps the rest.\<close>

lemma read_lines_serves:
  assumes "\<forall>n. tx n"
  shows "case serve_lines dec (rd_bad r) (butlast (lines_of (rd_buf r))) of
      (out, None) \<Rightarrow> \<exists>r'. read_lines tx dec r = (False, r') \<and> rd_out r' = rd_out r @ out
    | (out, Some b) \<Rightarrow> read_lines tx dec r = (True, \<lparr>rd_buf = last (lines_of (rd_buf r)), rd_bad = b, rd_out = rd_out r @ out\<rparr>)"
proof (induction "length (rd_buf r)" arbitrary: r rule: less_induct)
  case less
  show ?case
  proof (cases "split_once (CHR ''\<newline>'') (rd_buf r)")
    case None
    then show ?thesis using split_on_once(1) [OF None] by (simp add: read_lines.simps [of tx dec r])
  next
    case (Some lr)
    obtain line rest where lr: "lr = (line, rest)" by fastforce
    have short: "length rest < length (rd_buf r)" using Some lr by (auto simp: split_once_Some)
    have parts: "butlast (lines_of (rd_buf r)) = line # butlast (lines_of rest)" "last (lines_of (rd_buf r)) = last (lines_of rest)"
      using split_on_once(2) [OF Some [unfolded lr]] by simp_all
    note read = read_lines.simps [of tx dec r] Some lr
    note IH = less [of "\<lparr>rd_buf = rest, rd_bad = b, rd_out = out\<rparr>" for b out, simplified, OF short]
    show ?thesis
    proof (cases "line = [] \<or> dec line \<noteq> None \<or> \<not> MAX_MALFORMED \<le> Suc (rd_bad r)")
      case False
      then show ?thesis by (auto simp: parts read Let_def)
    next
      case True
      define b out where "b = (if line = [] \<or> dec line \<noteq> None then rd_bad r else Suc (rd_bad r))"
        and "out = (if line = [] then [] else case dec line of Some m \<Rightarrow> [Ro_Message m] | None \<Rightarrow> [Ro_Malformed])"
      have "read_lines tx dec r = read_lines tx dec \<lparr>rd_buf = rest, rd_bad = b, rd_out = rd_out r @ out\<rparr>"
        unfolding read_lines.simps [of tx dec r] Some lr using True assms
        by (cases r) (auto simp: b_def out_def Let_def)
      moreover have "serve_lines dec (rd_bad r) (butlast (lines_of (rd_buf r))) =
          (case serve_lines dec b (butlast (lines_of rest)) of (o2, b2) \<Rightarrow> (out @ o2, b2))"
        using True by (auto simp: parts b_def out_def split: option.split prod.split)
      ultimately show ?thesis using IH [of b "rd_out r @ out"] by (auto simp: parts split: prod.splits option.splits)
    qed
  qed
qed

text \<open>The whole loop: the lines seen so far are served, the reader holds the last, incomplete one.\<close>

definition served :: "(string \<Rightarrow> client_message option) \<Rightarrow> string \<Rightarrow> bool \<times> reader \<Rightarrow> bool" where
  "served dec s br \<longleftrightarrow>
     (case serve_lines dec 0 (butlast (lines_of s)) of
        (out, None) \<Rightarrow> \<not> fst br \<and> rd_out (snd br) = out
      | (out, Some b) \<Rightarrow> br = (True, \<lparr>rd_buf = last (lines_of s), rd_bad = b, rd_out = out\<rparr>))"

lemma read_chunk_served:
  assumes "\<forall>n. tx n" "served dec s (True, r)" "length (last (lines_of (s @ chunk))) \<le> MAX_LINE"
  shows "served dec (s @ chunk) (read_chunk tx dec chunk r)"
proof -
  obtain out b where o: "serve_lines dec 0 (butlast (lines_of s)) = (out, Some b)"
    and r: "r = \<lparr>rd_buf = last (lines_of s), rd_bad = b, rd_out = out\<rparr>"
    using assms(2) by (auto simp: served_def split: prod.splits option.splits)
  let ?t = "last (lines_of s) @ chunk"
  have parts: "lines_of (s @ chunk) = butlast (lines_of s) @ lines_of ?t" by (rule split_on_resume)
  have "serve_lines dec 0 (butlast (lines_of (s @ chunk))) = (case serve_lines dec b (butlast (lines_of ?t)) of (o2, b2) \<Rightarrow> (out @ o2, b2))"
    unfolding parts by (simp add: butlast_append serve_append o)
  moreover have "last (lines_of (s @ chunk)) = last (lines_of ?t)" unfolding parts by simp
  ultimately show ?thesis
    using read_lines_serves [of tx dec "r\<lparr>rd_buf := ?t\<rparr>"] assms(1,3)
    by (auto simp: served_def read_chunk_def r split: prod.splits option.splits)
qed

lemma read_loop_served:
  assumes "\<forall>n. tx n" "served dec s (True, r)" "\<forall>l \<in> set (lines_of (s @ concat chunks)). length l \<le> MAX_LINE"
  shows "served dec (s @ concat chunks) (read_loop tx dec (map Rd_Bytes chunks) r)"
  using assms(2,3)
proof (induction chunks arbitrary: s r)
  case (Cons c cs)
  have whole: "s @ concat (c # cs) = (s @ c) @ concat cs" by simp
  obtain l ls where l: "lines_of (last (lines_of (s @ c)) @ concat cs) = l # ls" "length (last (lines_of (s @ c))) \<le> length l"
    using split_on_longest [OF split_on_last] by blast
  then have "l \<in> set (lines_of (s @ concat (c # cs)))" unfolding whole split_on_resume [of _ "s @ c"] by simp
  with l(2) Cons.prems(2) have "length (last (lines_of (s @ c))) \<le> MAX_LINE" by force
  from read_chunk_served [OF assms(1) Cons.prems(1) this] have c: "served dec (s @ c) (read_chunk tx dec c r)" .
  obtain go r1 where rc: "read_chunk tx dec c r = (go, r1)" by fastforce
  show ?case
  proof (cases go)
    case True
    with c rc Cons.prems(2) Cons.IH [of "s @ c" r1] show ?thesis by simp
  next
    case False
    then have "serve_lines dec 0 (butlast (lines_of (s @ c))) = (rd_out r1, None)"
      using c rc by (auto simp: served_def split: prod.splits option.splits)
    then have "serve_lines dec 0 (butlast (lines_of ((s @ c) @ concat cs))) = (rd_out r1, None)"
      unfolding split_on_resume [of _ "s @ c"] by (simp add: butlast_append serve_append)
    with False rc show ?thesis by (simp add: served_def)
  qed
qed simp

lemma served_new: "served dec [] (True, reader_new)"
  by (simp add: served_def reader_new_def)

lemma read_loop_append:
  "read_loop tx dec (xs @ ys) r = (case read_loop tx dec xs r of (True, r) \<Rightarrow> read_loop tx dec ys r | (False, r) \<Rightarrow> (False, r))"
  by (induction tx dec xs r rule: read_loop.induct) (auto split: prod.splits bool.splits)


definition demo_message :: "string \<Rightarrow> client_message option" where
  "demo_message s = (if s = ''h'' then Some (CMsg_Hello 1) else None)"


text \<open>What is kept between two reads is bounded, but a longer line passes when the rest of it comes in the
  read that completes it: the limit is tested on what is left over.\<close>

lemma reader_bounded: "read_chunk tx dec chunk r = (True, r') \<Longrightarrow> length (rd_buf r') \<le> MAX_LINE"
  by (auto simp: read_chunk_def split: prod.splits bool.splits)

lemma split_on_none: "c \<notin> set s \<Longrightarrow> split_on c s = [s]"
  by (induction s) auto

lemma overlong_line_passes:
  assumes "\<forall>n. tx n" "CHR ''\<newline>'' \<notin> set (concat head @ tail)" "length (concat head) = MAX_LINE" "dec (concat head @ tail) = Some m"
  shows "rd_out (snd (read_loop tx dec (map Rd_Bytes (head @ [tail @ ''\<newline>''])) reader_new)) = [Ro_Message m]"
proof -
  have "lines_of (concat head) = [concat head]" using assms(2) by (intro split_on_none) simp
  then have "served dec (concat head) (read_loop tx dec (map Rd_Bytes head) reader_new)"
    using read_loop_served [OF assms(1) served_new, of head dec] assms(3) by simp
  moreover from this obtain r where r: "read_loop tx dec (map Rd_Bytes head) reader_new = (True, r)"
    using \<open>lines_of (concat head) = [concat head]\<close> by (auto simp: served_def)
  moreover have l: "lines_of (concat head @ tail @ ''\<newline>'') = [concat head @ tail, []]"
    using split_on_append [of _ "concat head @ tail" "[]"] split_on_none [OF assms(2)] by simp
  ultimately have "served dec (concat head @ tail @ ''\<newline>'') (read_chunk tx dec (tail @ ''\<newline>'') r)"
    using read_chunk_served [of tx dec "concat head" r "tail @ ''\<newline>''"] assms(1) by simp
  moreover have "serve_lines dec 0 [concat head @ tail] = ([Ro_Message m], Some 0)"
  proof -
    have "0 < length (concat head @ tail)" using assms(3) by (simp add: MAX_LINE_def)
    then have "concat head @ tail \<noteq> []" unfolding length_greater_0_conv .
    then show ?thesis unfolding serve_lines.simps(2) assms(4) by (simp only: if_False option.case serve_lines.simps(1) prod.case)
  qed
  ultimately have "read_chunk tx dec (tail @ ''\<newline>'') r = (True, \<lparr>rd_buf = [], rd_bad = 0, rd_out = [Ro_Message m]\<rparr>)"
    using l by (simp del: serve_lines.simps add: served_def)
  then show ?thesis by (simp add: read_loop_append r)
qed

section \<open>Connections\<close>

text \<open>\<^verbatim>\<open>ga_up\<close>: the stream has not been shut down; \<^verbatim>\<open>ga_writing\<close>: the writer still takes lines.\<close>

record gs_active =
  ga_id :: u64
  ga_out :: "string list"
  ga_up :: bool
  ga_writing :: bool

text \<open>The shared state, the inputs handed to the driver (oldest first), and two lists that only record:
  the connections that were attached and those whose reader runs.\<close>

record greeter_server =
  gs_pending :: "(u64, instant) btmap"
  gs_active :: "gs_active option"
  gs_next :: u64
  gs_sent :: "input list"
  gs_attached :: "u64 list"
  gs_readers :: "u64 list"

definition greeter_server_new :: greeter_server where
  "greeter_server_new = \<lparr>gs_pending = [], gs_active = None, gs_next = 1, gs_sent = [], gs_attached = [], gs_readers = []\<rparr>"

definition gs_expire :: "instant \<Rightarrow> greeter_server \<Rightarrow> greeter_server" where
  "gs_expire now g = g\<lparr>gs_pending := filter (\<lambda>e. duration_since now (snd e) < VERDICT_TIMEOUT) (gs_pending g)\<rparr>"

text \<open>One connection taken by the accept loop; \<^verbatim>\<open>cred\<close> is the peer's uid and pid, if they can be read.\<close>

definition gs_accept :: "instant \<Rightarrow> (u32 \<times> u32) option \<Rightarrow> greeter_server \<Rightarrow> greeter_server" where
  "gs_accept now cred g =
     (case cred of
        None \<Rightarrow> g
      | Some (uid, pid) \<Rightarrow>
          (let conn = gs_next g;
               g = gs_expire now (g\<lparr>gs_next := conn + 1\<rparr>)
           in if MAX_PENDING \<le> length (gs_pending g) then g
              else g\<lparr>gs_pending := btm_insert conn now (gs_pending g), gs_sent := gs_sent g @ [In_GreeterPeer conn uid pid]\<rparr>))"

definition gs_verdict :: "bool \<Rightarrow> u64 \<Rightarrow> bool \<Rightarrow> greeter_server \<Rightarrow> bool \<times> greeter_server" where
  "gs_verdict cloned conn accept g =
     (case btm_get (gs_pending g) conn of
        None \<Rightarrow> (\<not> accept, g)
      | Some _ \<Rightarrow>
          (let g = g\<lparr>gs_pending := btm_remove conn (gs_pending g)\<rparr> in
           if \<not> accept then (True, g)
           else if \<not> cloned then (False, g)
           else (True, g\<lparr>gs_active := Some \<lparr>ga_id = conn, ga_out = [], ga_up = True, ga_writing = True\<rparr>,
                        gs_attached := conn # gs_attached g, gs_readers := conn # gs_readers g\<rparr>)))"

definition gs_forget :: "u64 \<Rightarrow> greeter_server \<Rightarrow> greeter_server" where
  "gs_forget conn g = (if is_some_and (gs_active g) (\<lambda>a. ga_id a = conn) then g\<lparr>gs_active := None\<rparr> else g)"

text \<open>The reader hands over a message, and ends.\<close>

definition reader_hands :: "u64 \<Rightarrow> client_message \<Rightarrow> greeter_server \<Rightarrow> greeter_server" where
  "reader_hands conn m g = g\<lparr>gs_sent := gs_sent g @ [In_Greeter conn m]\<rparr>"

definition reader_ends :: "u64 \<Rightarrow> greeter_server \<Rightarrow> greeter_server" where
  "reader_ends conn g =
     (let g = gs_forget conn g
      in g\<lparr>gs_sent := gs_sent g @ [In_GreeterDisconnected conn], gs_readers := remove1 conn (gs_readers g)\<rparr>)"

text \<open>The writer takes a line, or fails to write it.\<close>

definition writer_takes :: "bool \<Rightarrow> greeter_server \<Rightarrow> greeter_server" where
  "writer_takes written g =
     (case gs_active g of
        Some a \<Rightarrow> g\<lparr>gs_active := Some (a\<lparr>ga_out := tl (ga_out a), ga_writing := ga_writing a \<and> written\<rparr>)\<rparr>
      | None \<Rightarrow> g)"

definition send_on :: "(server_message \<Rightarrow> string option) \<Rightarrow> u64 \<Rightarrow> server_message \<Rightarrow> greeter_server \<Rightarrow> bool \<times> greeter_server" where
  "send_on enc conn msg g =
     (case enc msg of
        None \<Rightarrow> (False, g)
      | Some line \<Rightarrow>
          (case opt_filter (\<lambda>a. ga_id a = conn) (gs_active g) of
             None \<Rightarrow> (False, g)
           | Some a \<Rightarrow>
               if \<not> ga_writing a then (False, g)
               else if length (ga_out a) < WRITE_QUEUE
               then (True, g\<lparr>gs_active := Some (a\<lparr>ga_out := ga_out a @ [line @ ''\<newline>'']\<rparr>)\<rparr>)
               else (False, g\<lparr>gs_active := Some (a\<lparr>ga_up := False\<rparr>)\<rparr>)))"

definition gs_send :: "(server_message \<Rightarrow> string option) \<Rightarrow> server_message \<Rightarrow> greeter_server \<Rightarrow> bool \<times> greeter_server" where
  "gs_send enc msg g = (case gs_active g of Some a \<Rightarrow> send_on enc (ga_id a) msg g | None \<Rightarrow> (False, g))"

definition drop_active :: "greeter_server \<Rightarrow> greeter_server" where
  "drop_active g = g\<lparr>gs_active := None\<rparr>"

section \<open>What the manager hears\<close>

datatype gs_event =
    Ge_Accept instant "(u32 \<times> u32) option"
  | Ge_Expire instant
  | Ge_Verdict bool u64 bool
  | Ge_Message u64 client_message
  | Ge_ReaderEnds u64
  | Ge_Writer bool
  | Ge_WriterEnds u64
  | Ge_Send "string option" server_message
  | Ge_Answer "string option" u64 server_message
  | Ge_Drop

inductive gs_step :: "greeter_server \<Rightarrow> gs_event \<Rightarrow> greeter_server \<Rightarrow> bool" where
  "gs_step g (Ge_Accept now cred) (gs_accept now cred g)"
| "gs_step g (Ge_Expire now) (gs_expire now g)"
| "gs_step g (Ge_Verdict cloned conn accept) (snd (gs_verdict cloned conn accept g))"
| "conn \<in> set (gs_readers g) \<Longrightarrow> gs_step g (Ge_Message conn m) (reader_hands conn m g)"
| "conn \<in> set (gs_readers g) \<Longrightarrow> gs_step g (Ge_ReaderEnds conn) (reader_ends conn g)"
| "gs_step g (Ge_Writer written) (writer_takes written g)"
| "gs_step g (Ge_WriterEnds conn) (gs_forget conn g)"
| "gs_step g (Ge_Send line msg) (snd (gs_send (\<lambda>_. line) msg g))"
| "conn \<in> set (gs_readers g) \<Longrightarrow> gs_step g (Ge_Answer line conn msg) (snd (send_on (\<lambda>_. line) conn msg g))"
| "gs_step g Ge_Drop (drop_active g)"

definition gone :: "input list \<Rightarrow> u64 list" where
  "gone is = List.map_filter (\<lambda>i. case i of In_GreeterDisconnected c \<Rightarrow> Some c | _ \<Rightarrow> None) is"

definition gs_inv :: "greeter_server \<Rightarrow> bool" where
  "gs_inv g \<longleftrightarrow>
     length (gs_pending g) \<le> MAX_PENDING
     \<and> (\<forall>a. gs_active g = Some a \<longrightarrow> length (ga_out a) \<le> WRITE_QUEUE \<and> ga_id a \<in> set (gs_readers g))
     \<and> (\<forall>c m. In_Greeter c m \<in> set (gs_sent g) \<longrightarrow> c \<in> set (gs_attached g))
     \<and> mset (gs_attached g) = mset (gs_readers g) + mset (gone (gs_sent g))"

lemma gone_simps [simp]:
  "gone [] = []" "gone (xs @ ys) = gone xs @ gone ys" "gone [In_GreeterDisconnected c] = [c]" "gone [In_Greeter c m] = []"
  "gone [In_GreeterPeer c u p] = []"
  by (simp_all add: gone_def List.map_filter_def)

lemma length_btm_insert_le: "length (btm_insert k v m) \<le> Suc (length m)"
  by (induction m) auto

lemma gs_drops_inv: "gs_inv g \<Longrightarrow> gs_inv (gs_expire now g)" "gs_inv g \<Longrightarrow> gs_inv (drop_active g)"
  by (simp_all add: gs_inv_def gs_expire_def drop_active_def le_trans [OF length_filter_le])

lemma gs_accept_inv:
  assumes "gs_inv g"
  shows "gs_inv (gs_accept now cred g)"
proof -
  define g1 where "g1 = gs_expire now (g\<lparr>gs_next := gs_next g + 1\<rparr>)"
  have "gs_inv g1" unfolding g1_def using assms by (intro gs_drops_inv) (simp add: gs_inv_def)
  then show ?thesis
    using assms length_btm_insert_le [of "gs_next g" now "gs_pending g1"]
    by (auto simp: gs_accept_def Let_def gs_inv_def simp flip: g1_def split: option.split)
qed

lemma gs_verdict_inv: "gs_inv g \<Longrightarrow> gs_inv (snd (gs_verdict cloned conn accept g))"
proof -
  have "length (btm_remove conn (gs_pending g)) \<le> length (gs_pending g)" by (simp add: btm_remove_def)
  then show "gs_inv g \<Longrightarrow> ?thesis" by (auto simp: gs_inv_def gs_verdict_def Let_def WRITE_QUEUE_def split: option.split)
qed

lemma send_on_inv: "gs_inv g \<Longrightarrow> gs_inv (snd (send_on enc conn msg g))"
  by (auto simp: gs_inv_def send_on_def split: option.split)

lemma gs_forget_inv: "gs_inv g \<Longrightarrow> gs_inv (gs_forget conn g)"
  by (simp add: gs_inv_def gs_forget_def)

lemma gs_step_inv: "gs_inv g \<Longrightarrow> gs_step g e g' \<Longrightarrow> gs_inv g'"
proof (erule gs_step.cases, goal_cases)
  case (4 conn g m)
  then have "conn \<in> set (gs_attached g)" by (metis gs_inv_def set_mset_mset union_iff)
  with 4 show ?case by (auto simp: gs_inv_def reader_hands_def)
next
  case (5 conn g)
  then have "gs_inv (gs_forget conn g)" "conn \<in> set (gs_readers (gs_forget conn g))"
    "\<forall>a. gs_active (gs_forget conn g) = Some a \<longrightarrow> ga_id a \<noteq> conn"
    using gs_forget_inv by (auto simp: gs_forget_def is_some_and_iff)
  then show ?case using 5 by (auto simp: gs_inv_def reader_ends_def Let_def)
next
  case (6 g written)
  then show ?case by (auto simp: gs_inv_def writer_takes_def split: option.split)
qed (auto simp: gs_accept_inv gs_verdict_inv send_on_inv gs_forget_inv gs_drops_inv gs_send_def split: option.split)

lemma gs_new_inv: "gs_inv greeter_server_new"
  by (simp add: greeter_server_new_def gs_inv_def)

interpretation control: invariant_system "\<lambda>g. g = greeter_server_new" gs_step gs_inv
  by unfold_locales (auto simp: gs_new_inv intro: gs_step_inv)


definition demo_control :: greeter_server where
  "demo_control = reader_ends 1 (reader_hands 1 (CMsg_Hello 1) (snd (gs_verdict True 1 True (gs_accept 0 (Some (900, 777)) greeter_server_new))))"


end
