(* ===== verification/Runtime_Sleep.thy ===== *)
theory Runtime_Sleep
  imports Scenario Transition_Systems
begin

text \<open>
  The system services of \<^verbatim>\<open>src/bsm/manager/src/runtime/system.rs\<close>: how failed calls, the answers of polkit
  and logind's inhibitors are read, and the thread that holds the sleep inhibitor. The bus itself is
  a parameter: what a call answers.
\<close>

section \<open>Calls and their errors\<close>

record system_config =
  sy_call_timeout :: duration
  sy_sleep_cap :: duration

definition system_config_default :: system_config where
  "system_config_default = \<lparr>sy_call_timeout = from_secs 10, sy_sleep_cap = from_secs 5\<rparr>"

definition NOTIFY_PATIENCE :: duration where "NOTIFY_PATIENCE = from_secs 2"
definition RETAKE_EVERY :: duration where "RETAKE_EVERY = from_secs 2"

text \<open>\<^verbatim>\<open>zbus::Error\<close>, as far as it is looked at: the name and text of an error reply, an I/O error that timed
  out, and anything else with its text.\<close>

datatype zbus_error = Zb_Method string "string option" | Zb_TimedOut | Zb_Other string

definition map_error :: "string \<Rightarrow> zbus_error \<Rightarrow> bsm_error" where
  "map_error what e =
     (case e of
        Zb_Method name text \<Rightarrow>
          (let code =
             (if name \<in> {''org.freedesktop.DBus.Error.AccessDenied'', ''org.freedesktop.DBus.Error.AuthFailed'',
                  ''org.freedesktop.DBus.Error.InteractiveAuthorizationRequired'', ''org.freedesktop.PolicyKit1.Error.NotAuthorized''}
              then E_Unauthorised
              else if name \<in> {''org.freedesktop.DBus.Error.NoReply'', ''org.freedesktop.DBus.Error.Timeout'',
                  ''org.freedesktop.DBus.Error.TimedOut''}
              then E_Timeout else E_LogindFailure)
           in bsm_error_new code (what @ '': '' @ name @ '': '' @ unwrap_or text []))
      | Zb_TimedOut \<Rightarrow> bsm_error_new E_Timeout (what @ '': timed out'')
      | Zb_Other text \<Rightarrow> bsm_error_new E_LogindFailure (what @ '': '' @ text))"

text \<open>One bounded call: no answer in time, an error, a reply that does not decode, or the reply.\<close>

datatype 'r call_answer = Ca_Late | Ca_Error zbus_error | Ca_Garbled string | Ca_Reply 'r

definition call_on :: "duration \<Rightarrow> string \<Rightarrow> 'r call_answer \<Rightarrow> 'r result" where
  "call_on limit what a =
     (case a of
        Ca_Late \<Rightarrow> Inl (bsm_error_new E_Timeout (what @ '': no answer within '' @ show_nat (limit div 1000000) @ '' ms''))
      | Ca_Error e \<Rightarrow> Inl (map_error what e)
      | Ca_Garbled text \<Rightarrow> Inl (bsm_error_new E_LogindFailure (what @ '': unexpected reply: '' @ text))
      | Ca_Reply r \<Rightarrow> Inr r)"

text \<open>The subject of a polkit check, and how its answer is read: a challenge is a refusal.\<close>

definition polkit_subject :: "caller \<Rightarrow> string option \<Rightarrow> string \<times> string \<times> string" where
  "polkit_subject c logind_session =
     (case logind_session of
        Some sid \<Rightarrow> (''unix-session'', ''session-id'', sid)
      | None \<Rightarrow> (''system-bus-name'', ''name'', cal_bus_name c))"

definition polkit_check :: "duration \<Rightarrow> (string \<times> string \<times> string \<Rightarrow> string \<Rightarrow> (bool \<times> bool) call_answer) \<Rightarrow>
    caller \<Rightarrow> string option \<Rightarrow> string \<Rightarrow> bool result" where
  "polkit_check limit bus c logind_session action =
     (case call_on limit ''CheckAuthorization'' (bus (polkit_subject c logind_session) action) of
        Inl e \<Rightarrow> Inl e
      | Inr (is_authorized, is_challenge) \<Rightarrow> Inr is_authorized)"

definition list_inhibitors ::
  "duration \<Rightarrow> (string \<times> string \<times> string \<times> string \<times> u32 \<times> u32) list call_answer \<Rightarrow> inhibitor list result" where
  "list_inhibitors limit bus =
     (case call_on limit ''ListInhibitors'' bus of
        Inl e \<Rightarrow> Inl e
      | Inr rows \<Rightarrow> Inr (map (\<lambda>(what, who, why, mode, uid, pid).
          \<lparr>inh_what = what, inh_who = who, inh_why = why, inh_mode = mode, inh_uid = uid\<rparr>) rows))"

definition power_member :: "power_action \<Rightarrow> string" where
  "power_member a = (case a of Pw_Suspend \<Rightarrow> ''Suspend'' | Pw_Reboot \<Rightarrow> ''Reboot'' | Pw_PowerOff \<Rightarrow> ''PowerOff'')"

definition logind_power :: "duration \<Rightarrow> (string \<Rightarrow> unit call_answer) \<Rightarrow> power_action \<Rightarrow> unit result" where
  "logind_power limit bus a = call_on limit (power_member a) (bus (power_member a))"

section \<open>Telling the manager\<close>

text \<open>\<^verbatim>\<open>notify\<close>: the attempts to put the notice into the driver's queue and the time after each.\<close>

datatype send_try = Try_Ok | Try_Full | Try_Gone

fun notify :: "instant \<Rightarrow> (send_try \<times> instant) list \<Rightarrow> bool option" where
  "notify deadline [] = None"
| "notify deadline ((t, now) # rest) =
     (case t of
        Try_Ok \<Rightarrow> Some True
      | Try_Full \<Rightarrow> if deadline \<le> now then Some False else notify deadline rest
      | Try_Gone \<Rightarrow> Some False)"

lemma notify_answers: "(t, now) \<in> set tries \<Longrightarrow> deadline \<le> now \<Longrightarrow> notify deadline tries \<noteq> None"
  by (induction deadline tries rule: notify.induct) (auto split: send_try.split)

section \<open>The sleep inhibitor\<close>

text \<open>\<^verbatim>\<open>SleepState\<close> with the two instants of \<^verbatim>\<open>sleep_loop\<close>, and the notices the manager has taken.\<close>

record sleep_state =
  sl_held :: bool
  sl_preparing :: bool
  sl_cap :: "instant option"
  sl_retake :: "instant option"
  sl_told :: "bool list"
  sl_stopped :: bool

definition sleep_state_new :: sleep_state where
  "sleep_state_new = \<lparr>sl_held = True, sl_preparing = False, sl_cap = None, sl_retake = None, sl_told = [], sl_stopped = False\<rparr>"

datatype sleep_action = Act_Prepare | Act_Resume | Act_Ignore

definition sleep_signal :: "bool \<Rightarrow> sleep_state \<Rightarrow> sleep_action \<times> sleep_state" where
  "sleep_signal start s =
     (if start \<and> \<not> sl_preparing s then (Act_Prepare, s\<lparr>sl_preparing := True\<rparr>)
      else if start then (Act_Ignore, s)
      else (Act_Resume, s\<lparr>sl_preparing := False\<rparr>))"

definition sleep_release :: "sleep_state \<Rightarrow> sleep_state" where
  "sleep_release s = s\<lparr>sl_held := False\<rparr>"

text \<open>The clock, whether logind gives an inhibitor, and whether the manager takes the notice.\<close>

record sleep_world =
  zw_now :: instant
  zw_take :: bool
  zw_notified :: bool

definition retake_inhibitor :: "sleep_world \<Rightarrow> sleep_state \<Rightarrow> sleep_state" where
  "retake_inhibitor w s =
     (if sl_held s then s\<lparr>sl_retake := None\<rparr>
      else if zw_take w then s\<lparr>sl_held := True, sl_retake := None\<rparr>
      else s\<lparr>sl_retake := Some (zw_now w + RETAKE_EVERY)\<rparr>)"

definition sleep_notify :: "sleep_world \<Rightarrow> bool \<Rightarrow> sleep_state \<Rightarrow> sleep_state" where
  "sleep_notify w start s = (if zw_notified w then s\<lparr>sl_told := sl_told s @ [start]\<rparr> else s)"

definition sleep_message :: "system_config \<Rightarrow> sleep_world \<Rightarrow> bool \<Rightarrow> sleep_state \<Rightarrow> sleep_state" where
  "sleep_message cfg w start s =
     (case sleep_signal start s of
        (Act_Ignore, s) \<Rightarrow> s
      | (Act_Prepare, s) \<Rightarrow>
          (let s = s\<lparr>sl_cap := Some (zw_now w + sy_sleep_cap cfg)\<rparr>;
               s = (if \<not> sl_held s then retake_inhibitor w s else s);
               s = sleep_notify w True s
           in if zw_notified w then s else (sleep_release s)\<lparr>sl_cap := None\<rparr>)
      | (Act_Resume, s) \<Rightarrow>
          retake_inhibitor w (sleep_notify w False (sleep_release (s\<lparr>sl_cap := None\<rparr>))))"

definition sleep_tick :: "sleep_world \<Rightarrow> sleep_state \<Rightarrow> sleep_state" where
  "sleep_tick w s =
     (let now = zw_now w;
          s = (if is_some_and (sl_cap s) (\<lambda>t. t \<le> now) then sleep_release (s\<lparr>sl_cap := None\<rparr>) else s)
      in if is_some_and (sl_retake s) (\<lambda>t. t \<le> now)
         then (let s = s\<lparr>sl_retake := None\<rparr> in if \<not> sl_preparing s then retake_inhibitor w s else s)
         else s)"

text \<open>What the loop waits for, and \<^verbatim>\<open>sleep_ready\<close>, which the driver calls.\<close>

datatype sleep_event = Sl_Signal bool | Sl_Unreadable | Sl_Tick | Sl_Stop | Sl_Ready

definition sleep_step :: "system_config \<Rightarrow> sleep_world \<Rightarrow> sleep_event \<Rightarrow> sleep_state \<Rightarrow> sleep_state" where
  "sleep_step cfg w e s =
     (case e of
        Sl_Ready \<Rightarrow> sleep_release s
      | Sl_Stop \<Rightarrow> s\<lparr>sl_stopped := True\<rparr>
      | _ \<Rightarrow>
          if sl_stopped s then s
          else case e of Sl_Signal start \<Rightarrow> sleep_message cfg w start s | Sl_Tick \<Rightarrow> sleep_tick w s | _ \<Rightarrow> s)"

section \<open>Sleep is delayed, never blocked\<close>

text \<open>Any interleaving; and those in which the manager reports that it is ready only while it prepares.\<close>

definition sleeps :: "system_config \<Rightarrow> sleep_state \<Rightarrow> sleep_world \<times> sleep_event \<Rightarrow> sleep_state \<Rightarrow> bool" where
  "sleeps cfg s we s' \<longleftrightarrow> s' = sleep_step cfg (fst we) (snd we) s"

definition sleeps_timely :: "system_config \<Rightarrow> sleep_state \<Rightarrow> sleep_world \<times> sleep_event \<Rightarrow> sleep_state \<Rightarrow> bool" where
  "sleeps_timely cfg s we s' \<longleftrightarrow> sleeps cfg s we s' \<and> (snd we = Sl_Ready \<longrightarrow> sl_preparing s)"

definition cap_armed :: "sleep_state \<Rightarrow> bool" where
  "cap_armed s \<longleftrightarrow> (sl_preparing s \<and> sl_held s \<longrightarrow> sl_cap s \<noteq> None) \<and> (\<not> sl_preparing s \<longrightarrow> sl_cap s = None)"

definition inhibitor_kept :: "sleep_state \<Rightarrow> bool" where
  "inhibitor_kept s \<longleftrightarrow> cap_armed s \<and> (\<not> sl_preparing s \<longrightarrow> sl_held s \<or> sl_retake s \<noteq> None)"

lemmas sleep_message_defs = sleep_message_def sleep_signal_def sleep_notify_def sleep_release_def retake_inhibitor_def

lemma message_cap: "cap_armed s \<Longrightarrow> cap_armed (sleep_message cfg w start s)"
  by (cases start; cases "sl_preparing s"; cases "sl_held s"; cases "zw_take w"; cases "zw_notified w")
    (simp_all add: cap_armed_def sleep_message_defs)

lemma message_kept: "inhibitor_kept s \<Longrightarrow> inhibitor_kept (sleep_message cfg w start s)"
  using message_cap [of s cfg w start]
  by (cases start; cases "sl_preparing s"; cases "sl_held s"; cases "zw_take w"; cases "zw_notified w")
    (simp_all add: inhibitor_kept_def sleep_message_defs)

lemma tick_cap: "cap_armed s \<Longrightarrow> cap_armed (sleep_tick w s)"
  by (cases "sl_preparing s"; cases "sl_cap s"; cases "sl_retake s")
    (simp_all add: cap_armed_def sleep_tick_def sleep_release_def retake_inhibitor_def Let_def)

lemma tick_kept: "inhibitor_kept s \<Longrightarrow> inhibitor_kept (sleep_tick w s)"
  using tick_cap [of s w]
  by (cases "sl_preparing s"; cases "sl_cap s"; cases "sl_retake s")
    (auto simp: inhibitor_kept_def cap_armed_def sleep_tick_def sleep_release_def retake_inhibitor_def Let_def)

interpretation sleep: invariant_system "\<lambda>s. s = sleep_state_new" "sleeps cfg" cap_armed for cfg
proof unfold_locales
  fix s we s'
  assume "cap_armed s" "sleeps cfg s we s'"
  then show "cap_armed s'"
    using message_cap tick_cap by (cases "snd we") (auto simp: sleeps_def sleep_step_def sleep_release_def cap_armed_def)
qed (simp add: sleep_state_new_def cap_armed_def)

interpretation timely: invariant_system "\<lambda>s. s = sleep_state_new" "sleeps_timely cfg" inhibitor_kept for cfg
proof unfold_locales
  fix s we s'
  assume *: "inhibitor_kept s" "sleeps_timely cfg s we s'"
  then show "inhibitor_kept s'"
    using message_kept tick_kept
    by (cases "snd we") (auto simp: sleeps_timely_def sleeps_def sleep_step_def sleep_release_def inhibitor_kept_def cap_armed_def)
qed (simp add: sleep_state_new_def cap_armed_def inhibitor_kept_def)

text \<open>
  C25. The machine's sleep is delayed, never blocked, and never unguarded. However the signals of logind,
  the clock and the manager interleave: while a sleep is being prepared and the inhibitor is held,
  its hard cap is armed, and the first tick after it gives the inhibitor up. If the manager reports
  readiness only while a sleep is being prepared, then at any other time the inhibitor is held or the
  next attempt to take it is scheduled.
\<close>

theorem sleep_is_delayed_only:
  assumes "reachable_by (\<lambda>s. s = sleep_state_new) (sleeps cfg) s"
  shows "(sl_preparing s \<and> sl_held s \<longrightarrow>
      (\<exists>t. sl_cap s = Some t \<and> (\<forall>w. t \<le> zw_now w \<longrightarrow> \<not> sl_stopped s \<longrightarrow> \<not> sl_held (sleep_step cfg w Sl_Tick s))))
    \<and> (reachable_by (\<lambda>s. s = sleep_state_new) (sleeps_timely cfg) s \<longrightarrow> \<not> sl_preparing s \<longrightarrow> sl_held s \<or> sl_retake s \<noteq> None)"
proof -
  have "cap_armed s" by (rule sleep.reachable_invariant [OF assms])
  then have "\<exists>t. sl_cap s = Some t \<and> (\<forall>w. t \<le> zw_now w \<longrightarrow> \<not> sl_stopped s \<longrightarrow> \<not> sl_held (sleep_step cfg w Sl_Tick s))"
    if "sl_preparing s" "sl_held s"
    using that by (auto simp: cap_armed_def sleep_step_def sleep_tick_def sleep_release_def Let_def)
  moreover have "reachable_by (\<lambda>s. s = sleep_state_new) (sleeps_timely cfg) s \<Longrightarrow> inhibitor_kept s"
    by (rule timely.reachable_invariant)
  ultimately show ?thesis unfolding inhibitor_kept_def by blast
qed

definition demo_sleep_world :: "instant \<Rightarrow> sleep_world" where
  "demo_sleep_world now = \<lparr>zw_now = now, zw_take = True, zw_notified = True\<rparr>"

definition demo_sleep_config :: system_config where
  "demo_sleep_config = \<lparr>sy_call_timeout = 10, sy_sleep_cap = 5\<rparr>"

fun sleep_run :: "system_config \<Rightarrow> (sleep_world \<times> sleep_event) list \<Rightarrow> sleep_state \<Rightarrow> sleep_state" where
  "sleep_run cfg [] s = s"
| "sleep_run cfg ((w, e) # es) s = sleep_run cfg es (sleep_step cfg w e s)"

lemma sleep_run_reachable:
  "reachable_by init (sleeps cfg) s \<Longrightarrow> reachable_by init (sleeps cfg) (sleep_run cfg es s)"
proof (induction es arbitrary: s)
  case (Cons we es)
  obtain w e where we: "we = (w, e)" by fastforce
  have "reachable_by init (sleeps cfg) (sleep_step cfg w e s)"
    by (rule reachable_step [OF Cons.prems, of "(w, e)"]) (simp add: sleeps_def)
  then show ?case using Cons.IH by (simp add: we)
qed simp

definition demo_preparing :: sleep_state where
  "demo_preparing = sleep_run demo_sleep_config [(demo_sleep_world 1, Sl_Signal True)] sleep_state_new"

theorem sleep_is_delayed_only_witness:
  "sl_preparing demo_preparing \<and> sl_held demo_preparing \<and> \<not> sl_held (sleep_step demo_sleep_config (demo_sleep_world 6) Sl_Tick demo_preparing)"
proof -
  have "sl_preparing demo_preparing" "sl_held demo_preparing" "\<not> sl_stopped demo_preparing" "sl_cap demo_preparing = Some 6" by code_simp+
  moreover have "reachable_by (\<lambda>s. s = sleep_state_new) (sleeps demo_sleep_config) demo_preparing"
    unfolding demo_preparing_def by (rule sleep_run_reachable) (simp add: reachable_init)
  ultimately show ?thesis
    using sleep_is_delayed_only [of demo_sleep_config demo_preparing] by (auto simp: demo_sleep_world_def)
qed

text \<open>
  The hypothesis on the manager is needed, and the manager does not meet it. When the driver is
  slower than the hard cap, the machine sleeps and wakes up and a new inhibitor is taken; then the
  manager handles the old notice, reports that it is ready, and the new inhibitor is let go, with no
  attempt to take another one scheduled.
\<close>

theorem late_readiness_loses_the_inhibitor:
  "let s = sleep_run demo_sleep_config [(demo_sleep_world 1, Sl_Signal True), (demo_sleep_world 6, Sl_Tick),
        (demo_sleep_world 9, Sl_Signal False)] sleep_state_new
   in reachable_by (\<lambda>s. s = sleep_state_new) (sleeps demo_sleep_config) s \<and> sl_told s = [True, False] \<and> sl_held s
      \<and> is_some_and (handle 0 (In_PrepareForSleep True) demo_start) (\<lambda>m. Fx_SleepReady \<in> set (m_fx m))
      \<and> (let s' = sleep_step demo_sleep_config (demo_sleep_world 10) Sl_Ready s
         in \<not> sl_preparing s' \<and> \<not> sl_held s' \<and> sl_retake s' = None \<and> sl_cap s' = None)"
proof -
  let ?s = "sleep_run demo_sleep_config [(demo_sleep_world 1, Sl_Signal True), (demo_sleep_world 6, Sl_Tick),
      (demo_sleep_world 9, Sl_Signal False)] sleep_state_new"
  have "reachable_by (\<lambda>s. s = sleep_state_new) (sleeps demo_sleep_config) ?s"
    by (rule sleep_run_reachable) (simp add: reachable_init)
  moreover have "sl_told ?s = [True, False]" "sl_held ?s" by code_simp+
  moreover have "is_some_and (handle 0 (In_PrepareForSleep True) demo_start) (\<lambda>m. list_ex (\<lambda>e. e = Fx_SleepReady) (m_fx m))" by code_simp
  then have "is_some_and (handle 0 (In_PrepareForSleep True) demo_start) (\<lambda>m. Fx_SleepReady \<in> set (m_fx m))"
    by (auto simp: is_some_and_iff list_ex_iff)
  moreover have "let s' = sleep_step demo_sleep_config (demo_sleep_world 10) Sl_Ready ?s
      in \<not> sl_preparing s' \<and> \<not> sl_held s' \<and> sl_retake s' = None \<and> sl_cap s' = None" by code_simp
  ultimately show ?thesis unfolding Let_def by blast
qed

end
