(* ===== verification/Runtime_Scene.thy ===== *)
theory Runtime_Scene
  imports Core_Types Runtime_Sleep "HOL-Library.Sublist"
begin

text \<open>
  \<^verbatim>\<open>forward_scene_events\<close> of \<^verbatim>\<open>src/bsm/manager/src/runtime/driver.rs\<close>: the thread between the compositor's
  unbounded channel and the driver's bounded one, which may throw session reports away.
\<close>

section \<open>The forwarder\<close>

type_synonym report_key = "session_id \<times> generation \<times> nat \<times> string"

text \<open>\<^verbatim>\<open>fw_last\<close> is the hash map, an entry per key; \<^verbatim>\<open>fw_out\<close> what went into the driver's queue.\<close>

record forwarder =
  fw_last :: "(report_key \<times> host_report) list"
  fw_dropped :: u64
  fw_out :: "scene_event list"

definition forwarder_new :: forwarder where
  "forwarder_new = \<lparr>fw_last = [], fw_dropped = 0, fw_out = []\<rparr>"

fun report_kind :: "host_report \<Rightarrow> nat \<times> string" where
  "report_kind Rep_GnoblinReady = (0, [])"
| "report_kind (Rep_OutputConfigured out) = (1, out)"
| "report_kind Rep_BinguxLaunched = (2, [])"
| "report_kind (Rep_SurfacesMapped out mapped required) = (3, out)"
| "report_kind Rep_DesktopReady = (4, [])"

definition remember :: "report_key \<Rightarrow> host_report \<Rightarrow> forwarder \<Rightarrow> forwarder" where
  "remember key r s =
     (let last = (if 1024 < length (fw_last s) then [] else fw_last s)
      in s\<lparr>fw_last := (key, r) # filter (\<lambda>e. fst e \<noteq> key) last\<rparr>)"

definition deliver :: "scene_event \<Rightarrow> forwarder \<Rightarrow> forwarder" where
  "deliver e s = s\<lparr>fw_out := fw_out s @ [e]\<rparr>"

text \<open>One event and what the driver's queue does: for a report \<^verbatim>\<open>try_send\<close>, for the others a \<^verbatim>\<open>send\<close> that
  waits for room. False: the driver is gone.\<close>

definition forward_report :: "session_id \<Rightarrow> generation \<Rightarrow> host_report \<Rightarrow> send_try \<Rightarrow> forwarder \<Rightarrow> bool \<times> forwarder" where
  "forward_report sid gn r t s =
     (let (kind, out) = report_kind r; key = (sid, gn, kind, out) in
      if kind \<noteq> 4 \<and> map_of (fw_last s) key = Some r then (True, s)
      else
        let s = (if kind \<noteq> 4 then remember key r s else s) in
        case t of
          Try_Ok \<Rightarrow> (True, deliver (Scn_SessionReport sid gn r) s)
        | Try_Full \<Rightarrow> (True, s\<lparr>fw_dropped := fw_dropped s + 1\<rparr>)
        | Try_Gone \<Rightarrow> (False, s))"

definition forward_one :: "scene_event \<Rightarrow> send_try \<Rightarrow> forwarder \<Rightarrow> bool \<times> forwarder" where
  "forward_one e t s =
     (case e of
        Scn_SessionReport sid gn r \<Rightarrow> forward_report sid gn r t s
      | _ \<Rightarrow> if t = Try_Gone then (False, s) else (True, deliver e s))"

fun forward_scene_events :: "(scene_event \<times> send_try) list \<Rightarrow> forwarder \<Rightarrow> bool \<times> forwarder" where
  "forward_scene_events [] s = (True, s)"
| "forward_scene_events ((e, t) # es) s =
     (case forward_one e t s of (True, s) \<Rightarrow> forward_scene_events es s | (False, s) \<Rightarrow> (False, s))"

section \<open>What arrives\<close>

fun is_report :: "scene_event \<Rightarrow> bool" where
  "is_report (Scn_SessionReport _ _ _) = True"
| "is_report _ = False"

fun key_of :: "scene_event \<Rightarrow> report_key option" where
  "key_of (Scn_SessionReport sid gn r) = (case report_kind r of (kind, out) \<Rightarrow> Some (sid, gn, kind, out))"
| "key_of _ = None"

text \<open>The last report of a kind among some events.\<close>

definition latest :: "report_key \<Rightarrow> scene_event list \<Rightarrow> scene_event option" where
  "latest k es = List.find (\<lambda>e. key_of e = Some k) (rev es)"

lemma latest_simps [simp]:
  "latest k [] = None" "latest k (es @ [e]) = (if key_of e = Some k then Some e else latest k es)"
  by (simp_all add: latest_def)

lemma report_kind_inj: "report_kind r = report_kind r' \<Longrightarrow> fst (report_kind r) \<noteq> 3 \<Longrightarrow> r = r'"
  by (cases r; cases r') auto

text \<open>The map holds, for its keys, the last report that was handed over; nothing of another kind.\<close>

definition current :: "scene_event list \<Rightarrow> forwarder \<Rightarrow> bool" where
  "current seen s \<longleftrightarrow>
     (\<forall>k. latest k (fw_out s) = latest k seen)
     \<and> (\<forall>sid gn kind out r. map_of (fw_last s) (sid, gn, kind, out) = Some r \<longrightarrow>
          report_kind r = (kind, out) \<and> latest (sid, gn, kind, out) (fw_out s) = Some (Scn_SessionReport sid gn r))"

lemma map_of_others: "map_of (filter (\<lambda>e. fst e \<noteq> k) m) x = (if x = k then None else map_of m x)"
  by (induction m) auto

lemma remember_get: "map_of (fw_last (remember key r s)) k = Some v \<Longrightarrow> k = key \<and> v = r \<or> k \<noteq> key \<and> map_of (fw_last s) k = Some v"
  unfolding remember_def Let_def by (auto simp: map_of_others split: if_splits)

lemma remember_out [simp]: "fw_out (remember key r s) = fw_out s"
  by (simp add: remember_def Let_def)

lemma forward_report_current:
  assumes "current seen s" "forward_report sid gn r t s = (True, s')" "t \<noteq> Try_Full"
  shows "current (seen @ [Scn_SessionReport sid gn r]) s'"
proof -
  obtain kind out where k: "report_kind r = (kind, out)" by fastforce
  let ?k = "(sid, gn, kind, out)" and ?e = "Scn_SessionReport sid gn r"
  show ?thesis
  proof (cases "kind \<noteq> 4 \<and> map_of (fw_last s) ?k = Some r")
    case True
    then have "latest ?k (fw_out s) = Some ?e" "s' = s" using assms(1,2) k by (auto simp: current_def forward_report_def)
    with assms(1) k show ?thesis by (auto simp: current_def)
  next
    case False
    define s1 where "s1 = (if kind \<noteq> 4 then remember ?k r s else s)"
    have s': "s' = deliver ?e s1" using assms(2,3) False k by (cases t) (auto simp: forward_report_def s1_def)
    have out: "fw_out s' = fw_out s @ [?e]" "fw_last s' = fw_last s1" by (simp_all add: s' s1_def deliver_def)
    have key: "key_of ?e = Some ?k" by (simp add: k)
    have "report_kind v = (kd, ot) \<and> latest (sd, g, kd, ot) (fw_out s @ [?e]) = Some (Scn_SessionReport sd g v)"
      if v: "map_of (fw_last s1) (sd, g, kd, ot) = Some v" for sd g kd ot v
    proof (cases "(sd, g, kd, ot) = ?k")
      case True
      have "v = r"
      proof (cases "kind = 4")
        case True
        then have "report_kind v = report_kind r"
          using v assms(1) k \<open>(sd, g, kd, ot) = ?k\<close> by (auto simp: s1_def current_def)
        then show ?thesis using report_kind_inj [of v r] k True by simp
      next
        case False
        then show ?thesis using v remember_get [of ?k r s ?k v] \<open>(sd, g, kd, ot) = ?k\<close> by (simp add: s1_def)
      qed
      then show ?thesis using True k key by simp
    next
      case False
      then have "map_of (fw_last s) (sd, g, kd, ot) = Some v"
        using v remember_get [of ?k r s "(sd, g, kd, ot)" v] by (auto simp: s1_def split: if_splits)
      then show ?thesis using assms(1) False key by (auto simp: current_def)
    qed
    then show ?thesis using assms(1) out by (auto simp: current_def)
  qed
qed

lemma forward_other_current:
  assumes "current seen s" "\<not> is_report e"
  shows "current (seen @ [e]) (deliver e s)"
proof -
  have "key_of e = None" using assms(2) by (cases e) auto
  then show ?thesis using assms(1) by (auto simp: current_def deliver_def)
qed

lemma forward_one_other: "\<not> is_report e \<Longrightarrow> forward_one e t s = (if t = Try_Gone then (False, s) else (True, deliver e s))"
  by (cases e) (simp_all add: forward_one_def)

lemma forward_one_report: "forward_one (Scn_SessionReport sid gn r) t s = forward_report sid gn r t s"
  by (simp add: forward_one_def)

lemma forward_report_out:
  assumes "forward_report sid gn r t s = (True, s')"
  shows "fw_out s' = fw_out s \<or> fw_out s' = fw_out s @ [Scn_SessionReport sid gn r]"
  using assms by (cases t) (auto simp: forward_report_def deliver_def Let_def split: prod.splits if_splits)

lemma report_cases:
  obtains (report) sid gn r where "e = Scn_SessionReport sid gn r" | (other) "\<not> is_report e"
  by (cases e) auto

lemma forward_one_out:
  assumes "forward_one e t s = (True, s')"
  shows "\<exists>es. fw_out s' = fw_out s @ es \<and> subseq es [e] \<and> (\<not> is_report e \<longrightarrow> es = [e])"
proof (cases e rule: report_cases)
  case (report sid gn r)
  then show ?thesis using forward_report_out [of sid gn r t s s'] assms by (auto simp: forward_one_report)
next
  case other
  then show ?thesis using assms by (auto simp: forward_one_other deliver_def split: if_splits)
qed

lemma forwarded:
  assumes "forward_scene_events es s = (True, s')"
  shows "\<exists>out. fw_out s' = fw_out s @ out \<and> subseq out (map fst es)
    \<and> filter (\<lambda>e. \<not> is_report e) out = filter (\<lambda>e. \<not> is_report e) (map fst es)"
  using assms
proof (induction es arbitrary: s)
  case (Cons x es)
  obtain e t where x: "x = (e, t)" by fastforce
  obtain s1 where s1: "forward_one e t s = (True, s1)" "forward_scene_events es s1 = (True, s')"
    using Cons.prems by (auto simp: x split: prod.splits bool.splits)
  obtain o1 where o1: "fw_out s1 = fw_out s @ o1" "subseq o1 [e]" "\<not> is_report e \<longrightarrow> o1 = [e]"
    using forward_one_out [OF s1(1)] by blast
  obtain o2 where o2: "fw_out s' = fw_out s1 @ o2" "subseq o2 (map fst es)"
    "filter (\<lambda>e. \<not> is_report e) o2 = filter (\<lambda>e. \<not> is_report e) (map fst es)" using Cons.IH [OF s1(2)] by blast
  have "subseq (o1 @ o2) (e # map fst es)" using list_emb_append_mono [OF o1(2) o2(2)] by simp
  moreover have "is_report e \<Longrightarrow> filter (\<lambda>e. \<not> is_report e) o1 = []"
    using list_emb_set [OF o1(2)] by (auto simp: filter_empty_conv)
  ultimately show ?case using o1 o2 by (intro exI [of _ "o1 @ o2"]) (auto simp: x)
qed simp

lemma forwarded_current:
  assumes "current seen s" "forward_scene_events es s = (True, s')" "Try_Full \<notin> snd ` set es"
  shows "current (seen @ map fst es) s'"
  using assms
proof (induction es arbitrary: s seen)
  case (Cons x es)
  obtain e t where x: "x = (e, t)" by fastforce
  obtain s1 where s1: "forward_one e t s = (True, s1)" "forward_scene_events es s1 = (True, s')"
    using Cons.prems(2) by (auto simp: x split: prod.splits bool.splits)
  have "current (seen @ [e]) s1"
  proof (cases e rule: report_cases)
    case (report sid gn r)
    then show ?thesis using forward_report_current [of seen s sid gn r t s1] Cons.prems(1,3) s1(1) by (force simp: x forward_one_report)
  next
    case other
    then show ?thesis using forward_other_current [OF Cons.prems(1)] s1(1) by (auto simp: forward_one_other split: if_splits)
  qed
  from Cons.IH [OF this s1(2)] Cons.prems(3) show ?case by (simp add: x)
qed simp

text \<open>
  The compositor's events reach the driver in order and nothing is made up; every event that is not
  a session report arrives; and as long as the driver's queue has room, the last report of every
  kind, session and output that arrived is the last one that was sent, however many repetitions
  were left out.
\<close>

theorem scene_events_arrive:
  assumes "forward_scene_events es forwarder_new = (True, s)"
  shows "subseq (fw_out s) (map fst es)
    \<and> filter (\<lambda>e. \<not> is_report e) (fw_out s) = filter (\<lambda>e. \<not> is_report e) (map fst es)
    \<and> (Try_Full \<notin> snd ` set es \<longrightarrow> (\<forall>k. latest k (fw_out s) = latest k (map fst es)))"
proof -
  have "current [] forwarder_new" by (simp add: current_def forwarder_new_def)
  then show ?thesis
    using forwarded [OF assms] forwarded_current [of "[]" forwarder_new es s] assms by (auto simp: forwarder_new_def current_def)
qed

definition demo_report :: "host_report \<Rightarrow> scene_event" where
  "demo_report r = Scn_SessionReport ''s1'' 1 r"

theorem scene_events_arrive_witness:
  "\<exists>s. forward_scene_events [(demo_report Rep_GnoblinReady, Try_Ok), (demo_report Rep_GnoblinReady, Try_Ok), (Scn_SessionGone ''s1'' 1, Try_Ok)]
      forwarder_new = (True, s) \<and> fw_out s = [demo_report Rep_GnoblinReady, Scn_SessionGone ''s1'' 1]
    \<and> latest (''s1'', 1, 0, []) (fw_out s) = Some (demo_report Rep_GnoblinReady)"
proof -
  let ?es = "[(demo_report Rep_GnoblinReady, Try_Ok), (demo_report Rep_GnoblinReady, Try_Ok), (Scn_SessionGone ''s1'' 1, Try_Ok)]"
  define s where "s = snd (forward_scene_events ?es forwarder_new)"
  have f: "fst (forward_scene_events ?es forwarder_new)" "fw_out s = [demo_report Rep_GnoblinReady, Scn_SessionGone ''s1'' 1]"
    unfolding s_def by code_simp+
  then have run: "forward_scene_events ?es forwarder_new = (True, s)" by (simp add: s_def prod_eq_iff)
  have "latest (''s1'', 1, 0, []) (map fst ?es) = Some (demo_report Rep_GnoblinReady)" by code_simp
  with scene_events_arrive [OF run] have "latest (''s1'', 1, 0, []) (fw_out s) = Some (demo_report Rep_GnoblinReady)" by simp
  with run f(2) show ?thesis by blast
qed

text \<open>
  A report that finds the queue full is lost for good. It has been remembered as the last of its
  kind before it was dropped, so every repetition is left out, however much room there is by then.
  And \<^verbatim>\<open>DesktopReady\<close>, which a comment says is always delivered, is dropped like the others.
\<close>

theorem dropped_report_is_lost:
  assumes "report_kind r \<noteq> (4, [])"
  shows "fw_out (snd (forward_scene_events ((demo_report r, Try_Full) # replicate n (demo_report r, Try_Ok)) forwarder_new)) = []
    \<and> fw_out (snd (forward_scene_events [(demo_report Rep_DesktopReady, Try_Full)] forwarder_new)) = []"
proof -
  obtain kind out where k: "report_kind r = (kind, out)" by fastforce
  with assms have "kind \<noteq> 4" by (cases r) auto
  let ?s = "(remember (''s1'', 1, kind, out) r forwarder_new)\<lparr>fw_dropped := 1\<rparr>"
  have "map_of (fw_last ?s) (''s1'', 1, kind, out) = Some r" by (simp add: remember_def forwarder_new_def)
  then have "forward_scene_events (replicate n (demo_report r, Try_Ok)) ?s = (True, ?s)"
    using k \<open>kind \<noteq> 4\<close> by (induction n) (simp_all add: demo_report_def forward_one_def forward_report_def)
  moreover have "forward_one (demo_report r) Try_Full forwarder_new = (True, ?s)"
    using k \<open>kind \<noteq> 4\<close> by (simp add: demo_report_def forward_one_def forward_report_def forwarder_new_def remember_def)
  moreover have "fw_out (snd (forward_scene_events [(demo_report Rep_DesktopReady, Try_Full)] forwarder_new)) = []" by code_simp
  ultimately show ?thesis by (simp add: forwarder_new_def)
qed

theorem dropped_report_is_lost_witness:
  "fw_out (snd (forward_scene_events ((demo_report Rep_GnoblinReady, Try_Full) # replicate 3 (demo_report Rep_GnoblinReady, Try_Ok)) forwarder_new)) = []"
  using dropped_report_is_lost [of Rep_GnoblinReady 3] by simp

end
