(* ===== verification/Runtime_Driver.thy ===== *)
theory Runtime_Driver
  imports Runtime_Inputs Runtime_Store Runtime_Greeter Runtime_Scene
begin

text \<open>
  The driver thread, \<^verbatim>\<open>src/bsm/manager/src/runtime/driver.rs\<close> with \<^verbatim>\<open>api.rs\<close>: it owns the manager, takes
  inputs from a bounded queue, executes the effects in order, keeps the timers and the D-Bus calls
  that wait for an answer, and starts at most sixteen workers. What the other threads and the system
  answer is a record of functions; a send that can never succeed is a result of its own.
\<close>

section \<open>Timers in order\<close>

text \<open>\<^verbatim>\<open>TimerId\<close> derives its order: the variant first, then its fields.\<close>

fun timer_key :: "timer_id \<Rightarrow> nat \<times> string \<times> u64 \<times> nat" where
  "timer_key (Tmr_Stage sid gn st) = (0, sid, gn, length (takeWhile (\<lambda>x. x \<noteq> st) stage_all))"
| "timer_key (Tmr_Protect sid gn) = (1, sid, gn, 0)"
| "timer_key (Tmr_Frames oid) = (2, [], oid, 0)"
| "timer_key (Tmr_Auth c) = (3, [], c, 0)"
| "timer_key (Tmr_Close sid gn) = (4, sid, gn, 0)"
| "timer_key (Tmr_Transition oid) = (5, [], oid, 0)"
| "timer_key (Tmr_Checks oid) = (6, [], oid, 0)"
| "timer_key (Tmr_Power oid) = (7, [], oid, 0)"
| "timer_key Tmr_GreeterRespawn = (8, [], 0, 0)"
| "timer_key (Tmr_Recovery sid gn) = (9, sid, gn, 0)"

lemma stage_position_inj:
  "length (takeWhile (\<lambda>x. x \<noteq> a) stage_all) = length (takeWhile (\<lambda>x. x \<noteq> b) stage_all) \<Longrightarrow> a = b"
  by (cases a; cases b) (simp_all add: stage_all_def)

lemma timer_key_inj: "timer_key a = timer_key b \<longleftrightarrow> a = b"
  by (cases a; cases b) (auto dest: stage_position_inj)

instantiation timer_id :: linorder
begin

definition less_eq_timer_id :: "timer_id \<Rightarrow> timer_id \<Rightarrow> bool" where
  "less_eq_timer_id a b \<longleftrightarrow> timer_key a \<le> timer_key b"

definition less_timer_id :: "timer_id \<Rightarrow> timer_id \<Rightarrow> bool" where
  "less_timer_id a b \<longleftrightarrow> timer_key a < timer_key b"

instance
  by standard (auto simp: less_eq_timer_id_def less_timer_id_def timer_key_inj dest: order.antisym)

end

section \<open>The state of the driver\<close>

definition CALL_DEADLINE :: duration where "CALL_DEADLINE = from_secs 30"
definition MAX_WORKERS :: nat where "MAX_WORKERS = 16"
definition QUEUE :: nat where "QUEUE = 1024"
definition CALL_QUEUE :: nat where "CALL_QUEUE = 64"
definition CALLS_PER_ROUND :: nat where "CALLS_PER_ROUND = 4"

text \<open>A D-Bus call with the channel its reply goes to, named by a number.\<close>

record dbus_request =
  dq_caller :: caller
  dq_method :: dbus_method
  dq_reply :: nat

datatype rt_input = Rt_Core input | Rt_Call dbus_request | Rt_Wake | Rt_Shutdown

text \<open>What a worker thread is doing.\<close>

datatype job =
    Job_Accounts
  | Job_Publish "call_id option" u32 publish_request
  | Job_Polkit operation_id string caller "string option"
  | Job_Inhibitors operation_id
  | Job_Power operation_id power_action

text \<open>What the driver has done: the calls it took over, with their reply channels, and what it sent to the
  outside.\<close>

datatype rt_act =
    Act_Take nat
  | Act_Scene scene_command bool
  | Act_Helper helper_request bool
  | Act_Greeter server_message bool
  | Act_Signal dbus_signal
  | Act_Reply nat "reply result"
  | Act_Save persisted bool
  | Act_Storm
  | Act_Log log_record

record driver =
  d_m :: manager
  d_timers :: "(timer_id, instant) btmap"
  d_calls :: "(call_id, nat \<times> instant) btmap"
  d_next_call :: u64
  d_queue :: "input list"
  d_jobs :: "job list"
  d_rx :: "rt_input list"
  d_callq :: "rt_input list"
  d_greeter :: greeter_server
  d_sleep :: sleep_state
  d_fs :: fs
  d_backlog :: bool
  d_gone :: bool
  d_ready :: bool
  d_state :: "(seat_state \<times> session_info list) option"
  d_clock :: nat
  d_acts :: "rt_act list"

text \<open>The answers of the outside: the clock, the compositor's and the helper's channels, duplicating a
  descriptor, starting a thread, the disk, and the JSON encoders.\<close>

record rt_world =
  rw_now :: "nat \<Rightarrow> instant"
  rw_scene :: "nat \<Rightarrow> bool"
  rw_helper :: "nat \<Rightarrow> bool"
  rw_cloned :: "nat \<Rightarrow> bool"
  rw_spawn :: "nat \<Rightarrow> bool"
  rw_disk :: save_world
  rw_encode :: "persisted \<Rightarrow> string option"
  rw_pid :: nat
  rw_line :: "server_message \<Rightarrow> string option"

text \<open>The thread panics, or waits for room in a queue that only it empties.\<close>

datatype stuck = Panicked | Blocked

definition act :: "rt_act \<Rightarrow> driver \<Rightarrow> driver" where
  "act a d = d\<lparr>d_acts := d_acts d @ [a]\<rparr>"

definition read_clock :: "rt_world \<Rightarrow> driver \<Rightarrow> instant \<times> driver" where
  "read_clock w d = (rw_now w (d_clock d), d\<lparr>d_clock := Suc (d_clock d)\<rparr>)"

section \<open>Executing effects\<close>

definition feed_back :: "input \<Rightarrow> driver \<Rightarrow> stuck + driver" where
  "feed_back i d = (if length (d_rx d) < QUEUE then Inr (d\<lparr>d_rx := d_rx d @ [Rt_Core i]\<rparr>) else Inl Blocked)"

definition spawn_job :: "rt_world \<Rightarrow> job \<Rightarrow> input option \<Rightarrow> driver \<Rightarrow> stuck + driver" where
  "spawn_job w j rejected d =
     (if length (d_jobs d) < MAX_WORKERS \<and> rw_spawn w (length (d_acts d)) then Inr (d\<lparr>d_jobs := d_jobs d @ [j]\<rparr>)
      else case rejected of Some i \<Rightarrow> feed_back i d | None \<Rightarrow> Inr d)"

definition too_many :: bsm_error where
  "too_many = bsm_error_new E_Busy ''too many requests''"

fun exec :: "rt_world \<Rightarrow> effect \<Rightarrow> driver \<Rightarrow> stuck + driver" where
  "exec w (Fx_Scene c) d =
     (let ok = rw_scene w (length (d_acts d)) in
      Inr (act (Act_Scene c ok) (if ok then d else d\<lparr>d_gone := True\<rparr>)))"
| "exec w (Fx_Helper r) d = Inr (act (Act_Helper r (rw_helper w (length (d_acts d)))) d)"
| "exec w (Fx_Greeter m) d =
     (case gs_send (rw_line w) m (d_greeter d) of (ok, g) \<Rightarrow> Inr (act (Act_Greeter m ok) (d\<lparr>d_greeter := g\<rparr>)))"
| "exec w (Fx_Dbus s) d = Inr (act (Act_Signal s) d)"
| "exec w (Fx_DbusReply call res) d =
     (case btm_get (d_calls d) call of
        Some (reply, _) \<Rightarrow> Inr (act (Act_Reply reply res) (d\<lparr>d_calls := btm_remove call (d_calls d)\<rparr>))
      | None \<Rightarrow> Inr d)"
| "exec w (Fx_ConnVerdict conn accept) d =
     (case gs_verdict (rw_cloned w (length (d_acts d))) conn accept (d_greeter d) of
        (ok, g) \<Rightarrow>
          (let d = d\<lparr>d_greeter := g\<rparr> in
           Inr (if ok then d else d\<lparr>d_queue := d_queue d @ [In_GreeterDisconnected conn]\<rparr>)))"
| "exec w Fx_DropGreeter d = Inr (d\<lparr>d_greeter := drop_active (d_greeter d)\<rparr>)"
| "exec w (Fx_SetTimer t after) d =
     (case read_clock w d of (now, d) \<Rightarrow> Inr (d\<lparr>d_timers := btm_insert t (now + after) (d_timers d)\<rparr>))"
| "exec w (Fx_CancelTimer t) d = Inr (d\<lparr>d_timers := btm_remove t (d_timers d)\<rparr>)"
| "exec w (Fx_Persist p) d =
     (case save (rw_disk w) (rw_encode w) (rw_pid w) p (d_fs d) of
        (trace, ok) \<Rightarrow> Inr (act (Act_Save p ok) (d\<lparr>d_fs := last trace\<rparr>)))"
| "exec w Fx_LoadAccounts d = spawn_job w Job_Accounts None d"
| "exec w (Fx_PublishAppearance call uid request) d =
     spawn_job w (Job_Publish call uid request) (Some (In_AppearancePublished call uid (Inl too_many))) d"
| "exec w (Fx_Polkit oid action cal sid) d =
     spawn_job w (Job_Polkit oid action cal sid) (Some (In_PolkitResult oid False)) d"
| "exec w (Fx_QueryInhibitors oid _) d =
     spawn_job w (Job_Inhibitors oid) (Some (In_InhibitorsResult oid (Inl too_many))) d"
| "exec w (Fx_SystemPower oid a) d =
     spawn_job w (Job_Power oid a) (Some (In_PowerResult oid (Inl too_many))) d"
| "exec w Fx_SleepReady d = Inr (d\<lparr>d_sleep := sleep_release (d_sleep d)\<rparr>)"
| "exec w (Fx_Log l) d = Inr (act (Act_Log l) d)"

fun exec_all :: "rt_world \<Rightarrow> effect list \<Rightarrow> driver \<Rightarrow> stuck + driver" where
  "exec_all w [] d = Inr d"
| "exec_all w (e # es) d = (case exec w e d of Inl x \<Rightarrow> Inl x | Inr d \<Rightarrow> exec_all w es d)"

definition publish_state :: "driver \<Rightarrow> driver" where
  "publish_state d =
     d\<lparr>d_ready := d_ready d \<or> m_seat (d_m d) \<noteq> Seat_Booting, d_state := Some (m_seat (d_m d), session_infos (d_m d))\<rparr>"

definition drain_one :: "rt_world \<Rightarrow> input \<Rightarrow> driver \<Rightarrow> stuck + driver" where
  "drain_one w i d =
     (case read_clock w d of (now, d) \<Rightarrow>
        (case handle now i (d_m d) of
           None \<Rightarrow> Inl Panicked
         | Some m \<Rightarrow>
             (case exec_all w (m_fx m) (d\<lparr>d_m := m\<rparr>) of Inl x \<Rightarrow> Inl x | Inr d \<Rightarrow> Inr (publish_state d))))"

text \<open>\<^verbatim>\<open>drain\<close>: at most 100000 inputs; the one that exceeds the limit is taken from the queue and the rest is
  dropped with it.\<close>

fun drain_loop :: "nat \<Rightarrow> rt_world \<Rightarrow> driver \<Rightarrow> stuck + driver" where
  "drain_loop 0 w d = (case d_queue d of [] \<Rightarrow> Inr d | _ # _ \<Rightarrow> Inr (act Act_Storm (d\<lparr>d_queue := []\<rparr>)))"
| "drain_loop (Suc n) w d =
     (case d_queue d of
        [] \<Rightarrow> Inr d
      | i # is \<Rightarrow> (case drain_one w i (d\<lparr>d_queue := is\<rparr>) of Inl x \<Rightarrow> Inl x | Inr d \<Rightarrow> drain_loop n w d))"

definition drain :: "rt_world \<Rightarrow> driver \<Rightarrow> stuck + driver" where
  "drain w d = drain_loop 100000 w d"

section \<open>The loop\<close>

definition accept_call :: "rt_world \<Rightarrow> dbus_request \<Rightarrow> driver \<Rightarrow> driver" where
  "accept_call w c d =
     (let call = d_next_call d in
      case read_clock w (act (Act_Take (dq_reply c)) (d\<lparr>d_next_call := call + 1\<rparr>)) of (now, d) \<Rightarrow>
        d\<lparr>d_calls := btm_insert call (dq_reply c, now + CALL_DEADLINE) (d_calls d),
          d_queue := d_queue d @ [In_Dbus call (dq_caller c) (dq_method c)]\<rparr>)"

definition timed_out :: "reply result" where
  "timed_out = Inl (bsm_error_new E_Timeout ''the session manager did not answer in time'')"

definition expire_call :: "call_id \<Rightarrow> driver \<Rightarrow> driver" where
  "expire_call call d =
     (case btm_get (d_calls d) call of
        Some (reply, _) \<Rightarrow> act (Act_Reply reply timed_out) (d\<lparr>d_calls := btm_remove call (d_calls d)\<rparr>)
      | None \<Rightarrow> d)"

definition fire_timer :: "timer_id \<Rightarrow> driver \<Rightarrow> driver" where
  "fire_timer t d = d\<lparr>d_timers := btm_remove t (d_timers d), d_queue := d_queue d @ [In_Timer t]\<rparr>"

definition fire_due :: "rt_world \<Rightarrow> driver \<Rightarrow> driver" where
  "fire_due w d =
     (case read_clock w d of (now, d) \<Rightarrow>
        (let due = map fst (filter (\<lambda>(_, at). at \<le> now) (d_timers d));
             d = fold fire_timer due d;
             late = map fst (filter (\<lambda>(_, _, at). at \<le> now) (d_calls d))
         in fold expire_call late d))"

text \<open>Taking what is in the driver's queue; true: the loop of the driver ends.\<close>

fun receive :: "rt_world \<Rightarrow> rt_input list \<Rightarrow> driver \<Rightarrow> bool \<times> driver" where
  "receive w [] d = (False, d\<lparr>d_rx := []\<rparr>)"
| "receive w (Rt_Shutdown # xs) d = (True, d\<lparr>d_rx := xs\<rparr>)"
| "receive w (x # xs) d =
     (let d = (case x of Rt_Core i \<Rightarrow> d\<lparr>d_queue := d_queue d @ [i]\<rparr> | Rt_Call c \<Rightarrow> accept_call w c d | _ \<Rightarrow> d)
      in if 256 < length (d_queue d) then (False, d\<lparr>d_rx := xs\<rparr>) else receive w xs d)"

text \<open>At most \<^term>\<open>k\<close> calls; the flag is set when the last of them was one.\<close>

fun take_calls :: "rt_world \<Rightarrow> nat \<Rightarrow> driver \<Rightarrow> driver" where
  "take_calls w 0 d = d"
| "take_calls w (Suc k) d =
     (case d_callq d of
        [] \<Rightarrow> d
      | Rt_Call c # xs \<Rightarrow> take_calls w k ((accept_call w c (d\<lparr>d_callq := xs\<rparr>))\<lparr>d_backlog := k = 0\<rparr>)
      | _ # xs \<Rightarrow> take_calls w k (d\<lparr>d_callq := xs\<rparr>))"

text \<open>How long the first read waits.\<close>

definition next_wait :: "instant \<Rightarrow> driver \<Rightarrow> duration" where
  "next_wait now d =
     (if d_backlog d then 0
      else case map snd (d_timers d) @ map (\<lambda>(_, _, at). at) (d_calls d) of
        [] \<Rightarrow> from_secs 1
      | t # ts \<Rightarrow> min (duration_since (Min (set (t # ts))) now) (from_secs 1))"

definition turn :: "rt_world \<Rightarrow> driver \<Rightarrow> stuck + bool \<times> driver" where
  "turn w d =
     (case receive w (d_rx d) d of
        (True, d) \<Rightarrow> Inr (True, d)
      | (False, d) \<Rightarrow>
          (case drain w (fire_due w (take_calls w CALLS_PER_ROUND (d\<lparr>d_backlog := False\<rparr>))) of
             Inl x \<Rightarrow> Inl x
           | Inr d \<Rightarrow> Inr (d_gone d, d)))"

text \<open>\<^verbatim>\<open>start\<close>: the first two inputs, drained before the loop.\<close>

definition driver_new :: "policy \<Rightarrow> (nat \<Rightarrow> u64) \<Rightarrow> persisted \<Rightarrow> recovered_session list \<Rightarrow> fs \<Rightarrow> driver" where
  "driver_new pol rng persisted recovered f =
     \<lparr>d_m = manager_new pol rng, d_timers = [], d_calls = [], d_next_call = 1,
      d_queue = [In_Start persisted, In_Recovered recovered], d_jobs = [], d_rx = [], d_callq = [],
      d_greeter = greeter_server_new, d_sleep = sleep_state_new, d_fs = f, d_backlog = False, d_gone = False,
      d_ready = False, d_state = None, d_clock = 0, d_acts = []\<rparr>"

definition start :: "rt_world \<Rightarrow> (string \<Rightarrow> persisted option) \<Rightarrow> bool \<Rightarrow> proc_root \<Rightarrow> policy \<Rightarrow> (nat \<Rightarrow> u64) \<Rightarrow> fs \<Rightarrow> stuck + driver" where
  "start w dec readable proc pol rng f =
     (let persisted = load dec readable f;
          recovered = probe proc (per_sessions persisted)
      in drain w (driver_new pol rng persisted recovered f))"

section \<open>The threads around the driver\<close>

text \<open>The result a worker brings back.\<close>

text \<open>The account listing is tried thirty times; \<^term>\<open>listing k\<close> is the answer to attempt \<^term>\<open>k\<close>.\<close>

definition ACCOUNT_TRIES :: nat where "ACCOUNT_TRIES = 30"

function list_accounts :: "(nat \<Rightarrow> string + account_entry list) \<Rightarrow> nat \<Rightarrow> account_entry list" where
  "list_accounts listing tries =
     (case listing tries of
        Inr accounts \<Rightarrow> accounts
      | Inl _ \<Rightarrow> if ACCOUNT_TRIES \<le> Suc tries then [] else list_accounts listing (Suc tries))"
  by auto
termination by (relation "measure (\<lambda>(listing, tries). ACCOUNT_TRIES - tries)") auto

declare list_accounts.simps [simp del]

inductive job_result :: "job \<Rightarrow> input \<Rightarrow> bool" where
  "job_result Job_Accounts (In_Accounts (list_accounts listing 0))"
| "job_result (Job_Publish call uid request) (In_AppearancePublished call uid r)"
| "job_result (Job_Polkit oid action cal sid)
     (In_PolkitResult oid (case polkit_check limit polkit cal sid action of Inr ok \<Rightarrow> ok | Inl _ \<Rightarrow> False))"
| "job_result (Job_Inhibitors oid) (In_InhibitorsResult oid (list_inhibitors limit rows))"
| "job_result (Job_Power oid a) (In_PowerResult oid (logind_power limit logind a))"

text \<open>What the compositor's forwarder and the helper's client put into the queue.\<close>

fun from_outside :: "input \<Rightarrow> bool" where
  "from_outside (In_Scene _) = True"
| "from_outside (In_Helper _) = True"
| "from_outside In_HelperConnected = True"
| "from_outside In_HelperLost = True"
| "from_outside _ = False"

fun own_greeter_event :: "gs_event \<Rightarrow> bool" where
  "own_greeter_event (Ge_Verdict _ _ _) = True"
| "own_greeter_event (Ge_Send _ _) = True"
| "own_greeter_event Ge_Drop = True"
| "own_greeter_event _ = False"

datatype rt_event = Re_Turn | Re_Outside | Re_Greeter | Re_Sleep | Re_Job | Re_Call | Re_Shutdown

inductive rt_step :: "driver \<Rightarrow> rt_event \<Rightarrow> driver \<Rightarrow> bool" where
  rt_turn: "turn w d = Inr (False, d') \<Longrightarrow> rt_step d Re_Turn d'"
| rt_outside: "from_outside i \<Longrightarrow> length (d_rx d) < QUEUE \<Longrightarrow> rt_step d Re_Outside (d\<lparr>d_rx := d_rx d @ [Rt_Core i]\<rparr>)"
| rt_greeter: "gs_step (d_greeter d) e g \<Longrightarrow> \<not> own_greeter_event e \<Longrightarrow> gs_sent g = gs_sent (d_greeter d) @ is \<Longrightarrow>
    length (d_rx d) + length is \<le> QUEUE \<Longrightarrow> rt_step d Re_Greeter (d\<lparr>d_greeter := g, d_rx := d_rx d @ map Rt_Core is\<rparr>)"
| rt_sleep: "e \<noteq> Sl_Ready \<Longrightarrow> s = sleep_step cfg sw e (d_sleep d) \<Longrightarrow> sl_told s = sl_told (d_sleep d) @ bs \<Longrightarrow>
    length (d_rx d) + length bs \<le> QUEUE \<Longrightarrow>
    rt_step d Re_Sleep (d\<lparr>d_sleep := s, d_rx := d_rx d @ map (\<lambda>b. Rt_Core (In_PrepareForSleep b)) bs\<rparr>)"
| rt_job: "j \<in> set (d_jobs d) \<Longrightarrow> job_result j i \<Longrightarrow> length (d_rx d) < QUEUE \<Longrightarrow>
    rt_step d Re_Job (d\<lparr>d_jobs := remove1 j (d_jobs d), d_rx := d_rx d @ [Rt_Core i]\<rparr>)"
| rt_call: "length (d_callq d) < CALL_QUEUE \<Longrightarrow>
    rt_step d Re_Call (d\<lparr>d_callq := d_callq d @ [Rt_Call c],
      d_rx := (if length (d_rx d) < QUEUE then d_rx d @ [Rt_Wake] else d_rx d)\<rparr>)"
| rt_shutdown: "length (d_rx d) < QUEUE \<Longrightarrow> rt_step d Re_Shutdown (d\<lparr>d_rx := d_rx d @ [Rt_Shutdown]\<rparr>)"

definition rt_init :: "driver \<Rightarrow> bool" where
  "rt_init d \<longleftrightarrow> (\<exists>w dec readable proc pol rng f. start w dec readable proc pol rng f = Inr d)"

end
