(* ===== verification/Runtime_Feed.thy ===== *)
theory Runtime_Feed
  imports Runtime_Driver
begin

text \<open>
  What the driver feeds the manager: the start and the recovered sessions once, before everything
  else, and the account list at most once, before any account is known. So the condition under
  which the manager's predicate was proved holds of every input it gets, and every state the
  driver can reach has a manager that the manager's own step relation reaches.
\<close>

section \<open>What the manager is fed\<close>

fun is_first :: "input \<Rightarrow> bool" where
  "is_first (In_Start _) = True"
| "is_first (In_Recovered _) = True"
| "is_first _ = False"

fun is_accounts :: "input \<Rightarrow> bool" where
  "is_accounts (In_Accounts _) = True"
| "is_accounts _ = False"

text \<open>The inputs on their way to the manager, and how often the accounts are.\<close>

definition core_inputs :: "rt_input list \<Rightarrow> input list" where
  "core_inputs xs = List.map_filter (\<lambda>x. case x of Rt_Core i \<Rightarrow> Some i | _ \<Rightarrow> None) xs"

definition waiting :: "driver \<Rightarrow> input list" where
  "waiting d = d_queue d @ core_inputs (d_rx d)"

definition tokens :: "driver \<Rightarrow> nat" where
  "tokens d = length (filter is_accounts (waiting d)) + count_list (d_jobs d) Job_Accounts"

definition fed :: "driver \<Rightarrow> bool" where
  "fed d \<longleftrightarrow>
     reachable_by bsm_init bsm_step (d_m d) \<and> (\<forall>i \<in> set (waiting d). \<not> is_first i) \<and> tokens d \<le> 1
     \<and> (0 < tokens d \<longrightarrow> m_users (d_m d) = [] \<and> m_challenge (d_m d) = None)"

lemma core_inputs_simps [simp]:
  "core_inputs [] = []" "core_inputs (xs @ ys) = core_inputs xs @ core_inputs ys" "core_inputs [Rt_Core i] = [i]"
  "core_inputs (Rt_Core i # xs) = i # core_inputs xs" "core_inputs (Rt_Call c # xs) = core_inputs xs"
  "core_inputs (Rt_Wake # xs) = core_inputs xs" "core_inputs (Rt_Shutdown # xs) = core_inputs xs"
  "core_inputs (map Rt_Core is) = is"
  by (simp_all add: core_inputs_def List.map_filter_def comp_def)

text \<open>A change that leaves the manager alone and sends it nothing special, but for \<^term>\<open>k\<close> account lists.\<close>

definition grows :: "nat \<Rightarrow> driver \<Rightarrow> driver \<Rightarrow> bool" where
  "grows k d d' \<longleftrightarrow>
     d_m d' = d_m d \<and> tokens d' \<le> tokens d + k
     \<and> (\<exists>q xs. d_queue d' = d_queue d @ q \<and> d_rx d' = d_rx d @ xs \<and> (\<forall>i \<in> set (q @ core_inputs xs). \<not> is_first i))"

lemma grows_refl [simp]: "grows k d d"
  by (simp add: grows_def)

lemma grows_trans:
  assumes "grows j d d1" "grows k d1 d2"
  shows "grows (j + k) d d2"
proof -
  obtain q xs q' xs' where "d_queue d1 = d_queue d @ q" "d_rx d1 = d_rx d @ xs" "d_queue d2 = d_queue d1 @ q'" "d_rx d2 = d_rx d1 @ xs'"
    "\<forall>i \<in> set (q @ core_inputs xs). \<not> is_first i" "\<forall>i \<in> set (q' @ core_inputs xs'). \<not> is_first i"
    using assms unfolding grows_def by blast
  then have "d_queue d2 = d_queue d @ (q @ q')" "d_rx d2 = d_rx d @ (xs @ xs')"
    "\<forall>i \<in> set ((q @ q') @ core_inputs (xs @ xs')). \<not> is_first i" by auto
  moreover have "d_m d2 = d_m d" "tokens d2 \<le> tokens d + (j + k)" using assms by (simp_all add: grows_def)
  ultimately show ?thesis unfolding grows_def by blast
qed

lemma grows_fed: "fed d \<Longrightarrow> grows 0 d d' \<Longrightarrow> fed d'"
  by (auto simp: fed_def grows_def waiting_def)

lemma grows_other:
  assumes "d_m d' = d_m d" "d_queue d' = d_queue d" "d_rx d' = d_rx d" "d_jobs d' = d_jobs d"
  shows "grows k d d'"
  using assms by (simp add: grows_def waiting_def tokens_def)

lemma grows_queue:
  assumes "d_m d' = d_m d" "d_queue d' = d_queue d @ [i]" "d_rx d' = d_rx d" "d_jobs d' = d_jobs d" "\<not> is_first i" "\<not> is_accounts i"
  shows "grows k d d'"
  using assms by (auto simp: grows_def waiting_def tokens_def)

lemma grows_rx:
  assumes "d_m d' = d_m d" "d_queue d' = d_queue d" "d_rx d' = d_rx d @ xs" "d_jobs d' = d_jobs d"
    and "\<forall>i \<in> set (core_inputs xs). \<not> is_first i \<and> \<not> is_accounts i"
  shows "grows k d d'"
proof -
  have "filter is_accounts (core_inputs xs) = []" using assms(5) by (auto simp: filter_empty_conv)
  then show ?thesis using assms by (auto simp: grows_def waiting_def tokens_def)
qed

lemma grows_spawn:
  assumes "spawn_job w j rejected d = Inr d'" "\<And>i. rejected = Some i \<Longrightarrow> \<not> is_first i \<and> \<not> is_accounts i"
  shows "grows (if j = Job_Accounts then 1 else 0) d d'"
  using assms by (auto simp: spawn_job_def feed_back_def grows_def waiting_def tokens_def split: if_splits option.splits)

lemma exec_grows: "exec w e d = Inr d' \<Longrightarrow> grows (if e = Fx_LoadAccounts then 1 else 0) d d'"
  by (cases e) (auto simp: act_def read_clock_def Let_def intro: grows_other grows_queue split: prod.splits option.splits if_splits
      dest: grows_spawn)

lemma exec_all_grows: "exec_all w es d = Inr d' \<Longrightarrow> grows (count_list es Fx_LoadAccounts) d d'"
proof (induction es arbitrary: d)
  case (Cons e es)
  then obtain d1 where d1: "exec w e d = Inr d1" "exec_all w es d1 = Inr d'" by (auto split: sum.splits)
  from grows_trans [OF exec_grows [OF d1(1)] Cons.IH [OF d1(2)]] show ?case by (simp split: if_splits)
qed simp

lemma clock_grows: "read_clock w d = (now, d') \<Longrightarrow> grows k d d'"
  by (auto simp: read_clock_def intro: grows_other)

text \<open>One input: if the driver may feed it, the manager makes a step.\<close>

lemma drain_one_step:
  assumes "drain_one w i d = Inr d'" "env_ok i (d_m d)"
  obtains now m d1 where "handle now i (d_m d) = Some m" "bsm_step (d_m d) (now, i) m" "d_queue d1 = d_queue d" "d_rx d1 = d_rx d"
    "d_jobs d1 = d_jobs d" "d_m d1 = m" "grows (count_list (m_fx m) Fx_LoadAccounts) d1 d'"
proof -
  obtain m d2 where m: "handle (rw_now w (d_clock d)) i (d_m d) = Some m"
    "exec_all w (m_fx m) (d\<lparr>d_clock := Suc (d_clock d), d_m := m\<rparr>) = Inr d2" "d' = publish_state d2"
    using assms(1) by (auto simp: drain_one_def read_clock_def split: option.splits sum.splits)
  have "grows 0 d2 d'" by (rule grows_other) (simp_all add: m(3) publish_state_def)
  with grows_trans [OF exec_all_grows [OF m(2)] this] m(1) assms(2) show thesis
    by (intro that [of "rw_now w (d_clock d)" m "d\<lparr>d_clock := Suc (d_clock d), d_m := m\<rparr>"]) (simp_all add: bsm_step_def)
qed

lemma drain_one_fed:
  assumes "fed d" "drain_one w i d = Inr d'" "env_ok i (d_m d)" "\<And>p. i \<noteq> In_Start p" "is_accounts i \<Longrightarrow> tokens d = 0"
  shows "fed d'"
proof -
  obtain now m d1 where h: "handle now i (d_m d) = Some m" "bsm_step (d_m d) (now, i) m" "d_queue d1 = d_queue d" "d_rx d1 = d_rx d"
    "d_jobs d1 = d_jobs d" "d_m d1 = m" "grows (count_list (m_fx m) Fx_LoadAccounts) d1 d'"
    by (rule drain_one_step [OF assms(2,3)])
  have "loads 0 m" by (rule accounts_asked_once [OF h(1) assms(4)])
  with h(7) have quiet: "grows 0 d1 d'" by (simp add: loads_def)
  have same: "waiting d1 = waiting d" "tokens d1 = tokens d" using h(3-5) by (simp_all add: waiting_def tokens_def)
  have "reachable_by bsm_init bsm_step m" using assms(1) h(2) by (auto simp: fed_def intro: reachable_step)
  moreover have "m_users m = [] \<and> m_challenge m = None" if "0 < tokens d"
  proof -
    have "\<And>accs. i \<noteq> In_Accounts accs" using assms(5) that by auto
    then show ?thesis using unready_kept [OF h(1) assms(4)] assms(1) that by (simp add: fed_def)
  qed
  ultimately have "fed d1" using assms(1) h(6) same by (simp add: fed_def)
  then show ?thesis using quiet by (rule grows_fed)
qed

lemma queue_head:
  assumes "fed d" "d_queue d = i # is"
  shows "fed (d\<lparr>d_queue := is\<rparr>)" "env_ok i (d_m d)" "\<not> is_first i" "is_accounts i \<Longrightarrow> tokens (d\<lparr>d_queue := is\<rparr>) = 0"
proof -
  have t: "tokens d = (if is_accounts i then 1 else 0) + tokens (d\<lparr>d_queue := is\<rparr>)"
    using assms(2) by (simp add: tokens_def waiting_def)
  then show "fed (d\<lparr>d_queue := is\<rparr>)" using assms by (auto simp: fed_def waiting_def)
  show "is_accounts i \<Longrightarrow> tokens (d\<lparr>d_queue := is\<rparr>) = 0" using t assms(1) by (simp add: fed_def)
  show first: "\<not> is_first i" using assms by (simp add: fed_def waiting_def)
  show "env_ok i (d_m d)"
    using assms(1) first t by (cases i) (auto simp: env_ok_def fed_def)
qed

lemma drain_loop_fed: "fed d \<Longrightarrow> drain_loop n w d = Inr d' \<Longrightarrow> fed d'"
proof (induction n arbitrary: d)
  case 0
  then show ?case
    by (auto simp: fed_def waiting_def tokens_def act_def split: list.splits if_splits)
next
  case (Suc n)
  show ?case
  proof (cases "d_queue d")
    case Nil
    with Suc.prems show ?thesis by simp
  next
    case (Cons i "is")
    with Suc.prems(2) obtain d1 where d1: "drain_one w i (d\<lparr>d_queue := is\<rparr>) = Inr d1" "drain_loop n w d1 = Inr d'"
      by (auto split: sum.splits)
    note q = queue_head [OF Suc.prems(1) Cons]
    have "fed d1" by (rule drain_one_fed [OF q(1) d1(1)]) (use q in auto)
    then show ?thesis using Suc.IH d1(2) by blast
  qed
qed

text \<open>The start: the two first inputs, and then everything else.\<close>

lemma start_fed:
  assumes "drain w (driver_new pol rng p rs f) = Inr d"
  shows "fed d"
proof -
  let ?d = "driver_new pol rng p rs f"
  have "drain_loop (Suc (Suc 99998)) w ?d = Inr d" using assms by (simp add: drain_def del: drain_loop.simps)
  then obtain d1 where d1: "drain_one w (In_Start p) (?d\<lparr>d_queue := [In_Recovered rs]\<rparr>) = Inr d1" "drain_loop (Suc 99998) w d1 = Inr d"
    by (subst (asm) drain_loop.simps(2)) (auto simp: driver_new_def split: sum.splits)
  have "env_ok (In_Start p) (d_m (?d\<lparr>d_queue := [In_Recovered rs]\<rparr>))" by (simp add: env_ok_def)
  from drain_one_step [OF d1(1) this] obtain now m d0 where h: "handle now (In_Start p) (manager_new pol rng) = Some m"
    "bsm_step (manager_new pol rng) (now, In_Start p) m" "d_queue d0 = [In_Recovered rs]" "d_rx d0 = []" "d_jobs d0 = []" "d_m d0 = m"
    "grows (count_list (m_fx m) Fx_LoadAccounts) d0 d1" by (auto simp: driver_new_def)
  note m = started [OF h(1)]
  obtain q where q: "d_queue d1 = In_Recovered rs # q" "d_m d1 = m" using h(3,6,7) by (auto simp: grows_def)
  let ?d1 = "d1\<lparr>d_queue := q\<rparr>"
  have "reachable_by bsm_init bsm_step m"
    by (rule reachable_step) (rule reachable_init, force simp: bsm_init_def, rule h(2))
  moreover have "tokens ?d1 \<le> 1" using h(3-5,7) m q(1) by (auto simp: grows_def tokens_def waiting_def)
  moreover have "\<not> is_first i" if "i \<in> set (waiting ?d1)" for i using that h(3,4,7) q(1) by (auto simp: grows_def waiting_def)
  ultimately have "fed ?d1" using m q(2) by (simp add: fed_def)
  obtain d2 where d2: "drain_one w (In_Recovered rs) ?d1 = Inr d2" "drain_loop 99998 w d2 = Inr d"
    using d1(2) q(1) by (subst (asm) drain_loop.simps(2)) (auto split: sum.splits)
  have "fed d2" by (rule drain_one_fed [OF \<open>fed ?d1\<close> d2(1)]) (use m q(2) in \<open>auto simp: env_ok_def\<close>)
  then show ?thesis using drain_loop_fed d2(2) by blast
qed

lemma accept_call_grows: "grows k d (accept_call w c d)"
  by (rule grows_queue [where i = "In_Dbus (d_next_call d) (dq_caller c) (dq_method c)"])
    (simp_all add: accept_call_def read_clock_def act_def Let_def)

lemma fold_grows: "(\<And>x d. grows 0 d (f x d)) \<Longrightarrow> grows 0 d (fold f xs d)"
proof (induction xs arbitrary: d)
  case (Cons x xs)
  from grows_trans [OF Cons.prems Cons.IH [OF Cons.prems]] show ?case by simp
qed simp

lemma fire_due_grows: "grows 0 d (fire_due w d)"
proof -
  have "grows 0 d (fire_timer t d)" for t d by (rule grows_queue [where i = "In_Timer t"]) (simp_all add: fire_timer_def)
  moreover have "grows 0 d (expire_call c d)" for c d
    by (rule grows_other) (simp_all add: expire_call_def act_def split: option.splits prod.splits)
  ultimately have "grows 0 d1 (fold expire_call late (fold fire_timer due d1))" for late due d1
    using grows_trans [OF fold_grows fold_grows] by (metis add_0)
  with grows_trans [OF clock_grows this] show ?thesis
    by (simp add: fire_due_def read_clock_def Let_def)
qed

lemma take_calls_grows: "grows 0 d (take_calls w k d)"
proof (induction w k d rule: take_calls.induct)
  case (2 w k d)
  show ?case
  proof (cases "d_callq d")
    case (Cons x xs)
    have "grows 0 d (d\<lparr>d_callq := xs\<rparr>)" by (rule grows_other) simp_all
    moreover have "grows 0 d1 (d1\<lparr>d_backlog := b\<rparr>)" for d1 b by (rule grows_other) simp_all
    ultimately show ?thesis
      using 2 Cons accept_call_grows grows_trans [of 0 _ _ 0] by (cases x) (simp_all, metis add_0)
  qed simp
qed simp

lemma receive_fed: "fed (d\<lparr>d_rx := xs\<rparr>) \<Longrightarrow> receive w xs d = (b, d') \<Longrightarrow> fed d'"
proof (induction xs arbitrary: d)
  case (Cons x xs)
  show ?case
  proof (cases x)
    case (Rt_Core i)
    then have "fed (d\<lparr>d_queue := d_queue d @ [i], d_rx := xs\<rparr>)"
      using Cons.prems(1) by (auto simp: fed_def waiting_def tokens_def)
    with Cons Rt_Core show ?thesis by (auto simp: Let_def split: if_splits)
  next
    case (Rt_Call c)
    have "grows 0 (d\<lparr>d_rx := xs\<rparr>) ((accept_call w c d)\<lparr>d_rx := xs\<rparr>)"
      by (rule grows_queue [where i = "In_Dbus (d_next_call d) (dq_caller c) (dq_method c)"])
        (simp_all add: accept_call_def read_clock_def act_def Let_def)
    moreover have "fed (d\<lparr>d_rx := xs\<rparr>)" using Cons.prems(1) Rt_Call by (simp add: fed_def waiting_def tokens_def)
    ultimately have "fed ((accept_call w c d)\<lparr>d_rx := xs\<rparr>)" using grows_fed by blast
    with Cons Rt_Call show ?thesis by (auto simp: Let_def split: if_splits)
  next
    case Rt_Wake
    then have "fed (d\<lparr>d_rx := xs\<rparr>)" using Cons.prems(1) by (simp add: fed_def waiting_def tokens_def)
    with Cons Rt_Wake show ?thesis by (auto simp: Let_def split: if_splits)
  next
    case Rt_Shutdown
    with Cons.prems show ?thesis by (auto simp: fed_def waiting_def tokens_def)
  qed
qed (auto simp: fed_def waiting_def tokens_def)

lemma turn_fed:
  assumes "fed d" "turn w d = Inr (b, d')"
  shows "fed d'"
proof -
  obtain e d1 where r: "receive w (d_rx d) d = (e, d1)" by fastforce
  have "fed (d\<lparr>d_rx := d_rx d\<rparr>)" using assms(1) by (simp add: fed_def waiting_def tokens_def)
  from receive_fed [OF this r] have 1: "fed d1" .
  let ?d2 = "fire_due w (take_calls w CALLS_PER_ROUND (d1\<lparr>d_backlog := False\<rparr>))"
  have "grows 0 d1 (d1\<lparr>d_backlog := False\<rparr>)" by (rule grows_other) simp_all
  then have "grows 0 d1 ?d2" using grows_trans [OF _ grows_trans [OF take_calls_grows fire_due_grows]] by (metis add_0)
  with 1 have "fed ?d2" by (rule grows_fed)
  then show ?thesis using assms(2) r 1 drain_loop_fed by (auto simp: turn_def drain_def split: bool.splits sum.splits)
qed

lemma gs_step_inputs:
  assumes "gs_step g e g'" "gs_sent g' = gs_sent g @ is" "i \<in> set is"
  shows "\<not> is_first i \<and> \<not> is_accounts i"
  using assms(1)
proof cases
  case (3 cloned conn accept)
  then show ?thesis using assms(2,3) by (auto simp: gs_verdict_def Let_def split: option.splits if_splits)
next
  case (8 line msg)
  then show ?thesis using assms(2,3) by (auto simp: gs_send_def send_on_def split: option.splits if_splits)
next
  case (9 conn line msg)
  then show ?thesis using assms(2,3) by (auto simp: send_on_def split: option.splits if_splits)
qed (use assms(2,3) in \<open>auto simp: gs_accept_def gs_expire_def reader_hands_def reader_ends_def gs_forget_def writer_takes_def
      drop_active_def Let_def split: option.splits if_splits\<close>)

lemma count_list_remove_in: "x \<in> set xs \<Longrightarrow> 0 < count_list xs x"
  by (metis count_list_0_iff gr0I)

lemma rt_step_fed: "fed d \<Longrightarrow> rt_step d e d' \<Longrightarrow> fed d'"
proof (erule rt_step.cases, goal_cases)
  case (1 w d d')
  then show ?case using turn_fed by blast
next
  case (2 i d)
  have "\<not> is_first i \<and> \<not> is_accounts i" using 2 by (cases i) auto
  then have "grows 0 d (d\<lparr>d_rx := d_rx d @ [Rt_Core i]\<rparr>)" by (intro grows_rx [of _ _ "[Rt_Core i]"]) auto
  with 2 show ?case using grows_fed by blast
next
  case (3 d e g "is")
  have "grows 0 d (d\<lparr>d_greeter := g, d_rx := d_rx d @ map Rt_Core is\<rparr>)"
    by (rule grows_rx [of _ _ "map Rt_Core is"]) (use gs_step_inputs [OF 3(5,7)] in auto)
  with 3 show ?case using grows_fed by blast
next
  case (4 e s cfg sw d bs)
  have "core_inputs (map (\<lambda>b. Rt_Core (In_PrepareForSleep b)) bs) = map In_PrepareForSleep bs"
    by (induction bs) auto
  then have "grows 0 d (d\<lparr>d_sleep := s, d_rx := d_rx d @ map (\<lambda>b. Rt_Core (In_PrepareForSleep b)) bs\<rparr>)"
    by (intro grows_rx [of _ _ "map (\<lambda>b. Rt_Core (In_PrepareForSleep b)) bs"]) auto
  with 4 show ?case using grows_fed by blast
next
  case (5 j d i)
  then have "\<not> is_first i" "(if is_accounts i then 1 else 0) + count_list (remove1 j (d_jobs d)) Job_Accounts
      = count_list (d_jobs d) Job_Accounts"
    using count_list_remove_in [of Job_Accounts "d_jobs d"]
    by (auto elim!: job_result.cases simp: count_list_remove1 split: if_splits)
  then have "grows 0 d d'" using 5 by (auto simp: grows_def tokens_def waiting_def split: if_splits)
  with 5 show ?case using grows_fed by blast
next
  case (6 d c)
  have "grows 0 d d'" by (rule grows_rx [of _ _ "if length (d_rx d) < QUEUE then [Rt_Wake] else []"]) (use 6 in auto)
  with 6 show ?case using grows_fed by blast
next
  case (7 d)
  have "grows 0 d (d\<lparr>d_rx := d_rx d @ [Rt_Shutdown]\<rparr>)" by (rule grows_rx [of _ _ "[Rt_Shutdown]"]) auto
  with 7 show ?case using grows_fed by blast
qed

interpretation runtime: invariant_system rt_init rt_step fed
  by unfold_locales (auto simp: rt_init_def start_def Let_def intro: start_fed rt_step_fed)

end
