(* ===== verification/Runtime_Calls.thy ===== *)
theory Runtime_Calls
  imports Runtime_Driver "HOL-Library.Multiset"
begin

text \<open>
  The driver's bookkeeping: its workers and queues stay within their limits, every D-Bus call it has
  taken over is answered once, and a call past its deadline is answered in the next turn. A locale
  says what an invariant has to survive to hold after a turn.
\<close>

section \<open>Invariants of a turn\<close>

locale drain_invariant =
  fixes inv :: "driver \<Rightarrow> bool"
  assumes frame: "inv d \<Longrightarrow> d_jobs d' = d_jobs d \<Longrightarrow> length (d_rx d') \<le> length (d_rx d) \<Longrightarrow>
      length (d_callq d') \<le> length (d_callq d) \<Longrightarrow> d_calls d' = d_calls d \<Longrightarrow> d_next_call d' = d_next_call d \<Longrightarrow>
      d_acts d' = d_acts d \<Longrightarrow> inv d'"
    and exec_keeps: "inv d \<Longrightarrow> exec w e d = Inr d' \<Longrightarrow> inv d'"
    and storm_keeps: "inv d \<Longrightarrow> inv (act Act_Storm d)"
begin

lemma exec_all_keeps: "inv d \<Longrightarrow> exec_all w es d = Inr d' \<Longrightarrow> inv d'"
  by (induction es arbitrary: d) (auto intro: exec_keeps split: sum.splits)

lemma drain_one_keeps:
  assumes "inv d" "drain_one w i d = Inr d'"
  shows "inv d'"
proof -
  obtain m d2 where m: "exec_all w (m_fx m) (d\<lparr>d_clock := Suc (d_clock d), d_m := m\<rparr>) = Inr d2" "d' = publish_state d2"
    using assms(2) by (auto simp: drain_one_def read_clock_def split: option.splits sum.splits)
  have "inv d2" by (rule exec_all_keeps [OF frame [OF assms(1)] m(1)]) simp_all
  then show ?thesis unfolding m(2) by (rule frame) (simp_all add: publish_state_def)
qed

lemma drain_loop_keeps: "inv d \<Longrightarrow> drain_loop n w d = Inr d' \<Longrightarrow> inv d'"
proof (induction n arbitrary: d)
  case 0
  have "inv (d\<lparr>d_queue := []\<rparr>)" by (rule frame [OF 0(1)]) simp_all
  then show ?case using 0 by (auto split: list.splits intro: storm_keeps)
next
  case (Suc n)
  show ?case
  proof (cases "d_queue d")
    case (Cons i "is")
    with Suc.prems(2) obtain d1 where d1: "drain_one w i (d\<lparr>d_queue := is\<rparr>) = Inr d1" "drain_loop n w d1 = Inr d'"
      by (auto split: sum.splits)
    have "inv d1" by (rule drain_one_keeps [OF frame [OF Suc.prems(1)] d1(1)]) simp_all
    then show ?thesis using Suc.IH d1(2) by blast
  qed (use Suc.prems in simp)
qed

end

locale turn_invariant = drain_invariant +
  assumes accept_keeps: "inv d \<Longrightarrow> inv (accept_call w c d)"
    and expire_keeps: "inv d \<Longrightarrow> inv (expire_call call d)"
begin

lemma receive_keeps: "inv (d\<lparr>d_rx := xs\<rparr>) \<Longrightarrow> receive w xs d = (b, d') \<Longrightarrow> inv d'"
proof (induction xs arbitrary: d)
  case (Cons x xs)
  have 1: "inv (d\<lparr>d_rx := xs\<rparr>)" by (rule frame [OF Cons.prems(1)]) simp_all
  have "inv (d\<lparr>d_queue := d_queue d @ [i], d_rx := xs\<rparr>)" for i by (rule frame [OF 1]) simp_all
  moreover have "inv ((accept_call w c d)\<lparr>d_rx := xs\<rparr>)" for c
    by (rule frame [OF accept_keeps [OF 1]]) (simp_all add: accept_call_def read_clock_def act_def Let_def)
  ultimately show ?case using Cons 1 by (cases x) (auto simp: Let_def split: if_splits)
qed simp

lemma take_calls_keeps: "inv d \<Longrightarrow> inv (take_calls w k d)"
proof (induction w k d rule: take_calls.induct)
  case (2 w k d)
  show ?case
  proof (cases "d_callq d")
    case (Cons x xs)
    have 1: "inv (d\<lparr>d_callq := xs\<rparr>)" by (rule frame [OF 2(5)]) (simp_all add: Cons)
    have "inv ((accept_call w c (d\<lparr>d_callq := xs\<rparr>))\<lparr>d_backlog := b\<rparr>)" for c b
      by (rule frame [OF accept_keeps [OF 1]]) simp_all
    then show ?thesis using 2 Cons 1 by (cases x) simp_all
  qed (use 2 in simp)
qed simp

lemma fire_due_keeps: "inv d \<Longrightarrow> inv (fire_due w d)"
proof -
  assume i: "inv d"
  have timers: "inv (fold fire_timer ts d)" if "inv d" for ts d
    using that
  proof (induction ts arbitrary: d)
    case (Cons t ts)
    have "inv (fire_timer t d)" by (rule frame [OF Cons.prems]) (simp_all add: fire_timer_def)
    then show ?case using Cons.IH by simp
  qed simp
  have calls: "inv (fold expire_call cs d)" if "inv d" for cs d
    using that by (induction cs arbitrary: d) (auto intro: expire_keeps)
  have "inv (d\<lparr>d_clock := Suc (d_clock d)\<rparr>)" by (rule frame [OF i]) simp_all
  then show ?thesis by (simp add: fire_due_def read_clock_def Let_def timers calls)
qed

lemma turn_keeps:
  assumes "inv d" "turn w d = Inr (b, d')"
  shows "inv d'"
proof -
  obtain e d1 where r: "receive w (d_rx d) d = (e, d1)" by fastforce
  have "inv (d\<lparr>d_rx := d_rx d\<rparr>)" by (rule frame [OF assms(1)]) simp_all
  from receive_keeps [OF this r] have 1: "inv d1" .
  then have "inv (d1\<lparr>d_backlog := False\<rparr>)" by (rule frame) simp_all
  note drain_loop_keeps [OF fire_due_keeps [OF take_calls_keeps [OF this]]]
  then show ?thesis using assms(2) r 1 by (auto simp: turn_def drain_def split: bool.splits sum.splits)
qed

end

section \<open>Workers and queues\<close>

definition within_limits :: "driver \<Rightarrow> bool" where
  "within_limits d \<longleftrightarrow> length (d_jobs d) \<le> MAX_WORKERS \<and> length (d_rx d) \<le> QUEUE \<and> length (d_callq d) \<le> CALL_QUEUE"

lemma spawn_limits: "within_limits d \<Longrightarrow> spawn_job w j rejected d = Inr d' \<Longrightarrow> within_limits d'"
  by (auto simp: within_limits_def spawn_job_def feed_back_def split: if_splits option.splits)

interpretation limits: turn_invariant within_limits
proof
  fix w e d d'
  assume "within_limits d" "exec w e d = Inr d'"
  then show "within_limits d'"
    by (cases e) (auto simp: act_def read_clock_def Let_def dest: spawn_limits split: prod.splits option.splits if_splits,
        auto simp: within_limits_def)
qed (auto simp: within_limits_def act_def accept_call_def expire_call_def read_clock_def Let_def split: option.splits)

lemma drain_empties: "drain_loop n w d = Inr d' \<Longrightarrow> d_queue d' = []"
  by (induction n arbitrary: d) (auto simp: act_def split: list.splits sum.splits)

section \<open>The calls\<close>

definition taken :: "driver \<Rightarrow> nat list" where
  "taken d = List.map_filter (\<lambda>a. case a of Act_Take r \<Rightarrow> Some r | _ \<Rightarrow> None) (d_acts d)"

definition replies :: "rt_act list \<Rightarrow> nat list" where
  "replies as = List.map_filter (\<lambda>a. case a of Act_Reply r _ \<Rightarrow> Some r | _ \<Rightarrow> None) as"

definition replied :: "driver \<Rightarrow> nat list" where
  "replied d = replies (d_acts d)"

definition pending :: "driver \<Rightarrow> nat list" where
  "pending d = map fst (btm_values (d_calls d))"

text \<open>Fewer calls than the counter can number.\<close>

definition few_calls :: "driver \<Rightarrow> bool" where
  "few_calls d \<longleftrightarrow> length (taken d) < 2 ^ 64 - 1"

definition answered :: "driver \<Rightarrow> bool" where
  "answered d \<longleftrightarrow> btm_wf (d_calls d) \<and>
     (few_calls d \<longrightarrow>
        unat (d_next_call d) = Suc (length (taken d)) \<and> (\<forall>c \<in> set (btm_keys (d_calls d)). c < d_next_call d)
        \<and> mset (taken d) = mset (pending d) + mset (replied d))"

lemma log_act:
  "taken (act a d) = taken d @ (case a of Act_Take r \<Rightarrow> [r] | _ \<Rightarrow> [])"
  "replied (act a d) = replied d @ (case a of Act_Reply r _ \<Rightarrow> [r] | _ \<Rightarrow> [])"
  by (cases a; simp add: taken_def replied_def replies_def act_def List.map_filter_def)+

lemma log_same:
  assumes "d_acts d' = d_acts d"
  shows "taken d' = taken d" "replied d' = replied d" "few_calls d' = few_calls d"
  using assms by (simp_all add: taken_def replied_def replies_def few_calls_def)

lemma answered_same:
  assumes "answered d" "d_calls d' = d_calls d" "d_next_call d' = d_next_call d" "taken d' = taken d" "replied d' = replied d"
  shows "answered d'"
  using assms by (simp add: answered_def few_calls_def pending_def)

lemma mset_btm_remove:
  "btm_wf m \<Longrightarrow> btm_get m k = Some v \<Longrightarrow> mset (btm_values m) = add_mset v (mset (btm_values (btm_remove k m)))"
proof (induction m)
  case (Cons e m)
  have wf: "btm_wf m" "\<forall>x \<in> set m. fst e \<noteq> fst x" using Cons.prems(1) by (auto simp: btm_wf_def)
  show ?case
  proof (cases "fst e = k")
    case True
    have "btm_remove k m = m" using wf(2) True by (auto simp: btm_remove_def filter_id_conv)
    then show ?thesis using Cons.prems(2) True by (cases e) (simp add: btm_remove_def)
  next
    case False
    then show ?thesis using Cons.IH [OF wf(1)] Cons.prems(2) by (cases e) (simp add: btm_remove_def)
  qed
qed simp

lemma mset_btm_insert_new:
  "btm_get m k = None \<Longrightarrow> mset (btm_values (btm_insert k v m)) = add_mset v (mset (btm_values m))"
  by (induction k v m rule: btm_insert.induct) (auto split: if_splits)

lemma pending_mset: "mset (pending d) = image_mset fst (mset (btm_values (d_calls d)))"
  unfolding pending_def mset_map ..

text \<open>Answering a call, whoever does it.\<close>

definition give_up :: "call_id \<Rightarrow> nat \<Rightarrow> reply result \<Rightarrow> driver \<Rightarrow> driver" where
  "give_up c r res d = act (Act_Reply r res) (d\<lparr>d_calls := btm_remove c (d_calls d)\<rparr>)"

lemma give_up_answered:
  assumes "answered d" "btm_get (d_calls d) c = Some (r, at)"
  shows "answered (give_up c r res d)"
proof -
  have "mset (btm_values (d_calls d)) = add_mset (r, at) (mset (btm_values (btm_remove c (d_calls d))))"
    using assms by (intro mset_btm_remove) (simp_all add: answered_def)
  then have "mset (pending d) = add_mset r (mset (pending (give_up c r res d)))"
    unfolding pending_mset by (simp add: give_up_def act_def del: mset_map)
  moreover have "taken (give_up c r res d) = taken d" "replied (give_up c r res d) = replied d @ [r]"
    by (simp_all add: give_up_def act_def taken_def replied_def replies_def List.map_filter_def)
  moreover have "d_calls (give_up c r res d) = btm_remove c (d_calls d)" "d_next_call (give_up c r res d) = d_next_call d"
    by (simp_all add: give_up_def act_def)
  moreover have "btm_wf (btm_remove c (d_calls d))" "set (btm_remove c (d_calls d)) \<subseteq> set (d_calls d)"
    using assms(1) by (simp add: answered_def) (simp add: btm_remove_def)
  ultimately show ?thesis using assms(1) by (auto simp: answered_def few_calls_def)
qed

lemma accept_answered: "answered d \<Longrightarrow> answered (accept_call w c d)"
proof -
  assume a: "answered d"
  let ?d = "accept_call w c d" and ?v = "(dq_reply c, rw_now w (d_clock d) + CALL_DEADLINE)"
  have s: "d_calls ?d = btm_insert (d_next_call d) ?v (d_calls d)" "d_next_call ?d = d_next_call d + 1"
    "taken ?d = taken d @ [dq_reply c]" "replied ?d = replied d"
    by (simp_all add: accept_call_def read_clock_def act_def taken_def replied_def replies_def List.map_filter_def Let_def)
  show ?thesis
  proof (cases "few_calls ?d")
    case False
    then show ?thesis using a by (simp add: answered_def s)
  next
    case True
    then have few: "few_calls d" "Suc (length (taken d)) < 2 ^ 64 - 1" by (simp_all add: few_calls_def s)
    with a have inv: "unat (d_next_call d) = Suc (length (taken d))" "\<forall>k \<in> set (btm_keys (d_calls d)). k < d_next_call d"
      "mset (taken d) = mset (pending d) + mset (replied d)" by (simp_all add: answered_def)
    have next1: "unat (d_next_call d + 1) = Suc (Suc (length (taken d)))"
      using few(2) inv(1) by (simp add: unat_word_ariths)
    then have "d_next_call d < d_next_call d + 1" using inv(1) by (simp add: word_less_nat_alt)
    moreover have "btm_get (d_calls d) (d_next_call d) = None" using inv(2) by (auto simp: map_of_eq_None_iff)
    then have "mset (btm_values (d_calls ?d)) = add_mset ?v (mset (btm_values (d_calls d)))"
      unfolding s by (rule mset_btm_insert_new)
    then have "mset (pending ?d) = add_mset (dq_reply c) (mset (pending d))" unfolding pending_mset by simp
    ultimately show ?thesis using a inv next1
      by (auto simp: answered_def s set_keys_btm_insert simp flip: set_map dest: order.strict_trans)
  qed
qed

lemma expire_gives_up:
  "expire_call c d = (case btm_get (d_calls d) c of Some (r, _) \<Rightarrow> give_up c r timed_out d | None \<Rightarrow> d)"
  by (simp add: expire_call_def give_up_def split: option.split)

lemma exec_reply_gives_up:
  "exec w (Fx_DbusReply c res) d = Inr (case btm_get (d_calls d) c of Some (r, _) \<Rightarrow> give_up c r res d | None \<Rightarrow> d)"
  by (simp add: give_up_def split: option.split)

text \<open>No other effect touches the calls or answers one.\<close>

definition silent :: "driver \<Rightarrow> driver \<Rightarrow> bool" where
  "silent d d' \<longleftrightarrow> d_calls d' = d_calls d \<and> d_next_call d' = d_next_call d \<and> taken d' = taken d \<and> replied d' = replied d"

lemma spawn_silent: "spawn_job w j rejected d = Inr d' \<Longrightarrow> silent d d'"
  by (auto simp: silent_def spawn_job_def feed_back_def taken_def replied_def replies_def split: if_splits option.splits)

lemma exec_silent: "exec w e d = Inr d' \<Longrightarrow> (\<And>c res. e \<noteq> Fx_DbusReply c res) \<Longrightarrow> silent d d'"
  by (cases e) (auto simp: read_clock_def Let_def dest: spawn_silent split: prod.splits option.splits if_splits,
      auto simp: silent_def act_def taken_def replied_def replies_def List.map_filter_def)

interpretation answers: turn_invariant answered
proof
  fix w e d d'
  assume a: "answered d" "exec w e d = Inr d'"
  show "answered d'"
  proof (cases "\<exists>c res. e = Fx_DbusReply c res")
    case True
    then show ?thesis using a give_up_answered by (auto simp: exec_reply_gives_up simp del: exec.simps split: option.splits)
  next
    case False
    then show ?thesis using exec_silent [OF a(2)] answered_same [OF a(1)] by (auto simp: silent_def)
  qed
next
  fix d call
  assume "answered d"
  then show "answered (expire_call call d)" by (auto simp: expire_gives_up give_up_answered split: option.split)
next
  fix w c d
  assume "answered d"
  then show "answered (accept_call w c d)" by (rule accept_answered)
qed (auto simp: answered_def few_calls_def pending_def taken_def replied_def replies_def act_def List.map_filter_def)

section \<open>Deadlines\<close>

text \<open>What a call is owed: it waits, or it was answered after the first \<^term>\<open>k\<close> actions.\<close>

definition owed :: "nat \<Rightarrow> call_id \<Rightarrow> nat \<Rightarrow> instant \<Rightarrow> driver \<Rightarrow> bool" where
  "owed k c r at d \<longleftrightarrow> answered d \<and> k \<le> length (d_acts d)
     \<and> (few_calls d \<longrightarrow> btm_get (d_calls d) c = Some (r, at) \<or> r \<in> set (replies (drop k (d_acts d))))"

text \<open>No call that waits is late.\<close>

definition none_late :: "instant \<Rightarrow> driver \<Rightarrow> bool" where
  "none_late now d \<longleftrightarrow> (\<forall>e \<in> set (d_calls d). now < snd (snd e))"

lemma replies_append [simp]: "replies (as @ bs) = replies as @ replies bs"
  by (simp add: replies_def List.map_filter_def)

lemma give_up_owed:
  "owed k c r at d \<Longrightarrow> btm_get (d_calls d) c' = Some (q, at') \<Longrightarrow> owed k c r at (give_up c' q res d)"
  using give_up_answered [of d c' q at' res]
  by (auto simp: owed_def give_up_def act_def few_calls_def taken_def replies_def List.map_filter_def)

lemma accept_owed:
  assumes "owed k c r at d"
  shows "owed k c r at (accept_call w q d)"
proof -
  have s: "d_calls (accept_call w q d) = btm_insert (d_next_call d) (dq_reply q, rw_now w (d_clock d) + CALL_DEADLINE) (d_calls d)"
    "d_acts (accept_call w q d) = d_acts d @ [Act_Take (dq_reply q)]" "few_calls (accept_call w q d) \<Longrightarrow> few_calls d"
    by (simp_all add: accept_call_def read_clock_def act_def taken_def few_calls_def List.map_filter_def Let_def)
  have "c \<noteq> d_next_call d" if "few_calls d" "btm_get (d_calls d) c = Some (r, at)"
    using that assms by (force simp: owed_def answered_def dest: map_of_SomeD)
  then show ?thesis using assms accept_answered s by (auto simp: owed_def)
qed

lemma exec_log: "exec w e d = Inr d' \<Longrightarrow> \<exists>as. d_acts d' = d_acts d @ as"
  by (cases e) (auto simp: read_clock_def act_def spawn_job_def feed_back_def Let_def split: prod.splits option.splits if_splits)

lemma exec_owed:
  assumes "owed k c r at d" "exec w e d = Inr d'"
  shows "owed k c r at d'"
proof (cases "\<exists>c res. e = Fx_DbusReply c res")
  case True
  then show ?thesis using assms give_up_owed by (auto simp: exec_reply_gives_up simp del: exec.simps split: option.splits)
next
  case False
  then show ?thesis using exec_silent [OF assms(2)] exec_log [OF assms(2)] assms(1) answers.exec_keeps [OF _ assms(2)]
    by (auto simp: silent_def owed_def few_calls_def)
qed

interpretation owed: turn_invariant "owed k c r at" for k c r at
proof
  fix d call
  assume "owed k c r at d"
  then show "owed k c r at (expire_call call d)" by (auto simp: expire_gives_up give_up_owed split: option.split)
next
  fix d
  assume "owed k c r at d"
  then show "owed k c r at (act Act_Storm d)" using answers.storm_keeps
    by (auto simp: owed_def few_calls_def taken_def act_def List.map_filter_def)
next
  fix d d' :: driver
  assume "owed k c r at d" "d_calls d' = d_calls d" "d_next_call d' = d_next_call d" "d_acts d' = d_acts d"
  then show "owed k c r at d'" using answered_same [of d d'] by (auto simp: owed_def few_calls_def taken_def replied_def)
qed (rule accept_owed exec_owed, assumption+)+

lemma exec_calls_shrink: "exec w e d = Inr d' \<Longrightarrow> set (d_calls d') \<subseteq> set (d_calls d)"
proof (cases "\<exists>c res. e = Fx_DbusReply c res")
  case True
  then show "exec w e d = Inr d' \<Longrightarrow> set (d_calls d') \<subseteq> set (d_calls d)"
    by (auto simp: exec_reply_gives_up give_up_def act_def btm_remove_def simp del: exec.simps split: option.splits)
qed (use exec_silent in \<open>auto simp: silent_def\<close>)

interpretation punctual: drain_invariant "none_late now" for now
  by unfold_locales (use exec_calls_shrink in \<open>auto simp: none_late_def act_def subset_iff\<close>)

lemma expire_calls: "d_calls (expire_call c d) = btm_remove c (d_calls d)"
  by (force simp: expire_call_def act_def btm_remove_def map_of_eq_None_iff intro!: filter_True [symmetric] split: option.split)

lemma fold_expire_calls: "d_calls (fold expire_call cs d) = filter (\<lambda>e. fst e \<notin> set cs) (d_calls d)"
  by (induction cs arbitrary: d) (auto simp: expire_calls btm_remove_def intro: filter_cong)

lemma fold_timers_calls: "d_calls (fold fire_timer ts d) = d_calls d"
  by (induction ts arbitrary: d) (simp_all add: fire_timer_def)

lemma fire_due_none_late: "none_late (rw_now w (d_clock d)) (fire_due w d)"
proof -
  let ?now = "rw_now w (d_clock d)"
  have "d_calls (fire_due w d) = filter (\<lambda>e. fst e \<notin> set (map fst (filter (\<lambda>(_, _, at). at \<le> ?now) (d_calls d)))) (d_calls d)"
    by (simp add: fire_due_def read_clock_def Let_def fold_expire_calls fold_timers_calls)
  then show ?thesis by (fastforce simp: none_late_def image_iff not_le)
qed

text \<open>The clock is only read forwards.\<close>

lemma accept_clock: "d_clock (accept_call w c d) = Suc (d_clock d)"
  by (simp add: accept_call_def read_clock_def act_def Let_def)

lemma receive_clock: "receive w xs d = (b, d') \<Longrightarrow> d_clock d \<le> d_clock d'"
  by (induction w xs d rule: receive.induct) (auto simp: accept_clock Let_def split: if_splits)

lemma take_calls_clock: "d_clock d \<le> d_clock (take_calls w k d)"
  by (induction w k d rule: take_calls.induct)
    (auto simp: accept_clock split: list.split rt_input.split)

lemma turn_none_late:
  assumes "turn w d = Inr (False, d')"
  obtains n where "d_clock d \<le> n" "none_late (rw_now w n) d'"
proof -
  obtain d1 where r: "receive w (d_rx d) d = (False, d1)"
    using assms by (auto simp: turn_def split: bool.splits prod.splits)
  let ?d2 = "take_calls w CALLS_PER_ROUND (d1\<lparr>d_backlog := False\<rparr>)"
  have "d_clock d \<le> d_clock ?d2"
    using receive_clock [OF r] take_calls_clock [of "d1\<lparr>d_backlog := False\<rparr>" w CALLS_PER_ROUND] by simp
  moreover have "drain_loop 100000 w (fire_due w ?d2) = Inr d'"
    using assms r by (auto simp: turn_def drain_def split: sum.splits)
  then have "none_late (rw_now w (d_clock ?d2)) d'" by (rule punctual.drain_loop_keeps [OF fire_due_none_late])
  ultimately show thesis by (rule that)
qed

end
