(* ===== verification/Runtime_Helper.thy ===== *)
theory Runtime_Helper
  imports Core_Types Runtime_Sleep
begin

text \<open>
  The client of the privileged helper, \<^verbatim>\<open>src/bsm/manager/src/runtime/helper_client.rs\<close>: the thread that connects,
  checks who serves the socket, turns datagrams into inputs of the driver and reconnects, and the
  function that sends a request. What the socket does is a list of attempts; the JSON codec is a
  parameter.
\<close>

section \<open>Connections\<close>

definition MAX_DATAGRAM :: nat where "MAX_DATAGRAM = 64 * 1024"

datatype helper_endpoint = Ep_Path "u32 option" | Ep_Fd

text \<open>What one \<^verbatim>\<open>recv\<close> returns: a datagram (the empty one is the end of the stream), an interruption, an
  error.\<close>

datatype recv_result = Rc_Data string | Rc_Interrupted | Rc_Error

text \<open>An attempt: the socket was connected, the uid of the peer if it can be read, the descriptor was
  duplicated, and everything the socket then delivers.\<close>

record attempt =
  at_connected :: bool
  at_peer :: "u32 option"
  at_cloned :: bool
  at_recv :: "recv_result list"

definition peer_ok :: "u32 option \<Rightarrow> u32 option \<Rightarrow> bool" where
  "peer_ok want got =
     (case (want, got) of
        (Some w, Some g) \<Rightarrow> w = g
      | (Some _, None) \<Rightarrow> False
      | (None, _) \<Rightarrow> True)"

definition usable :: "helper_endpoint \<Rightarrow> attempt \<Rightarrow> bool" where
  "usable ep a = (case ep of Ep_Fd \<Rightarrow> True | Ep_Path want \<Rightarrow> at_connected a \<and> peer_ok want (at_peer a))"

text \<open>The thread: what it has handed to the driver, whether the writer has a socket, and the pause before
  the next attempt.\<close>

record client =
  cl_out :: "input list"
  cl_writer :: bool
  cl_backoff :: duration

definition client_new :: client where
  "client_new = \<lparr>cl_out = [], cl_writer = False, cl_backoff = from_millis 200\<rparr>"

text \<open>Handing an input to the driver; \<^term>\<open>tx n\<close>: the driver still takes the input that follows \<^term>\<open>n\<close> others.\<close>

definition hand :: "(nat \<Rightarrow> bool) \<Rightarrow> input \<Rightarrow> client \<Rightarrow> bool \<times> client" where
  "hand tx i c = (if tx (length (cl_out c)) then (True, c\<lparr>cl_out := cl_out c @ [i]\<rparr>) else (False, c))"

text \<open>The state of a connection: it ended, the driver is gone, or it waits for a datagram.\<close>

datatype serve_outcome = Sv_Ended | Sv_Gone | Sv_Waiting

fun serve_loop :: "(nat \<Rightarrow> bool) \<Rightarrow> (string \<Rightarrow> helper_event option) \<Rightarrow> recv_result list \<Rightarrow> client \<Rightarrow> serve_outcome \<times> client" where
  "serve_loop tx dec [] c = (Sv_Waiting, c)"
| "serve_loop tx dec (Rc_Interrupted # rs) c = serve_loop tx dec rs c"
| "serve_loop tx dec (Rc_Error # rs) c = (Sv_Ended, c)"
| "serve_loop tx dec (Rc_Data bytes # rs) c =
     (let buf = take (MAX_DATAGRAM + 1) bytes in
      if buf = [] then (Sv_Ended, c)
      else if MAX_DATAGRAM < length buf then serve_loop tx dec rs c
      else case dec buf of
        None \<Rightarrow> serve_loop tx dec rs c
      | Some ev \<Rightarrow> (case hand tx (In_Helper ev) c of (True, c) \<Rightarrow> serve_loop tx dec rs c | (False, c) \<Rightarrow> (Sv_Gone, c)))"

definition serve :: "(nat \<Rightarrow> bool) \<Rightarrow> (string \<Rightarrow> helper_event option) \<Rightarrow> attempt \<Rightarrow> client \<Rightarrow> serve_outcome \<times> client" where
  "serve tx dec a c =
     (if \<not> at_cloned a then (Sv_Ended, c)
      else case hand tx In_HelperConnected (c\<lparr>cl_writer := True\<rparr>) of
        (False, c) \<Rightarrow> (Sv_Gone, c)
      | (True, c) \<Rightarrow>
          (case serve_loop tx dec (at_recv a) c of
             (Sv_Ended, c) \<Rightarrow>
               (case hand tx In_HelperLost (c\<lparr>cl_writer := False\<rparr>) of (True, c) \<Rightarrow> (Sv_Ended, c) | (False, c) \<Rightarrow> (Sv_Gone, c))
           | r \<Rightarrow> r))"

definition pause :: "client \<Rightarrow> client" where
  "pause c = c\<lparr>cl_backoff := min (cl_backoff c * 2) (from_secs 5)\<rparr>"

text \<open>The thread over the attempts; a socket that was handed in is not reconnected.\<close>

fun client_run :: "(nat \<Rightarrow> bool) \<Rightarrow> (string \<Rightarrow> helper_event option) \<Rightarrow> helper_endpoint \<Rightarrow> attempt list \<Rightarrow> client \<Rightarrow> serve_outcome \<times> client" where
  "client_run tx dec ep [] c = (Sv_Waiting, c)"
| "client_run tx dec ep (a # as) c =
     (if usable ep a then
        (case serve tx dec a (c\<lparr>cl_backoff := from_millis 200\<rparr>) of
           (Sv_Ended, c) \<Rightarrow> (case ep of Ep_Fd \<Rightarrow> (Sv_Ended, c) | Ep_Path _ \<Rightarrow> client_run tx dec ep as (pause c))
         | r \<Rightarrow> r)
      else client_run tx dec ep as (pause c))"

text \<open>Sending a request: the result, and whether the connection is shut down.\<close>

definition helper_send :: "(helper_request \<Rightarrow> string option) \<Rightarrow> bool \<Rightarrow> helper_request \<Rightarrow> client \<Rightarrow> bool \<times> bool" where
  "helper_send enc sent req c =
     (case enc req of
        None \<Rightarrow> (False, False)
      | Some bytes \<Rightarrow>
          if MAX_DATAGRAM < length bytes then (False, False)
          else if cl_writer c then (sent, \<not> sent) else (False, False))"

section \<open>What the driver hears\<close>

text \<open>The datagrams before the end, and the events in them.\<close>

fun datagrams :: "recv_result list \<Rightarrow> string list" where
  "datagrams [] = []"
| "datagrams (Rc_Interrupted # rs) = datagrams rs"
| "datagrams (Rc_Error # rs) = []"
| "datagrams (Rc_Data bytes # rs) = (if bytes = [] then [] else bytes # datagrams rs)"

fun ends :: "recv_result list \<Rightarrow> bool" where
  "ends [] = False"
| "ends (Rc_Interrupted # rs) = ends rs"
| "ends (Rc_Error # rs) = True"
| "ends (Rc_Data bytes # rs) = (bytes = [] \<or> ends rs)"

definition events_in :: "(string \<Rightarrow> helper_event option) \<Rightarrow> string list \<Rightarrow> helper_event list" where
  "events_in dec ds = List.map_filter dec (filter (\<lambda>b. length b \<le> MAX_DATAGRAM) ds)"

text \<open>The inputs of one attempt.\<close>

definition heard :: "(string \<Rightarrow> helper_event option) \<Rightarrow> helper_endpoint \<Rightarrow> attempt \<Rightarrow> input list" where
  "heard dec ep a =
     (if usable ep a \<and> at_cloned a
      then In_HelperConnected # map In_Helper (events_in dec (datagrams (at_recv a))) @ (if ends (at_recv a) then [In_HelperLost] else [])
      else [])"

lemma events_in_simps [simp]:
  "events_in dec [] = []"
  "events_in dec (b # ds) = (if length b \<le> MAX_DATAGRAM then (case dec b of Some ev \<Rightarrow> [ev] | None \<Rightarrow> []) else []) @ events_in dec ds"
  by (simp_all add: events_in_def List.map_filter_def split: option.split)

lemma serve_loop_heard:
  "\<forall>n. tx n \<Longrightarrow> serve_loop tx dec rs c =
     (if ends rs then Sv_Ended else Sv_Waiting, c\<lparr>cl_out := cl_out c @ map In_Helper (events_in dec (datagrams rs))\<rparr>)"
proof (induction tx dec rs c rule: serve_loop.induct)
  case (4 tx dec bytes rs c)
  then show ?case by (auto simp: hand_def Let_def split: option.split)
qed simp_all

lemma serve_heard:
  assumes "\<forall>n. tx n" "usable ep a"
  shows "fst (serve tx dec a c) = (if at_cloned a \<and> \<not> ends (at_recv a) then Sv_Waiting else Sv_Ended)"
    and "cl_out (snd (serve tx dec a c)) = cl_out c @ heard dec ep a"
  using assms by (simp_all add: serve_def serve_loop_heard hand_def heard_def)

text \<open>Attempts that came to an end, as all but the last have.\<close>

definition over :: "attempt \<Rightarrow> bool" where
  "over a \<longleftrightarrow> at_cloned a \<longrightarrow> ends (at_recv a)"

lemma client_run_heard:
  assumes "\<forall>n. tx n" "\<forall>a \<in> set (butlast as). over a"
  shows "cl_out (snd (client_run tx dec (Ep_Path want) as c)) = cl_out c @ concat (map (heard dec (Ep_Path want)) as)"
  using assms(2)
proof (induction as arbitrary: c)
  case (Cons a as)
  note IH = Cons.IH [OF ballI]
  show ?case
  proof (cases "usable (Ep_Path want) a")
    case False
    then show ?thesis using Cons by (auto simp: heard_def pause_def split: if_splits)
  next
    case True
    let ?c = "c\<lparr>cl_backoff := from_millis 200\<rparr>"
    obtain r c1 where s: "serve tx dec a ?c = (r, c1)" by fastforce
    with serve_heard [OF assms(1) True, of dec ?c]
    have 1: "r = (if at_cloned a \<and> \<not> ends (at_recv a) then Sv_Waiting else Sv_Ended)" "cl_out c1 = cl_out c @ heard dec (Ep_Path want) a"
      by simp_all
    show ?thesis
    proof (cases "r = Sv_Waiting")
      case True
      with 1 Cons.prems have "as = []" by (auto simp: over_def split: if_splits)
      then show ?thesis using True s 1 \<open>usable (Ep_Path want) a\<close> by simp
    next
      case False
      then show ?thesis using Cons True s 1 by (auto simp: pause_def split: if_splits)
    qed
  qed
qed simp

lemma backoff_bounded:
  "from_millis 200 \<le> cl_backoff c \<Longrightarrow> cl_backoff c \<le> from_secs 5 \<Longrightarrow>
   from_millis 200 \<le> cl_backoff (pause c) \<and> cl_backoff (pause c) \<le> from_secs 5"
  by (auto simp: pause_def from_millis_def from_secs_def)

text \<open>
  C23. While the driver runs, it hears of every connection to the helper exactly its beginning, the
  events of its datagrams in order (oversized and undecodable ones are dropped) and its end, and an
  event only from a connection whose peer has the wanted uid: another process on the socket is
  never listened to.
\<close>

theorem helper_channel_is_faithful:
  assumes "\<forall>n. tx n" "\<forall>a \<in> set (butlast as). over a"
    and "client_run tx dec (Ep_Path (Some root)) as client_new = (r, c)"
  shows "cl_out c = concat (map (heard dec (Ep_Path (Some root))) as)
    \<and> (\<forall>ev. In_Helper ev \<in> set (cl_out c) \<longrightarrow>
         (\<exists>a \<in> set as. at_peer a = Some root \<and> (\<exists>b \<in> set (datagrams (at_recv a)). length b \<le> MAX_DATAGRAM \<and> dec b = Some ev)))"
proof -
  have out: "cl_out c = concat (map (heard dec (Ep_Path (Some root))) as)"
    using client_run_heard [OF assms(1,2), of dec "Some root" client_new] assms(3) by (simp add: client_new_def)
  have event: "\<exists>b \<in> set ds. length b \<le> MAX_DATAGRAM \<and> dec b = Some ev" if "ev \<in> set (events_in dec ds)" for ev ds
    using that by (auto simp: events_in_def List.map_filter_def)
  have "at_peer a = Some root \<and> ev \<in> set (events_in dec (datagrams (at_recv a)))"
    if "In_Helper ev \<in> set (heard dec (Ep_Path (Some root)) a)" for a ev
    using that by (auto simp: heard_def usable_def peer_ok_def split: if_splits option.splits)
  note facts = this event
  have "\<exists>a \<in> set as. at_peer a = Some root \<and> (\<exists>b \<in> set (datagrams (at_recv a)). length b \<le> MAX_DATAGRAM \<and> dec b = Some ev)"
    if heard: "In_Helper ev \<in> set (cl_out c)" for ev
  proof -
    from heard obtain a where "a \<in> set as" "In_Helper ev \<in> set (heard dec (Ep_Path (Some root)) a)" unfolding out by auto
    then show ?thesis using facts by blast
  qed
  with out show ?thesis by blast
qed

text \<open>An impostor first, then the helper, which sends a pong and a line that does not decode.\<close>

definition demo_event :: "string \<Rightarrow> helper_event option" where
  "demo_event b = (if b = ''p'' then Some (HEv_Pong 7) else None)"

definition demo_attempts :: "attempt list" where
  "demo_attempts =
     [\<lparr>at_connected = True, at_peer = Some 1000, at_cloned = True, at_recv = [Rc_Data ''p'', Rc_Error]\<rparr>,
      \<lparr>at_connected = True, at_peer = Some 0, at_cloned = True, at_recv = [Rc_Data ''p'', Rc_Data ''x'', Rc_Error]\<rparr>]"

theorem helper_channel_is_faithful_witness:
  "cl_out (snd (client_run (\<lambda>_. True) demo_event (Ep_Path (Some 0)) demo_attempts client_new))
     = [In_HelperConnected, In_Helper (HEv_Pong 7), In_HelperLost]"
proof -
  have "\<forall>a \<in> set (butlast demo_attempts). over a" by (simp add: demo_attempts_def over_def)
  moreover obtain r c where "client_run (\<lambda>_. True) demo_event (Ep_Path (Some 0)) demo_attempts client_new = (r, c)" by fastforce
  ultimately have "cl_out (snd (client_run (\<lambda>_. True) demo_event (Ep_Path (Some 0)) demo_attempts client_new))
      = concat (map (heard demo_event (Ep_Path (Some 0))) demo_attempts)"
    using helper_channel_is_faithful [of "\<lambda>_. True" demo_attempts demo_event 0 r c] by simp
  then show ?thesis
    by (simp add: demo_attempts_def heard_def usable_def peer_ok_def demo_event_def MAX_DATAGRAM_def)
qed

end
