(* ===== verification/Bus_Wire.thy ===== *)
theory Bus_Wire
  imports Core_Types Proto_Progress
begin

text \<open>
  The wire form of the manager's values on D-Bus and back: the rows, the status dictionary, the
  signals and the error names of \<^verbatim>\<open>src/bsm/manager/src/runtime/dbus.rs\<close> with the decoders of \<^verbatim>\<open>client.rs\<close>.
  What the bus transports is a typed value; the marshalling of zbus is not modelled.
\<close>

section \<open>Names of enumerations\<close>

text \<open>The derived serde name of a variant: \<^verbatim>\<open>rename_all = "snake_case"\<close> puts an underscore before every capital
  but the first and lowers it.\<close>

definition is_upper :: "char \<Rightarrow> bool" where
  "is_upper c \<longleftrightarrow> 65 \<le> (of_char c :: nat) \<and> (of_char c :: nat) \<le> 90"

definition is_lower :: "char \<Rightarrow> bool" where
  "is_lower c \<longleftrightarrow> 97 \<le> (of_char c :: nat) \<and> (of_char c :: nat) \<le> 122"

definition to_ascii_lowercase :: "char \<Rightarrow> char" where
  "to_ascii_lowercase c = (if is_upper c then char_of ((of_char c :: nat) + 32) else c)"

definition to_ascii_uppercase :: "char \<Rightarrow> char" where
  "to_ascii_uppercase c = (if is_lower c then char_of ((of_char c :: nat) - 32) else c)"

fun snake_rest :: "string \<Rightarrow> string" where
  "snake_rest [] = []"
| "snake_rest (c # cs) = (if is_upper c then CHR ''_'' # to_ascii_lowercase c # snake_rest cs else c # snake_rest cs)"

fun snake_case :: "string \<Rightarrow> string" where
  "snake_case [] = []"
| "snake_case (c # cs) = to_ascii_lowercase c # snake_rest cs"

fun seat_variant :: "seat_state \<Rightarrow> string" where
  "seat_variant Seat_Booting = ''Booting''"
| "seat_variant Seat_Greeter = ''Greeter''"
| "seat_variant Seat_Authenticating = ''Authenticating''"
| "seat_variant Seat_StartingSession = ''StartingSession''"
| "seat_variant Seat_RevealingSession = ''RevealingSession''"
| "seat_variant Seat_UserForeground = ''UserForeground''"
| "seat_variant Seat_SecuringLock = ''SecuringLock''"
| "seat_variant Seat_LockedGreeter = ''LockedGreeter''"
| "seat_variant Seat_SwitchingUser = ''SwitchingUser''"
| "seat_variant Seat_ShuttingDown = ''ShuttingDown''"
| "seat_variant Seat_Recovery = ''Recovery''"

fun kind_variant :: "transition_kind \<Rightarrow> string" where
  "kind_variant Kind_NewLoginFade = ''NewLoginFade''"
| "kind_variant Kind_UnlockSlideUp = ''UnlockSlideUp''"
| "kind_variant Kind_Lock = ''Lock''"
| "kind_variant Kind_SwitchUser = ''SwitchUser''"
| "kind_variant Kind_LogoutFade = ''LogoutFade''"
| "kind_variant Kind_PowerFade = ''PowerFade''"
| "kind_variant Kind_Suspend = ''Suspend''"

fun availability_variant :: "session_availability \<Rightarrow> string" where
  "availability_variant Av_NotSignedIn = ''NotSignedIn''"
| "availability_variant Av_Starting = ''Starting''"
| "availability_variant Av_RunningLocked = ''RunningLocked''"
| "availability_variant Av_RunningForeground = ''RunningForeground''"
| "availability_variant Av_Unavailable = ''Unavailable''"

definition session_state_all :: "session_state list" where
  "session_state_all =
     [St_Creating, St_PamOpening, St_GnoblinStarting, St_BinguxStarting, St_OutputReady, St_ReadyBackground, St_Foreground,
      St_LockRequested, St_LockedBackground, St_LockedGreeterForeground, St_Stopping, St_Terminated, St_Failed]"

definition seat_state_all :: "seat_state list" where
  "seat_state_all =
     [Seat_Booting, Seat_Greeter, Seat_Authenticating, Seat_StartingSession, Seat_RevealingSession, Seat_UserForeground,
      Seat_SecuringLock, Seat_LockedGreeter, Seat_SwitchingUser, Seat_ShuttingDown, Seat_Recovery]"

definition transition_state_all :: "transition_state list" where
  "transition_state_all =
     [Tr_Idle, Tr_WaitingForAuth, Tr_WaitingForFrames, Tr_Prepared, Tr_Animating, Tr_Committed, Tr_Cancelled, Tr_Failed]"

definition operation_phase_all :: "operation_phase list" where
  "operation_phase_all =
     [Ph_Requested, Ph_Authorising, Ph_Preparing, Ph_Animating, Ph_Committed, Ph_Failed, Ph_Cancelled, Ph_Completed]"

definition transition_kind_all :: "transition_kind list" where
  "transition_kind_all =
     [Kind_NewLoginFade, Kind_UnlockSlideUp, Kind_Lock, Kind_SwitchUser, Kind_LogoutFade, Kind_PowerFade, Kind_Suspend]"

definition availability_all :: "session_availability list" where
  "availability_all = [Av_NotSignedIn, Av_Starting, Av_RunningLocked, Av_RunningForeground, Av_Unavailable]"

definition ALL_CODES :: "error_code list" where
  "ALL_CODES =
     [E_Unauthorised, E_InvalidAccount, E_NoSession, E_AlreadyLocked, E_Busy, E_StaleGeneration, E_Cancelled, E_PamFailure,
      E_LogindFailure, E_OutputNotReady, E_TransitionInterrupted, E_Inhibited, E_ShutdownRejected, E_Timeout, E_HelperFailure,
      E_InvalidArgument, E_NotSupported, E_Internal]"

text \<open>\<^verbatim>\<open>parse_name\<close>: the variant with this name, if there is one.\<close>

definition parse_name :: "'a list \<Rightarrow> ('a \<Rightarrow> string) \<Rightarrow> string \<Rightarrow> 'a option" where
  "parse_name all name s = List.find (\<lambda>v. name v = s) all"

abbreviation state_name :: "session_state \<Rightarrow> string" where "state_name v \<equiv> snake_case (debug_session_state v)"
abbreviation seat_name :: "seat_state \<Rightarrow> string" where "seat_name v \<equiv> snake_case (seat_variant v)"
abbreviation transition_name :: "transition_state \<Rightarrow> string" where "transition_name v \<equiv> snake_case (debug_transition v)"
abbreviation phase_name :: "operation_phase \<Rightarrow> string" where "phase_name v \<equiv> snake_case (debug_phase v)"
abbreviation kind_name :: "transition_kind \<Rightarrow> string" where "kind_name v \<equiv> snake_case (kind_variant v)"
abbreviation availability_name :: "session_availability \<Rightarrow> string" where "availability_name v \<equiv> snake_case (availability_variant v)"
abbreviation stage_name :: "stage \<Rightarrow> string" where "stage_name v \<equiv> snake_case (debug_stage v)"

text \<open>An enumeration with a list of its values and distinct names that are not empty.\<close>

locale named_enum =
  fixes all :: "'a list" and name :: "'a \<Rightarrow> string"
  assumes listed: "v \<in> set all" and distinct_names: "distinct (map name all)" and named: "list_all (\<lambda>v. name v \<noteq> []) all"
begin

lemma parse_name_of: "parse_name all name (name v) = Some v"
proof -
  have "List.find (\<lambda>x. name x = name v) all = Some v" if "v \<in> set xs" "distinct (map name xs)" "all = xs" for xs
    using that(1,2) unfolding that(3) by (induction xs) auto
  then show ?thesis using listed distinct_names by (simp add: parse_name_def)
qed

lemma name_not_empty: "name v \<noteq> []"
  using listed [of v] named by (auto simp: list_all_iff)

lemma parse_all: "those (map (parse_name all name \<circ> name) vs) = Some vs"
  by (induction vs) (simp_all add: parse_name_of)

end

interpretation state: named_enum session_state_all state_name
proof
  fix v show "v \<in> set session_state_all" by (cases v) (simp_all add: session_state_all_def)
qed (code_simp, code_simp)

interpretation seat: named_enum seat_state_all seat_name
proof
  fix v show "v \<in> set seat_state_all" by (cases v) (simp_all add: seat_state_all_def)
qed (code_simp, code_simp)

interpretation transition: named_enum transition_state_all transition_name
proof
  fix v show "v \<in> set transition_state_all" by (cases v) (simp_all add: transition_state_all_def)
qed (code_simp, code_simp)

interpretation phase: named_enum operation_phase_all phase_name
proof
  fix v show "v \<in> set operation_phase_all" by (cases v) (simp_all add: operation_phase_all_def)
qed (code_simp, code_simp)

interpretation kind: named_enum transition_kind_all kind_name
proof
  fix v show "v \<in> set transition_kind_all" by (cases v) (simp_all add: transition_kind_all_def)
qed (code_simp, code_simp)

interpretation availability: named_enum availability_all availability_name
proof
  fix v show "v \<in> set availability_all" by (cases v) (simp_all add: availability_all_def)
qed (code_simp, code_simp)

interpretation stage: named_enum stage_all stage_name
proof
  fix v show "v \<in> set stage_all" by (cases v) (simp_all add: stage_all_def)
qed (code_simp, code_simp)

interpretation code: named_enum ALL_CODES error_code_str
proof
  fix v show "v \<in> set ALL_CODES" by (cases v) (simp_all add: ALL_CODES_def)
qed (code_simp, code_simp)

section \<open>Error names\<close>

definition ERROR_PREFIX :: string where
  "ERROR_PREFIX = ''org.bingux.Session1.Error''"

definition camel :: "string \<Rightarrow> string" where
  "camel snake = concat (map (\<lambda>w. case w of [] \<Rightarrow> [] | c # cs \<Rightarrow> to_ascii_uppercase c # cs) (split_on (CHR ''_'') snake))"

definition error_name :: "error_code \<Rightarrow> string" where
  "error_name c = ERROR_PREFIX @ ''.'' @ camel (error_code_str c)"

definition code_from_error_name :: "string \<Rightarrow> error_code option" where
  "code_from_error_name name =
     (case strip_prefix ERROR_PREFIX name of
        None \<Rightarrow> None
      | Some rest \<Rightarrow>
          (case strip_prefix ''.'' rest of
             None \<Rightarrow> None
           | Some code \<Rightarrow> List.find (\<lambda>c. camel (error_code_str c) = code) ALL_CODES))"

interpretation camel: named_enum ALL_CODES "\<lambda>c. camel (error_code_str c)"
proof
  fix v show "v \<in> set ALL_CODES" by (rule code.listed)
qed (code_simp, code_simp)

lemma strip_prefix_append [simp]: "strip_prefix p (p @ s) = Some s"
  by (induction p) simp_all

lemma error_name_inverse: "code_from_error_name (error_name c) = Some c"
  using camel.parse_name_of [of c] strip_prefix_append [of "''.''"]
  by (simp add: code_from_error_name_def error_name_def parse_name_def del: strip_prefix.simps)

section \<open>Rows\<close>

type_synonym user_row = "u32 \<times> string \<times> string \<times> string \<times> string \<times> u64 \<times> u64"
type_synonym session_row = "string \<times> u64 \<times> u32 \<times> string \<times> string \<times> bool \<times> bool \<times> u32"
type_synonym output_row = "string \<times> i32 \<times> i32 \<times> u32 \<times> u32 \<times> u32 \<times> u32 \<times> u32"
type_synonym transition_row = "u64 \<times> string \<times> string \<times> string \<times> string \<times> string"

definition user_row :: "user_info \<Rightarrow> user_row" where
  "user_row u =
     (ui_uid u, ui_user_name u, ui_display_name u, availability_name (ui_availability u), unwrap_or (ui_session u) [],
      ui_avatar_rev u, ui_wallpaper_rev u)"

definition session_row :: "session_info \<Rightarrow> session_row" where
  "session_row s =
     (si_id s, si_generation s, si_uid s, state_name (si_state s), availability_name (si_availability s), si_foreground s,
      si_locked s, si_progress s)"

definition output_row :: "output_info \<Rightarrow> output_row" where
  "output_row out =
     (out_name out, out_x out, out_y out, out_width out, out_height out, out_scale_120 out, out_refresh_mhz out, out_transform out)"

definition transition_row :: "operation_info \<Rightarrow> transition_row" where
  "transition_row op =
     (oi_id op, kind_name (oi_kind op), phase_name (oi_phase op), transition_name (oi_state op),
      unwrap_or (map_option error_code_str (oi_reason op)) [], unwrap_or (oi_session op) [])"

text \<open>The client's side: an error has the service's code, or none when the reply cannot be read.\<close>

record client_error =
  ce_code :: "error_code option"
  ce_message :: string

type_synonym 'a client_result = "client_error + 'a"

definition malformed :: "string \<Rightarrow> client_error" where
  "malformed what = \<lparr>ce_code = None, ce_message = ''malformed reply: '' @ what\<rparr>"

definition parse_code :: "string \<Rightarrow> error_code option client_result" where
  "parse_code s =
     (if s = [] then Inr None
      else case parse_name ALL_CODES error_code_str s of Some c \<Rightarrow> Inr (Some c) | None \<Rightarrow> Inl (malformed ''unknown error code''))"

definition parse_enum :: "'a list \<Rightarrow> ('a \<Rightarrow> string) \<Rightarrow> string \<Rightarrow> string \<Rightarrow> 'a client_result" where
  "parse_enum all name s what = (case parse_name all name s of Some v \<Rightarrow> Inr v | None \<Rightarrow> Inl (malformed what))"

definition some_str :: "string \<Rightarrow> string option" where
  "some_str s = (if s = [] then None else Some s)"

text \<open>The question mark operator.\<close>

definition or_return :: "('e + 'a) \<Rightarrow> ('a \<Rightarrow> 'e + 'b) \<Rightarrow> 'e + 'b" where
  "or_return r k = (case r of Inl e \<Rightarrow> Inl e | Inr v \<Rightarrow> k v)"

lemma or_return_simps [simp]: "or_return (Inl e) k = Inl e" "or_return (Inr v) k = k v"
  by (simp_all add: or_return_def)

definition user_of_row :: "user_row \<Rightarrow> user_info client_result" where
  "user_of_row r =
     (case r of (uid, user_name, display_name, av, session, avatar_rev, wallpaper_rev) \<Rightarrow>
        or_return (parse_enum availability_all availability_name av ''availability'') (\<lambda>av.
          Inr \<lparr>ui_uid = uid, ui_user_name = user_name, ui_display_name = display_name, ui_availability = av,
            ui_session = some_str session, ui_avatar_rev = avatar_rev, ui_wallpaper_rev = wallpaper_rev\<rparr>))"

definition session_of_row :: "session_row \<Rightarrow> session_info client_result" where
  "session_of_row r =
     (case r of (sid, gn, uid, st, av, foreground, locked, progress) \<Rightarrow>
        or_return (parse_enum session_state_all state_name st ''session state'') (\<lambda>st.
        or_return (parse_enum availability_all availability_name av ''availability'') (\<lambda>av.
          Inr \<lparr>si_id = sid, si_generation = gn, si_uid = uid, si_state = st, si_availability = av, si_foreground = foreground,
            si_locked = locked, si_progress = progress\<rparr>)))"

definition output_of_row :: "output_row \<Rightarrow> output_info" where
  "output_of_row r =
     (case r of (name, x, y, width, height, scale, refresh, tr) \<Rightarrow>
        \<lparr>out_name = name, out_x = x, out_y = y, out_width = width, out_height = height, out_scale_120 = scale,
         out_refresh_mhz = refresh, out_transform = tr\<rparr>)"

definition operation_of_row :: "transition_row \<Rightarrow> operation_info client_result" where
  "operation_of_row r =
     (case r of (oid, kd, ph, st, reason, session) \<Rightarrow>
        or_return (parse_enum transition_kind_all kind_name kd ''transition kind'') (\<lambda>kd.
        or_return (parse_enum operation_phase_all phase_name ph ''operation phase'') (\<lambda>ph.
        or_return (parse_enum transition_state_all transition_name st ''transition state'') (\<lambda>st.
        or_return (parse_code reason) (\<lambda>reason.
          Inr \<lparr>oi_id = oid, oi_kind = kd, oi_phase = ph, oi_state = st, oi_reason = reason, oi_session = some_str session\<rparr>)))))"

lemma parse_enum_of: "named_enum all name \<Longrightarrow> parse_enum all name (name v) what = Inr v"
  by (simp add: parse_enum_def named_enum.parse_name_of)

lemmas parsed_names [simp] =
  parse_enum_of [OF state.named_enum_axioms] parse_enum_of [OF seat.named_enum_axioms]
  parse_enum_of [OF transition.named_enum_axioms] parse_enum_of [OF phase.named_enum_axioms]
  parse_enum_of [OF kind.named_enum_axioms] parse_enum_of [OF availability.named_enum_axioms]

lemma parse_code_of [simp]: "parse_code (unwrap_or (map_option error_code_str c) []) = Inr c"
  by (cases c) (simp_all add: parse_code_def code.parse_name_of code.name_not_empty)

lemma some_str_of [simp]: "s \<noteq> Some [] \<Longrightarrow> some_str (unwrap_or s []) = s"
  by (cases s) (simp_all add: some_str_def)

lemma rows_round_trip:
  "ui_session u \<noteq> Some [] \<Longrightarrow> user_of_row (user_row u) = Inr u" "session_of_row (session_row s) = Inr s"
  "output_of_row (output_row out) = out" "oi_session op \<noteq> Some [] \<Longrightarrow> operation_of_row (transition_row op) = Inr op"
  by (simp_all add: user_of_row_def user_row_def session_of_row_def session_row_def output_of_row_def output_row_def
      operation_of_row_def transition_row_def)

section \<open>The status dictionary\<close>

datatype bus_value = V_Str string | V_U32 u32 | V_U64 u64 | V_Bool bool | V_Struct "bus_value list" | V_Strs "string list"

type_synonym bus_dict = "string \<rightharpoonup> bus_value"

definition opt_entry :: "string \<Rightarrow> bus_value option \<Rightarrow> bus_dict \<Rightarrow> bus_dict" where
  "opt_entry k v m = (case v of Some v \<Rightarrow> m(k \<mapsto> v) | None \<Rightarrow> m)"

definition outputs_u32 :: "nat \<Rightarrow> u32" where
  "outputs_u32 n = (if n < 2 ^ 32 then of_nat n else - 1)"

text \<open>\<^verbatim>\<open>StructureBuilder::build\<close> refuses only a structure without fields; the operation has six.\<close>

definition status_dict :: "status_info \<Rightarrow> bus_dict" where
  "status_dict s =
     (let m = Map.empty(''seat'' \<mapsto> V_Str (seat_name (sti_seat s)));
          m = opt_entry ''selected_uid'' (map_option V_U32 (sti_selected_uid s)) m;
          m = opt_entry ''last_used_uid'' (map_option V_U32 (sti_last_used_uid s)) m;
          m = opt_entry ''foreground'' (map_option V_Str (sti_foreground s)) m;
          m = m(''revision'' \<mapsto> V_U64 (sti_revision s));
          m = m(''greeter_connected'' \<mapsto> V_Bool (sti_greeter_connected s));
          m = m(''helper_connected'' \<mapsto> V_Bool (sti_helper_connected s));
          m = m(''outputs'' \<mapsto> V_U32 (outputs_u32 (sti_outputs s)))
      in opt_entry ''operation''
           (map_option (\<lambda>op. case transition_row op of (oid, kd, ph, st, reason, session) \<Rightarrow>
              V_Struct [V_U64 oid, V_Str kd, V_Str ph, V_Str st, V_Str reason, V_Str session]) (sti_operation s)) m)"

fun as_str :: "bus_value \<Rightarrow> string option" where "as_str (V_Str s) = Some s" | "as_str _ = None"
fun as_u32 :: "bus_value \<Rightarrow> u32 option" where "as_u32 (V_U32 n) = Some n" | "as_u32 _ = None"
fun as_u64 :: "bus_value \<Rightarrow> u64 option" where "as_u64 (V_U64 n) = Some n" | "as_u64 _ = None"
fun as_bool :: "bus_value \<Rightarrow> bool option" where "as_bool (V_Bool b) = Some b" | "as_bool _ = None"

definition dict_get :: "(bus_value \<Rightarrow> 'a option) \<Rightarrow> bus_dict \<Rightarrow> string \<Rightarrow> 'a client_result" where
  "dict_get as m key =
     (case m key of
        None \<Rightarrow> Inl (malformed key)
      | Some v \<Rightarrow> (case as v of Some x \<Rightarrow> Inr x | None \<Rightarrow> Inl (malformed key)))"

definition dict_opt :: "(bus_value \<Rightarrow> 'a option) \<Rightarrow> bus_dict \<Rightarrow> string \<Rightarrow> 'a option client_result" where
  "dict_opt as m key = (if m key \<noteq> None then (case dict_get as m key of Inr x \<Rightarrow> Inr (Some x) | Inl e \<Rightarrow> Inl e) else Inr None)"

definition status_operation :: "bus_dict \<Rightarrow> operation_info option client_result" where
  "status_operation m =
     (let bad = Inl (malformed ''operation'') in
      case m ''operation'' of
        None \<Rightarrow> Inr None
      | Some (V_Struct f) \<Rightarrow>
          (if length f \<noteq> 6 then bad
           else case (as_u64 (f ! 0), as_str (f ! 1), as_str (f ! 2), as_str (f ! 3), as_str (f ! 4), as_str (f ! 5)) of
             (Some oid, Some kd, Some ph, Some st, Some reason, Some session) \<Rightarrow>
               or_return (operation_of_row (oid, kd, ph, st, reason, session)) (\<lambda>op. Inr (Some op))
           | _ \<Rightarrow> bad)
      | Some _ \<Rightarrow> bad)"

definition status_of_dict :: "bus_dict \<Rightarrow> status_info client_result" where
  "status_of_dict m =
     or_return (status_operation m) (\<lambda>op.
     or_return (dict_get as_str m ''seat'') (\<lambda>s.
     or_return (parse_enum seat_state_all seat_name s ''seat'') (\<lambda>s.
     or_return (dict_opt as_u32 m ''selected_uid'') (\<lambda>selected.
     or_return (dict_opt as_u32 m ''last_used_uid'') (\<lambda>last_used.
     or_return (dict_opt as_str m ''foreground'') (\<lambda>foreground.
     or_return (dict_get as_u64 m ''revision'') (\<lambda>revision.
     or_return (dict_get as_bool m ''greeter_connected'') (\<lambda>greeter.
     or_return (dict_get as_bool m ''helper_connected'') (\<lambda>helper.
     or_return (dict_get as_u32 m ''outputs'') (\<lambda>outputs.
       Inr \<lparr>sti_seat = s, sti_selected_uid = selected, sti_last_used_uid = last_used, sti_foreground = foreground,
         sti_revision = revision, sti_operation = op, sti_greeter_connected = greeter, sti_helper_connected = helper,
         sti_outputs = unat outputs\<rparr>))))))))))"

lemma status_entries:
  "status_dict s ''seat'' = Some (V_Str (seat_name (sti_seat s)))"
  "status_dict s ''selected_uid'' = map_option V_U32 (sti_selected_uid s)"
  "status_dict s ''last_used_uid'' = map_option V_U32 (sti_last_used_uid s)"
  "status_dict s ''foreground'' = map_option V_Str (sti_foreground s)"
  "status_dict s ''revision'' = Some (V_U64 (sti_revision s))"
  "status_dict s ''greeter_connected'' = Some (V_Bool (sti_greeter_connected s))"
  "status_dict s ''helper_connected'' = Some (V_Bool (sti_helper_connected s))"
  "status_dict s ''outputs'' = Some (V_U32 (outputs_u32 (sti_outputs s)))"
  by (simp_all add: status_dict_def opt_entry_def Let_def split: option.split)

lemma status_operation_of:
  assumes "\<forall>op. sti_operation s = Some op \<longrightarrow> oi_session op \<noteq> Some []"
  shows "status_operation (status_dict s) = Inr (sti_operation s)"
proof (cases "sti_operation s")
  case None
  then have "status_dict s ''operation'' = None" by (simp add: status_dict_def opt_entry_def Let_def split: option.split)
  with None show ?thesis by (simp add: status_operation_def)
next
  case (Some op)
  obtain oid kd ph st reason session where r: "transition_row op = (oid, kd, ph, st, reason, session)" by (metis prod_cases6)
  with Some have "status_dict s ''operation'' = Some (V_Struct [V_U64 oid, V_Str kd, V_Str ph, V_Str st, V_Str reason, V_Str session])"
    by (simp add: status_dict_def opt_entry_def Let_def)
  moreover have "operation_of_row (oid, kd, ph, st, reason, session) = Inr op" using rows_round_trip(4) [of op] assms Some r by simp
  ultimately show ?thesis using Some by (simp add: status_operation_def)
qed

lemma status_round_trip:
  assumes "\<forall>op. sti_operation s = Some op \<longrightarrow> oi_session op \<noteq> Some []" "sti_outputs s < 2 ^ 32"
  shows "status_of_dict (status_dict s) = Inr s"
proof -
  have opt: "dict_opt as (status_dict s) key = Inr v" if "status_dict s key = map_option f v" "\<And>x. as (f x) = Some x"
    for as f key and v :: "'b option" using that by (cases v) (simp_all add: dict_opt_def dict_get_def)
  have "unat (outputs_u32 (sti_outputs s)) = sti_outputs s" using assms(2) by (simp add: outputs_u32_def unat_of_nat)
  then show ?thesis unfolding status_of_dict_def status_operation_of [OF assms(1)]
    by (simp add: opt [OF status_entries(2)] opt [OF status_entries(3)] opt [OF status_entries(4)]
        dict_get_def status_entries(1,5-8))
qed

section \<open>Signals\<close>

definition BUS_INTERFACE :: string where
  "BUS_INTERFACE = ''org.bingux.Session1''"

record bus_message =
  bm_signal :: bool
  bm_interface :: "string option"
  bm_member :: "string option"
  bm_body :: "bus_value list"

definition signal_message :: "string \<Rightarrow> bus_value list \<Rightarrow> bus_message" where
  "signal_message member body =
     \<lparr>bm_signal = True, bm_interface = Some BUS_INTERFACE, bm_member = Some member, bm_body = body\<rparr>"

definition code_str :: "error_code option \<Rightarrow> string" where
  "code_str c = unwrap_or (map_option error_code_str c) []"

text \<open>The free text of a failure stays off the bus: every account hears a signal.\<close>

definition emit_progress :: "progress_model \<Rightarrow> bus_message" where
  "emit_progress m =
     (let (fs, fc, fm) =
        (case pm_failure m of
           Some f \<Rightarrow> (stage_name (pf_stage f), error_code_str (pf_code f), [])
         | None \<Rightarrow> ([], [], []))
      in signal_message ''SessionLaunchProgress''
           [V_Str (pm_session m), V_U64 (pm_generation m), V_U64 (pm_revision m), V_Strs (map stage_name (pm_reached m)),
            V_Str (unwrap_or (map_option stage_name (pm_counted_stage m)) []), V_U32 (pm_done m), V_U32 (pm_total m),
            V_U32 (progress_fraction m), V_Str (progress_label m), V_Str fs, V_Str fc, V_Str fm])"

fun emit_signal :: "dbus_signal \<Rightarrow> bus_message" where
  "emit_signal (Sig_SessionsChanged revision) = signal_message ''SessionsChanged'' [V_U64 revision]"
| "emit_signal (Sig_SelectedUserChanged revision uid) =
     signal_message ''SelectedUserChanged'' [V_U64 revision, V_Bool (uid \<noteq> None), V_U32 (unwrap_or uid 0)]"
| "emit_signal (Sig_AppearanceChanged uid revision) = signal_message ''AppearanceChanged'' [V_U32 uid, V_U64 revision]"
| "emit_signal (Sig_SessionLaunchProgress m) = emit_progress m"
| "emit_signal (Sig_SessionReadinessChanged session gn ready) =
     signal_message ''SessionReadinessChanged'' [V_Str session, V_U64 gn, V_Bool ready]"
| "emit_signal (Sig_ForegroundChanged session gn) =
     signal_message ''ForegroundChanged'' [V_Bool (session \<noteq> None), V_Str (unwrap_or session []), V_U64 (unwrap_or gn 0)]"
| "emit_signal (Sig_LockStateChanged session locked) = signal_message ''LockStateChanged'' [V_Str session, V_Bool locked]"
| "emit_signal (Sig_TransitionChanged oid kd ph st reason) =
     signal_message ''TransitionChanged''
       [V_U64 oid, V_Str (kind_name kd), V_Str (phase_name ph), V_Str (transition_name st), V_Str (code_str reason)]"
| "emit_signal (Sig_OperationFinished oid success reason) =
     signal_message ''OperationFinished'' [V_U64 oid, V_Bool success, V_Str (code_str reason)]"

definition ok_or :: "('e + 'a) \<Rightarrow> 'a option" where
  "ok_or r = (case r of Inr v \<Rightarrow> Some v | Inl _ \<Rightarrow> None)"

definition decode_failure :: "string \<Rightarrow> string \<Rightarrow> string \<Rightarrow> progress_failure option option" where
  "decode_failure fs fc fm =
     (if fs = [] then Some None
      else case (parse_name stage_all stage_name fs, ok_or (parse_code fc)) of
        (Some st, Some (Some c)) \<Rightarrow> Some (Some \<lparr>pf_stage = st, pf_code = c, pf_message = fm\<rparr>)
      | _ \<Rightarrow> None)"

definition decode_progress :: "bus_value list \<Rightarrow> dbus_signal option" where
  "decode_progress body =
     (case body of
        [V_Str session, V_U64 gn, V_U64 revision, V_Strs reached, V_Str counted, V_U32 dn, V_U32 tot, V_U32 fraction,
         V_Str label, V_Str fs, V_Str fc, V_Str fm] \<Rightarrow>
          (case (decode_failure fs fc fm, those (map (parse_name stage_all stage_name) reached),
                 (if counted = [] then Some None else map_option Some (parse_name stage_all stage_name counted))) of
             (Some failure, Some reached, Some counted) \<Rightarrow>
               Some (Sig_SessionLaunchProgress
                 \<lparr>pm_session = session, pm_generation = gn, pm_revision = revision, pm_reached = reached,
                  pm_counted_stage = counted, pm_done = dn, pm_total = tot, pm_failure = failure\<rparr>)
           | _ \<Rightarrow> None)
      | _ \<Rightarrow> None)"

definition decode_transition :: "bus_value list \<Rightarrow> dbus_signal option" where
  "decode_transition body =
     (case body of
        [V_U64 oid, V_Str kd, V_Str ph, V_Str st, V_Str reason] \<Rightarrow>
          (case (parse_name transition_kind_all kind_name kd, parse_name operation_phase_all phase_name ph,
                 parse_name transition_state_all transition_name st, ok_or (parse_code reason)) of
             (Some kd, Some ph, Some st, Some reason) \<Rightarrow> Some (Sig_TransitionChanged oid kd ph st reason)
           | _ \<Rightarrow> None)
      | _ \<Rightarrow> None)"

definition decode_body :: "string \<Rightarrow> bus_value list \<Rightarrow> dbus_signal option" where
  "decode_body member body =
     (if member = ''SessionsChanged'' then (case body of [V_U64 revision] \<Rightarrow> Some (Sig_SessionsChanged revision) | _ \<Rightarrow> None)
      else if member = ''SelectedUserChanged'' then
        (case body of [V_U64 revision, V_Bool has, V_U32 uid] \<Rightarrow> Some (Sig_SelectedUserChanged revision (if has then Some uid else None))
         | _ \<Rightarrow> None)
      else if member = ''AppearanceChanged'' then
        (case body of [V_U32 uid, V_U64 revision] \<Rightarrow> Some (Sig_AppearanceChanged uid revision) | _ \<Rightarrow> None)
      else if member = ''SessionLaunchProgress'' then decode_progress body
      else if member = ''SessionReadinessChanged'' then
        (case body of [V_Str session, V_U64 gn, V_Bool ready] \<Rightarrow> Some (Sig_SessionReadinessChanged session gn ready) | _ \<Rightarrow> None)
      else if member = ''ForegroundChanged'' then
        (case body of [V_Bool has, V_Str session, V_U64 gn] \<Rightarrow>
           Some (Sig_ForegroundChanged (if has then Some session else None) (if has then Some gn else None))
         | _ \<Rightarrow> None)
      else if member = ''LockStateChanged'' then
        (case body of [V_Str session, V_Bool locked] \<Rightarrow> Some (Sig_LockStateChanged session locked) | _ \<Rightarrow> None)
      else if member = ''TransitionChanged'' then decode_transition body
      else if member = ''OperationFinished'' then
        (case body of [V_U64 oid, V_Bool success, V_Str reason] \<Rightarrow>
           map_option (Sig_OperationFinished oid success) (ok_or (parse_code reason))
         | _ \<Rightarrow> None)
      else None)"

definition decode_signal :: "bus_message \<Rightarrow> dbus_signal option" where
  "decode_signal msg =
     (if \<not> bm_signal msg \<or> bm_interface msg \<noteq> Some BUS_INTERFACE then None
      else case bm_member msg of None \<Rightarrow> None | Some member \<Rightarrow> decode_body member (bm_body msg))"

text \<open>What a listener may learn: everything but the text of a failure.\<close>

fun public_part :: "dbus_signal \<Rightarrow> dbus_signal" where
  "public_part (Sig_SessionLaunchProgress m) =
     Sig_SessionLaunchProgress (m\<lparr>pm_failure := map_option (\<lambda>f. f\<lparr>pf_message := []\<rparr>) (pm_failure m)\<rparr>)"
| "public_part s = s"

lemma ok_or_parse_code: "ok_or (parse_code (code_str c)) = Some c"
  by (simp add: ok_or_def code_str_def)

lemma ok_or_code_str: "ok_or (parse_code (error_code_str c)) = Some (Some c)"
  using ok_or_parse_code [of "Some c"] by (simp add: code_str_def)

lemma decode_failure_of:
  "decode_failure (stage_name st) (error_code_str c) fm = Some (Some \<lparr>pf_stage = st, pf_code = c, pf_message = fm\<rparr>)"
  by (simp add: decode_failure_def stage.name_not_empty stage.parse_name_of ok_or_code_str)

lemma decode_progress_of: "decode_progress (bm_body (emit_progress m)) = Some (public_part (Sig_SessionLaunchProgress m))"
proof -
  have none: "decode_failure [] [] [] = Some None" by (simp add: decode_failure_def)
  show ?thesis
    by (cases "pm_failure m"; cases "pm_counted_stage m")
      (simp_all add: decode_progress_def emit_progress_def signal_message_def decode_failure_of none stage.parse_all
        stage.parse_name_of stage.name_not_empty)
qed

section \<open>The round trips\<close>

text \<open>
  What the session manager says on the bus is what its clients hear: users, sessions, outputs,
  operations and the whole status, with every name of a state, come back from their rows as they
  were, provided that a named session has a name and the outputs fit 32 bits; and the error name of
  every code is read back as that code.
\<close>

theorem bus_values_round_trip:
  assumes "ui_session u \<noteq> Some []" "oi_session op \<noteq> Some []"
    and "\<forall>op. sti_operation st = Some op \<longrightarrow> oi_session op \<noteq> Some []" "sti_outputs st < 2 ^ 32"
  shows "user_of_row (user_row u) = Inr u \<and> session_of_row (session_row s) = Inr s \<and> output_of_row (output_row out) = out
    \<and> operation_of_row (transition_row op) = Inr op \<and> status_of_dict (status_dict st) = Inr st
    \<and> code_from_error_name (error_name c) = Some c"
  using rows_round_trip assms status_round_trip error_name_inverse by blast

definition demo_operation :: operation_info where
  "demo_operation = \<lparr>oi_id = 3, oi_kind = Kind_UnlockSlideUp, oi_phase = Ph_Failed, oi_state = Tr_WaitingForFrames,
     oi_reason = Some E_OutputNotReady, oi_session = Some ''s1''\<rparr>"

definition demo_status :: status_info where
  "demo_status = \<lparr>sti_seat = Seat_LockedGreeter, sti_selected_uid = Some 1000, sti_last_used_uid = None, sti_foreground = None,
     sti_revision = 7, sti_operation = Some demo_operation, sti_greeter_connected = True, sti_helper_connected = False, sti_outputs = 2\<rparr>"

definition demo_bus_user :: user_info where
  "demo_bus_user = \<lparr>ui_uid = 1000, ui_user_name = ''u'', ui_display_name = ''U'', ui_availability = Av_RunningLocked,
     ui_session = Some ''s1'', ui_avatar_rev = 0, ui_wallpaper_rev = 1\<rparr>"

theorem bus_values_round_trip_witness:
  "transition_row demo_operation = (3, ''unlock_slide_up'', ''failed'', ''waiting_for_frames'', ''output_not_ready'', ''s1'')
   \<and> operation_of_row (transition_row demo_operation) = Inr demo_operation \<and> status_of_dict (status_dict demo_status) = Inr demo_status
   \<and> user_of_row (user_row demo_bus_user) = Inr demo_bus_user"
proof -
  have "transition_row demo_operation = (3, ''unlock_slide_up'', ''failed'', ''waiting_for_frames'', ''output_not_ready'', ''s1'')"
    by code_simp
  then show ?thesis using bus_values_round_trip [of demo_bus_user demo_operation demo_status]
    by (simp add: demo_operation_def demo_status_def demo_bus_user_def)
qed

lemma decode_emitted:
  assumes "\<forall>s g. sig = Sig_ForegroundChanged s g \<longrightarrow> (s = None \<longleftrightarrow> g = None)"
  shows "decode_signal (emit_signal sig) = Some (public_part sig)"
proof (cases sig)
  case (Sig_SessionLaunchProgress m)
  have "decode_signal (emit_progress m) = decode_progress (bm_body (emit_progress m))"
    by (simp add: decode_signal_def emit_progress_def signal_message_def decode_body_def Let_def split: prod.split)
  then show ?thesis using Sig_SessionLaunchProgress decode_progress_of by simp
next
  case (Sig_ForegroundChanged s g)
  with assms show ?thesis
    by (cases s; cases g) (auto simp: decode_signal_def signal_message_def decode_body_def)
next
  case (Sig_SelectedUserChanged revision uid)
  then show ?thesis by (cases uid) (simp_all add: decode_signal_def signal_message_def decode_body_def)
qed (simp_all add: decode_signal_def signal_message_def decode_body_def decode_transition_def ok_or_parse_code
    kind.parse_name_of phase.parse_name_of transition.parse_name_of)

text \<open>
  C28. Signals are understood: a client decodes every signal of the service to the signal that was
  emitted, except that the free text of a failed launch, which other accounts must not read, is
  gone. The foreground is announced with its generation or not at all.
\<close>

theorem bus_signals_round_trip:
  assumes "\<forall>s g. sig = Sig_ForegroundChanged s g \<longrightarrow> (s = None \<longleftrightarrow> g = None)"
  shows "decode_signal (emit_signal sig) = Some (public_part sig)"
  using assms by (rule decode_emitted)

definition demo_failed_launch :: dbus_signal where
  "demo_failed_launch = Sig_SessionLaunchProgress
     \<lparr>pm_session = ''s1'', pm_generation = 7, pm_revision = 2, pm_reached = [Stg_AuthAccepted], pm_counted_stage = None, pm_done = 0,
      pm_total = 0, pm_failure = Some \<lparr>pf_stage = Stg_PamSession, pf_code = E_PamFailure, pf_message = ''home is missing''\<rparr>\<rparr>"

theorem bus_signals_round_trip_witness:
  "decode_signal (emit_signal demo_failed_launch) = Some (public_part demo_failed_launch) \<and> public_part demo_failed_launch \<noteq> demo_failed_launch"
  using bus_signals_round_trip [of demo_failed_launch] by (simp add: demo_failed_launch_def)

end
