(* ===== verification/Bus_Service.thy ===== *)
theory Bus_Service
  imports Bus_Wire Runtime_Sleep Helper_Env Transition_Systems
begin

text \<open>
  The D-Bus service of \<^verbatim>\<open>src/bsm/manager/src/runtime/dbus.rs\<close> and the client of \<^verbatim>\<open>client.rs\<close>: what a call is checked
  for before the manager sees it, how many calls an account may have waiting, and how the manager's
  reply travels to the caller. The bus daemon's answers and the descriptors' properties are
  arguments.
\<close>

section \<open>Arguments\<close>

unbundle bit_operations_syntax

definition MAX_IMAGE_BYTES :: int where "MAX_IMAGE_BYTES = 16 * 1024 * 1024"
definition MAX_SESSION_ID_LEN :: nat where "MAX_SESSION_ID_LEN = 64"
definition MAX_ACCENT_LEN :: nat where "MAX_ACCENT_LEN = 32"
definition MAX_SHORT_ARG_LEN :: nat where "MAX_SHORT_ARG_LEN = 16"

definition session_arg :: "string \<Rightarrow> string option result" where
  "session_arg s =
     (if s = [] then Inr None
      else if MAX_SESSION_ID_LEN < length s \<or> \<not> list_all (\<lambda>b. is_ascii_alphanumeric b \<or> b = CHR ''-'' \<or> b = CHR ''_'') s
      then Err E_InvalidArgument ''malformed session id''
      else Inr (Some s))"

text \<open>A descriptor, as the system calls show it: its flags (negative: none), its mode and size, and the
  number of a duplicate.\<close>

record image_fd =
  fd_flags :: int
  fd_stat :: "(u32 \<times> int) option"
  fd_dup :: "nat option"

definition O_PATH :: int where "O_PATH = 2097152"
definition O_ACCMODE :: int where "O_ACCMODE = 3"
definition O_RDONLY :: int where "O_RDONLY = 0"
definition S_IFMT :: u32 where "S_IFMT = 61440"
definition S_IFREG :: u32 where "S_IFREG = 32768"

definition validate_image_fd :: "string \<Rightarrow> image_fd \<Rightarrow> fd_handle result" where
  "validate_image_fd what fd =
     (let bad = (\<lambda>why. Err E_InvalidArgument (what @ '': '' @ why)) in
      if fd_flags fd < 0 then bad ''not a usable file descriptor''
      else if (fd_flags fd AND O_PATH) \<noteq> 0 then bad ''an O_PATH descriptor cannot be read''
      else if (fd_flags fd AND O_ACCMODE) \<noteq> O_RDONLY then bad ''must be opened read-only''
      else case fd_stat fd of
        None \<Rightarrow> bad ''cannot stat''
      | Some (mode, sz) \<Rightarrow>
          if (mode AND S_IFMT) \<noteq> S_IFREG then bad ''must be a regular file''
          else if sz < 0 \<or> MAX_IMAGE_BYTES < sz then bad ''larger than 16 MiB''
          else case fd_dup fd of
            None \<Rightarrow> Err E_Internal (what @ '': cannot duplicate descriptor'')
          | Some n \<Rightarrow> Inr (FdHandle n))"

definition image_arg :: "string \<Rightarrow> image_fd list \<Rightarrow> fd_handle option result" where
  "image_arg what fds =
     (case fds of
        [] \<Rightarrow> Inr None
      | [fd] \<Rightarrow> or_return (validate_image_fd what fd) (\<lambda>h. Inr (Some h))
      | _ \<Rightarrow> Err E_InvalidArgument (what @ '': at most one descriptor''))"

record publish_args =
  pa_color_scheme :: string
  pa_accent :: string
  pa_clock_format :: string
  pa_reduce_motion :: bool
  pa_show_personal_images :: bool

definition is_ascii :: "string \<Rightarrow> bool" where
  "is_ascii s = list_all (\<lambda>c. (of_char c :: nat) < 128) s"

definition build_publish :: "publish_args \<Rightarrow> image_fd list \<Rightarrow> image_fd list \<Rightarrow> publish_request result" where
  "build_publish a wallpaper_fd avatar_fd =
     or_return (if pa_color_scheme a = ''dark'' then Inr Scheme_Dark else if pa_color_scheme a = ''light'' then Inr Scheme_Light
                else Err E_InvalidArgument ''color_scheme must be dark or light'') (\<lambda>scheme.
     or_return (if pa_clock_format a = ''12h'' then Inr Clock_H12 else if pa_clock_format a = ''24h'' then Inr Clock_H24
                else Err E_InvalidArgument ''clock_format must be 12h or 24h'') (\<lambda>clock.
     if MAX_ACCENT_LEN < length (pa_accent a) \<or> \<not> is_ascii (pa_accent a)
     then Err E_InvalidArgument ''accent is too long or not ASCII''
     else if MAX_SHORT_ARG_LEN < length (pa_color_scheme a) \<or> MAX_SHORT_ARG_LEN < length (pa_clock_format a)
     then Err E_InvalidArgument ''argument too long''
     else
       or_return (image_arg ''wallpaper_fd'' wallpaper_fd) (\<lambda>wallpaper.
       or_return (image_arg ''avatar_fd'' avatar_fd) (\<lambda>avatar.
         Inr \<lparr>pr_appearance = \<lparr>app_color_scheme = scheme, app_accent = pa_accent a, app_clock_format = clock,
                app_reduce_motion = pa_reduce_motion a\<rparr>,
              pr_show_personal_images = pa_show_personal_images a, pr_wallpaper = wallpaper, pr_avatar = avatar\<rparr>))))"

text \<open>The methods of the interface with their arguments, and the manager's method they stand for.\<close>

datatype bus_call =
    Bc_Plain dbus_method
  | Bc_RequestLock string
  | Bc_RequestLogout string
  | Bc_PublishAppearance publish_args "image_fd list" "image_fd list"

fun method_of :: "bus_call \<Rightarrow> dbus_method result" where
  "method_of (Bc_Plain m) = Inr m"
| "method_of (Bc_RequestLock s) = or_return (session_arg s) (\<lambda>s. Inr (Mth_RequestLock s))"
| "method_of (Bc_RequestLogout s) = or_return (session_arg s) (\<lambda>s. Inr (Mth_RequestLogout s))"
| "method_of (Bc_PublishAppearance a w v) = or_return (build_publish a w v) (\<lambda>r. Inr (Mth_PublishAppearance r))"

text \<open>What an accepted image is.\<close>

definition image_ok :: "image_fd \<Rightarrow> bool" where
  "image_ok fd \<longleftrightarrow>
     0 \<le> fd_flags fd \<and> (fd_flags fd AND O_PATH) = 0 \<and> (fd_flags fd AND O_ACCMODE) = O_RDONLY
     \<and> (\<exists>mode sz. fd_stat fd = Some (mode, sz) \<and> (mode AND S_IFMT) = S_IFREG \<and> 0 \<le> sz \<and> sz \<le> 16777216)"

lemma validate_image_ok: "validate_image_fd what fd = Inr h \<Longrightarrow> image_ok fd \<and> (\<exists>n. fd_dup fd = Some n \<and> h = FdHandle n)"
  by (auto simp: validate_image_fd_def image_ok_def Let_def MAX_IMAGE_BYTES_def split: if_splits option.splits)

lemma or_return_Inr: "or_return r k = Inr v \<longleftrightarrow> (\<exists>x. r = Inr x \<and> k x = Inr v)"
  by (cases r) simp_all

lemma image_arg_ok:
  assumes "image_arg what fds = Inr h"
  shows "length fds \<le> 1 \<and> list_all image_ok fds \<and> (h = None \<longleftrightarrow> fds = [])"
  using assms by (auto simp: image_arg_def or_return_Inr dest: validate_image_ok split: list.splits)


definition demo_image :: image_fd where
  "demo_image = \<lparr>fd_flags = 32768, fd_stat = Some (33188, 4096), fd_dup = Some 9\<rparr>"

definition demo_publish_args :: publish_args where
  "demo_publish_args = \<lparr>pa_color_scheme = ''dark'', pa_accent = ''#3584e4'', pa_clock_format = ''24h'', pa_reduce_motion = False,
     pa_show_personal_images = True\<rparr>"


section \<open>Calls in flight\<close>

definition MAX_CALLS_PER_UID :: u32 where "MAX_CALLS_PER_UID = 8"

type_synonym in_flight = "u32 \<rightharpoonup> u32"

definition in_flight_take :: "u32 \<Rightarrow> in_flight \<Rightarrow> in_flight option" where
  "in_flight_take uid m =
     (let n = unwrap_or (m uid) 0 in if MAX_CALLS_PER_UID \<le> n then None else Some (m(uid \<mapsto> n + 1)))"

definition in_flight_drop :: "u32 \<Rightarrow> in_flight \<Rightarrow> in_flight" where
  "in_flight_drop uid m =
     (case m uid of
        Some n \<Rightarrow> if n - 1 = 0 then m(uid := None) else m(uid \<mapsto> n - 1)
      | None \<Rightarrow> m)"

text \<open>Who calls: the bus daemon's answer about the sender.\<close>

datatype creds_answer = Cr_Late | Cr_Error | Cr_Creds "u32 option" "u32 option"

definition read_cgroup :: "string option \<Rightarrow> string option" where
  "read_cgroup text =
     (case text of None \<Rightarrow> None | Some t \<Rightarrow> map_option (trim_by is_white) (find_map (strip_prefix ''0::'') (str_lines t)))"

definition resolve_caller :: "string option \<Rightarrow> string option \<Rightarrow> creds_answer \<Rightarrow> (u32 \<Rightarrow> string option) \<Rightarrow> caller result" where
  "resolve_caller sender proxy_error creds proc =
     (case sender of
        None \<Rightarrow> Err E_Unauthorised ''call without a sender''
      | Some bus_name \<Rightarrow>
          (let who = Err E_Unauthorised ''caller identity could not be established'' in
           case proxy_error of
             Some e \<Rightarrow> Err E_Internal (''bus proxy: '' @ e)
           | None \<Rightarrow>
               (case creds of
                  Cr_Error \<Rightarrow> who
                | Cr_Late \<Rightarrow> Err E_Timeout ''bus did not report the caller in time''
                | Cr_Creds (Some uid) (Some pid) \<Rightarrow>
                    Inr \<lparr>cal_uid = uid, cal_pid = pid, cal_bus_name = bus_name, cal_cgroup = read_cgroup (proc pid)\<rparr>
                | Cr_Creds _ _ \<Rightarrow> who)))"

text \<open>\<^verbatim>\<open>run\<close>, up to the wait for the manager: the slot is taken, and given back when the call is not queued.\<close>

definition run_begin :: "caller result \<Rightarrow> send_try \<Rightarrow> in_flight \<Rightarrow> caller result \<times> in_flight" where
  "run_begin who t m =
     (case who of
        Inl e \<Rightarrow> (Inl e, m)
      | Inr c \<Rightarrow>
          (case in_flight_take (cal_uid c) m of
             None \<Rightarrow> (Err E_Busy ''too many calls in flight for this account'', m)
           | Some m \<Rightarrow>
               (case t of
                  Try_Ok \<Rightarrow> (Inr c, m)
                | Try_Full \<Rightarrow> (Err E_Busy ''the session manager is busy'', in_flight_drop (cal_uid c) m)
                | Try_Gone \<Rightarrow> (Err E_Internal ''manager is not running'', in_flight_drop (cal_uid c) m))))"

text \<open>The end of the wait.\<close>

datatype wait_answer = Wa_Reply "reply result" | Wa_Dropped | Wa_Late

fun run_end :: "wait_answer \<Rightarrow> reply result" where
  "run_end (Wa_Reply r) = r"
| "run_end Wa_Dropped = Err E_Internal ''manager dropped the call''"
| "run_end Wa_Late = Err E_Timeout ''manager did not answer in time''"

text \<open>The service with the calls that wait, by account, in any interleaving.\<close>

record bus_service =
  bs_flight :: in_flight
  bs_waiting :: "u32 list"

inductive bus_step :: "bus_service \<Rightarrow> caller result option \<Rightarrow> bus_service \<Rightarrow> bool" where
  bus_queued: "run_begin (Inr c) t (bs_flight s) = (Inr c, m) \<Longrightarrow>
    bus_step s (Some (Inr c)) (s\<lparr>bs_flight := m, bs_waiting := bs_waiting s @ [cal_uid c]\<rparr>)"
| bus_refused: "run_begin who t (bs_flight s) = (Inl e, m) \<Longrightarrow> bus_step s (Some who) (s\<lparr>bs_flight := m\<rparr>)"
| bus_ended: "uid \<in> set (bs_waiting s) \<Longrightarrow>
    bus_step s None (s\<lparr>bs_flight := in_flight_drop uid (bs_flight s), bs_waiting := remove1 uid (bs_waiting s)\<rparr>)"

definition bus_start :: "bus_service \<Rightarrow> bool" where
  "bus_start s \<longleftrightarrow> s = \<lparr>bs_flight = Map.empty, bs_waiting = []\<rparr>"

definition flight_ok :: "bus_service \<Rightarrow> bool" where
  "flight_ok s \<longleftrightarrow> (\<forall>uid. let n = count_list (bs_waiting s) uid in
     n \<le> 8 \<and> bs_flight s uid = (if n = 0 then None else Some (of_nat n)))"

lemma flight_entry:
  assumes "flight_ok s"
  shows "unwrap_or (bs_flight s uid) 0 = of_nat (count_list (bs_waiting s) uid)" "count_list (bs_waiting s) uid \<le> 8"
  using assms by (auto simp: flight_ok_def Let_def)

lemma full_iff: "n \<le> 8 \<Longrightarrow> MAX_CALLS_PER_UID \<le> of_nat n \<longleftrightarrow> n = 8"
  by (auto simp: MAX_CALLS_PER_UID_def word_le_nat_alt unat_of_nat)

lemma take_refused:
  assumes "flight_ok s"
  shows "in_flight_take uid (bs_flight s) = None \<longleftrightarrow> count_list (bs_waiting s) uid = 8"
  using full_iff [OF flight_entry(2) [OF assms]] by (simp add: in_flight_take_def flight_entry(1) [OF assms] Let_def)

lemma take_ok:
  assumes "flight_ok s" "in_flight_take uid (bs_flight s) = Some m"
  shows "flight_ok (s\<lparr>bs_flight := m, bs_waiting := bs_waiting s @ [uid]\<rparr>)"
proof -
  have "count_list (bs_waiting s) uid < 8" using take_refused [OF assms(1), of uid] flight_entry(2) [OF assms(1), of uid] assms(2) by simp
  moreover have "m = (bs_flight s)(uid \<mapsto> of_nat (Suc (count_list (bs_waiting s) uid)))"
    using assms(2) by (auto simp: in_flight_take_def flight_entry(1) [OF assms(1)] Let_def add.commute split: if_splits)
  ultimately show ?thesis using assms(1) by (auto simp: flight_ok_def Let_def)
qed

lemma drop_ok:
  assumes "flight_ok s" "uid \<in> set (bs_waiting s)"
  shows "flight_ok (s\<lparr>bs_flight := in_flight_drop uid (bs_flight s), bs_waiting := remove1 uid (bs_waiting s)\<rparr>)"
proof -
  let ?n = "count_list (bs_waiting s) uid"
  have n: "0 < ?n" "?n \<le> 8" using assms count_list_0_iff [of "bs_waiting s" uid] flight_entry(2) by auto
  then have entry: "bs_flight s uid = Some (of_nat ?n)" using assms(1) by (auto simp: flight_ok_def Let_def)
  obtain k where k: "?n = Suc k" "k < 8" using n by (cases ?n) auto
  have "unat (of_nat k :: u32) = k" using k(2) by (simp add: unat_of_nat)
  then have "(of_nat k :: u32) = 0 \<longleftrightarrow> k = 0" by (cases "k = 0") auto
  then have d: "in_flight_drop uid (bs_flight s) = (bs_flight s)(uid := if k = 0 then None else Some (of_nat k))"
    using entry k(1) by (simp add: in_flight_drop_def)
  have "bs_flight s x = (let n = count_list (bs_waiting s) x in if n = 0 then None else Some (of_nat n))"
    "count_list (bs_waiting s) x \<le> 8" for x using assms(1) by (simp_all add: flight_ok_def Let_def)
  then show ?thesis unfolding flight_ok_def Let_def d using k by (simp add: count_list_remove1)
qed

lemma take_drop_same:
  assumes "flight_ok s" "in_flight_take uid (bs_flight s) = Some m"
  shows "in_flight_drop uid m = bs_flight s"
proof -
  have "flight_ok (s\<lparr>bs_flight := in_flight_drop uid m, bs_waiting := remove1 uid (bs_waiting s @ [uid])\<rparr>)"
    using drop_ok [OF take_ok [OF assms]] by simp
  moreover have "count_list (remove1 uid (bs_waiting s @ [uid])) x = count_list (bs_waiting s) x" for x
    by (simp add: count_list_remove1)
  ultimately have "in_flight_drop uid m x = bs_flight s x" for x using assms(1) by (simp add: flight_ok_def Let_def)
  then show ?thesis by blast
qed

interpretation bus: invariant_system bus_start bus_step flight_ok
proof
  fix s i s'
  assume s: "flight_ok s" "bus_step s i s'"
  from s(2) show "flight_ok s'"
  proof cases
    case (bus_queued c t m)
    then show ?thesis using take_ok [OF s(1)] by (auto simp: run_begin_def split: option.splits send_try.splits)
  next
    case (bus_refused who t e m)
    then have "m = bs_flight s" using take_drop_same [OF s(1)] by (auto simp: run_begin_def split: sum.splits option.splits send_try.splits)
    then show ?thesis using bus_refused s(1) by simp
  qed (use drop_ok [OF s(1)] in auto)
qed (simp add: bus_start_def flight_ok_def)

text \<open>
  C29. No account can crowd the others out. However calls begin and end, an account never has more than
  eight of them waiting for the manager, the counter the service keeps is exact, and a call is refused
  for its account exactly when eight wait, whatever the other accounts do.
\<close>

theorem calls_per_account_capped:
  assumes "reachable_by bus_start bus_step s"
  shows "count_list (bs_waiting s) uid \<le> 8 \<and> unwrap_or (bs_flight s uid) 0 = of_nat (count_list (bs_waiting s) uid)
    \<and> (cal_uid c = uid \<longrightarrow> (fst (run_begin (Inr c) Try_Ok (bs_flight s)) = Inr c \<longleftrightarrow> count_list (bs_waiting s) uid < 8))"
proof -
  have ok: "flight_ok s" by (rule bus.reachable_invariant [OF assms])
  have "cal_uid c = uid \<longrightarrow> (fst (run_begin (Inr c) Try_Ok (bs_flight s)) = Inr c \<longleftrightarrow> count_list (bs_waiting s) uid < 8)"
    using take_refused [OF ok, of uid] flight_entry(2) [OF ok, of uid]
    by (auto simp: run_begin_def split: option.splits)
  with flight_entry [OF ok] show ?thesis by blast
qed

definition demo_bus :: bus_service where
  "demo_bus = \<lparr>bs_flight = Map.empty(1000 \<mapsto> 1), bs_waiting = [1000]\<rparr>"

theorem calls_per_account_capped_witness:
  "count_list (bs_waiting demo_bus) 1000 \<le> 8 \<and> unwrap_or (bs_flight demo_bus 1000) 0 = 1"
proof -
  let ?c = "\<lparr>cal_uid = 1000, cal_pid = 4242, cal_bus_name = '':1.7'', cal_cgroup = None\<rparr>"
  have "bus_step \<lparr>bs_flight = Map.empty, bs_waiting = []\<rparr> (Some (Inr ?c)) demo_bus"
    using bus_queued [of ?c Try_Ok "\<lparr>bs_flight = Map.empty, bs_waiting = []\<rparr>" "Map.empty(1000 \<mapsto> 1)"]
    by (simp add: demo_bus_def run_begin_def in_flight_take_def MAX_CALLS_PER_UID_def)
  then have "reachable_by bus_start bus_step demo_bus"
    by (rule reachable_step [rotated]) (simp add: reachable_init bus_start_def)
  then show ?thesis using calls_per_account_capped [of demo_bus 1000] by (simp add: demo_bus_def)
qed

end
