(* ===== verification/Bus_Client.thy ===== *)
theory Bus_Client
  imports Bus_Service Core_Dbus
begin

text \<open>
  From the manager's reply to the caller and back: the methods of the interface in
  \<^verbatim>\<open>src/bsm/manager/src/runtime/dbus.rs\<close>, which turn a reply into rows, and the methods of \<^verbatim>\<open>client.rs\<close>, which
  read them, decode errors, and wait for the end of an operation.
\<close>

section \<open>Replies on the bus\<close>

datatype bus_reply =
    Br_Users "user_row list"
  | Br_Sessions "session_row list"
  | Br_Selected bool u32
  | Br_Foreground bool string u64
  | Br_Status bus_dict
  | Br_Outputs "output_row list"
  | Br_Transitions "transition_row list"
  | Br_Operation u64
  | Br_Done

text \<open>\<^term>\<open>dbg\<close> is the \<^verbatim>\<open>Debug\<close> text of a reply.\<close>

definition unexpected :: "(reply \<Rightarrow> string) \<Rightarrow> reply \<Rightarrow> bus_reply result" where
  "unexpected dbg r = Err E_Internal (''unexpected reply from manager: '' @ dbg r)"

definition bus_operation :: "(reply \<Rightarrow> string) \<Rightarrow> reply \<Rightarrow> bus_reply result" where
  "bus_operation dbg r = (case r of Rpl_Operation oid \<Rightarrow> Inr (Br_Operation oid) | _ \<Rightarrow> unexpected dbg r)"

definition bus_done :: "(reply \<Rightarrow> string) \<Rightarrow> reply \<Rightarrow> bus_reply result" where
  "bus_done dbg r = (case r of Rpl_Done \<Rightarrow> Inr Br_Done | _ \<Rightarrow> unexpected dbg r)"

fun bus_answer :: "(reply \<Rightarrow> string) \<Rightarrow> dbus_method \<Rightarrow> reply \<Rightarrow> bus_reply result" where
  "bus_answer dbg Mth_GetUsers r = (case r of Rpl_Users v \<Rightarrow> Inr (Br_Users (map user_row v)) | _ \<Rightarrow> unexpected dbg r)"
| "bus_answer dbg Mth_GetSessions r = (case r of Rpl_Sessions v \<Rightarrow> Inr (Br_Sessions (map session_row v)) | _ \<Rightarrow> unexpected dbg r)"
| "bus_answer dbg Mth_GetSelectedUser r =
     (case r of Rpl_Selected u \<Rightarrow> Inr (Br_Selected (u \<noteq> None) (unwrap_or u 0)) | _ \<Rightarrow> unexpected dbg r)"
| "bus_answer dbg Mth_GetForegroundSession r =
     (case r of
        Rpl_Foreground (Some (sid, gn)) \<Rightarrow> Inr (Br_Foreground True sid gn)
      | Rpl_Foreground None \<Rightarrow> Inr (Br_Foreground False [] 0)
      | _ \<Rightarrow> unexpected dbg r)"
| "bus_answer dbg Mth_GetStatus r = (case r of Rpl_Status s \<Rightarrow> Inr (Br_Status (status_dict s)) | _ \<Rightarrow> unexpected dbg r)"
| "bus_answer dbg Mth_GetOutputs r = (case r of Rpl_Outputs v \<Rightarrow> Inr (Br_Outputs (map output_row v)) | _ \<Rightarrow> unexpected dbg r)"
| "bus_answer dbg Mth_GetTransitions r =
     (case r of Rpl_Transitions v \<Rightarrow> Inr (Br_Transitions (map transition_row v)) | _ \<Rightarrow> unexpected dbg r)"
| "bus_answer dbg (Mth_SelectGreeterUser uid) r = bus_done dbg r"
| "bus_answer dbg (Mth_RequestLock s) r = bus_operation dbg r"
| "bus_answer dbg Mth_RequestSwitchUser r = bus_operation dbg r"
| "bus_answer dbg (Mth_RequestLogout s) r = bus_operation dbg r"
| "bus_answer dbg Mth_RequestSuspend r = bus_operation dbg r"
| "bus_answer dbg Mth_RequestReboot r = bus_operation dbg r"
| "bus_answer dbg Mth_RequestPowerOff r = bus_operation dbg r"
| "bus_answer dbg (Mth_CancelOperation oid) r = bus_done dbg r"
| "bus_answer dbg (Mth_PublishAppearance req) r = bus_done dbg r"

section \<open>The client\<close>

text \<open>Collecting a list of results stops at the first error.\<close>

fun collect_results :: "('e + 'a) list \<Rightarrow> 'e + 'a list" where
  "collect_results [] = Inr []"
| "collect_results (r # rs) = or_return r (\<lambda>v. or_return (collect_results rs) (\<lambda>vs. Inr (v # vs)))"

text \<open>The getters of the client; a body of another type does not decode.\<close>

definition client_users :: "bus_reply \<Rightarrow> user_info list client_result" where
  "client_users w = (case w of Br_Users rows \<Rightarrow> collect_results (map user_of_row rows) | _ \<Rightarrow> Inl (malformed ''body''))"

definition client_sessions :: "bus_reply \<Rightarrow> session_info list client_result" where
  "client_sessions w = (case w of Br_Sessions rows \<Rightarrow> collect_results (map session_of_row rows) | _ \<Rightarrow> Inl (malformed ''body''))"

definition client_selected_user :: "bus_reply \<Rightarrow> u32 option client_result" where
  "client_selected_user w = (case w of Br_Selected has uid \<Rightarrow> Inr (if has then Some uid else None) | _ \<Rightarrow> Inl (malformed ''body''))"

definition client_foreground :: "bus_reply \<Rightarrow> (session_id \<times> generation) option client_result" where
  "client_foreground w =
     (case w of Br_Foreground has sid gn \<Rightarrow> Inr (if has then Some (sid, gn) else None) | _ \<Rightarrow> Inl (malformed ''body''))"

definition client_status :: "bus_reply \<Rightarrow> status_info client_result" where
  "client_status w = (case w of Br_Status m \<Rightarrow> status_of_dict m | _ \<Rightarrow> Inl (malformed ''body''))"

definition client_outputs :: "bus_reply \<Rightarrow> output_info list client_result" where
  "client_outputs w = (case w of Br_Outputs rows \<Rightarrow> Inr (map output_of_row rows) | _ \<Rightarrow> Inl (malformed ''body''))"

definition client_transitions :: "bus_reply \<Rightarrow> operation_info list client_result" where
  "client_transitions w = (case w of Br_Transitions rows \<Rightarrow> collect_results (map operation_of_row rows) | _ \<Rightarrow> Inl (malformed ''body''))"

definition client_operation :: "bus_reply \<Rightarrow> operation_id client_result" where
  "client_operation w = (case w of Br_Operation oid \<Rightarrow> Inr oid | _ \<Rightarrow> Inl (malformed ''body''))"

definition client_done :: "bus_reply \<Rightarrow> unit client_result" where
  "client_done w = (case w of Br_Done \<Rightarrow> Inr () | _ \<Rightarrow> Inl (malformed ''body''))"

definition mapped :: "('a \<Rightarrow> reply) \<Rightarrow> 'a client_result \<Rightarrow> reply client_result" where
  "mapped f r = or_return r (\<lambda>v. Inr (f v))"

text \<open>The client's method for a call, its result written as the manager's reply.\<close>

fun client_hears :: "dbus_method \<Rightarrow> bus_reply \<Rightarrow> reply client_result" where
  "client_hears Mth_GetUsers w = mapped Rpl_Users (client_users w)"
| "client_hears Mth_GetSessions w = mapped Rpl_Sessions (client_sessions w)"
| "client_hears Mth_GetSelectedUser w = mapped Rpl_Selected (client_selected_user w)"
| "client_hears Mth_GetForegroundSession w = mapped Rpl_Foreground (client_foreground w)"
| "client_hears Mth_GetStatus w = mapped Rpl_Status (client_status w)"
| "client_hears Mth_GetOutputs w = mapped Rpl_Outputs (client_outputs w)"
| "client_hears Mth_GetTransitions w = mapped Rpl_Transitions (client_transitions w)"
| "client_hears (Mth_SelectGreeterUser _) w = mapped (\<lambda>_. Rpl_Done) (client_done w)"
| "client_hears (Mth_CancelOperation _) w = mapped (\<lambda>_. Rpl_Done) (client_done w)"
| "client_hears (Mth_PublishAppearance _) w = mapped (\<lambda>_. Rpl_Done) (client_done w)"
| "client_hears _ w = mapped Rpl_Operation (client_operation w)"

text \<open>Errors: the service's error type derives its names from the variants of the codes.\<close>

definition session_error_name :: "error_code \<Rightarrow> string" where
  "session_error_name c = ERROR_PREFIX @ ''.'' @ debug_error_code c"

definition client_error_of :: "(zbus_error \<Rightarrow> string) \<Rightarrow> zbus_error \<Rightarrow> client_error" where
  "client_error_of shown e =
     (case e of
        Zb_Method name text \<Rightarrow>
          (let code = code_from_error_name name; msg = unwrap_or text name
           in \<lparr>ce_code = code, ce_message = (if code \<noteq> None then msg else name @ '': '' @ msg)\<rparr>)
      | _ \<Rightarrow> \<lparr>ce_code = None, ce_message = shown e\<rparr>)"

lemma derived_names_match: "session_error_name c = error_name c"
proof -
  have "list_all (\<lambda>c. debug_error_code c = camel (error_code_str c)) ALL_CODES" by code_simp
  then show ?thesis using code.listed [of c] by (auto simp: list_all_iff session_error_name_def error_name_def)
qed

section \<open>What the caller hears\<close>

definition well_named :: "reply \<Rightarrow> bool" where
  "well_named r =
     (case r of
        Rpl_Users us \<Rightarrow> list_all (\<lambda>u. ui_session u \<noteq> Some []) us
      | Rpl_Transitions ops \<Rightarrow> list_all (\<lambda>op. oi_session op \<noteq> Some []) ops
      | Rpl_Status s \<Rightarrow> is_none_or (sti_operation s) (\<lambda>op. oi_session op \<noteq> Some []) \<and> sti_outputs s < 2 ^ 32
      | _ \<Rightarrow> True)"

lemma collect_map: "list_all (\<lambda>x. f x = Inr (g x)) xs \<Longrightarrow> collect_results (map f xs) = Inr (map g xs)"
  by (induction xs) simp_all

lemma collect_back:
  assumes "list_all (\<lambda>x. rd (row x) = Inr x) xs"
  shows "collect_results (map rd (map row xs)) = Inr xs"
  using collect_map [of "rd \<circ> row" "\<lambda>x. x" xs] assms by (simp add: list.map_comp)

lemma client_hears_answer:
  assumes "bus_answer dbg mth r = Inr w" "well_named r"
  shows "client_hears mth w = Inr r"
proof (cases mth)
  case Mth_GetUsers
  then obtain us where us: "r = Rpl_Users us" "w = Br_Users (map user_row us)" using assms(1) by (auto simp: unexpected_def split: reply.splits)
  have "collect_results (map user_of_row (map user_row us)) = Inr us"
    by (rule collect_back) (use assms(2) us rows_round_trip(1) in \<open>auto simp: well_named_def list_all_iff\<close>)
  with us Mth_GetUsers show ?thesis by (simp add: mapped_def client_users_def)
next
  case Mth_GetSessions
  then obtain ss where ss: "r = Rpl_Sessions ss" "w = Br_Sessions (map session_row ss)" using assms(1) by (auto simp: unexpected_def split: reply.splits)
  have "collect_results (map session_of_row (map session_row ss)) = Inr ss"
    by (rule collect_back) (simp add: rows_round_trip(2) list_all_iff)
  with ss Mth_GetSessions show ?thesis by (simp add: mapped_def client_sessions_def)
next
  case Mth_GetTransitions
  then obtain ops where ops: "r = Rpl_Transitions ops" "w = Br_Transitions (map transition_row ops)"
    using assms(1) by (auto simp: unexpected_def split: reply.splits)
  have "collect_results (map operation_of_row (map transition_row ops)) = Inr ops"
    by (rule collect_back) (use assms(2) ops rows_round_trip(4) in \<open>auto simp: well_named_def list_all_iff\<close>)
  with ops Mth_GetTransitions show ?thesis by (simp add: mapped_def client_transitions_def)
next
  case Mth_GetStatus
  then obtain s where s: "r = Rpl_Status s" "w = Br_Status (status_dict s)" using assms(1) by (auto simp: unexpected_def split: reply.splits)
  have "status_of_dict (status_dict s) = Inr s"
    by (rule status_round_trip) (use assms(2) s in \<open>auto simp: well_named_def split: option.splits\<close>)
  with s Mth_GetStatus show ?thesis by (simp add: mapped_def client_status_def)
next
  case Mth_GetOutputs
  then show ?thesis using assms(1)
    by (auto simp: unexpected_def mapped_def client_outputs_def rows_round_trip(3) comp_def split: reply.splits)
qed (use assms(1) in \<open>auto simp: unexpected_def bus_operation_def bus_done_def mapped_def client_selected_user_def client_foreground_def
      client_operation_def client_done_def split: reply.splits option.splits prod.splits if_splits\<close>)

lemma dbus_reply_fits:
  assumes "dbus_call call cal who mth m = (Some (Inr r), m')"
  shows "\<exists>w. bus_answer dbg mth r = Inr w"
proof (cases mth)
  case Mth_GetForegroundSession
  with assms show ?thesis by (auto simp: dbus_call_def split: option.split)
qed (use assms in \<open>auto simp: dbus_call_def bus_operation_def bus_done_def on_own_session_def reply_operation_def reply_done_def
      dbus_power_def dbus_publish_def apfst_def map_prod_def Let_def
      split: if_splits sum.splits principal.splits prod.splits option.splits\<close>)





section \<open>Waiting for the end of an operation\<close>

record finished =
  fin_operation :: operation_id
  fin_success :: bool
  fin_reason :: "error_code option"

text \<open>The messages that arrive before the deadline; the end of the list is the deadline, or the end of the
  connection. Whatever does not decode is passed over.\<close>

fun wait_finished :: "operation_id \<Rightarrow> bus_message list \<Rightarrow> finished option" where
  "wait_finished op [] = None"
| "wait_finished op (msg # msgs) =
     (case decode_signal msg of
        Some (Sig_OperationFinished oid success reason) \<Rightarrow>
          if oid = op then Some \<lparr>fin_operation = oid, fin_success = success, fin_reason = reason\<rparr> else wait_finished op msgs
      | _ \<Rightarrow> wait_finished op msgs)"

definition finished_from_history :: "operation_id \<Rightarrow> operation_info list client_result \<Rightarrow> finished option client_result" where
  "finished_from_history op transitions =
     or_return transitions (\<lambda>ops. Inr (map_option
       (\<lambda>x. \<lparr>fin_operation = op, fin_success = (oi_phase x = Ph_Completed), fin_reason = oi_reason x\<rparr>)
       (List.find (\<lambda>x. oi_id x = op \<and> is_final (oi_phase x)) ops)))"

definition wait_on :: "duration \<Rightarrow> operation_id \<Rightarrow> bus_message list \<Rightarrow> operation_info list client_result \<Rightarrow> finished client_result" where
  "wait_on timeout op msgs transitions =
     (case wait_finished op msgs of
        Some f \<Rightarrow> Inr f
      | None \<Rightarrow>
          (case finished_from_history op transitions of
             Inr (Some f) \<Rightarrow> Inr f
           | _ \<Rightarrow> Inl \<lparr>ce_code = Some E_Timeout,
               ce_message = ''operation '' @ show_nat (unat op) @ '' did not finish within '' @ show_nat (timeout div 1000000) @ '' ms''\<rparr>))"

lemma wait_finished_emitted:
  assumes "list_all (\<lambda>sig. \<forall>success reason. sig \<noteq> Sig_OperationFinished op success reason) before"
    and "list_all (\<lambda>sig. \<forall>s g. sig = Sig_ForegroundChanged s g \<longrightarrow> (s = None \<longleftrightarrow> g = None)) before"
  shows "wait_finished op (map emit_signal (before @ Sig_OperationFinished op success reason # rest))
    = Some \<lparr>fin_operation = op, fin_success = success, fin_reason = reason\<rparr>"
  using assms
proof (induction before)
  case Nil
  show ?case using decode_emitted [of "Sig_OperationFinished op success reason"] by simp
next
  case (Cons sig before)
  then have "decode_signal (emit_signal sig) = Some (public_part sig)" by (intro decode_emitted) simp
  with Cons show ?case by (cases sig) auto
qed

text \<open>
  C31. A caller that waits for an operation learns how it ended: the first announcement of its end, among
  whatever other signals, is what the client returns; and when the announcement was lost, the
  history tells whether it was completed and why not.
\<close>

theorem operation_end_is_heard:
  assumes "list_all (\<lambda>sig. \<forall>success reason. sig \<noteq> Sig_OperationFinished op success reason) before"
    and "list_all (\<lambda>sig. \<forall>s g. sig = Sig_ForegroundChanged s g \<longrightarrow> (s = None \<longleftrightarrow> g = None)) before"
    and "List.find (\<lambda>x. oi_id x = op \<and> is_final (oi_phase x)) ops = Some x"
  shows "wait_on t op (map emit_signal (before @ Sig_OperationFinished op success reason # rest)) transitions
      = Inr \<lparr>fin_operation = op, fin_success = success, fin_reason = reason\<rparr>
    \<and> wait_on t op (map emit_signal before) (Inr ops)
      = Inr \<lparr>fin_operation = op, fin_success = (oi_phase x = Ph_Completed), fin_reason = oi_reason x\<rparr>"
proof -
  have "wait_finished op (map emit_signal before) = None"
    using assms(1,2)
  proof (induction before)
    case (Cons sig before)
    then have "decode_signal (emit_signal sig) = Some (public_part sig)" by (intro decode_emitted) simp
    with Cons show ?case by (cases sig) auto
  qed simp
  then show ?thesis using wait_finished_emitted [OF assms(1,2)] assms(3) by (simp add: wait_on_def finished_from_history_def)
qed

theorem operation_end_is_heard_witness:
  "wait_on 0 4 (map emit_signal [Sig_SessionsChanged 1, Sig_OperationFinished 4 True None]) (Inr [])
     = Inr \<lparr>fin_operation = 4, fin_success = True, fin_reason = None\<rparr>"
proof -
  let ?x = "demo_operation\<lparr>oi_id := 4\<rparr>"
  have "List.find (\<lambda>x. oi_id x = 4 \<and> is_final (oi_phase x)) [?x] = Some ?x" by (simp add: demo_operation_def is_final_def)
  then show ?thesis using operation_end_is_heard [of 4 "[Sig_SessionsChanged 1]" "[?x]" ?x 0 True None "[]" "Inr []"] by simp
qed

end
